(* ===== verification/Prelude.thy ===== *)
theory Prelude
  imports Main "HOL-Library.Word"
begin

text \<open>
  Shared vocabulary of the development: bytes and strings, C++ exceptions as values,
  buffers given by a pointer and a length, and the string primitives of the C++ standard
  library that the plugins use (prefix tests, trimming loops, character classes, decimal
  and hexadecimal output).  Nothing here belongs to one plugin.
\<close>

named_theorems str_simps \<open>rules that compute the string primitives\<close>
named_theorems pr_simps \<open>rules about the table of pending replies\<close>
named_theorems cfg_defs \<open>definitions of the configuration readers\<close>

section \<open>Bytes, strings, machine integers\<close>

type_synonym byte = "8 word"
type_synonym bytes = "8 word list"
type_synonym u16 = "16 word"
type_synonym u32 = "32 word"
type_synonym u64 = "64 word"

text \<open>
  A C++ string is a sequence of bytes, and so is Isabelle's \<^typ>\<open>string\<close>.  The two
  conversions are the ones of \<^verbatim>\<open>std::string(v.begin(), v.end())\<close> and back.
\<close>

definition bytes_to_string :: "bytes \<Rightarrow> string" where
  "bytes_to_string bs = map (\<lambda>b. char_of (unat b)) bs"

definition string_to_bytes :: "string \<Rightarrow> bytes" where
  "string_to_bytes s = map (\<lambda>c. word_of_nat (of_char c)) s"

lemma string_to_bytes_inverse [simp]: "bytes_to_string (string_to_bytes s) = s"
proof -
  have "char_of (unat (word_of_nat (of_char c) :: byte)) = c" for c :: char
    by (simp add: unat_of_nat take_bit_eq_mod)
  then show ?thesis
    by (simp add: bytes_to_string_def string_to_bytes_def comp_def map_idI)
qed

lemma bytes_to_string_inverse [simp]: "string_to_bytes (bytes_to_string bs) = bs"
proof -
  have "word_of_nat (of_char (char_of (unat b))) = b" for b :: byte
  proof -
    have "of_char (char_of (unat b)) = unat b"
      using unsigned_less [where ?'a = nat and w = b] by (simp add: of_char_of)
    then show ?thesis by simp
  qed
  then show ?thesis
    by (simp add: bytes_to_string_def string_to_bytes_def comp_def map_idI)
qed

lemma length_bytes_to_string [simp]: "length (bytes_to_string bs) = length bs"
  by (simp add: bytes_to_string_def)

section \<open>Zero-terminated strings\<close>

text \<open>A string that goes through \<^verbatim>\<open>c_str()\<close> ends at its first zero byte.\<close>

definition c_str :: "string \<Rightarrow> string" where
  "c_str s = takeWhile (\<lambda>c. c \<noteq> CHR 0x00) s"

lemma c_str_id: "CHR 0x00 \<notin> set s \<Longrightarrow> c_str s = s"
  by (auto simp: c_str_def takeWhile_eq_all_conv)

lemma c_str_idem [simp]: "c_str (c_str s) = c_str s"
  by (auto simp: c_str_def takeWhile_eq_all_conv dest: set_takeWhileD)

lemma c_str_Nil [simp]: "c_str [] = []"
  by (simp add: c_str_def)

lemma c_str_Cons: "c_str (c # s) = (if c = CHR 0x00 then [] else c # c_str s)"
  by (simp add: c_str_def)

lemma c_str_no_zero: "CHR 0x00 \<notin> set (c_str s)"
  by (auto simp: c_str_def dest: set_takeWhileD)

lemma c_str_bytes: "string_to_bytes (c_str (bytes_to_string bs)) = takeWhile (\<lambda>b. b \<noteq> 0) bs"
proof -
  have "char_of (unat b) = CHR 0x00 \<longleftrightarrow> b = 0" for b :: byte
  proof
    assume "char_of (unat b) = CHR 0x00"
    then have "of_char (char_of (unat b)) = (0 :: nat)" by simp
    then show "b = 0"
      using unsigned_less [where ?'a = nat and w = b] by (simp add: of_char_of unat_eq_0)
  qed (simp add: char_of_def)
  then have "c_str (bytes_to_string bs) = bytes_to_string (takeWhile (\<lambda>b. b \<noteq> 0) bs)"
    by (simp add: c_str_def bytes_to_string_def takeWhile_map o_def)
  then show ?thesis by simp
qed

section \<open>Exceptions as values\<close>

text \<open>
  The exceptions the code throws or meets: \<^verbatim>\<open>std::runtime_error\<close>,
  \<^verbatim>\<open>std::invalid_argument\<close>, \<^verbatim>\<open>std::bad_alloc\<close>, the plugin's own
  \<^verbatim>\<open>PubSubHttpError\<close> (a runtime error with a status), an exception of a library
  with the text its \<^verbatim>\<open>what()\<close> returns, and a thrown value that is not a
  \<^verbatim>\<open>std::exception\<close>, which only a \<^verbatim>\<open>catch (...)\<close> handles.
\<close>

datatype exn =
    RuntimeError string
  | InvalidArgument string
  | BadAlloc
  | HttpError int string
  | LibError string
  | NonStd

type_synonym 'a result = "exn + 'a"

fun is_std :: "exn \<Rightarrow> bool" where
  "is_std NonStd = False"
| "is_std _ = True"

text \<open>
  \<^verbatim>\<open>e.what()\<close> is a \<^verbatim>\<open>const char*\<close>: who makes a string of it gets the text
  up to its first zero byte.
\<close>

fun what :: "exn \<Rightarrow> string" where
  "what (RuntimeError m) = c_str m"
| "what (InvalidArgument m) = c_str m"
| "what BadAlloc = ''std::bad_alloc''"
| "what (HttpError _ m) = c_str m"
| "what (LibError m) = c_str m"
| "what NonStd = ''''"

definition rbind :: "'a result \<Rightarrow> ('a \<Rightarrow> 'b result) \<Rightarrow> 'b result" where
  "rbind m f = (case m of Inl e \<Rightarrow> Inl e | Inr x \<Rightarrow> f x)"

lemma rbind_simps [simp]:
  "rbind (Inl e) f = Inl e"
  "rbind (Inr x) f = f x"
  by (simp_all add: rbind_def)

text \<open>A guard that throws, in front of the rest of a function.\<close>

lemma guard_Inr_iff: "(if P then Inl e else m) = Inr y \<longleftrightarrow> \<not> P \<and> m = Inr y"
  by simp

lemma rbind_Inr_iff: "rbind m f = Inr y \<longleftrightarrow> (\<exists>x. m = Inr x \<and> f x = Inr y)"
  by (cases m) simp_all

lemma rbind_Inr_E:
  assumes "rbind m f = Inr y"
  obtains x where "m = Inr x" and "f x = Inr y"
  using assms by (auto simp: rbind_Inr_iff)

section \<open>Buffers: a pointer and a length\<close>

text \<open>
  A C buffer argument: a null pointer with the length the caller states, or a pointer to
  bytes whose number is the stated length.
\<close>

datatype buf = Null nat | Buf bytes

fun buf_size :: "buf \<Rightarrow> nat" where
  "buf_size (Null n) = n"
| "buf_size (Buf bs) = length bs"

fun buf_is_null :: "buf \<Rightarrow> bool" where
  "buf_is_null (Null n) = True"
| "buf_is_null (Buf bs) = False"

fun buf_bytes :: "buf \<Rightarrow> bytes" where
  "buf_bytes (Null n) = []"
| "buf_bytes (Buf bs) = bs"

section \<open>String primitives of the standard library\<close>

text \<open>A single-quoted name inside a message.\<close>

definition quoted :: "string \<Rightarrow> string" where
  "quoted s = CHR 0x27 # s @ [CHR 0x27]"

text \<open>\<^verbatim>\<open>s.rfind(p, 0) == 0\<close>\<close>

definition starts_with :: "string \<Rightarrow> string \<Rightarrow> bool" where
  "starts_with p s \<longleftrightarrow> take (length p) s = p"

text \<open>\<^verbatim>\<open>s.find(p) != npos\<close>\<close>

fun contains_sub :: "string \<Rightarrow> string \<Rightarrow> bool" where
  "contains_sub p [] = (p = [])"
| "contains_sub p (c # s) = (starts_with p (c # s) \<or> contains_sub p s)"

text \<open>\<^verbatim>\<open>while (!s.empty() && P(s.back())) s.pop_back();\<close>\<close>

definition strip_back :: "(char \<Rightarrow> bool) \<Rightarrow> string \<Rightarrow> string" where
  "strip_back P s = rev (dropWhile P (rev s))"

text \<open>The same loop at the front, with \<^verbatim>\<open>erase(0, begin)\<close> at its end.\<close>

definition strip_front :: "(char \<Rightarrow> bool) \<Rightarrow> string \<Rightarrow> string" where
  "strip_front P s = dropWhile P s"

text \<open>
  Character classes of the C locale, as \<^verbatim>\<open>std::isalnum\<close>, \<^verbatim>\<open>std::isalpha\<close>
  and \<^verbatim>\<open>std::isspace\<close> decide them on an unsigned char.
\<close>

definition code_in :: "nat \<Rightarrow> nat \<Rightarrow> char \<Rightarrow> bool" where
  "code_in lo hi c \<longleftrightarrow> lo \<le> of_char c \<and> of_char c \<le> hi"

definition is_digit :: "char \<Rightarrow> bool" where
  "is_digit c \<longleftrightarrow> code_in 48 57 c"

definition is_upper :: "char \<Rightarrow> bool" where
  "is_upper c \<longleftrightarrow> code_in 65 90 c"

definition is_lower :: "char \<Rightarrow> bool" where
  "is_lower c \<longleftrightarrow> code_in 97 122 c"

definition is_alpha :: "char \<Rightarrow> bool" where
  "is_alpha c \<longleftrightarrow> is_upper c \<or> is_lower c"

definition is_alnum :: "char \<Rightarrow> bool" where
  "is_alnum c \<longleftrightarrow> is_alpha c \<or> is_digit c"

definition is_space :: "char \<Rightarrow> bool" where
  "is_space c \<longleftrightarrow> of_char c = (32 :: nat) \<or> code_in 9 13 c"

lemmas char_class_defs =
  code_in_def is_digit_def is_upper_def is_lower_def is_alpha_def is_alnum_def is_space_def

subsection \<open>Facts about the primitives\<close>

lemma starts_with_append [simp]: "starts_with p (p @ s)"
  by (simp add: starts_with_def)

lemma starts_with_Nil [simp]: "starts_with [] s"
  by (simp add: starts_with_def)

lemma starts_withE:
  assumes "starts_with p s"
  obtains t where "s = p @ t"
  using assms by (metis append_take_drop_id starts_with_def)

lemma starts_with_iff: "starts_with p s \<longleftrightarrow> (\<exists>t. s = p @ t)"
  by (auto elim: starts_withE)

lemma starts_with_Cons [simp]:
  "starts_with (a # p) (b # s) \<longleftrightarrow> a = b \<and> starts_with p s"
  "\<not> starts_with (a # p) []"
  by (auto simp: starts_with_def)

lemma contains_char_iff: "contains_sub [c] s \<longleftrightarrow> c \<in> set s"
  by (induction s) auto

lemma contains_sub_iff: "contains_sub p s \<longleftrightarrow> (\<exists>u v. s = u @ p @ v)"
proof (induction s)
  case Nil
  then show ?case by simp
next
  case (Cons c s)
  show ?case
  proof
    assume "contains_sub p (c # s)"
    then consider "starts_with p (c # s)" | "contains_sub p s" by auto
    then show "\<exists>u v. c # s = u @ p @ v"
    proof cases
      case 1
      then obtain v where "c # s = [] @ p @ v" by (auto simp: starts_with_iff)
      then show ?thesis by blast
    next
      case 2
      with Cons.IH obtain u v where "s = u @ p @ v" by blast
      then have "c # s = (c # u) @ p @ v" by simp
      then show ?thesis by blast
    qed
  next
    assume "\<exists>u v. c # s = u @ p @ v"
    then obtain u v where eq: "c # s = u @ p @ v" by blast
    show "contains_sub p (c # s)"
    proof (cases u)
      case Nil
      with eq have "starts_with p (c # s)" by simp
      then show ?thesis by simp
    next
      case (Cons d u')
      with eq have "s = u' @ p @ v" by simp
      with Cons.IH have "contains_sub p s" by blast
      then show ?thesis by simp
    qed
  qed
qed

text \<open>
  The trimming loop returns the longest prefix that does not end in a \<open>P\<close> character: it
  is a prefix, its last character is not a \<open>P\<close> one, and only \<open>P\<close> characters went.
\<close>

lemma strip_back_Nil [simp]: "strip_back P [] = []"
  by (simp add: strip_back_def)

lemma strip_back_last: "strip_back P s \<noteq> [] \<Longrightarrow> \<not> P (last (strip_back P s))"
  by (simp add: strip_back_def last_rev hd_dropWhile)

lemma strip_back_split: "s = strip_back P s @ rev (takeWhile P (rev s))"
proof -
  have "rev (takeWhile P (rev s) @ dropWhile P (rev s)) = s" by simp
  then show ?thesis unfolding strip_back_def by (simp only: rev_append)
qed

lemma strip_back_set: "set (strip_back P s) \<subseteq> set s"
  using strip_back_split [of s P] by (metis set_append sup_ge1)

lemma strip_back_length: "length (strip_back P s) \<le> length s"
  using length_dropWhile_le [of P "rev s"] by (simp add: strip_back_def)

lemma strip_back_id: "s = [] \<or> \<not> P (last s) \<Longrightarrow> strip_back P s = s"
  by (cases s rule: rev_cases) (auto simp: strip_back_def)

lemma strip_back_snoc:
  "strip_back P (s @ [c]) = (if P c then strip_back P s else s @ [c])"
  by (simp add: strip_back_def)

lemma strip_back_idem [simp]: "strip_back P (strip_back P s) = strip_back P s"
  using strip_back_id strip_back_last by metis

lemma strip_back_empty_iff: "strip_back P s = [] \<longleftrightarrow> (\<forall>c \<in> set s. P c)"
  by (auto simp: strip_back_def)

lemma strip_back_append_all:
  "(\<forall>c \<in> set t. P c) \<Longrightarrow> strip_back P (s @ t) = strip_back P s"
  by (induction t rule: rev_induct) (auto simp: strip_back_snoc simp flip: append_assoc)

section \<open>Decimal and hexadecimal output\<close>

text \<open>\<^verbatim>\<open>std::to_string\<close> of an unsigned number.\<close>

fun dec_digits :: "nat \<Rightarrow> string" where
  "dec_digits n =
     (if n < 10 then [char_of (48 + n)] else dec_digits (n div 10) @ [char_of (48 + n mod 10)])"

declare dec_digits.simps [simp del]

text \<open>\<^verbatim>\<open>std::to_string\<close> of a signed number.\<close>

definition to_string :: "int \<Rightarrow> string" where
  "to_string i = (if i < 0 then CHR ''-'' # dec_digits (nat (- i)) else dec_digits (nat i))"

definition hex_digit :: "nat \<Rightarrow> char" where
  "hex_digit n = (if n < 10 then char_of (48 + n) else char_of (87 + n))"

fun hex_digits :: "nat \<Rightarrow> string" where
  "hex_digits n =
     (if n < 16 then [hex_digit n] else hex_digits (n div 16) @ [hex_digit (n mod 16)])"

declare hex_digits.simps [simp del]

text \<open>\<^verbatim>\<open>std::hex << std::setfill('0') << std::setw(w) << n\<close>: padded, never cut.\<close>

definition hex_setw :: "nat \<Rightarrow> nat \<Rightarrow> string" where
  "hex_setw w n = (let d = hex_digits n in replicate (w - length d) (CHR ''0'') @ d)"

text \<open>
  A number below \<open>16 ^ w\<close> has at most \<open>w\<close> digits, so \<^verbatim>\<open>setw\<close> gives exactly
  \<open>w\<close> characters.
\<close>

lemma length_hex_digits: "0 < w \<Longrightarrow> n < 16 ^ w \<Longrightarrow> length (hex_digits n) \<le> w"
proof (induction n arbitrary: w rule: hex_digits.induct)
  case (1 n)
  show ?case
  proof (cases "n < 16")
    case True
    with "1.prems" show ?thesis by (subst hex_digits.simps) simp
  next
    case False
    obtain v where w: "w = Suc v"
      using "1.prems" by (cases w) auto
    with "1.prems" False have "0 < v" by (cases v) auto
    with "1.prems" have "n div 16 < 16 ^ v" 
      using w by (simp add: div_less_iff_less_mult mult.commute)
    with "1.IH" False \<open>0 < v\<close> have "length (hex_digits (n div 16)) \<le> v" by blast
    with False w show ?thesis by (subst hex_digits.simps) simp
  qed
qed

lemma length_hex_setw: "0 < w \<Longrightarrow> n < 16 ^ w \<Longrightarrow> length (hex_setw w n) = w"
  using length_hex_digits [of w n] by (simp add: hex_setw_def Let_def)

definition is_hex_lower :: "char \<Rightarrow> bool" where
  "is_hex_lower c \<longleftrightarrow> is_digit c \<or> code_in 97 102 c"

lemma hex_digit_class: "n < 16 \<Longrightarrow> is_hex_lower (hex_digit n)"
  by (auto simp: hex_digit_def is_hex_lower_def is_digit_def code_in_def of_char_of)

lemma hex_digits_class: "list_all is_hex_lower (hex_digits n)"
proof (induction n rule: hex_digits.induct)
  case (1 n)
  then show ?case by (subst hex_digits.simps) (simp add: hex_digit_class)
qed

lemma hex_setw_class: "list_all is_hex_lower (hex_setw w n)"
  using hex_digits_class [of n]
  by (auto simp: hex_setw_def Let_def is_hex_lower_def is_digit_def code_in_def list_all_iff)

section \<open>First success over a list\<close>

text \<open>The loop \<^verbatim>\<open>for (x : xs) if (auto r = f(x)) return r;\<close>.\<close>

fun first_some :: "('a \<Rightarrow> 'b option) \<Rightarrow> 'a list \<Rightarrow> 'b option" where
  "first_some f [] = None"
| "first_some f (x # xs) = (case f x of Some y \<Rightarrow> Some y | None \<Rightarrow> first_some f xs)"

lemma first_some_cong [fundef_cong]:
  "xs = ys \<Longrightarrow> (\<And>x. x \<in> set ys \<Longrightarrow> f x = g x) \<Longrightarrow> first_some f xs = first_some g ys"
  by (induction xs arbitrary: ys) (auto split: option.splits)

lemma first_some_append:
  "first_some f (xs @ ys) =
     (case first_some f xs of Some y \<Rightarrow> Some y | None \<Rightarrow> first_some f ys)"
  by (induction xs) (auto split: option.splits)

lemma first_some_concat:
  "first_some f (concat xss) = first_some (first_some f) xss"
  by (induction xss) (auto simp: first_some_append split: option.splits)

lemma first_some_map: "first_some f (map g xs) = first_some (f \<circ> g) xs"
  by (induction xs) (auto split: option.splits)

lemma first_some_None_iff: "first_some f xs = None \<longleftrightarrow> (\<forall>x \<in> set xs. f x = None)"
  by (induction xs) (auto split: option.splits)

lemma first_some_SomeD: "first_some f xs = Some y \<Longrightarrow> \<exists>x \<in> set xs. f x = Some y"
  by (induction xs) (auto split: option.splits)

lemma hex_setw_no_zero: "CHR 0x00 \<notin> set (hex_setw w n)"
  using hex_setw_class [of w n] by (auto simp: is_hex_lower_def list_all_iff char_class_defs)

section \<open>Reading hexadecimal back\<close>

definition hex_value :: "char \<Rightarrow> nat" where
  "hex_value c = (if of_char c < (58 :: nat) then of_char c - 48 else of_char c - 87)"

definition hex_number :: "string \<Rightarrow> nat" where
  "hex_number s = foldl (\<lambda>a c. 16 * a + hex_value c) 0 s"

lemma hex_value_digit [simp]: "n < 16 \<Longrightarrow> hex_value (hex_digit n) = n"
  by (auto simp: hex_value_def hex_digit_def of_char_of)

lemma hex_number_digits: "hex_number (hex_digits n) = n"
proof (induction n rule: hex_digits.induct)
  case (1 n)
  then show ?case
    by (cases "n < 16") (subst hex_digits.simps, simp add: hex_number_def)+
qed

lemma hex_number_setw: "hex_number (hex_setw w n) = n"
proof -
  have "foldl (\<lambda>a c. 16 * a + hex_value c) 0 (replicate k (CHR ''0'')) = 0" for k
    by (induction k) (simp_all add: hex_value_def)
  then show ?thesis
    using hex_number_digits [of n] by (simp add: hex_number_def hex_setw_def Let_def)
qed

lemma hex_setw_inj: "hex_setw w n = hex_setw w m \<longleftrightarrow> n = m"
  using hex_number_setw by metis

section \<open>Decimal output read back\<close>

definition dec_number :: "string \<Rightarrow> nat" where
  "dec_number s = foldl (\<lambda>a c. 10 * a + (of_char c - 48)) 0 s"

lemma dec_number_digits: "dec_number (dec_digits n) = n"
proof (induction n rule: dec_digits.induct)
  case (1 n)
  show ?case
  proof (cases "n < 10")
    case True
    then show ?thesis by (subst dec_digits.simps) (simp add: dec_number_def of_char_of)
  next
    case False
    have "of_char (char_of (48 + n mod 10) :: char) = 48 + n mod 10"
      by (simp add: of_char_of)
    with 1 False show ?thesis by (subst dec_digits.simps) (simp add: dec_number_def)
  qed
qed

lemma dec_digits_inj: "dec_digits n = dec_digits m \<longleftrightarrow> n = m"
  using dec_number_digits by metis

lemma dec_digits_class: "c \<in> set (dec_digits n) \<Longrightarrow> is_digit c"
proof (induction n rule: dec_digits.induct)
  case (1 n)
  then show ?case
    by (subst (asm) (2) dec_digits.simps)
      (auto simp: is_digit_def code_in_def of_char_of split: if_splits)
qed

end
