(* ===== verification/ReplyTable.thy ===== *)
theory ReplyTable
  imports Prelude
begin

text \<open>
  What a table of pending replies promises, without slots, addresses or flags: a map from
  correlation ids to outcomes, in which the first settlement of an id is final.  The
  locale \<open>reply_table\<close> is the interface the plugin clients rely on; its lemmas are
  proved once here and reach the model of the code through the interpretation in
  \<^verbatim>\<open>PendingReplies.thy\<close>.
\<close>

section \<open>Outcomes and the abstract table\<close>

datatype outcome = Waiting | Done bytes | Failed string

type_synonym reply_map = "(string \<Rightarrow> outcome option) \<times> string option"

text \<open>The first settlement wins: a settled outcome never changes.\<close>

fun settle :: "outcome \<Rightarrow> outcome \<Rightarrow> outcome" where
  "settle Waiting r = r"
| "settle (Done pl) r = Done pl"
| "settle (Failed e) r = Failed e"

lemma settle_settled [simp]: "o1 \<noteq> Waiting \<Longrightarrow> settle o1 r = o1"
  by (cases o1) auto

text \<open>What other threads may do to the table between two steps of a caller.\<close>

datatype pr_event =
    ERegister string
  | EComplete string bytes
  | EFail string string
  | EFailAll string
  | EClose string
  | ERemove string
  | EWait string

definition settle_at :: "string \<Rightarrow> outcome \<Rightarrow> (string \<Rightarrow> outcome option) \<Rightarrow> (string \<Rightarrow> outcome option)"
where
  "settle_at i r m = m(i := map_option (\<lambda>x. settle x r) (m i))"

definition settle_all :: "outcome \<Rightarrow> (string \<Rightarrow> outcome option) \<Rightarrow> (string \<Rightarrow> outcome option)" where
  "settle_all r m = (\<lambda>i. map_option (\<lambda>x. settle x r) (m i))"

fun map_apply :: "pr_event \<Rightarrow> reply_map \<Rightarrow> reply_map" where
  "map_apply (ERegister i) (m, c) =
     (if c \<noteq> None \<or> m i \<noteq> None then (m, c) else (m(i \<mapsto> Waiting), c))"
| "map_apply (EComplete i pl) (m, c) = (settle_at i (Done pl) m, c)"
| "map_apply (EFail i e) (m, c) = (settle_at i (Failed e) m, c)"
| "map_apply (EFailAll e) (m, c) = (settle_all (Failed e) m, c)"
| "map_apply (EClose e) (m, c) = (settle_all (Failed e) m, Some e)"
| "map_apply (ERemove i) (m, c) = (m(i := None), c)"
| "map_apply (EWait i) (m, c) =
     ((case m i of Some (Done pl) \<Rightarrow> m(i \<mapsto> Done []) | _ \<Rightarrow> m), c)"

text \<open>The first event of a sequence that settles an id, read off the sequence alone.\<close>

fun first_settle :: "string \<Rightarrow> pr_event list \<Rightarrow> outcome" where
  "first_settle i [] = Waiting"
| "first_settle i (EComplete j pl # es) = (if j = i then Done pl else first_settle i es)"
| "first_settle i (EFail j e # es) = (if j = i then Failed e else first_settle i es)"
| "first_settle i (EFailAll e # es) = Failed e"
| "first_settle i (EClose e # es) = Failed e"
| "first_settle i (_ # es) = first_settle i es"

text \<open>Events that leave the entry of \<open>i\<close> to its owner: nobody removes it or takes its reply.\<close>

definition leaves :: "string \<Rightarrow> pr_event list \<Rightarrow> bool" where
  "leaves i es \<longleftrightarrow> ERemove i \<notin> set es \<and> EWait i \<notin> set es"

lemma leaves_simps [simp]:
  "leaves i []"
  "leaves i (e # es) \<longleftrightarrow> e \<noteq> ERemove i \<and> e \<noteq> EWait i \<and> leaves i es"
  "leaves i (es @ es') \<longleftrightarrow> leaves i es \<and> leaves i es'"
  by (auto simp: leaves_def)

lemma map_apply_settled:
  assumes "m i = Some r" "r \<noteq> Waiting" "leaves i [e]"
  shows "fst (map_apply e (m, c)) i = Some r"
  using assms by (cases e) (auto simp: settle_at_def settle_all_def split: option.split outcome.split)

lemma map_run_settled:
  assumes "fst mc i = Some r" "r \<noteq> Waiting" "leaves i es"
  shows "fst (fold map_apply es mc) i = Some r"
  using assms
proof (induction es arbitrary: mc)
  case Nil
  then show ?case by simp
next
  case (Cons e es)
  obtain m c where mc: "mc = (m, c)" by (cases mc)
  from Cons.prems mc have "fst (map_apply e mc) i = Some r"
    by (auto intro: map_apply_settled)
  with Cons show ?case by simp
qed

lemma map_run_waiting:
  assumes "fst mc i = Some Waiting" "leaves i es"
  shows "fst (fold map_apply es mc) i = Some (first_settle i es)"
  using assms
proof (induction i es arbitrary: mc rule: first_settle.induct)
  case (1 i)
  then show ?case by simp
qed (auto simp: settle_at_def settle_all_def map_run_settled split: option.split outcome.split)

text \<open>A reply comes from a completion of that id; a settled id was settled by an event.\<close>

lemma first_settle_Done: "first_settle i es = Done pl \<Longrightarrow> EComplete i pl \<in> set es"
  by (induction i es rule: first_settle.induct) (auto split: if_splits)

lemma first_settle_Failed:
  "first_settle i es = Failed e \<Longrightarrow> {EFail i e, EFailAll e, EClose e} \<inter> set es \<noteq> {}"
  by (induction i es rule: first_settle.induct) (auto split: if_splits)

lemma first_settle_Waiting_iff:
  "first_settle i es = Waiting \<longleftrightarrow>
     (\<forall>pl e. EComplete i pl \<notin> set es \<and> EFail i e \<notin> set es \<and> EFailAll e \<notin> set es \<and> EClose e \<notin> set es)"
  by (induction i es rule: first_settle.induct) auto

lemma first_settle_append:
  "first_settle i (es @ fs) = settle (first_settle i es) (first_settle i fs)"
  by (induction i es rule: first_settle.induct) auto

section \<open>The interface of a table\<close>

locale reply_table =
  fixes invar :: "'s \<Rightarrow> bool"
    and view :: "'s \<Rightarrow> reply_map"
    and apply_ev :: "pr_event \<Rightarrow> 's \<Rightarrow> 's"
  assumes invar_apply: "invar s \<Longrightarrow> invar (apply_ev e s)"
    and view_apply: "invar s \<Longrightarrow> view (apply_ev e s) = map_apply e (view s)"
begin

lemma invar_run: "invar s \<Longrightarrow> invar (fold apply_ev es s)"
  by (induction es arbitrary: s) (auto intro: invar_apply)

lemma view_run: "invar s \<Longrightarrow> view (fold apply_ev es s) = fold map_apply es (view s)"
  by (induction es arbitrary: s) (simp_all add: view_apply invar_apply)

text \<open>
  The law the callers use: an entry that waits when a run of foreign events begins holds,
  after the run, exactly what the first settling event of the run says.
\<close>

lemma run_outcome:
  assumes "invar s" "fst (view s) i = Some Waiting" "leaves i es"
  shows "fst (view (fold apply_ev es s)) i = Some (first_settle i es)"
  using assms by (simp add: view_run map_run_waiting)

end

end
