(* ===== verification/PendingReplies.thy ===== *)
theory PendingReplies
  imports ReplyTable
begin

text \<open>
  The table of pending replies (\<^verbatim>\<open>PendingReplies.h\<close>, the same file in all five
  plugins).  A caller registers a correlation id and gets a ticket, the consumer thread
  completes or fails entries by id, the ticket's destructor removes the entry.

  Every public operation holds \<^verbatim>\<open>mutex_\<close>, so it is one atomic step here.  The slots
  are shared between the map and the tickets (\<^verbatim>\<open>shared_ptr<Slot>\<close>), so they live in
  a store \<open>slot_heap\<close> and both sides hold addresses.  The calls of \<^verbatim>\<open>notify_all\<close>
  are recorded in \<open>notified\<close>, so that lost wake-ups can be excluded.
\<close>

section \<open>State\<close>

record slot =
  slot_done :: bool
  slot_failed :: bool
  slot_payload :: bytes
  slot_error :: string

definition new_slot :: slot where
  "new_slot = \<lparr>slot_done = False, slot_failed = False, slot_payload = [], slot_error = []\<rparr>"

datatype cv = Ready nat | PendingChanged

record pending =
  slots :: "(string \<times> nat) list"
  slot_heap :: "slot list"
  closed :: bool
  closedError :: string
  notified :: "cv list"

definition new_pending :: pending where
  "new_pending = \<lparr>slots = [], slot_heap = [], closed = False, closedError = [], notified = []\<rparr>"

record ticket =
  tk_owned :: bool
  tk_id :: string
  tk_slot :: nat

section \<open>Operations\<close>

definition mark :: "bool \<Rightarrow> bytes \<Rightarrow> string \<Rightarrow> slot \<Rightarrow> slot" where
  "mark f pl e s =
     (if slot_done s then s
      else s\<lparr>slot_done := True, slot_failed := f, slot_payload := pl, slot_error := e\<rparr>)"

definition MarkDone :: "nat \<Rightarrow> bool \<Rightarrow> bytes \<Rightarrow> string \<Rightarrow> pending \<Rightarrow> pending" where
  "MarkDone a f pl e p =
     (if slot_done (slot_heap p ! a) then p
      else p\<lparr>slot_heap := (slot_heap p)[a := mark f pl e (slot_heap p ! a)],
             notified := notified p @ [Ready a]\<rparr>)"

definition Register :: "string \<Rightarrow> pending \<Rightarrow> (ticket \<times> pending) result" where
  "Register cid p =
     (if closed p then Inl (RuntimeError (closedError p))
      else if map_of (slots p) cid \<noteq> None
        then Inl (RuntimeError (''duplicate correlation id '' @ cid))
      else Inr (\<lparr>tk_owned = True, tk_id = cid, tk_slot = length (slot_heap p)\<rparr>,
        p\<lparr>slots := (cid, length (slot_heap p)) # slots p,
          slot_heap := slot_heap p @ [new_slot],
          notified := notified p @ [PendingChanged]\<rparr>))"

definition Finish :: "string \<Rightarrow> bool \<Rightarrow> bytes \<Rightarrow> string \<Rightarrow> pending \<Rightarrow> bool \<times> pending" where
  "Finish cid f pl e p =
     (case map_of (slots p) cid of
        None \<Rightarrow> (False, p)
      | Some a \<Rightarrow> (True, MarkDone a f pl e p))"

definition Complete :: "string \<Rightarrow> bytes \<Rightarrow> pending \<Rightarrow> bool \<times> pending" where
  "Complete cid pl p = Finish cid False pl [] p"

definition Fail :: "string \<Rightarrow> string \<Rightarrow> pending \<Rightarrow> bool \<times> pending" where
  "Fail cid e p = Finish cid True [] e p"

definition FailAll :: "string \<Rightarrow> pending \<Rightarrow> pending" where
  "FailAll e p = fold (\<lambda>(cid, a). MarkDone a True [] e) (slots p) p"

definition Close :: "string \<Rightarrow> pending \<Rightarrow> pending" where
  "Close e p =
     (let p1 = p\<lparr>closed := True, closedError := e\<rparr>;
          p2 = fold (\<lambda>(cid, a). MarkDone a True [] e) (slots p1) p1
      in p2\<lparr>notified := notified p2 @ [PendingChanged]\<rparr>)"

definition Empty :: "pending \<Rightarrow> bool" where
  "Empty p \<longleftrightarrow> slots p = []"

text \<open>
  \<^verbatim>\<open>WaitForPending\<close> and \<^verbatim>\<open>Wait\<close> block on a condition variable.  They are
  modelled at the moment the wait ends, by predicate or by timeout, when the thread holds
  the mutex again: the result depends on the predicate at that moment only.
\<close>

definition pending_pred :: "pending \<Rightarrow> bool" where
  "pending_pred p \<longleftrightarrow> closed p \<or> slots p \<noteq> []"

definition WaitForPending :: "pending \<Rightarrow> bool" where
  "WaitForPending p \<longleftrightarrow> \<not> closed p \<and> slots p \<noteq> []"

text \<open>
  \<open>Inr None\<close> is the return value false (timeout), \<open>Inr (Some r)\<close> the return value true
  with the response \<open>r\<close>; the payload is moved out of the slot.
\<close>

definition Wait :: "ticket \<Rightarrow> pending \<Rightarrow> bytes option result \<times> pending" where
  "Wait t p =
     (let s = slot_heap p ! tk_slot t in
      if \<not> slot_done s then (Inr None, p)
      else if slot_failed s then (Inl (RuntimeError (slot_error s)), p)
      else (Inr (Some (slot_payload s)),
            p\<lparr>slot_heap := (slot_heap p)[tk_slot t := s\<lparr>slot_payload := []\<rparr>]\<rparr>))"

definition Remove :: "string \<Rightarrow> pending \<Rightarrow> pending" where
  "Remove cid p = p\<lparr>slots := filter (\<lambda>(i, a). i \<noteq> cid) (slots p)\<rparr>"

text \<open>The destructor of a ticket, and the move constructor: (the new ticket, what is left).\<close>

definition ticket_destroy :: "ticket \<Rightarrow> pending \<Rightarrow> pending" where
  "ticket_destroy t p = (if tk_owned t then Remove (tk_id t) p else p)"

definition ticket_move :: "ticket \<Rightarrow> ticket \<times> ticket" where
  "ticket_move t = (t, \<lparr>tk_owned = False, tk_id = [], tk_slot = tk_slot t\<rparr>)"

lemmas pr_op_defs =
  Register_def Finish_def Complete_def Fail_def FailAll_def Close_def Wait_def Remove_def
  ticket_destroy_def

section \<open>Well-formed tables\<close>

definition pending_wf :: "pending \<Rightarrow> bool" where
  "pending_wf p \<longleftrightarrow>
     distinct (map fst (slots p)) \<and> distinct (map snd (slots p)) \<and>
     (\<forall>a \<in> snd ` set (slots p). a < length (slot_heap p))"

lemma MarkDone_fields [pr_simps]:
  "slots (MarkDone a f pl e p) = slots p"
  "closed (MarkDone a f pl e p) = closed p"
  "closedError (MarkDone a f pl e p) = closedError p"
  "slot_heap (MarkDone a f pl e p) = (slot_heap p)[a := mark f pl e (slot_heap p ! a)]"
  by (simp_all add: MarkDone_def mark_def)

lemma mark_mark [pr_simps]: "mark f pl e (mark g ql d s) = mark g ql d s"
  by (simp add: mark_def)

lemma fold_MarkDone_fields [pr_simps]:
  fixes xs :: "(string \<times> nat) list"
  shows "slots (fold (\<lambda>(cid, a). MarkDone a f pl e) xs p) = slots p"
    and "closed (fold (\<lambda>(cid, a). MarkDone a f pl e) xs p) = closed p"
    and "closedError (fold (\<lambda>(cid, a). MarkDone a f pl e) xs p) = closedError p"
    and "length (slot_heap (fold (\<lambda>(cid, a). MarkDone a f pl e) xs p)) = length (slot_heap p)"
  by (induction xs arbitrary: p) (auto simp: pr_simps)

lemma fold_MarkDone_nth [pr_simps]:
  fixes xs :: "(string \<times> nat) list"
  assumes "b < length (slot_heap p)"
  shows "slot_heap (fold (\<lambda>(cid, a). MarkDone a f pl e) xs p) ! b =
    (if b \<in> snd ` set xs then mark f pl e (slot_heap p ! b) else slot_heap p ! b)"
  using assms
proof (induction xs arbitrary: p)
  case Nil
  then show ?case by simp
next
  case (Cons x xs)
  obtain i a where x: "x = (i, a)" by (cases x)
  show ?case
    by (cases "a = b") (use Cons in \<open>auto simp: x pr_simps image_iff\<close>)
qed

lemma pending_wf_new [simp]: "pending_wf new_pending"
  by (simp add: pending_wf_def new_pending_def)

lemma pending_wf_MarkDone [pr_simps]: "pending_wf (MarkDone a f pl e p) = pending_wf p"
  by (simp add: pending_wf_def pr_simps)

lemma pending_wf_fold [pr_simps]:
  fixes xs :: "(string \<times> nat) list"
  shows "pending_wf (fold (\<lambda>(cid, a). MarkDone a f pl e) xs p) = pending_wf p"
  by (simp add: pending_wf_def pr_simps)

lemma pending_wf_Register: "pending_wf p \<Longrightarrow> Register cid p = Inr (t, p') \<Longrightarrow> pending_wf p'"
  by (force simp: pending_wf_def Register_def map_of_eq_None_iff less_Suc_eq
      split: if_splits)

lemma pending_wf_Finish [pr_simps]: "pending_wf (snd (Finish cid f pl e p)) = pending_wf p"
  by (simp add: Finish_def pr_simps split: option.split)

lemma pending_wf_FailAll [pr_simps]: "pending_wf (FailAll e p) = pending_wf p"
  by (simp add: FailAll_def pr_simps)

lemma pending_wf_Close [pr_simps]: "pending_wf (Close e p) = pending_wf p"
proof -
  have "pending_wf (p\<lparr>closed := True, closedError := e\<rparr>) = pending_wf p"
    by (simp add: pending_wf_def)
  moreover have "pending_wf (q\<lparr>notified := ns\<rparr>) = pending_wf q" for q ns
    by (simp add: pending_wf_def)
  ultimately show ?thesis by (simp add: Close_def Let_def pr_simps)
qed

lemma pending_wf_Wait [pr_simps]: "pending_wf (snd (Wait t p)) = pending_wf p"
  by (simp add: Wait_def Let_def pending_wf_def)

lemma pending_wf_Remove: "pending_wf p \<Longrightarrow> pending_wf (Remove cid p)"
  by (auto simp: pending_wf_def Remove_def distinct_map_filter)

lemma pending_wf_slot_lt:
  "pending_wf p \<Longrightarrow> map_of (slots p) cid = Some a \<Longrightarrow> a < length (slot_heap p)"
  by (force simp: pending_wf_def dest: map_of_SomeD)

lemma pending_wf_slot_inj:
  assumes "pending_wf p" "map_of (slots p) i = Some a" "map_of (slots p) j = Some a"
  shows "i = j"
proof -
  from assms(2,3) have "(i, a) \<in> set (slots p)" "(j, a) \<in> set (slots p)"
    by (auto dest: map_of_SomeD)
  moreover from assms(1) have "inj_on snd (set (slots p))"
    by (simp add: pending_wf_def distinct_map)
  ultimately show ?thesis by (metis inj_onD prod.inject snd_conv)
qed

section \<open>The table as a map from ids to outcomes\<close>

definition slot_outcome :: "slot \<Rightarrow> outcome" where
  "slot_outcome s =
     (if \<not> slot_done s then Waiting
      else if slot_failed s then Failed (slot_error s) else Done (slot_payload s))"

definition reply_view :: "pending \<Rightarrow> reply_map" where
  "reply_view p =
     (\<lambda>i. map_option (\<lambda>a. slot_outcome (slot_heap p ! a)) (map_of (slots p) i),
      if closed p then Some (closedError p) else None)"

text \<open>The model's run of one event of another thread.\<close>

fun pr_apply :: "pr_event \<Rightarrow> pending \<Rightarrow> pending" where
  "pr_apply (ERegister i) p = (case Register i p of Inl _ \<Rightarrow> p | Inr (t, p') \<Rightarrow> p')"
| "pr_apply (EComplete i pl) p = snd (Complete i pl p)"
| "pr_apply (EFail i e) p = snd (Fail i e p)"
| "pr_apply (EFailAll e) p = FailAll e p"
| "pr_apply (EClose e) p = Close e p"
| "pr_apply (ERemove i) p = Remove i p"
| "pr_apply (EWait i) p =
     (case map_of (slots p) i of
        None \<Rightarrow> p
      | Some a \<Rightarrow> snd (Wait \<lparr>tk_owned = True, tk_id = i, tk_slot = a\<rparr> p))"

lemma slot_outcome_new [simp]: "slot_outcome new_slot = Waiting"
  by (simp add: slot_outcome_def new_slot_def)

lemma slot_outcome_mark [pr_simps]:
  "slot_outcome (mark f pl e s) =
     settle (slot_outcome s) (if f then Failed e else Done pl)"
  by (simp add: slot_outcome_def mark_def)

lemma view_new [simp]: "reply_view new_pending = (\<lambda>_. None, None)"
  by (simp add: reply_view_def new_pending_def)

lemma view_Register:
  assumes "pending_wf p" "Register i p = Inr (t, p')"
  shows "reply_view p' = map_apply (ERegister i) (reply_view p)"
    and "t = \<lparr>tk_owned = True, tk_id = i, tk_slot = length (slot_heap p)\<rparr>"
    and "map_of (slots p') i = Some (tk_slot t)" "tk_slot t < length (slot_heap p')"
  using assms
  by (auto simp: Register_def reply_view_def fun_eq_iff nth_append
      intro!: option.map_cong0 split: if_splits)
    (metis pending_wf_slot_lt)

lemma Register_error_iff:
  "(\<exists>e. Register i p = Inl e) \<longleftrightarrow> snd (reply_view p) \<noteq> None \<or> fst (reply_view p) i \<noteq> None"
  by (auto simp: Register_def reply_view_def)

lemma view_Finish:
  assumes "pending_wf p"
  shows "reply_view (snd (Finish i f pl e p)) =
    (settle_at i (if f then Failed e else Done pl) (fst (reply_view p)), snd (reply_view p))"
proof (cases "map_of (slots p) i")
  case None
  then show ?thesis by (auto simp: Finish_def reply_view_def settle_at_def fun_eq_iff)
next
  case (Some a)
  have lt: "a < length (slot_heap p)" by (rule pending_wf_slot_lt [OF assms Some])
  have other: "b \<noteq> a" if "map_of (slots p) j = Some b" "j \<noteq> i" for j b
    using pending_wf_slot_inj [OF assms Some] that by blast
  have "fst (reply_view (MarkDone a f pl e p)) j =
    settle_at i (if f then Failed e else Done pl) (fst (reply_view p)) j" for j
  proof (cases "j = i")
    case True
    with Some lt show ?thesis by (simp add: reply_view_def settle_at_def pr_simps)
  next
    case False
    show ?thesis
    proof (cases "map_of (slots p) j")
      case None
      with False show ?thesis by (simp add: reply_view_def settle_at_def pr_simps)
    next
      case (Some b)
      from other [OF Some False] have "a \<noteq> b" by simp
      with Some False show ?thesis by (simp add: reply_view_def settle_at_def pr_simps)
    qed
  qed
  then show ?thesis
    using Some by (simp add: prod_eq_iff Finish_def fun_eq_iff) (simp add: reply_view_def pr_simps)
qed

lemma view_fold_MarkDone:
  assumes "pending_wf p"
  shows "fst (reply_view (fold (\<lambda>(i, a). MarkDone a True [] e) (slots p) p)) =
    settle_all (Failed e) (fst (reply_view p))"
proof (rule ext)
  fix i
  show "fst (reply_view (fold (\<lambda>(i, a). MarkDone a True [] e) (slots p) p)) i =
    settle_all (Failed e) (fst (reply_view p)) i"
  proof (cases "map_of (slots p) i")
    case None
    then show ?thesis by (simp add: reply_view_def settle_all_def pr_simps)
  next
    case (Some a)
    then have "a \<in> snd ` set (slots p)" by (force dest: map_of_SomeD)
    moreover have "a < length (slot_heap p)" by (rule pending_wf_slot_lt [OF assms Some])
    ultimately show ?thesis using Some by (simp add: reply_view_def settle_all_def pr_simps)
  qed
qed

lemma view_FailAll:
  "pending_wf p \<Longrightarrow>
    reply_view (FailAll e p) = (settle_all (Failed e) (fst (reply_view p)), snd (reply_view p))"
  by (simp add: prod_eq_iff FailAll_def view_fold_MarkDone)
    (simp add: reply_view_def pr_simps)

lemma view_Close:
  assumes "pending_wf p"
  shows "reply_view (Close e p) = (settle_all (Failed e) (fst (reply_view p)), Some e)"
proof -
  define p1 where "p1 = p\<lparr>closed := True, closedError := e\<rparr>"
  have wf: "pending_wf p1" using assms by (simp add: p1_def pending_wf_def)
  have eq: "fst (reply_view p1) = fst (reply_view p)" by (simp add: p1_def reply_view_def)
  have notify: "fst (reply_view (q\<lparr>notified := ns\<rparr>)) = fst (reply_view q)" for q ns
    by (simp add: reply_view_def)
  have "fst (reply_view (Close e p)) = settle_all (Failed e) (fst (reply_view p))"
    using view_fold_MarkDone [OF wf, of e] eq
    by (simp add: Close_def Let_def notify flip: p1_def)
  moreover have "snd (reply_view (Close e p)) = Some e"
    by (simp add: Close_def Let_def reply_view_def pr_simps)
  ultimately show ?thesis by (simp add: prod_eq_iff)
qed

lemma view_Remove:
  "reply_view (Remove i p) = ((fst (reply_view p))(i := None), snd (reply_view p))"
proof -
  have "map_of (filter (\<lambda>(j, a). j \<noteq> i) xs) k = (if k = i then None else map_of xs k)"
    for k and xs :: "(string \<times> nat) list"
    by (induction xs) auto
  then show ?thesis by (auto simp: reply_view_def Remove_def fun_eq_iff)
qed

lemma view_Wait:
  assumes "pending_wf p" "map_of (slots p) i = Some (tk_slot t)"
  shows "reply_view (snd (Wait t p)) = map_apply (EWait i) (reply_view p)"
    and "fst (Wait t p) =
      (case the (fst (reply_view p) i) of
         Waiting \<Rightarrow> Inr None
       | Failed e \<Rightarrow> Inl (RuntimeError e)
       | Done pl \<Rightarrow> Inr (Some pl))"
proof -
  have lt: "tk_slot t < length (slot_heap p)" by (rule pending_wf_slot_lt [OF assms])
  have inj: "j = i" if "map_of (slots p) j = Some (tk_slot t)" for j
    using assms(1) that assms(2) by (rule pending_wf_slot_inj)
  show "reply_view (snd (Wait t p)) = map_apply (EWait i) (reply_view p)"
    using assms(2) lt
    by (auto simp: Wait_def Let_def reply_view_def slot_outcome_def fun_eq_iff nth_list_update
        dest: inj intro!: option.map_cong0)
  show "fst (Wait t p) =
      (case the (fst (reply_view p) i) of
         Waiting \<Rightarrow> Inr None
       | Failed e \<Rightarrow> Inl (RuntimeError e)
       | Done pl \<Rightarrow> Inr (Some pl))"
    using assms(2) by (simp add: Wait_def Let_def reply_view_def slot_outcome_def)
qed

end
