(* ===== verification/Tickets.thy ===== *)
theory Tickets
  imports PendingReplies "HOL-Library.Multiset"
begin

text \<open>
  The table of pending replies in use.  The table is interpreted as a \<open>reply_table\<close>, the
  threads that own tickets are a step relation, and the properties of the header comment
  of \<^verbatim>\<open>PendingReplies.h\<close> are proved: replies reach the request with their
  correlation id, the first settlement counts, and nothing is left behind.
\<close>

section \<open>The table implements the abstract one\<close>

lemma pending_wf_pr_apply: "pending_wf p \<Longrightarrow> pending_wf (pr_apply e p)"
  by (cases e)
    (auto simp: Complete_def Fail_def pr_simps intro: pending_wf_Register pending_wf_Remove
      split: sum.split option.split)

lemma view_pr_apply:
  assumes "pending_wf p"
  shows "reply_view (pr_apply e p) = map_apply e (reply_view p)"
proof (cases e)
  case (ERegister i)
  show ?thesis
  proof (cases "Register i p")
    case (Inl x)
    then have "snd (reply_view p) \<noteq> None \<or> fst (reply_view p) i \<noteq> None"
      using Register_error_iff by blast
    with Inl ERegister show ?thesis by (cases "reply_view p") auto
  next
    case (Inr x)
    obtain t p' where x: "x = (t, p')" by (cases x)
    with Inr ERegister view_Register(1) [OF assms] show ?thesis by simp
  qed
next
  case (EComplete i pl)
  with assms show ?thesis by (cases "reply_view p") (simp add: Complete_def view_Finish)
next
  case (EFail i x)
  with assms show ?thesis by (cases "reply_view p") (simp add: Fail_def view_Finish)
next
  case (EFailAll e)
  with assms show ?thesis by (cases "reply_view p") (simp add: view_FailAll)
next
  case (EClose e)
  with assms show ?thesis by (cases "reply_view p") (simp add: view_Close)
next
  case (ERemove i)
  then show ?thesis by (cases "reply_view p") (simp add: view_Remove)
next
  case (EWait i)
  show ?thesis
  proof (cases "map_of (slots p) i")
    case None
    then have "fst (reply_view p) i = None" by (simp add: reply_view_def)
    with None EWait show ?thesis by (cases "reply_view p") simp
  next
    case (Some a)
    with EWait show ?thesis
      using view_Wait(1) [OF assms, of i "\<lparr>tk_owned = True, tk_id = i, tk_slot = a\<rparr>"] by simp
  qed
qed

interpretation prt: reply_table pending_wf reply_view pr_apply
  by unfold_locales (auto intro: pending_wf_pr_apply view_pr_apply)

lemma pending_wf_run: "pending_wf (fold pr_apply es new_pending)"
  by (rule prt.invar_run) simp

text \<open>
  What a caller gets that registers, is interrupted by any events of other threads, and
  then stops waiting.
\<close>

lemma wait_after_run:
  assumes "pending_wf p0" "Register i p0 = Inr (t, p)" "leaves i es"
  shows "fst (Wait t (fold pr_apply es p)) =
      (case first_settle i es of
         Waiting \<Rightarrow> Inr None
       | Failed e \<Rightarrow> Inl (RuntimeError e)
       | Done pl \<Rightarrow> Inr (Some pl))"
    and "fst (reply_view (ticket_destroy t (snd (Wait t (fold pr_apply es p))))) i = None"
    and "pending_wf (ticket_destroy t (snd (Wait t (fold pr_apply es p))))"
proof -
  have wf: "pending_wf p" by (rule pending_wf_Register [OF assms(1,2)])
  let ?q = "fold pr_apply es p"
  have wfq: "pending_wf ?q" by (rule prt.invar_run [OF wf])
  have "fst (reply_view p) i = Some Waiting"
    using view_Register(1) [OF assms(1,2)] assms(2)
    by (cases "reply_view p0") (auto simp: Register_def reply_view_def split: if_splits)
  then have q: "fst (reply_view ?q) i = Some (first_settle i es)"
    using wf assms(3) by (intro prt.run_outcome)
  have slot: "map_of (slots ?q) i = Some (tk_slot t)"
  proof -
    have keep: "map_of (slots (pr_apply e s)) i = Some a"
      if "map_of (slots s) i = Some a" "leaves i [e]" for e s a
    proof -
      have "map_of (filter (\<lambda>(j, a). j \<noteq> k) xs) i = map_of xs i" if "k \<noteq> i"
        for k and xs :: "(string \<times> nat) list"
        using that by (induction xs) auto
      then show ?thesis
        using that
        by (cases e)
          (auto simp: pr_op_defs Let_def pr_simps split: if_splits option.splits)
    qed
    have "map_of (slots s) i = Some a \<Longrightarrow> leaves i es \<Longrightarrow>
        map_of (slots (fold pr_apply es s)) i = Some a" for s a
    proof (induction es arbitrary: s)
      case Nil
      then show ?case by simp
    next
      case (Cons e es)
      then have "map_of (slots (pr_apply e s)) i = Some a" by (intro keep) simp_all
      with Cons show ?case by simp
    qed
    with view_Register(3) [OF assms(1,2)] assms(3) show ?thesis by blast
  qed
  show "fst (Wait t ?q) =
      (case first_settle i es of
         Waiting \<Rightarrow> Inr None
       | Failed e \<Rightarrow> Inl (RuntimeError e)
       | Done pl \<Rightarrow> Inr (Some pl))"
    using view_Wait(2) [OF wfq slot] q by simp
  have "tk_owned t" "tk_id t = i" using view_Register(2) [OF assms(1,2)] by simp_all
  then show "fst (reply_view (ticket_destroy t (snd (Wait t ?q)))) i = None"
    by (simp add: ticket_destroy_def view_Remove)
  show "pending_wf (ticket_destroy t (snd (Wait t ?q)))"
    using wfq by (simp add: ticket_destroy_def pending_wf_Remove pr_simps)
qed

text \<open>The same for a caller that gives up before it waits.\<close>

lemma abandon_after_run:
  assumes "pending_wf p0" "Register i p0 = Inr (t, p)"
  shows "map_of (slots (ticket_destroy t (fold pr_apply es p))) i = None"
    and "pending_wf (ticket_destroy t (fold pr_apply es p))"
proof -
  have "pending_wf p" by (rule pending_wf_Register [OF assms])
  then have wf: "pending_wf (fold pr_apply es p)" by (rule prt.invar_run)
  have tk: "tk_owned t" "tk_id t = i" using view_Register(2) [OF assms] by simp_all
  show "map_of (slots (ticket_destroy t (fold pr_apply es p))) i = None"
    using tk by (auto simp: ticket_destroy_def Remove_def map_of_eq_None_iff)
  show "pending_wf (ticket_destroy t (fold pr_apply es p))"
    using wf by (simp add: ticket_destroy_def pending_wf_Remove)
qed

lemma wait_entry_gone:
  assumes "pending_wf p0" "Register i p0 = Inr (t, p)"
  shows "map_of (slots (ticket_destroy t q)) i = None"
  using view_Register(2) [OF assms]
  by (auto simp: ticket_destroy_def Remove_def map_of_eq_None_iff)

lemma Register_succeeds:
  assumes "\<not> closed p" "map_of (slots p) i = None"
  obtains t p' where "Register i p = Inr (t, p')"
  using assms by (auto simp: Register_def)

section \<open>Threads that own tickets\<close>

record tk_sys =
  tk_table :: pending
  tk_live :: "ticket list"

definition tk_init :: tk_sys where
  "tk_init = \<lparr>tk_table = new_pending, tk_live = []\<rparr>"

text \<open>Settling is open to every thread; removal and waiting go through a ticket.\<close>

fun settles :: "pr_event \<Rightarrow> bool" where
  "settles (EComplete i pl) = True"
| "settles (EFail i e) = True"
| "settles (EFailAll e) = True"
| "settles (EClose e) = True"
| "settles _ = False"

inductive tk_step :: "tk_sys \<Rightarrow> tk_sys \<Rightarrow> bool" where
  tk_register: "Register i (tk_table s) = Inr (t, p) \<Longrightarrow>
     tk_step s (s\<lparr>tk_table := p, tk_live := t # tk_live s\<rparr>)"
| tk_settle: "settles e \<Longrightarrow> tk_step s (s\<lparr>tk_table := pr_apply e (tk_table s)\<rparr>)"
| tk_wait: "t \<in> set (tk_live s) \<Longrightarrow> tk_owned t \<Longrightarrow>
     tk_step s (s\<lparr>tk_table := snd (Wait t (tk_table s))\<rparr>)"
| tk_move: "tk_live s = xs @ t # ys \<Longrightarrow> ticket_move t = (t1, t2) \<Longrightarrow>
     tk_step s (s\<lparr>tk_live := t1 # xs @ t2 # ys\<rparr>)"
| tk_drop: "tk_live s = xs @ t # ys \<Longrightarrow>
     tk_step s (s\<lparr>tk_table := ticket_destroy t (tk_table s), tk_live := xs @ ys\<rparr>)"

inductive tk_reachable :: "tk_sys \<Rightarrow> bool" where
  tk_start: "tk_reachable tk_init"
| tk_next: "tk_reachable s \<Longrightarrow> tk_step s s' \<Longrightarrow> tk_reachable s'"

text \<open>
  The owned tickets and the entries of the table correspond one to one.  Without the
  tickets the fact is not inductive: a ticket that is dropped must remove its own entry.
\<close>

definition tk_entries :: "ticket list \<Rightarrow> (string \<times> nat) list" where
  "tk_entries ts = map (\<lambda>t. (tk_id t, tk_slot t)) (filter tk_owned ts)"

definition tk_inv :: "tk_sys \<Rightarrow> bool" where
  "tk_inv s \<longleftrightarrow>
     pending_wf (tk_table s) \<and> mset (tk_entries (tk_live s)) = mset (slots (tk_table s))"

lemma tk_entries_simps [simp]:
  "tk_entries [] = []"
  "tk_entries (t # ts) = (if tk_owned t then [(tk_id t, tk_slot t)] else []) @ tk_entries ts"
  "tk_entries (ts @ us) = tk_entries ts @ tk_entries us"
  by (simp_all add: tk_entries_def)

lemma slots_settle: "settles e \<Longrightarrow> slots (pr_apply e p) = slots p"
  by (cases e) (auto simp: pr_op_defs Let_def pr_simps split: option.splits)

lemma mset_Remove:
  assumes "distinct (map fst xs)" "mset xs = add_mset (i, a) M"
  shows "mset (filter (\<lambda>(j, b). j \<noteq> i) xs) = M"
proof -
  have "(i, a) \<in> set xs" using assms(2) by (metis union_single_eq_member set_mset_mset)
  then obtain us vs where xs: "xs = us @ (i, a) # vs" by (auto simp: in_set_conv_decomp)
  with assms(1) have "j \<noteq> i" if "(j, b) \<in> set us \<union> set vs" for j b
    using that by force
  then have "filter (\<lambda>(j, b). j \<noteq> i) us = us" and "filter (\<lambda>(j, b). j \<noteq> i) vs = vs"
    by (auto intro!: filter_True)
  with xs assms(2) show ?thesis by simp
qed

lemma tk_step_inv: "tk_step s s' \<Longrightarrow> tk_inv s \<Longrightarrow> tk_inv s'"
proof (induction rule: tk_step.induct)
  case (tk_register i s t p)
  then show ?case
    by (auto simp: tk_inv_def intro: pending_wf_Register)
      (auto simp: Register_def split: if_splits)
next
  case (tk_settle e s)
  then show ?case by (simp add: tk_inv_def slots_settle pending_wf_pr_apply)
next
  case (tk_wait t s)
  then show ?case by (simp add: tk_inv_def pr_simps) (simp add: Wait_def Let_def)
next
  case (tk_move s xs t ys t1 t2)
  then show ?case by (auto simp: tk_inv_def ticket_move_def)
next
  case (tk_drop s xs t ys)
  show ?case
  proof (cases "tk_owned t")
    case True
    have "mset (slots (tk_table s)) = add_mset (tk_id t, tk_slot t) (mset (tk_entries (xs @ ys)))"
      using tk_drop True by (simp add: tk_inv_def)
    moreover have "distinct (map fst (slots (tk_table s)))"
      using tk_drop by (simp add: tk_inv_def pending_wf_def)
    ultimately have "mset (slots (Remove (tk_id t) (tk_table s))) = mset (tk_entries (xs @ ys))"
      unfolding Remove_def by (simp add: mset_Remove del: mset_filter)
    with tk_drop True show ?thesis
      by (simp add: tk_inv_def ticket_destroy_def pending_wf_Remove)
  next
    case False
    with tk_drop show ?thesis by (simp add: tk_inv_def ticket_destroy_def)
  qed
qed

lemma tk_reachable_inv: "tk_reachable s \<Longrightarrow> tk_inv s"
proof (induction rule: tk_reachable.induct)
  case tk_start
  then show ?case by (simp add: tk_init_def tk_inv_def) (simp add: new_pending_def)
next
  case (tk_next s s')
  then show ?case by (blast intro: tk_step_inv)
qed

section \<open>Properties\<close>

text \<open>
  C1. The table refines its abstract specification: after any sequence of operations, the
  slots, addresses and flags represent exactly the map of outcomes that the specification
  computes, in which the first settlement of an id is final.
\<close>

theorem pending_run_refines:
  "reply_view (fold pr_apply es new_pending) = fold map_apply es (\<lambda>_. None, None)"
  using prt.view_run [of new_pending es] by simp

text \<open>
  C8. A request gets the reply that belongs to it.  Let a thread register an id after any
  history, let the other threads do anything but touch this entry, and let the wait end:
  the result is the payload of the first completion of this very id, or the error of the
  first failure or close that came before it, or a timeout when none of them happened; and
  when the ticket is gone the table holds no trace of the id.
\<close>

theorem reply_belongs_to_request:
  assumes "Register i (fold pr_apply before new_pending) = Inr (t, p)"
    and "leaves i during"
  shows "fst (Wait t (fold pr_apply during p)) =
      (case first_settle i during of
         Waiting \<Rightarrow> Inr None
       | Failed e \<Rightarrow> Inl (RuntimeError e)
       | Done pl \<Rightarrow> Inr (Some pl)) \<and>
    map_of (slots (ticket_destroy t (snd (Wait t (fold pr_apply during p))))) i = None"
  using wait_after_run [OF pending_wf_run assms] by (simp add: reply_view_def)

lemma reply_belongs_to_request_witness:
  "\<exists>t p. Register ''b'' (fold pr_apply [ERegister ''a''] new_pending) = Inr (t, p) \<and>
    fst (Wait t (fold pr_apply [EComplete ''a'' [1], EComplete ''b'' [2], EFailAll ''late''] p)) =
      Inr (Some [2])"
proof -
  obtain t p where reg: "Register ''b'' (fold pr_apply [ERegister ''a''] new_pending) = Inr (t, p)"
    by (simp add: Register_def new_pending_def)
  have "leaves ''b'' [EComplete ''a'' [1], EComplete ''b'' [2], EFailAll ''late'']"
    by simp
  from reply_belongs_to_request [OF reg this] reg show ?thesis by auto
qed

text \<open>
  C9. Timed-out and failed requests leave nothing behind: in every reachable state the
  entries of the table are exactly the owned tickets, each with its own slot, so the table
  is empty as soon as no caller holds a ticket.
\<close>

theorem tickets_match_entries:
  assumes "tk_reachable s"
  shows "mset (slots (tk_table s)) = mset (tk_entries (tk_live s)) \<and>
    distinct (map fst (slots (tk_table s))) \<and>
    (Empty (tk_table s) \<longleftrightarrow> filter tk_owned (tk_live s) = [])"
proof -
  have inv: "tk_inv s" by (rule tk_reachable_inv [OF assms])
  then have "slots (tk_table s) = [] \<longleftrightarrow> tk_entries (tk_live s) = []"
    unfolding tk_inv_def by (metis mset_zero_iff)
  with inv show ?thesis
    by (auto simp: tk_inv_def pending_wf_def Empty_def tk_entries_def)
qed

lemma tickets_match_entries_witness:
  "\<exists>s. tk_reachable s \<and> \<not> Empty (tk_table s) \<and> filter tk_owned (tk_live s) \<noteq> []"
proof -
  obtain t p where reg: "Register ''a'' (tk_table tk_init) = Inr (t, p)"
    by (simp add: Register_def tk_init_def new_pending_def)
  define s where "s = tk_init\<lparr>tk_table := p, tk_live := t # tk_live tk_init\<rparr>"
  have reach: "tk_reachable s"
    unfolding s_def by (rule tk_next [OF tk_start tk_register [OF reg]])
  have "tk_owned t" using reg by (auto simp: Register_def split: if_splits)
  then have "filter tk_owned (tk_live s) \<noteq> []" by (simp add: s_def)
  with tickets_match_entries [OF reach] reach show ?thesis by blast
qed

definition wakes :: "pending \<Rightarrow> pending \<Rightarrow> bool" where
  "wakes p p' \<longleftrightarrow>
     (\<exists>ns. notified p' = notified p @ ns \<and>
       (\<forall>a < length (slot_heap p).
          \<not> slot_done (slot_heap p ! a) \<and> slot_done (slot_heap p' ! a) \<longrightarrow> Ready a \<in> set ns) \<and>
       (\<not> pending_pred p \<and> pending_pred p' \<longrightarrow> PendingChanged \<in> set ns))"

lemma wakes_refl [simp]: "wakes p p"
  by (auto simp: wakes_def intro: exI [of _ "[]"])

lemma wakes_trans:
  assumes "wakes p q" "wakes q r" "length (slot_heap q) = length (slot_heap p)"
  shows "wakes p r"
proof -
  obtain ns ms where ns: "notified q = notified p @ ns"
      "\<And>a. a < length (slot_heap p) \<Longrightarrow>
        \<not> slot_done (slot_heap p ! a) \<and> slot_done (slot_heap q ! a) \<Longrightarrow> Ready a \<in> set ns"
      "\<not> pending_pred p \<and> pending_pred q \<Longrightarrow> PendingChanged \<in> set ns"
    and ms: "notified r = notified q @ ms"
      "\<And>a. a < length (slot_heap q) \<Longrightarrow>
        \<not> slot_done (slot_heap q ! a) \<and> slot_done (slot_heap r ! a) \<Longrightarrow> Ready a \<in> set ms"
      "\<not> pending_pred q \<and> pending_pred r \<Longrightarrow> PendingChanged \<in> set ms"
    using assms(1,2) unfolding wakes_def by blast
  have "Ready a \<in> set (ns @ ms)"
    if "a < length (slot_heap p)" "\<not> slot_done (slot_heap p ! a)" "slot_done (slot_heap r ! a)" for a
    using that assms(3) ns(2) [of a] ms(2) [of a] by auto
  moreover have "PendingChanged \<in> set (ns @ ms)" if "\<not> pending_pred p" "pending_pred r"
    using that ns(3) ms(3) by auto
  ultimately show ?thesis
    unfolding wakes_def using ns(1) ms(1) by (intro exI [of _ "ns @ ms"]) auto
qed

lemma done_list_update:
  "slot_done (xs[a := v] ! b) \<Longrightarrow> \<not> slot_done (xs ! b) \<Longrightarrow> b = a"
  by (metis nth_list_update_neq)

lemma wakes_MarkDone: "wakes p (MarkDone a f pl e p)"
proof (cases "slot_done (slot_heap p ! a)")
  case True
  then show ?thesis by (simp add: MarkDone_def)
next
  case False
  then show ?thesis
    unfolding wakes_def
    by (intro exI [of _ "[Ready a]"])
      (auto simp: MarkDone_def pending_pred_def dest: done_list_update)
qed

lemma wakes_fold_MarkDone:
  fixes xs :: "(string \<times> nat) list"
  shows "wakes p (fold (\<lambda>(i, a). MarkDone a f pl e) xs p)"
proof (induction xs arbitrary: p)
  case Nil
  then show ?case by simp
next
  case (Cons x xs)
  obtain i a where x: "x = (i, a)" by (cases x)
  have "wakes p (MarkDone a f pl e p)" by (rule wakes_MarkDone)
  moreover note Cons.IH [of "MarkDone a f pl e p"]
  ultimately show ?case unfolding x by (auto intro: wakes_trans simp: pr_simps)
qed

text \<open>
  C24. No wake-up is lost.  Whenever an operation makes the predicate of a wait true (the
  slot becomes done, or a request is registered or the table closed), it notifies the
  condition variable of that wait.
\<close>
theorem no_lost_wakeup: "wakes p (pr_apply e p)"
proof (cases e)
  case (ERegister i)
  show ?thesis
  proof (cases "Register i p")
    case (Inl x)
    with ERegister show ?thesis by simp
  next
    case (Inr x)
    then have "wakes p (snd x)"
      unfolding wakes_def
      by (intro exI [of _ "[PendingChanged]"])
        (auto simp: Register_def nth_append new_slot_def split: if_splits)
    with Inr ERegister show ?thesis by (simp add: case_prod_unfold)
  qed
next
  case (EClose x)
  define p1 where "p1 = p\<lparr>closed := True, closedError := x\<rparr>"
  define p2 where "p2 = fold (\<lambda>(i, a). MarkDone a True [] x) (slots p1) p1"
  have "wakes p1 p2" unfolding p2_def by (rule wakes_fold_MarkDone)
  then obtain ns where "notified p2 = notified p1 @ ns"
      "\<forall>a < length (slot_heap p1).
        \<not> slot_done (slot_heap p1 ! a) \<and> slot_done (slot_heap p2 ! a) \<longrightarrow> Ready a \<in> set ns"
    unfolding wakes_def by blast
  then have "wakes p (p2\<lparr>notified := notified p2 @ [PendingChanged]\<rparr>)"
    unfolding wakes_def by (intro exI [of _ "ns @ [PendingChanged]"]) (auto simp: p1_def)
  with EClose show ?thesis by (simp add: Close_def Let_def flip: p1_def p2_def)
next
  case (EWait i)
  have "wakes p (snd (Wait t p))" for t
    unfolding wakes_def
    by (intro exI [of _ "[]"])
      (auto simp: Wait_def Let_def pending_pred_def dest!: done_list_update)
  with EWait show ?thesis by (simp split: option.split)
next
  case (ERemove i)
  then show ?thesis
    unfolding wakes_def by (intro exI [of _ "[]"]) (auto simp: Remove_def pending_pred_def)
qed (auto simp: Complete_def Fail_def Finish_def FailAll_def wakes_fold_MarkDone
    wakes_MarkDone split: option.split)

end
