(* ===== verification/Lifecycle.thy ===== *)
theory Lifecycle
  imports Prelude
begin

text \<open>
  The contract of a server's \<^verbatim>\<open>start\<close> and \<^verbatim>\<open>stop\<close>: a stop request that arrives
  while the server runs is never lost, and after it the serving thread makes only a bounded number
  of steps, whatever the other threads do in between, before the run is over.
  Each server is a step relation; the locale holds what its users rely on.
\<close>

inductive reaches :: "('s \<Rightarrow> 's \<Rightarrow> bool) \<Rightarrow> 's \<Rightarrow> 's \<Rightarrow> bool" for step where
  reaches_refl: "reaches step s s"
| reaches_step: "reaches step s t \<Longrightarrow> step t u \<Longrightarrow> reaches step s u"

lemma reaches_trans: "reaches step s t \<Longrightarrow> reaches step t u \<Longrightarrow> reaches step s u"
  by (rotate_tac 1, induction rule: reaches.induct) (auto intro: reaches_step)

lemma reaches_front: "step s t \<Longrightarrow> reaches step t u \<Longrightarrow> reaches step s u"
  by (rule reaches_trans [OF reaches_step [OF reaches_refl]])

lemma reaches_invariant:
  assumes "reaches step s t" "P s" "\<And>a b. P a \<Longrightarrow> step a b \<Longrightarrow> P b"
  shows "P t"
  using assms by (induction rule: reaches.induct) auto

text \<open>
  \<open>serves step own running n s t\<close>: an interleaving of all threads leads from \<open>s\<close> to \<open>t\<close>
  while the run goes on, and \<open>n\<close> of its steps are the serving thread's own.
\<close>

inductive serves ::
  "('s \<Rightarrow> 's \<Rightarrow> bool) \<Rightarrow> ('s \<Rightarrow> 's \<Rightarrow> bool) \<Rightarrow> ('s \<Rightarrow> bool) \<Rightarrow> nat \<Rightarrow> 's \<Rightarrow> 's \<Rightarrow> bool"
for step own running where
  serves_refl: "serves step own running 0 s s"
| serves_own: "serves step own running n s t \<Longrightarrow> own t u \<Longrightarrow> running u \<Longrightarrow> serves step own running (Suc n) s u"
| serves_other: "serves step own running n s t \<Longrightarrow> step t u \<Longrightarrow> running u \<Longrightarrow> serves step own running n s u"

text \<open>Under an invariant, what counts as running may be said in another way.\<close>

lemma serves_mono:
  assumes "serves step own running n s t" "I s"
    and "\<And>a b. own a b \<Longrightarrow> step a b" "\<And>a b. I a \<Longrightarrow> step a b \<Longrightarrow> I b"
    and "\<And>a. I a \<Longrightarrow> running a \<Longrightarrow> running' a"
  shows "I t \<and> serves step own running' n s t"
  using assms(1,2)
proof induction
  case (serves_own n s t u)
  with assms(3-5) show ?case by (blast intro: serves.serves_own)
next
  case (serves_other n s t u)
  with assms(4,5) show ?case by (blast intro: serves.serves_other)
qed (simp add: serves.serves_refl)

text \<open>
  \<open>own\<close> are the steps of the thread that serves: what it can do without any other thread.
  \<open>rank\<close> bounds how many of them are left once a stop is requested.
\<close>

locale stoppable =
  fixes step own :: "'s \<Rightarrow> 's \<Rightarrow> bool"
    and running stopping :: "'s \<Rightarrow> bool"
    and rank :: "'s \<Rightarrow> nat"
  assumes own_step: "own s t \<Longrightarrow> step s t"
    and stop_kept: "step s t \<Longrightarrow> running s \<Longrightarrow> stopping s \<Longrightarrow> running t \<Longrightarrow> stopping t"
    and progress: "running s \<Longrightarrow> stopping s \<Longrightarrow> \<exists>t. own s t"
    and wind_down: "own s t \<Longrightarrow> running s \<Longrightarrow> stopping s \<Longrightarrow> running t \<Longrightarrow> rank t < rank s"
begin

text \<open>Every run of the serving thread alone ends, within \<open>rank\<close> steps, and it can end.\<close>

lemma stops:
  assumes "running s" "stopping s"
  shows "\<exists>t. reaches own s t \<and> \<not> running t"
  using assms
proof (induction "rank s" arbitrary: s rule: less_induct)
  case less
  from progress [OF less.prems] obtain t where t: "own s t" ..
  show ?case
  proof (cases "running t")
    case True
    then have "rank t < rank s" "stopping t"
      using wind_down [OF t] stop_kept [OF own_step [OF t]] less.prems by auto
    with less.hyps True obtain u where "reaches own t u" "\<not> running u" by blast
    with t show ?thesis by (blast intro: reaches_front)
  next
    case False
    with t show ?thesis by (blast intro: reaches_step reaches_refl)
  qed
qed

lemma own_chain_bounded:
  assumes "\<And>i. i < n \<Longrightarrow> own (f i) (f (Suc i))" "\<And>i. i \<le> n \<Longrightarrow> running (f i)" "stopping (f 0)"
  shows "stopping (f n) \<and> n + rank (f n) \<le> rank (f 0)"
  using assms
proof (induction n)
  case (Suc n)
  then have "stopping (f n) \<and> n + rank (f n) \<le> rank (f 0)" by simp
  moreover have "own (f n) (f (Suc n))" "running (f n)" "running (f (Suc n))"
    using Suc.prems by auto
  ultimately show ?case
    using wind_down [of "f n" "f (Suc n)"] stop_kept [OF own_step] by force
qed simp

end

text \<open>The other threads do not set the serving thread back.\<close>

locale stoppable_among = stoppable +
  assumes others: "step s t \<Longrightarrow> running s \<Longrightarrow> stopping s \<Longrightarrow> running t \<Longrightarrow> rank t \<le> rank s"
begin

text \<open>
  In every interleaving the request is kept, and the serving thread has at most \<open>rank\<close> steps
  before the run is over; as long as it is not over, the thread has a step to make.
\<close>

lemma serves_bounded:
  assumes "serves step own running n s t" "running s" "stopping s"
  shows "running t \<and> stopping t \<and> n + rank t \<le> rank s \<and> (\<exists>u. own t u)"
proof -
  have "running t \<and> stopping t \<and> n + rank t \<le> rank s"
    using assms
  proof induction
    case (serves_own n s t u)
    then show ?case
      using wind_down [of t u] stop_kept [OF own_step [of t u]] by force
  next
    case (serves_other n s t u)
    then show ?case
      using others [of t u] stop_kept [of t u] by force
  qed simp
  then show ?thesis using progress [of t] by blast
qed

end

end
