(* ===== verification/RpcExchange.thy ===== *)
theory RpcExchange
  imports Tickets Lifecycle
begin

text \<open>
  Clients, servers and the broker between them as one system.  Any number of clients call at the
  same time, any number of servers take requests, and the broker may lose, repeat, reorder and
  delay what it carries: a request can be served many times or never, by any server, and a reply
  can reach the dispatcher of any client that reads from its address, again and again.  The
  locale says when the answers still go to the calls they belong to, whatever the broker does.
\<close>

section \<open>The system\<close>

text \<open>
  \<open>xc_calls\<close> are the messages sent so far, each with the reply address and the id of its call and
  the caller's bytes; \<open>xc_turns\<close> are the messages that were served, each with what the serving
  side was (its callback, what its library answered); \<open>xc_replies\<close> are the replies published, and
  \<open>xc_events\<close> the events on the tables of the clients that read from an address.
\<close>

record ('a, 'q, 'x, 'r) exchange =
  xc_calls :: "('a \<times> string \<times> bytes \<times> 'q) list"
  xc_turns :: "('q \<times> 'x) list"
  xc_replies :: "'r list"
  xc_events :: "'a \<Rightarrow> pr_event list"

definition xc_init :: "('a, 'q, 'x, 'r) exchange" where
  "xc_init = \<lparr>xc_calls = [], xc_turns = [], xc_replies = [], xc_events = (\<lambda>_. [])\<rparr>"

fun is_completion :: "pr_event \<Rightarrow> bool" where
  "is_completion (EComplete i pl) = True"
| "is_completion _ = False"

text \<open>The ids in use at an address.\<close>

definition xc_used :: "('a, 'q, 'x, 'r) exchange \<Rightarrow> ('a \<times> string) set" where
  "xc_used s = (\<lambda>(a, i, d, q). (a, i)) ` set (xc_calls s)"

text \<open>
  \<open>ids\<close> are the ids that the plugin makes, \<open>home l\<close> is the address where a sender \<open>l\<close> expects its
  replies and \<open>request\<close> the messages that a call of it sends; \<open>serve\<close> are the replies of one turn of
  a server, \<open>inbox\<close> is the address of a reply and \<open>deliver\<close> what a dispatcher does with it.  A call
  has an id of its own among those that share its reply address.  Everything else that happens
  to a table, registrations, failures, closing, removals, is open to every thread at any time.
\<close>

inductive xc_step ::
  "(string \<Rightarrow> bool) \<Rightarrow> ('l \<Rightarrow> 'a) \<Rightarrow> ('l \<Rightarrow> string \<Rightarrow> buf \<Rightarrow> 'q list) \<Rightarrow> ('x \<Rightarrow> 'q \<Rightarrow> 'r list) \<Rightarrow>
     ('r \<Rightarrow> 'a) \<Rightarrow> ('y \<Rightarrow> 'r \<Rightarrow> pr_event list) \<Rightarrow>
     ('a, 'q, 'x, 'r) exchange \<Rightarrow> ('a, 'q, 'x, 'r) exchange \<Rightarrow> bool"
  for ids home request serve inbox deliver where
  xc_call: "ids i \<Longrightarrow> (home l, i) \<notin> xc_used s \<Longrightarrow>
     xc_step ids home request serve inbox deliver s
       (s\<lparr>xc_calls := map (\<lambda>q. (home l, i, buf_bytes d, q)) (request l i d) @ xc_calls s\<rparr>)"
| xc_serve: "(a, i, d, q) \<in> set (xc_calls s) \<Longrightarrow>
     xc_step ids home request serve inbox deliver s
       (s\<lparr>xc_turns := (q, x) # xc_turns s, xc_replies := serve x q @ xc_replies s\<rparr>)"
| xc_deliver: "r \<in> set (xc_replies s) \<Longrightarrow>
     xc_step ids home request serve inbox deliver s
       (s\<lparr>xc_events := (xc_events s)(inbox r := xc_events s (inbox r) @ deliver y r)\<rparr>)"
| xc_other: "\<not> is_completion e \<Longrightarrow>
     xc_step ids home request serve inbox deliver s
       (s\<lparr>xc_events := (xc_events s)(a := xc_events s a @ [e])\<rparr>)"

section \<open>Replies never cross\<close>

text \<open>
  What a server says about a request and what a dispatcher makes of that goes to the reply
  address of the request, concerns the id of the request only, and is what the server's callback
  answered to the bytes of the request.
\<close>

locale rpc_exchange =
  fixes ids :: "string \<Rightarrow> bool"
    and home :: "'l \<Rightarrow> 'a"
    and request :: "'l \<Rightarrow> string \<Rightarrow> buf \<Rightarrow> 'q list"
    and serve :: "'x \<Rightarrow> 'q \<Rightarrow> 'r list"
    and inbox :: "'r \<Rightarrow> 'a"
    and deliver :: "'y \<Rightarrow> 'r \<Rightarrow> pr_event list"
    and answer :: "'x \<Rightarrow> bytes \<Rightarrow> bytes option"
  assumes reply_answers: "ids i \<Longrightarrow> q \<in> set (request l i d) \<Longrightarrow> r \<in> set (serve x q) \<Longrightarrow>
    EComplete j p \<in> set (deliver y r) \<Longrightarrow>
    inbox r = home l \<and> j = i \<and> answer x (buf_bytes d) = Some p"
begin

definition answered :: "('a, 'q, 'x, 'r) exchange \<Rightarrow> 'a \<Rightarrow> string \<Rightarrow> bytes \<Rightarrow> bool" where
  "answered s a i p \<longleftrightarrow> (\<exists>d q x. (a, i, d, q) \<in> set (xc_calls s) \<and> (q, x) \<in> set (xc_turns s) \<and>
     answer x d = Some p)"

text \<open>The messages are those of calls with different ids, and every reply answers one of them.\<close>

definition xc_inv :: "('a, 'q, 'x, 'r) exchange \<Rightarrow> bool" where
  "xc_inv s \<longleftrightarrow>
     (\<forall>(a, i, d, q) \<in> set (xc_calls s).
        ids i \<and> (\<exists>l b. home l = a \<and> q \<in> set (request l i b) \<and> buf_bytes b = d) \<and>
        (\<forall>(a', j, e, _) \<in> set (xc_calls s). a' = a \<longrightarrow> j = i \<longrightarrow> e = d)) \<and>
     (\<forall>r \<in> set (xc_replies s). \<forall>y j p.
        EComplete j p \<in> set (deliver y r) \<longrightarrow> answered s (inbox r) j p) \<and>
     (\<forall>a j p. EComplete j p \<in> set (xc_events s a) \<longrightarrow> answered s a j p)"

lemma answered_mono:
  "answered s a i p \<Longrightarrow> set (xc_calls s) \<subseteq> set (xc_calls s') \<Longrightarrow>
     set (xc_turns s) \<subseteq> set (xc_turns s') \<Longrightarrow> answered s' a i p"
  unfolding answered_def by blast

lemma xc_inv_init: "xc_inv xc_init"
  by (simp add: xc_inv_def xc_init_def)

lemma xc_inv_call:
  assumes "xc_inv s" "ids i" "(home l, i) \<notin> xc_used s"
  shows "xc_inv (s\<lparr>xc_calls := map (\<lambda>q. (home l, i, buf_bytes d, q)) (request l i d) @ xc_calls s\<rparr>)"
proof -
  let ?s = "s\<lparr>xc_calls := map (\<lambda>q. (home l, i, buf_bytes d, q)) (request l i d) @ xc_calls s\<rparr>"
  have keep: "answered ?s a j p" if "answered s a j p" for a j p
    using that by (rule answered_mono) auto
  have other: "(a, j) \<noteq> (home l, i)" if "(a, j, e, q) \<in> set (xc_calls s)" for a j e q
    using assms(3) that by (force simp: xc_used_def)
  have old: "ids j" "\<exists>l. home l = a \<and> (\<exists>b. q \<in> set (request l j b) \<and> buf_bytes b = e)"
    if "(a, j, e, q) \<in> set (xc_calls s)" for a j e q
    using assms(1) that by (auto simp: xc_inv_def)
  have same: "e = e'" if "(a, j, e, q) \<in> set (xc_calls s)" "(a, j, e', q') \<in> set (xc_calls s)"
    for a j e q e' q'
    using assms(1) that by (auto simp: xc_inv_def)
  have calls: "\<forall>(a, j, e, q) \<in> set (xc_calls ?s).
      ids j \<and> (\<exists>l b. home l = a \<and> q \<in> set (request l j b) \<and> buf_bytes b = e) \<and>
      (\<forall>(a', j', e', _) \<in> set (xc_calls ?s). a' = a \<longrightarrow> j' = j \<longrightarrow> e' = e)"
    using assms(2) by (auto dest: other same intro: old)
  with keep assms(1) show ?thesis unfolding xc_inv_def by simp
qed

lemma xc_inv_serve:
  assumes "xc_inv s" "(a, i, d, q) \<in> set (xc_calls s)"
  shows "xc_inv (s\<lparr>xc_turns := (q, x) # xc_turns s, xc_replies := serve x q @ xc_replies s\<rparr>)"
proof -
  let ?s = "s\<lparr>xc_turns := (q, x) # xc_turns s, xc_replies := serve x q @ xc_replies s\<rparr>"
  have keep: "answered ?s b j p" if "answered s b j p" for b j p
    using that by (rule answered_mono) auto
  have "answered ?s (inbox r) j p"
    if r: "r \<in> set (serve x q)" "EComplete j p \<in> set (deliver y r)" for r y j p
  proof -
    from assms obtain l b where "ids i" "home l = a" "q \<in> set (request l i b)" "buf_bytes b = d"
      by (force simp: xc_inv_def)
    with reply_answers r have "inbox r = a" "j = i" "answer x d = Some p" by blast+
    with assms(2) show ?thesis by (auto simp: answered_def)
  qed
  with keep assms(1) show ?thesis unfolding xc_inv_def by auto
qed

lemma xc_inv_step:
  "xc_step ids home request serve inbox deliver s s' \<Longrightarrow> xc_inv s \<Longrightarrow> xc_inv s'"
proof (induction rule: xc_step.induct)
  case (xc_call i l s d)
  then show ?case by (intro xc_inv_call)
next
  case (xc_serve a i d q s x)
  then show ?case by (intro xc_inv_serve)
next
  case (xc_deliver r s y)
  then show ?case by (auto simp: xc_inv_def answered_def)
next
  case (xc_other e s a)
  then show ?case by (auto simp: xc_inv_def answered_def)
qed

lemma xc_reachable_inv:
  "reaches (xc_step ids home request serve inbox deliver) xc_init s \<Longrightarrow> xc_inv s"
  by (erule reaches_invariant) (auto intro: xc_inv_init xc_inv_step)

text \<open>
  A call whose id was completed among the events at its address got what a callback answered to
  its own bytes, in a turn that served one of its own messages.
\<close>

lemma replies_never_cross:
  assumes "reaches (xc_step ids home request serve inbox deliver) xc_init s"
    and "(a, i, d, q) \<in> set (xc_calls s)" "set during \<subseteq> set (xc_events s a)"
    and "first_settle i during = Done p"
  shows "\<exists>q x. (a, i, d, q) \<in> set (xc_calls s) \<and> (q, x) \<in> set (xc_turns s) \<and> answer x d = Some p"
proof -
  have inv: "xc_inv s" by (rule xc_reachable_inv [OF assms(1)])
  from first_settle_Done [OF assms(4)] assms(3) have "EComplete i p \<in> set (xc_events s a)" by blast
  with inv obtain e q' x where "(a, i, e, q') \<in> set (xc_calls s)" "(q', x) \<in> set (xc_turns s)"
    "answer x e = Some p"
    unfolding xc_inv_def answered_def by blast
  moreover from inv this(1) assms(2) have "e = d" by (auto simp: xc_inv_def)
  ultimately show ?thesis by blast
qed

end

section \<open>Callbacks and calls\<close>

text \<open>The bytes with which a callback accepts a request: what it wrote last before it returned.\<close>

definition callback_answer ::
  "(buf \<Rightarrow> bytes \<Rightarrow> bytes) \<Rightarrow> (bytes \<Rightarrow> (buf list \<times> bool) result) option \<Rightarrow> bytes \<Rightarrow> bytes option"
where
  "callback_answer write process d =
     (case process of
        None \<Rightarrow> None
      | Some f \<Rightarrow>
          (case f d of
             Inr (writes, True) \<Rightarrow> Some (fold write writes [])
           | _ \<Rightarrow> None))"

lemma callback_answer_iff:
  "callback_answer write process d = Some r \<longleftrightarrow>
     (\<exists>f writes. process = Some f \<and> f d = Inr (writes, True) \<and> r = fold write writes [])"
  by (auto simp: callback_answer_def split: option.splits sum.splits bool.splits)

text \<open>One call whose request is served once and whose reply is delivered once.\<close>

lemma xc_one_call:
  fixes home :: "'l \<Rightarrow> 'a" and request :: "'l \<Rightarrow> string \<Rightarrow> buf \<Rightarrow> 'q list"
    and serve :: "'x \<Rightarrow> 'q \<Rightarrow> 'r list" and deliver :: "'y \<Rightarrow> 'r \<Rightarrow> pr_event list"
  assumes "ids i" "q \<in> set (request l i d)" "r \<in> set (serve x q)"
  shows "\<exists>s. reaches (xc_step ids home request serve inbox deliver) xc_init s \<and>
    (home l, i, buf_bytes d, q) \<in> set (xc_calls s) \<and>
    set (deliver y r) \<subseteq> set (xc_events s (inbox r))"
proof -
  let ?step = "xc_step ids home request serve inbox deliver"
  let ?s = "xc_init :: ('a, 'q, 'x, 'r) exchange"
  define s1 where
    "s1 = ?s\<lparr>xc_calls := map (\<lambda>q. (home l, i, buf_bytes d, q)) (request l i d) @ xc_calls ?s\<rparr>"
  define s2 where "s2 = s1\<lparr>xc_turns := (q, x) # xc_turns s1, xc_replies := serve x q @ xc_replies s1\<rparr>"
  define s3 where "s3 = s2
    \<lparr>xc_events := (xc_events s2)(inbox r := xc_events s2 (inbox r) @ deliver y r)\<rparr>"
  have "?step xc_init s1"
    unfolding s1_def by (rule xc_call) (simp_all add: assms(1) xc_used_def xc_init_def)
  moreover have call: "(home l, i, buf_bytes d, q) \<in> set (xc_calls s1)"
    using assms(2) by (simp add: s1_def)
  then have "?step s1 s2" unfolding s2_def by (rule xc_serve)
  moreover have "?step s2 s3" unfolding s3_def by (rule xc_deliver) (simp add: s2_def assms(3))
  ultimately have "reaches ?step xc_init s3" by (blast intro: reaches_step reaches_refl)
  with call show ?thesis by (intro exI [of _ s3]) (simp add: s3_def s2_def)
qed

text \<open>A wait that ends with a reply ends with the first settlement of its id.\<close>

lemma wait_reply_settled:
  assumes "pending_wf p0" "Register i p0 = Inr (t, p)" "leaves i es"
    and "fst (Wait t (fold pr_apply es p)) = Inr (Some r)"
  shows "first_settle i es = Done r"
  using wait_after_run(1) [OF assms(1-3)] assms(4) by (auto split: outcome.splits)

end
