(* ===== verification/Json.thy ===== *)
theory Json
  imports Prelude
begin

text \<open>
  JSON values and the configuration readers the plugins share.

  \<^verbatim>\<open>nlohmann::json\<close> is a library: its parser is a parameter of the model (the field
  \<open>json_parse\<close> of the environment), and so are the file system and the process
  environment.  The value type follows the library's documented value kinds: an integer
  literal is stored as a signed 64-bit number when negative and as an unsigned one
  otherwise, a floating-point literal is kept as its text, whose truncation to an integer
  is a parameter where the code asks for one, and an object iterates over its members in the order of the list.
\<close>

section \<open>Values\<close>

datatype json =
    JNull
  | JBool bool
  | JInteger u64
  | JUnsigned u64
  | JFloat string
  | JString string
  | JArray "json list"
  | JObject "(string \<times> json) list"

fun is_object :: "json \<Rightarrow> bool" where
  "is_object (JObject kvs) = True"
| "is_object _ = False"

fun is_string :: "json \<Rightarrow> bool" where
  "is_string (JString s) = True"
| "is_string _ = False"

fun is_number_integer :: "json \<Rightarrow> bool" where
  "is_number_integer (JInteger w) = True"
| "is_number_integer (JUnsigned w) = True"
| "is_number_integer _ = False"

text \<open>\<^verbatim>\<open>find\<close>: an iterator to the member, or \<^verbatim>\<open>end()\<close>; always \<^verbatim>\<open>end()\<close> on a non-object.\<close>

fun jfind :: "json \<Rightarrow> string \<Rightarrow> json option" where
  "jfind (JObject kvs) k = map_of kvs k"
| "jfind _ k = None"

definition jcontains :: "json \<Rightarrow> string \<Rightarrow> bool" where
  "jcontains j k \<longleftrightarrow> jfind j k \<noteq> None"

text \<open>The string under a key, if the member exists and is a string.\<close>

definition jstring_at :: "json \<Rightarrow> string \<Rightarrow> string option" where
  "jstring_at j k = (case jfind j k of Some (JString s) \<Rightarrow> Some s | _ \<Rightarrow> None)"

text \<open>\<^verbatim>\<open>get<std::int64_t>()\<close>: a cast from the stored 64 bits, whatever their sign.\<close>

fun get_int64 :: "json \<Rightarrow> int" where
  "get_int64 (JInteger w) = sint w"
| "get_int64 (JUnsigned w) = sint w"
| "get_int64 _ = 0"

text \<open>
  \<^verbatim>\<open>get<int>()\<close>: every arithmetic kind is cast, anything else is a type error.
\<close>

definition type_error :: exn where
  "type_error = LibError ''[json.exception.type_error.302]''"

fun get_int32 :: "(string \<Rightarrow> int) \<Rightarrow> json \<Rightarrow> int result" where
  "get_int32 trunc (JInteger w) = Inr (sint (ucast w :: 32 word))"
| "get_int32 trunc (JUnsigned w) = Inr (sint (ucast w :: 32 word))"
| "get_int32 trunc (JFloat s) = Inr (trunc s)"
| "get_int32 trunc (JBool b) = Inr (if b then 1 else 0)"
| "get_int32 trunc _ = Inl type_error"

text \<open>\<^verbatim>\<open>value(key, default)\<close> at an int and at a string.\<close>

definition value_int :: "(string \<Rightarrow> int) \<Rightarrow> json \<Rightarrow> string \<Rightarrow> int \<Rightarrow> int result" where
  "value_int trunc j key d = (case jfind j key of None \<Rightarrow> Inr d | Some v \<Rightarrow> get_int32 trunc v)"

definition value_string :: "json \<Rightarrow> string \<Rightarrow> string \<Rightarrow> string result" where
  "value_string j key d =
     (case jfind j key of
        None \<Rightarrow> Inr d
      | Some (JString s) \<Rightarrow> Inr s
      | Some _ \<Rightarrow> Inl type_error)"

text \<open>The integer an integer literal denotes.\<close>

fun int_value :: "json \<Rightarrow> int" where
  "int_value (JInteger w) = sint w"
| "int_value (JUnsigned w) = uint w"
| "int_value _ = 0"

lemma sint_nonneg_eq_uint:
  fixes w :: u64
  assumes "0 \<le> sint w"
  shows "sint w = uint w"
proof -
  have sint: "sint w = signed_take_bit 63 (uint w)"
    by (simp add: sint_uint)
  with assms have bit: "\<not> bit (uint w) 63"
    by (simp add: signed_take_bit_nonnegative_iff)
  have "uint w = take_bit (Suc 63) (uint w)"
    using uint_lt2p [of w] by (simp add: take_bit_int_eq_self)
  also have "\<dots> = take_bit 63 (uint w)"
    using bit by (subst take_bit_Suc_from_most) simp
  finally show ?thesis
    using sint bit by (simp add: signed_take_bit_eq_if_positive)
qed

lemma uint_lt_sint_eq:
  fixes w :: u64
  assumes "uint w < 2 ^ 63"
  shows "sint w = uint w"
proof -
  have "- (2 ^ 63) \<le> uint w" by (rule order_trans [of _ 0]) simp_all
  with assms have "signed_take_bit 63 (uint w) = uint w"
    by (rule signed_take_bit_int_eq_self [rotated])
  then show ?thesis by (simp add: sint_uint)
qed

text \<open>The cast never maps a value outside the range of positive 63-bit numbers into it.\<close>

lemma get_int64_in_range:
  assumes "b < 2 ^ 63"
  shows "0 < get_int64 j \<and> get_int64 j \<le> b \<longleftrightarrow> 0 < int_value j \<and> int_value j \<le> b"
proof (cases j)
  case (JUnsigned w)
  then show ?thesis
    using assms sint_nonneg_eq_uint [of w] uint_lt_sint_eq [of w] by fastforce
qed auto

lemma get_int64_eq:
  "0 < get_int64 j \<Longrightarrow> get_int64 j = int_value j"
  by (cases j) (auto intro: sint_nonneg_eq_uint)

section \<open>The environment of the plugins\<close>

record cpp_env =
  json_parse :: "string \<Rightarrow> json result"
  file_exists :: "string \<Rightarrow> bool"
  read_file :: "string \<Rightarrow> string option"
  getenv :: "string \<Rightarrow> string option"

section \<open>Readers shared by the plugins\<close>

text \<open>
  \<^verbatim>\<open>ReadString\<close>: the value of the member when it is a string, otherwise the target is
  left alone.
\<close>

definition ReadString :: "json \<Rightarrow> string \<Rightarrow> string \<Rightarrow> string" where
  "ReadString node key target =
     (case jfind node key of Some (JString s) \<Rightarrow> s | _ \<Rightarrow> target)"

definition ReadPositiveUint :: "string \<Rightarrow> json \<Rightarrow> string \<Rightarrow> u32 \<Rightarrow> u32 result" where
  "ReadPositiveUint plugin node key target =
     (case jfind node key of
        None \<Rightarrow> Inr target
      | Some v \<Rightarrow>
          if \<not> is_number_integer v
          then Inl (RuntimeError (plugin @ '': '' @ quoted key @ '' must be an integer''))
          else
            let parsed = get_int64 v in
            if parsed \<le> 0 \<or> parsed > 2 ^ 32 - 1
            then Inl (RuntimeError (plugin @ '': invalid value for '' @ quoted key))
            else Inr (word_of_int parsed))"

definition ReadBool :: "string \<Rightarrow> json \<Rightarrow> string \<Rightarrow> bool \<Rightarrow> bool result" where
  "ReadBool plugin node key target =
     (case jfind node key of
        None \<Rightarrow> Inr target
      | Some (JBool b) \<Rightarrow> Inr b
      | Some _ \<Rightarrow> Inl (RuntimeError (plugin @ '': '' @ quoted key @ '' must be a boolean'')))"

text \<open>
  \<^verbatim>\<open>ParseJsonSource\<close> of the SQS and Pub/Sub plugins: the text itself, or the contents
  of the file it names.
\<close>

definition ParseJsonSource :: "string \<Rightarrow> cpp_env \<Rightarrow> string \<Rightarrow> json result" where
  "ParseJsonSource plugin env source =
     (if source = [] then Inl (RuntimeError (plugin @ '': empty configuration''))
      else case json_parse env source of
        Inr j \<Rightarrow> Inr j
      | Inl _ \<Rightarrow>
          (case read_file env source of
             None \<Rightarrow> Inl (RuntimeError (plugin @
               '': configuration is neither valid JSON nor a readable file''))
           | Some contents \<Rightarrow> json_parse env contents))"

text \<open>
  \<^verbatim>\<open>ParseJsonConfigSource\<close> of the RabbitMQ and Service Bus clients: the same search
  with every failure turned into an absent configuration.
\<close>

definition ParseJsonConfigSource :: "cpp_env \<Rightarrow> string \<Rightarrow> json option" where
  "ParseJsonConfigSource env source =
     (if source = [] then None
      else case json_parse env source of
        Inr j \<Rightarrow> Some j
      | Inl _ \<Rightarrow>
          if \<not> file_exists env source then None
          else (case read_file env source of
             None \<Rightarrow> None
           | Some contents \<Rightarrow>
               (case json_parse env contents of Inr j \<Rightarrow> Some j | Inl _ \<Rightarrow> None)))"

lemma ReadString_string_at:
  "ReadString node key target = (case jstring_at node key of Some s \<Rightarrow> s | None \<Rightarrow> target)"
  by (simp add: ReadString_def jstring_at_def split: option.split json.split)

text \<open>
  A number is accepted when the member is absent (the target stays) or an integer literal
  that fits: the result is then exactly that integer, never a truncation of another one.
\<close>

lemma ReadPositiveUint_Inr_iff:
  "ReadPositiveUint plugin node key target = Inr w \<longleftrightarrow>
     (case jfind node key of
        None \<Rightarrow> w = target
      | Some v \<Rightarrow> is_number_integer v \<and> 0 < int_value v \<and> int_value v < 2 ^ 32 \<and>
          uint w = int_value v)"
proof (cases "jfind node key")
  case None
  then show ?thesis by (auto simp: ReadPositiveUint_def)
next
  case (Some v)
  have range: "0 < get_int64 v \<and> get_int64 v \<le> 2 ^ 32 - 1 \<longleftrightarrow>
      0 < int_value v \<and> int_value v \<le> 2 ^ 32 - 1"
    by (rule get_int64_in_range) simp
  have fits: "uint (word_of_int k :: u32) = k" if "0 < k" "k \<le> 2 ^ 32 - 1" for k
    using that by (simp add: uint_word_of_int)
  have "ReadPositiveUint plugin node key target = Inr w \<longleftrightarrow>
      is_number_integer v \<and> 0 < get_int64 v \<and> get_int64 v \<le> 2 ^ 32 - 1 \<and>
      w = word_of_int (get_int64 v)"
    using Some by (auto simp: ReadPositiveUint_def Let_def)
  also have "\<dots> \<longleftrightarrow> is_number_integer v \<and> 0 < int_value v \<and> int_value v \<le> 2 ^ 32 - 1 \<and>
      uint w = int_value v"
    using range get_int64_eq [of v] fits by (metis word_of_int_uint)
  finally show ?thesis using Some by auto
qed

lemma ReadPositiveUint_pos:
  "ReadPositiveUint plugin node key target = Inr w \<Longrightarrow> 0 < target \<Longrightarrow> 0 < w"
  by (auto simp: ReadPositiveUint_Inr_iff word_less_def split: option.splits)

lemma ReadBool_Inr_iff:
  "ReadBool plugin node key target = Inr b \<longleftrightarrow>
     (case jfind node key of None \<Rightarrow> b = target | Some v \<Rightarrow> v = JBool b)"
  by (auto simp: ReadBool_def split: option.split json.split)

section \<open>Searching a document for the plugin's node\<close>

text \<open>
  Four plugins search the document for the object that configures them with the same
  recursion: at an object, decide locally (\<open>select\<close>), else try the members in order; at
  an array, try the elements in order.  The interface of such a search and what it finds.
\<close>

lemma size_member [termination_simp]: "x \<in> set kvs \<Longrightarrow> size (snd x) < Suc (size_list (size_prod (\<lambda>_. 0) size) kvs)"
  by (induction kvs) auto

text \<open>The objects of a document in the order in which the search visits them.\<close>

fun objects_of :: "json \<Rightarrow> json list" where
  "objects_of (JObject kvs) = JObject kvs # concat (map (\<lambda>x. objects_of (snd x)) kvs)"
| "objects_of (JArray js) = concat (map objects_of js)"
| "objects_of _ = []"

lemma objects_of_is_object: "n \<in> set (objects_of j) \<Longrightarrow> is_object n"
  by (induction j rule: objects_of.induct) auto

locale node_search =
  fixes find_node :: "json \<Rightarrow> json option"
    and select :: "json \<Rightarrow> json option"
  assumes find_object: "find_node (JObject kvs) =
      (case select (JObject kvs) of
         Some n \<Rightarrow> Some n
       | None \<Rightarrow> first_some (\<lambda>x. find_node (snd x)) kvs)"
    and find_array: "find_node (JArray js) = first_some find_node js"
    and find_other: "\<not> is_object j \<Longrightarrow> (\<nexists>js. j = JArray js) \<Longrightarrow> find_node j = None"
begin

lemma find_first: "find_node j = first_some select (objects_of j)"
proof (induction j rule: objects_of.induct)
  case (1 kvs)
  then have "first_some (\<lambda>x. find_node (snd x)) kvs =
      first_some (\<lambda>x. first_some select (objects_of (snd x))) kvs"
    by (intro first_some_cong) auto
  then show ?case
    by (simp add: find_object first_some_concat first_some_map comp_def split: option.split)
next
  case (2 js)
  then have "first_some find_node js = first_some (\<lambda>x. first_some select (objects_of x)) js"
    by (intro first_some_cong) auto
  then show ?case by (simp add: find_array first_some_concat first_some_map comp_def)
qed (simp_all add: find_other)

lemma find_selected: "find_node j = Some n \<Longrightarrow> \<exists>m \<in> set (objects_of j). select m = Some n"
  by (auto simp: find_first dest: first_some_SomeD)

lemma find_None_iff: "find_node j = None \<longleftrightarrow> (\<forall>m \<in> set (objects_of j). select m = None)"
  by (simp add: find_first first_some_None_iff)

end

end
