(* ===== verification/RelaxedJson.thy ===== *)
theory RelaxedJson
  imports Json
begin

text \<open>
  The relaxed JSON of the RabbitMQ and Service Bus servers: both accept an equals sign for the
  colon between a key and its value and rewrite it before they parse the text
  (\<^verbatim>\<open>normalizeRelaxedJson\<close> of \<^verbatim>\<open>RabbitMqServer.cpp\<close> and
  \<^verbatim>\<open>ServiceBusServer.cpp\<close>, the same code twice).
\<close>

section \<open>The scanner\<close>

abbreviation quote_char :: char where "quote_char \<equiv> CHR 0x22"
abbreviation backslash :: char where "backslash \<equiv> CHR 0x5C"

text \<open>The loop, with \<^verbatim>\<open>inString\<close> and \<^verbatim>\<open>prev\<close>, which holds the rewritten character.\<close>

fun relax_loop :: "bool \<Rightarrow> char \<Rightarrow> string \<Rightarrow> string" where
  "relax_loop inString prev [] = []"
| "relax_loop inString prev (c # cs) =
     (let inString = (if c = quote_char \<and> prev \<noteq> backslash then \<not> inString else inString);
          c = (if \<not> inString \<and> c = CHR ''='' then CHR '':'' else c)
      in c # relax_loop inString c cs)"

definition normalizeRelaxedJson :: "string \<Rightarrow> string" where
  "normalizeRelaxedJson jsonSource = relax_loop False (CHR 0x00) jsonSource"

definition getOptionalString :: "json \<Rightarrow> string \<Rightarrow> string \<Rightarrow> string" where
  "getOptionalString node key fallback =
     (case jfind node key of Some (JString s) \<Rightarrow> s | _ \<Rightarrow> fallback)"

lemma getOptionalString_ReadString: "getOptionalString = ReadString"
  by (intro ext) (simp add: getOptionalString_def ReadString_def)

section \<open>The reference scanner\<close>

text \<open>
  The strings of a JSON text by the grammar of JSON: a backslash inside a string takes the next
  character with it.
\<close>

datatype lex_state = Outside | InString | Escaped

fun lex_step :: "lex_state \<Rightarrow> char \<Rightarrow> lex_state" where
  "lex_step Outside c = (if c = quote_char then InString else Outside)"
| "lex_step InString c =
     (if c = backslash then Escaped else if c = quote_char then Outside else InString)"
| "lex_step Escaped c = InString"

fun relax_reference :: "lex_state \<Rightarrow> string \<Rightarrow> string" where
  "relax_reference st [] = []"
| "relax_reference st (c # cs) =
     (if st = Outside \<and> c = CHR ''='' then CHR '':'' else c) # relax_reference (lex_step st c) cs"

text \<open>Backslashes occur in strings only, and none is itself escaped.\<close>

fun plain_escapes :: "lex_state \<Rightarrow> string \<Rightarrow> bool" where
  "plain_escapes st [] = True"
| "plain_escapes st (c # cs) =
     ((c = backslash \<longrightarrow> st = InString) \<and> plain_escapes (lex_step st c) cs)"

text \<open>No equals sign outside a string: the text is not relaxed at all.\<close>

fun strict_text :: "lex_state \<Rightarrow> string \<Rightarrow> bool" where
  "strict_text st [] = True"
| "strict_text st (c # cs) =
     ((st = Outside \<longrightarrow> c \<noteq> CHR ''='') \<and> strict_text (lex_step st c) cs)"

lemma relax_loop_reference:
  "plain_escapes st s \<Longrightarrow> (inString \<longleftrightarrow> st \<noteq> Outside) \<Longrightarrow> (prev = backslash \<longleftrightarrow> st = Escaped) \<Longrightarrow>
    relax_loop inString prev s = relax_reference st s"
proof (induction s arbitrary: st inString prev)
  case (Cons c cs)
  show ?case
  proof (cases st)
    case Outside
    with Cons.prems have "c \<noteq> backslash" by auto
    with Cons.prems Outside show ?thesis
      by (auto simp: Let_def intro!: Cons.IH)
  next
    case InString
    with Cons.prems show ?thesis
      by (auto simp: Let_def intro!: Cons.IH)
  next
    case Escaped
    with Cons.prems show ?thesis
      by (auto simp: Let_def intro!: Cons.IH)
  qed
qed simp

lemma relax_reference_strict: "strict_text st s \<Longrightarrow> relax_reference st s = s"
  by (induction s arbitrary: st) auto

lemma length_relax_loop: "length (relax_loop inString prev s) = length s"
  by (induction s arbitrary: inString prev) (auto simp: Let_def)

text \<open>
  C37. Relaxed JSON is read as intended, up to escaped backslashes.  On every text without an
  escaped backslash the rewriting changes exactly the equals signs outside the strings of the
  text, so strict JSON passes unchanged.  After an escaped backslash at the end of a string the
  scanner takes strings for structure: an equals sign inside a later string is rewritten.
\<close>
theorem normalizeRelaxedJson_spec:
  "(plain_escapes Outside s \<longrightarrow> normalizeRelaxedJson s = relax_reference Outside s) \<and>
   (plain_escapes Outside s \<and> strict_text Outside s \<longrightarrow> normalizeRelaxedJson s = s) \<and>
   (\<exists>t. strict_text Outside t \<and> normalizeRelaxedJson t \<noteq> t)"
proof -
  have 1: "normalizeRelaxedJson s = relax_reference Outside s" if "plain_escapes Outside s"
    unfolding normalizeRelaxedJson_def using that by (intro relax_loop_reference) simp_all
  let ?t = "[CHR ''{'', quote_char, CHR ''a'', quote_char, CHR '':'',
    quote_char, backslash, backslash, quote_char, CHR '','',
    quote_char, CHR ''b'', quote_char, CHR '':'', quote_char, CHR ''='', quote_char, CHR ''}'']"
  have "strict_text Outside ?t \<and> normalizeRelaxedJson ?t \<noteq> ?t"
    by (simp add: normalizeRelaxedJson_def Let_def)
  then have "\<exists>t. strict_text Outside t \<and> normalizeRelaxedJson t \<noteq> t" ..
  then show ?thesis using 1 relax_reference_strict by auto
qed

lemma normalizeRelaxedJson_spec_witness:
  "normalizeRelaxedJson [quote_char, CHR ''='', quote_char, CHR ''='', CHR ''1''] =
     [quote_char, CHR ''='', quote_char, CHR '':'', CHR ''1'']"
  using normalizeRelaxedJson_spec [of "[quote_char, CHR ''='', quote_char, CHR ''='', CHR ''1'']"]
  by simp

end
