(* ===== verification/RabbitMqConfig.thy ===== *)
theory RabbitMqConfig
  imports RelaxedJson
begin

text \<open>
  The configuration of the RabbitMQ plugin: the client's search and its silent reader
  (\<^verbatim>\<open>FindRabbitMqNode\<close>, \<^verbatim>\<open>ApplyRabbitMqConfig\<close> of \<^verbatim>\<open>RabbitMqClient.cpp\<close>), the
  server's strict reader (\<^verbatim>\<open>applyConfigFromJson\<close> of \<^verbatim>\<open>RabbitMqServer.cpp\<close>) and the
  percent encoding of the parts of an AMQP address.
\<close>

section \<open>Configurations\<close>

record rabbit_client_config =
  rc_host :: string
  rc_port :: u16
  rc_queue :: string
  rc_user :: string
  rc_password :: string
  rc_vhost :: string
  rc_rpcTimeoutMs :: u32

definition default_rabbit_client :: rabbit_client_config where
  "default_rabbit_client =
    \<lparr>rc_host = [], rc_port = 0, rc_queue = [], rc_user = [], rc_password = [], rc_vhost = [],
     rc_rpcTimeoutMs = 30000\<rparr>"

record rabbit_server_config =
  rs_name :: string
  rs_host :: string
  rs_port :: u16
  rs_queue :: string
  rs_user :: string
  rs_password :: string
  rs_vhost :: string
  rs_rpcTimeoutMs :: u32

definition default_rabbit_server :: rabbit_server_config where
  "default_rabbit_server =
    \<lparr>rs_name = [], rs_host = [], rs_port = 0, rs_queue = [], rs_user = [], rs_password = [],
     rs_vhost = [], rs_rpcTimeoutMs = 0\<rparr>"

section \<open>The client's node\<close>

definition hasDedicatedRabbitKeys :: "json \<Rightarrow> bool" where
  "hasDedicatedRabbitKeys node \<longleftrightarrow>
     jcontains node ''queue'' \<or> jcontains node ''user'' \<or> jcontains node ''password'' \<or>
     jcontains node ''vhost'' \<or> jcontains node ''rpcTimeoutMs''"

definition isPluginChannel :: "json \<Rightarrow> bool" where
  "isPluginChannel node \<longleftrightarrow> jstring_at node ''type'' = Some ''plugin''"

definition rabbit_select :: "bool \<Rightarrow> json \<Rightarrow> json option" where
  "rabbit_select isRoot node =
     (case jfind node ''rabbitmq'' of
        Some (JObject kvs) \<Rightarrow> Some (JObject kvs)
      | _ \<Rightarrow>
          let hasHostAndPort = jcontains node ''host'' \<and> jcontains node ''port'' in
          if hasDedicatedRabbitKeys node \<or> (hasHostAndPort \<and> (isPluginChannel node \<or> isRoot))
          then Some node else None)"

fun FindRabbitMqNode :: "bool \<Rightarrow> json \<Rightarrow> json option" where
  "FindRabbitMqNode isRoot (JObject kvs) =
     (case rabbit_select isRoot (JObject kvs) of
        Some n \<Rightarrow> Some n
      | None \<Rightarrow> first_some (\<lambda>x. FindRabbitMqNode False (snd x)) kvs)"
| "FindRabbitMqNode isRoot (JArray js) = first_some (FindRabbitMqNode False) js"
| "FindRabbitMqNode isRoot _ = None"

interpretation rabbit_search: node_search "FindRabbitMqNode False" "rabbit_select False"
proof
  fix j :: json
  assume "\<not> is_object j" "\<nexists>js. j = JArray js"
  then show "FindRabbitMqNode False j = None" by (cases j) auto
qed simp_all

section \<open>The client's reader\<close>

text \<open>A number in the range \<open>1 .. b\<close>, or the target as it was.\<close>

definition read_in_range :: "json \<Rightarrow> string \<Rightarrow> int \<Rightarrow> ('a::len) word \<Rightarrow> 'a word" where
  "read_in_range node key b target =
     (case jfind node key of
        Some v \<Rightarrow>
          if is_number_integer v \<and> 0 < get_int64 v \<and> get_int64 v \<le> b
          then word_of_int (get_int64 v) else target
      | None \<Rightarrow> target)"

definition ApplyRabbitMqConfig :: "json \<Rightarrow> rabbit_client_config \<Rightarrow> rabbit_client_config" where
  "ApplyRabbitMqConfig node config =
     (if \<not> is_object node then config
      else \<lparr>rc_host = ReadString node ''host'' (rc_host config),
            rc_port = read_in_range node ''port'' 65535 (rc_port config),
            rc_queue = ReadString node ''queue'' (rc_queue config),
            rc_user = ReadString node ''user'' (rc_user config),
            rc_password = ReadString node ''password'' (rc_password config),
            rc_vhost = ReadString node ''vhost'' (rc_vhost config),
            rc_rpcTimeoutMs =
              read_in_range node ''rpcTimeoutMs'' 4294967295 (rc_rpcTimeoutMs config)\<rparr>)"

definition rabbit_ApplyConfigSource ::
  "cpp_env \<Rightarrow> string \<Rightarrow> rabbit_client_config \<Rightarrow> rabbit_client_config" where
  "rabbit_ApplyConfigSource env configSource config =
     (case ParseJsonConfigSource env configSource of
        None \<Rightarrow> config
      | Some parsed \<Rightarrow>
          (case FindRabbitMqNode True parsed of
             None \<Rightarrow> config
           | Some node \<Rightarrow> ApplyRabbitMqConfig node config))"

section \<open>The server's reader\<close>

definition read_or_throw ::
  "json \<Rightarrow> string \<Rightarrow> int \<Rightarrow> exn \<Rightarrow> ('a::len) word \<Rightarrow> 'a word result" where
  "read_or_throw node key b e target =
     (case jfind node key of
        Some v \<Rightarrow>
          if is_number_integer v
          then (if get_int64 v \<le> 0 \<or> get_int64 v > b then Inl e else Inr (word_of_int (get_int64 v)))
          else Inr target
      | None \<Rightarrow> Inr target)"

definition rabbit_server_strings :: "json \<Rightarrow> rabbit_server_config" where
  "rabbit_server_strings parsed =
     default_rabbit_server
      \<lparr>rs_name := getOptionalString parsed ''name'' [],
       rs_host := getOptionalString parsed ''host'' [],
       rs_queue := getOptionalString parsed ''queue'' [],
       rs_user := getOptionalString parsed ''user'' [],
       rs_password := getOptionalString parsed ''password'' [],
       rs_vhost := getOptionalString parsed ''vhost'' []\<rparr>"

definition read_rabbit_server :: "json \<Rightarrow> rabbit_server_config result" where
  "read_rabbit_server parsed =
     (let config = rabbit_server_strings parsed in
      rbind (read_or_throw parsed ''port'' 65535
        (RuntimeError ''RabbitMQ consumer: invalid port in configuration'') (rs_port config)) (\<lambda>p.
      rbind (read_or_throw parsed ''rpcTimeoutMs'' 4294967295
        (RuntimeError ''RabbitMQ consumer: invalid rpcTimeoutMs in configuration'')
        (rs_rpcTimeoutMs config)) (\<lambda>t.
      if rs_queue config = []
      then Inl (RuntimeError (''RabbitMQ consumer: missing required field '' @ quoted ''queue''))
      else if rs_user config = []
      then Inl (RuntimeError (''RabbitMQ consumer: missing required field '' @ quoted ''user''))
      else Inr (config\<lparr>rs_port := p, rs_rpcTimeoutMs := t\<rparr>))))"

definition rabbit_applyConfigFromJson :: "cpp_env \<Rightarrow> string \<Rightarrow> rabbit_server_config result" where
  "rabbit_applyConfigFromJson env jsonSource =
     (if jsonSource = [] then Inl (RuntimeError ''RabbitMQ consumer: empty configuration JSON'')
      else rbind (json_parse env (normalizeRelaxedJson jsonSource)) (\<lambda>parsed.
        if \<not> is_object parsed
        then Inl (RuntimeError ''RabbitMQ consumer: configuration must be a JSON object'')
        else read_rabbit_server parsed))"

section \<open>Addresses\<close>

definition kHex :: string where "kHex = ''0123456789ABCDEF''"

definition uri_safe :: "char \<Rightarrow> bool" where
  "uri_safe c \<longleftrightarrow> is_lower c \<or> is_upper c \<or> is_digit c \<or> c \<in> set ''-_.~''"

definition encode_uri_char :: "char \<Rightarrow> string" where
  "encode_uri_char c =
     (if uri_safe c then [c]
      else [CHR 0x25, kHex ! (of_char c div 16), kHex ! (of_char c mod 16)])"

definition encodeUriSegment :: "string \<Rightarrow> string" where
  "encodeUriSegment value = concat (map encode_uri_char value)"

definition buildAmqpAddress :: "rabbit_server_config \<Rightarrow> string" where
  "buildAmqpAddress config =
     (let vhost = (if rs_vhost config = [] then ''/'' else rs_vhost config);
          encodedVhost =
            (if vhost = ''/'' then ''%2F''
             else encodeUriSegment (if hd vhost = CHR ''/'' then tl vhost else vhost))
      in ''amqp://'' @ encodeUriSegment (rs_user config) @ '':'' @
         encodeUriSegment (rs_password config) @ ''@'' @ rs_host config @ '':'' @
         dec_digits (unat (rs_port config)) @ ''/'' @ encodedVhost)"

section \<open>What the readers accept\<close>

definition number_in_range :: "json \<Rightarrow> string \<Rightarrow> int \<Rightarrow> bool" where
  "number_in_range node key b =
     (case jfind node key of
        None \<Rightarrow> True
      | Some v \<Rightarrow> is_number_integer v \<longrightarrow> 0 < int_value v \<and> int_value v \<le> b)"

text \<open>The number the document gives, if it gives an integer.\<close>

definition number_at :: "json \<Rightarrow> string \<Rightarrow> int \<Rightarrow> int" where
  "number_at node key d =
     (case jfind node key of
        None \<Rightarrow> d
      | Some v \<Rightarrow> if is_number_integer v then int_value v else d)"

lemma read_or_throw_Inr_iff:
  fixes target :: "'a::len word"
  assumes "b < 2 ^ LENGTH('a)" "b < 2 ^ 63"
  shows "read_or_throw node key b e target = Inr w \<longleftrightarrow>
     number_in_range node key b \<and> uint w = number_at node key (uint target)"
proof (cases "jfind node key")
  case None
  then show ?thesis
    using word_uint_eq_iff [of target w]
    by (auto simp: read_or_throw_def number_in_range_def number_at_def)
next
  case (Some v)
  show ?thesis
  proof (cases "is_number_integer v")
    case False
    with Some show ?thesis
      using word_uint_eq_iff [of target w]
      by (auto simp: read_or_throw_def number_in_range_def number_at_def)
  next
    case True
    have fits: "uint (word_of_int k :: 'a word) = k" if "0 < k" "k \<le> b" for k
      using that assms(1) by (simp add: uint_word_of_int)
    have "read_or_throw node key b e target = Inr w \<longleftrightarrow>
        (0 < get_int64 v \<and> get_int64 v \<le> b) \<and> w = word_of_int (get_int64 v)"
      using Some True by (auto simp: read_or_throw_def)
    also have "\<dots> \<longleftrightarrow> (0 < int_value v \<and> int_value v \<le> b) \<and> uint w = int_value v"
      using get_int64_in_range [OF assms(2), of v] get_int64_eq [of v] fits
      by (metis word_of_int_uint)
    finally show ?thesis using Some True by (simp add: number_in_range_def number_at_def)
  qed
qed

lemma read_in_range_or_throw:
  "read_in_range node key b target =
     (case read_or_throw node key b e target of Inr w \<Rightarrow> w | Inl _ \<Rightarrow> target)"
  by (simp add: read_in_range_def read_or_throw_def split: option.split)

lemma read_or_throw_cases:
  fixes target :: "'a::len word"
  assumes "b < 2 ^ LENGTH('a)" "b < 2 ^ 63"
  shows "number_in_range node key b \<and>
      read_or_throw node key b e target = Inr (read_in_range node key b target) \<and>
      uint (read_in_range node key b target) = number_at node key (uint target) \<or>
    \<not> number_in_range node key b \<and> read_or_throw node key b e target = Inl e \<and>
      read_in_range node key b target = target"
proof (cases "read_or_throw node key b e target")
  case (Inl x)
  then have "x = e" by (auto simp: read_or_throw_def split: option.splits if_splits)
  moreover have "\<not> number_in_range node key b"
  proof
    assume in_range: "number_in_range node key b"
    have "0 \<le> number_at node key (uint target) \<and> number_at node key (uint target) < 2 ^ LENGTH('a)"
      using in_range assms(1)
      by (auto simp: number_in_range_def number_at_def split: option.splits)
    then have "uint (word_of_int (number_at node key (uint target)) :: 'a word) =
        number_at node key (uint target)"
      by (simp add: uint_word_of_int)
    with in_range Inl show False
      using read_or_throw_Inr_iff [OF assms, of node key e target] by auto
  qed
  ultimately show ?thesis
    using Inl by (simp add: read_in_range_or_throw [of node key b target e])
next
  case (Inr w)
  then show ?thesis
    using read_or_throw_Inr_iff [OF assms, of node key e target w]
    by (simp add: read_in_range_or_throw [of node key b target e])
qed

lemma read_in_range_default:
  fixes target :: "'a::len word"
  assumes "b < 2 ^ LENGTH('a)"
  shows "read_in_range node key b target =
    (if read_in_range node key b (0 :: 'a word) = 0 then target else read_in_range node key b 0)"
proof -
  have "(word_of_int k :: 'a word) \<noteq> 0" if "0 < k" "k \<le> b" for k
  proof
    assume "(word_of_int k :: 'a word) = 0"
    then have "uint (word_of_int k :: 'a word) = 0" by simp
    with that assms show False by (simp add: uint_word_of_int)
  qed
  then show ?thesis by (auto simp: read_in_range_def split: option.split)
qed

lemma read_rabbit_server_Inr_iff:
  "read_rabbit_server n = Inr s \<longleftrightarrow>
     number_in_range n ''port'' 65535 \<and> number_in_range n ''rpcTimeoutMs'' 4294967295 \<and>
     ReadString n ''queue'' [] \<noteq> [] \<and> ReadString n ''user'' [] \<noteq> [] \<and>
     s = (rabbit_server_strings n)\<lparr>rs_port := read_in_range n ''port'' 65535 0,
       rs_rpcTimeoutMs := read_in_range n ''rpcTimeoutMs'' 4294967295 0\<rparr>"
proof -
  let ?e1 = "RuntimeError ''RabbitMQ consumer: invalid port in configuration''"
  let ?e2 = "RuntimeError ''RabbitMQ consumer: invalid rpcTimeoutMs in configuration''"
  have port: "read_or_throw n ''port'' 65535 ?e1 (0 :: u16) =
      (if number_in_range n ''port'' 65535 then Inr (read_in_range n ''port'' 65535 0) else Inl ?e1)"
    using read_or_throw_cases [where ?'a = 16 and b = 65535 and node = n and key = "''port''"
        and e = ?e1 and target = 0] by auto
  have time: "read_or_throw n ''rpcTimeoutMs'' 4294967295 ?e2 (0 :: u32) =
      (if number_in_range n ''rpcTimeoutMs'' 4294967295
       then Inr (read_in_range n ''rpcTimeoutMs'' 4294967295 0) else Inl ?e2)"
    using read_or_throw_cases [where ?'a = 32 and b = 4294967295 and node = n
        and key = "''rpcTimeoutMs''" and e = ?e2 and target = 0] by auto
  have strings: "rs_port (rabbit_server_strings n) = 0" "rs_rpcTimeoutMs (rabbit_server_strings n) = 0"
    "rs_queue (rabbit_server_strings n) = ReadString n ''queue'' []"
    "rs_user (rabbit_server_strings n) = ReadString n ''user'' []"
    by (simp_all add: rabbit_server_strings_def default_rabbit_server_def getOptionalString_ReadString)
  show ?thesis
    unfolding read_rabbit_server_def Let_def strings port time by auto
qed

text \<open>
  The server refuses what the client ignores, and otherwise both read the same.  The
  server's reader accepts an object exactly when its port and timeout, where they are integers,
  are in range and its queue and user are not empty; the client reads an accepted object to the
  same host, port, queue and credentials, with the document's numbers untruncated.  A port the
  server would refuse leaves the client's configuration as it was, without any error.
\<close>
theorem rabbit_config_readers_agree:
  "((\<exists>s. read_rabbit_server (JObject kvs) = Inr s) \<longleftrightarrow>
      number_in_range (JObject kvs) ''port'' 65535 \<and>
      number_in_range (JObject kvs) ''rpcTimeoutMs'' 4294967295 \<and>
      ReadString (JObject kvs) ''queue'' [] \<noteq> [] \<and> ReadString (JObject kvs) ''user'' [] \<noteq> []) \<and>
   (read_rabbit_server (JObject kvs) = Inr s \<longrightarrow>
      ApplyRabbitMqConfig (JObject kvs) default_rabbit_client =
        \<lparr>rc_host = rs_host s, rc_port = rs_port s, rc_queue = rs_queue s, rc_user = rs_user s,
         rc_password = rs_password s, rc_vhost = rs_vhost s,
         rc_rpcTimeoutMs = (if rs_rpcTimeoutMs s = 0 then 30000 else rs_rpcTimeoutMs s)\<rparr> \<and>
      uint (rs_port s) = number_at (JObject kvs) ''port'' 0 \<and>
      uint (rs_rpcTimeoutMs s) = number_at (JObject kvs) ''rpcTimeoutMs'' 0) \<and>
   (\<not> number_in_range (JObject kvs) ''port'' 65535 \<longrightarrow>
      rc_port (ApplyRabbitMqConfig (JObject kvs) config) = rc_port config)"
proof (intro conjI impI)
  let ?n = "JObject kvs"
  show "(\<exists>s. read_rabbit_server ?n = Inr s) \<longleftrightarrow>
      number_in_range ?n ''port'' 65535 \<and> number_in_range ?n ''rpcTimeoutMs'' 4294967295 \<and>
      ReadString ?n ''queue'' [] \<noteq> [] \<and> ReadString ?n ''user'' [] \<noteq> []"
    by (auto simp: read_rabbit_server_Inr_iff)
  assume "read_rabbit_server ?n = Inr s"
  then have ok: "number_in_range ?n ''port'' 65535" "number_in_range ?n ''rpcTimeoutMs'' 4294967295"
    and s: "s = (rabbit_server_strings ?n)\<lparr>rs_port := read_in_range ?n ''port'' 65535 0,
       rs_rpcTimeoutMs := read_in_range ?n ''rpcTimeoutMs'' 4294967295 0\<rparr>"
    by (simp_all add: read_rabbit_server_Inr_iff)
  show "uint (rs_port s) = number_at ?n ''port'' 0"
    using ok(1) s read_or_throw_cases [where ?'a = 16 and b = 65535 and node = ?n
        and key = "''port''" and target = 0] by auto
  show "uint (rs_rpcTimeoutMs s) = number_at ?n ''rpcTimeoutMs'' 0"
    using ok(2) s read_or_throw_cases [where ?'a = 32 and b = 4294967295 and node = ?n
        and key = "''rpcTimeoutMs''" and target = 0] by auto
  show "ApplyRabbitMqConfig ?n default_rabbit_client =
      \<lparr>rc_host = rs_host s, rc_port = rs_port s, rc_queue = rs_queue s, rc_user = rs_user s,
       rc_password = rs_password s, rc_vhost = rs_vhost s,
       rc_rpcTimeoutMs = (if rs_rpcTimeoutMs s = 0 then 30000 else rs_rpcTimeoutMs s)\<rparr>"
    using read_in_range_default [where ?'a = 32 and b = 4294967295 and node = ?n
        and key = "''rpcTimeoutMs''" and target = 30000]
    by (simp add: s ApplyRabbitMqConfig_def default_rabbit_client_def rabbit_server_strings_def
        default_rabbit_server_def getOptionalString_ReadString del: jfind.simps)
next
  let ?n = "JObject kvs"
  assume "\<not> number_in_range ?n ''port'' 65535"
  then show "rc_port (ApplyRabbitMqConfig ?n config) = rc_port config"
    using read_or_throw_cases [where ?'a = 16 and b = 65535 and node = ?n
        and key = "''port''" and target = "rc_port config"]
    by (simp add: ApplyRabbitMqConfig_def del: jfind.simps)
qed

lemma rabbit_config_readers_agree_witness:
  "\<exists>s. read_rabbit_server (JObject [(''port'', JUnsigned 5672), (''queue'', JString ''q''),
       (''user'', JString ''u'')]) = Inr s \<and> uint (rs_port s) = 5672 \<and>
     rc_rpcTimeoutMs (ApplyRabbitMqConfig (JObject [(''port'', JUnsigned 5672),
       (''queue'', JString ''q''), (''user'', JString ''u'')]) default_rabbit_client) = 30000 \<and>
     rc_port (ApplyRabbitMqConfig (JObject [(''port'', JUnsigned 70000)]) default_rabbit_client) = 0"
proof -
  let ?kvs = "[(''port'', JUnsigned 5672), (''queue'', JString ''q''), (''user'', JString ''u'')]"
  have "number_in_range (JObject ?kvs) ''port'' 65535"
    "number_in_range (JObject ?kvs) ''rpcTimeoutMs'' 4294967295"
    "ReadString (JObject ?kvs) ''queue'' [] \<noteq> []" "ReadString (JObject ?kvs) ''user'' [] \<noteq> []"
    "number_at (JObject ?kvs) ''port'' 0 = 5672" "number_at (JObject ?kvs) ''rpcTimeoutMs'' 0 = 0"
    by (simp_all add: number_in_range_def ReadString_def number_at_def)
  with rabbit_config_readers_agree [of ?kvs] obtain s where
    s: "read_rabbit_server (JObject ?kvs) = Inr s" by blast
  have facts: "uint (rs_port s) = 5672" "uint (rs_rpcTimeoutMs s) = 0"
    "rc_rpcTimeoutMs (ApplyRabbitMqConfig (JObject ?kvs) default_rabbit_client) =
      (if rs_rpcTimeoutMs s = 0 then 30000 else rs_rpcTimeoutMs s)"
    using rabbit_config_readers_agree [of ?kvs s] s
      \<open>number_at (JObject ?kvs) ''port'' 0 = 5672\<close> \<open>number_at (JObject ?kvs) ''rpcTimeoutMs'' 0 = 0\<close>
    by simp_all
  moreover have "rc_port (ApplyRabbitMqConfig (JObject [(''port'', JUnsigned 70000)])
      default_rabbit_client) = 0"
    using rabbit_config_readers_agree [of "[(''port'', JUnsigned 70000)]" s default_rabbit_client]
    by (simp add: number_in_range_def default_rabbit_client_def)
  moreover have "rs_rpcTimeoutMs s = 0" using facts(2) by (metis uint_0_iff)
  ultimately show ?thesis using s by auto
qed

section \<open>Percent encoding read back\<close>

text \<open>The decoder of RFC 3986, the reference for the encoder.\<close>

definition hex_upper_value :: "char \<Rightarrow> nat option" where
  "hex_upper_value c =
     (if is_digit c then Some (of_char c - 48)
      else if code_in 65 70 c then Some (of_char c - 55) else None)"

fun percent_decode :: "string \<Rightarrow> string option" where
  "percent_decode [] = Some []"
| "percent_decode (c # cs) =
     (if c = CHR 0x25
      then (case cs of
              a # b # rest \<Rightarrow>
                (case (hex_upper_value a, hex_upper_value b, percent_decode rest) of
                   (Some x, Some y, Some t) \<Rightarrow> Some (char_of (16 * x + y) # t)
                 | _ \<Rightarrow> None)
            | _ \<Rightarrow> None)
      else map_option (\<lambda>t. c # t) (percent_decode cs))"

lemma hex_upper_value_kHex: "n < 16 \<Longrightarrow> hex_upper_value (kHex ! n) = Some n"
proof -
  have "map hex_upper_value kHex = map Some [0..<16]"
    by (simp add: kHex_def hex_upper_value_def is_digit_def code_in_def upt_rec)
  moreover assume "n < 16"
  moreover have "length kHex = 16" by (simp add: kHex_def)
  ultimately show ?thesis by (metis length_upt minus_nat.diff_0 nth_map nth_upt add_0)
qed

lemma of_char_div: "of_char c div 16 < (16 :: nat)"
  by (simp add: div_less_iff_less_mult)

lemma percent_decode_char: "percent_decode (encode_uri_char c @ s) = map_option ((#) c) (percent_decode s)"
proof (cases "uri_safe c")
  case True
  then have "c \<noteq> CHR 0x25" by (auto simp: uri_safe_def char_class_defs)
  with True show ?thesis by (simp add: encode_uri_char_def)
next
  case False
  have "hex_upper_value (kHex ! (of_char c div 16)) = Some (of_char c div 16)"
    "hex_upper_value (kHex ! (of_char c mod 16)) = Some (of_char c mod 16)"
    by (simp_all add: hex_upper_value_kHex of_char_div)
  moreover have "16 * (of_char c div 16) + of_char c mod 16 = (of_char c :: nat)" by simp
  ultimately show ?thesis
    using False by (simp add: encode_uri_char_def split: option.split)
qed

lemma percent_decode_encode: "percent_decode (encodeUriSegment s) = Some s"
  by (induction s) (simp_all add: encodeUriSegment_def percent_decode_char)

lemma encodeUriSegment_inj: "encodeUriSegment s = encodeUriSegment t \<longleftrightarrow> s = t"
  using percent_decode_encode by (metis option.inject)

lemma kHex_safe: "n < 16 \<Longrightarrow> uri_safe (kHex ! n)"
proof -
  have "list_all uri_safe kHex" by (simp add: kHex_def uri_safe_def char_class_defs)
  then show "n < 16 \<Longrightarrow> uri_safe (kHex ! n)" by (simp add: list_all_length kHex_def)
qed

lemma encodeUriSegment_chars: "c \<in> set (encodeUriSegment s) \<Longrightarrow> uri_safe c \<or> c = CHR 0x25"
proof -
  have "uri_safe c \<or> c = CHR 0x25" if c: "c \<in> set (encode_uri_char x)" for x
  proof (cases "uri_safe x")
    case False
    show ?thesis
      using c False kHex_safe [of "of_char x div 16"] kHex_safe [of "of_char x mod 16"] of_char_div [of x]
      by (auto simp: encode_uri_char_def)
  qed (use c in \<open>simp add: encode_uri_char_def\<close>)
  then show "c \<in> set (encodeUriSegment s) \<Longrightarrow> uri_safe c \<or> c = CHR 0x25"
    by (auto simp: encodeUriSegment_def)
qed

lemma encodeUriSegment_no_delimiter:
  "CHR '':'' \<notin> set (encodeUriSegment s)" "CHR ''@'' \<notin> set (encodeUriSegment s)"
  "CHR ''/'' \<notin> set (encodeUriSegment s)"
  using encodeUriSegment_chars [of "CHR '':''" s] encodeUriSegment_chars [of "CHR ''@''" s]
    encodeUriSegment_chars [of "CHR ''/''" s]
  by (auto simp: uri_safe_def char_class_defs)

section \<open>Addresses are unambiguous\<close>

lemma split_at_first:
  assumes "c \<notin> set u" "c \<notin> set v"
  shows "u @ c # s = v @ c # t \<longleftrightarrow> u = v \<and> s = t"
  using assms
proof (induction u arbitrary: v)
  case Nil
  then show ?case by (cases v) auto
next
  case (Cons a u)
  then show ?case by (cases v) auto
qed

lemma split_at_last:
  assumes "c \<notin> set u" "c \<notin> set v"
  shows "s @ c # u = t @ c # v \<longleftrightarrow> s = t \<and> u = v"
proof -
  have "s @ c # u = t @ c # v \<longleftrightarrow> rev u @ c # rev s = rev v @ c # rev t"
    by (metis append.assoc append_Cons append_Nil rev_append rev_rev_ident rev.simps(2))
  then show ?thesis using assms split_at_first [of c "rev u" "rev v"] by auto
qed

text \<open>The virtual host that an address names.\<close>

definition vhost_name :: "string \<Rightarrow> string" where
  "vhost_name v = (if v = [] \<or> v = ''/'' then ''/'' else if hd v = CHR ''/'' then tl v else v)"

lemma buildAmqpAddress_parts:
  "buildAmqpAddress c = ''amqp://'' @ encodeUriSegment (rs_user c) @ CHR '':'' #
     encodeUriSegment (rs_password c) @ CHR ''@'' # rs_host c @ CHR '':'' #
     dec_digits (unat (rs_port c)) @ CHR ''/'' # encodeUriSegment (vhost_name (rs_vhost c))"
proof -
  have "encodeUriSegment ''/'' = ''%2F''"
    by (simp add: encodeUriSegment_def encode_uri_char_def uri_safe_def char_class_defs kHex_def)
  then show ?thesis by (simp add: buildAmqpAddress_def vhost_name_def)
qed

text \<open>
  Encoded address parts can be read back.  Percent decoding undoes
  \<^verbatim>\<open>encodeUriSegment\<close> on every byte string, the encoding holds only unreserved
  characters and percent signs, and so an AMQP address determines its parts: two configurations
  have the same address exactly when user, password, host, port and virtual host agree, whatever
  characters they contain.
\<close>
theorem rabbit_address_round_trip:
  "percent_decode (encodeUriSegment s) = Some s \<and>
   set (encodeUriSegment s) \<subseteq> {c. uri_safe c} \<union> {CHR 0x25} \<and>
   (buildAmqpAddress c = buildAmqpAddress d \<longleftrightarrow>
      rs_user c = rs_user d \<and> rs_password c = rs_password d \<and> rs_host c = rs_host d \<and>
      rs_port c = rs_port d \<and> vhost_name (rs_vhost c) = vhost_name (rs_vhost d))"
proof -
  have digits: "CHR '':'' \<notin> set (dec_digits n)" "CHR ''/'' \<notin> set (dec_digits n)" for n
    using dec_digits_class [of "CHR '':''" n] dec_digits_class [of "CHR ''/''" n]
    by (auto simp: is_digit_def code_in_def)
  have tail: "h @ CHR '':'' # dec_digits m @ CHR ''/'' # encodeUriSegment v =
      h' @ CHR '':'' # dec_digits m' @ CHR ''/'' # encodeUriSegment v' \<longleftrightarrow>
      h = h' \<and> m = m' \<and> v = v'" for h h' m m' v v'
  proof -
    have "h @ CHR '':'' # dec_digits m @ CHR ''/'' # encodeUriSegment v =
        h' @ CHR '':'' # dec_digits m' @ CHR ''/'' # encodeUriSegment v' \<longleftrightarrow>
      (h @ CHR '':'' # dec_digits m) @ CHR ''/'' # encodeUriSegment v =
        (h' @ CHR '':'' # dec_digits m') @ CHR ''/'' # encodeUriSegment v'" by simp
    also have "\<dots> \<longleftrightarrow> h @ CHR '':'' # dec_digits m = h' @ CHR '':'' # dec_digits m' \<and> v = v'"
      by (subst split_at_last) (simp_all add: encodeUriSegment_no_delimiter encodeUriSegment_inj)
    also have "h @ CHR '':'' # dec_digits m = h' @ CHR '':'' # dec_digits m' \<longleftrightarrow> h = h' \<and> m = m'"
      by (subst split_at_last) (simp_all add: digits dec_digits_inj)
    finally show ?thesis by blast
  qed
  have "buildAmqpAddress c = buildAmqpAddress d \<longleftrightarrow>
      rs_user c = rs_user d \<and> rs_password c = rs_password d \<and> rs_host c = rs_host d \<and>
      unat (rs_port c) = unat (rs_port d) \<and> vhost_name (rs_vhost c) = vhost_name (rs_vhost d)"
    unfolding buildAmqpAddress_parts same_append_eq
    by (simp add: split_at_first encodeUriSegment_no_delimiter encodeUriSegment_inj tail)
  moreover have "unat (rs_port c) = unat (rs_port d) \<longleftrightarrow> rs_port c = rs_port d"
    by (simp add: word_unat_eq_iff)
  ultimately show ?thesis
    using percent_decode_encode [of s] encodeUriSegment_chars [of _ s] by auto
qed

end
