(* ===== verification/RabbitMqLink.thy ===== *)
theory RabbitMqLink
  imports Prelude
begin

text \<open>
  The byte streams under both ends of the RabbitMQ plugin: the loop that writes a buffer to a
  socket (\<^verbatim>\<open>SocketConnectionHandler::onData\<close>) and the loop that hands received bytes to
  the AMQP library (in \<^verbatim>\<open>Link::Run\<close> and \<^verbatim>\<open>RabbitMqServer::start\<close>).  The socket and
  the library's parser are parameters.
\<close>

section \<open>Connecting\<close>

text \<open>
  One address \<^verbatim>\<open>getaddrinfo\<close> returned: no socket could be made for it, or the descriptor
  and whether it connected.  The loop tries them in order and closes what did not connect; the
  second result is the list of descriptors it closed.
\<close>

datatype address = NoSocketFor | SocketFor int bool

fun connect_first :: "address list \<Rightarrow> int option \<times> int list" where
  "connect_first [] = (None, [])"
| "connect_first (NoSocketFor # addresses) = connect_first addresses"
| "connect_first (SocketFor fd connected # addresses) =
     (if connected then (Some fd, [])
      else case connect_first addresses of (result, closed) \<Rightarrow> (result, fd # closed))"

text \<open>The client reports any failure as no socket, the server throws.\<close>

definition ConnectSocket :: "address list option \<Rightarrow> int option \<times> int list" where
  "ConnectSocket results =
     (case results of None \<Rightarrow> (None, []) | Some addresses \<Rightarrow> connect_first addresses)"

definition connectSocketToBroker :: "string + address list \<Rightarrow> int result \<times> int list" where
  "connectSocketToBroker results =
     (case results of
        Inl reason \<Rightarrow> (Inl (RuntimeError (''RabbitMQ consumer: getaddrinfo failed: '' @ reason)), [])
      | Inr addresses \<Rightarrow>
          (case connect_first addresses of
             (None, closed) \<Rightarrow>
               (Inl (RuntimeError ''RabbitMQ consumer: failed to connect socket to broker''), closed)
           | (Some fd, closed) \<Rightarrow> (Inr fd, closed)))"

text \<open>Every descriptor made on the way is closed, except the one returned.\<close>

fun made :: "address list \<Rightarrow> int list" where
  "made [] = []"
| "made (NoSocketFor # addresses) = made addresses"
| "made (SocketFor fd connected # addresses) = fd # (if connected then [] else made addresses)"

lemma connect_first_closes:
  "connect_first addresses = (result, closed) \<Longrightarrow>
     made addresses = closed @ (case result of None \<Rightarrow> [] | Some fd \<Rightarrow> [fd])"
  by (induction addresses arbitrary: result closed rule: connect_first.induct)
    (auto split: prod.splits if_splits)

section \<open>Writing a buffer\<close>

text \<open>
  \<open>send rest\<close> is the return value of \<^verbatim>\<open>::send\<close> for the bytes that are left; the n-th
  call may answer differently from the others, so \<open>send\<close> also gets the number of calls
  before it.  The result: whether all was written, the bytes written, and the number of calls.
\<close>

function onData_loop :: "(nat \<Rightarrow> bytes \<Rightarrow> int) \<Rightarrow> nat \<Rightarrow> bytes \<Rightarrow> bool \<times> bytes \<times> nat" where
  "onData_loop send n rest =
     (if rest = [] then (True, [], n)
      else let sent = send n rest in
        if sent \<le> 0 then (False, [], Suc n)
        else case onData_loop send (Suc n) (drop (nat sent) rest) of
          (ok, written, m) \<Rightarrow> (ok, take (nat sent) rest @ written, m))"
  by pat_completeness auto
termination by (relation "measure (\<lambda>(send, n, rest). length rest)") auto

declare onData_loop.simps [simp del]

text \<open>
  \<^verbatim>\<open>onData\<close>: nothing to do for an empty buffer or a null pointer.  A failed write sets
  \<^verbatim>\<open>connectionError\<close> (the server also throws, see there).
\<close>

definition onData :: "(nat \<Rightarrow> bytes \<Rightarrow> int) \<Rightarrow> buf \<Rightarrow> bool \<times> bytes \<times> nat" where
  "onData send buffer =
     (if buf_size buffer = 0 \<or> buf_is_null buffer then (True, [], 0)
      else onData_loop send 0 (buf_bytes buffer))"

lemma onData_loop_facts:
  "onData_loop send n rest = (ok, written, m) \<Longrightarrow>
    n \<le> m \<and> m \<le> n + length rest \<and> (\<exists>tail. rest = written @ tail \<and> (ok \<longleftrightarrow> tail = []))"
proof (induction send n rest arbitrary: ok written m rule: onData_loop.induct)
  case (1 send n rest)
  show ?case
  proof (cases "rest = [] \<or> send n rest \<le> 0")
    case True
    then show ?thesis
      using "1.prems" by (cases rest; subst (asm) onData_loop.simps) (auto simp: Let_def)
  next
    case False
    obtain ok' w' m' where rec: "onData_loop send (Suc n) (drop (nat (send n rest)) rest) = (ok', w', m')"
      by (cases "onData_loop send (Suc n) (drop (nat (send n rest)) rest)")
    have eq: "ok = ok'" "written = take (nat (send n rest)) rest @ w'" "m = m'"
      using "1.prems" False rec by (subst (asm) onData_loop.simps, simp add: Let_def)+
    have IH: "Suc n \<le> m' \<and> m' \<le> Suc n + length (drop (nat (send n rest)) rest) \<and>
        (\<exists>tail. drop (nat (send n rest)) rest = w' @ tail \<and> (ok' \<longleftrightarrow> tail = []))"
      using "1.IH" [OF _ refl] False rec by auto
    then obtain tail where tail: "drop (nat (send n rest)) rest = w' @ tail" "ok' \<longleftrightarrow> tail = []"
      by blast
    have "rest = written @ tail" using tail(1) eq(2) by (metis append.assoc append_take_drop_id)
    moreover have "Suc (length (drop (nat (send n rest)) rest)) \<le> length rest"
      using False by (cases rest) auto
    then have "n \<le> m \<and> m \<le> n + length rest" using IH eq(3) by linarith
    ultimately show ?thesis using eq(1) tail(2) by blast
  qed
qed

section \<open>Reading a stream\<close>

text \<open>
  A call of \<^verbatim>\<open>AMQP::Connection::parse\<close>: the connection, the number of bytes it processed,
  and the callbacks it made.  The loop repeats while bytes are left and some were processed.
\<close>

type_synonym ('c, 'e) parser = "'c \<Rightarrow> bytes \<Rightarrow> 'c \<times> nat \<times> 'e list"

function drain :: "('c, 'e) parser \<Rightarrow> 'c \<Rightarrow> bytes \<Rightarrow> 'c \<times> bytes \<times> 'e list" where
  "drain parse c pendingBytes =
     (if pendingBytes = [] then (c, [], [])
      else case parse c pendingBytes of
        (c, parsed, events) \<Rightarrow>
          if parsed = 0 \<or> parsed > length pendingBytes then (c, pendingBytes, events)
          else case drain parse c (drop parsed pendingBytes) of
            (c, rest, events') \<Rightarrow> (c, rest, events @ events'))"
  by pat_completeness auto
termination by (relation "measure (\<lambda>(parse, c, pendingBytes). length pendingBytes)") auto

declare drain.simps [simp del]

text \<open>A received chunk is appended to the bytes that are left from the last ones.\<close>

definition receive_chunk ::
  "('c, 'e) parser \<Rightarrow> 'c \<times> bytes \<Rightarrow> bytes \<Rightarrow> 'c \<times> bytes \<times> 'e list" where
  "receive_chunk parse s chunk = (case s of (c, pendingBytes) \<Rightarrow> drain parse c (pendingBytes @ chunk))"

fun receive_chunks ::
  "('c, 'e) parser \<Rightarrow> 'c \<times> bytes \<Rightarrow> bytes list \<Rightarrow> ('c \<times> bytes) \<times> 'e list" where
  "receive_chunks parse s [] = (s, [])"
| "receive_chunks parse s (chunk # chunks) =
     (case receive_chunk parse s chunk of
        (c, rest, events) \<Rightarrow>
          (case receive_chunks parse (c, rest) chunks of (s', events') \<Rightarrow> (s', events @ events')))"

text \<open>
  What the library documents about \<^verbatim>\<open>parse\<close>: it returns the number of bytes it processed
  (never more than it was given), and the caller passes the rest again together with what
  arrives later.  So parsing some bytes, then the rest with more bytes, has the effect of
  parsing all of them at once.
\<close>

definition incremental :: "('c, 'e) parser \<Rightarrow> bool" where
  "incremental parse \<longleftrightarrow>
     (\<forall>c a b c1 n e1 c2 m e2.
        parse c [] = (c, 0, []) \<and>
        (parse c a = (c1, n, e1) \<longrightarrow> n \<le> length a \<and>
          (parse c1 (drop n a @ b) = (c2, m, e2) \<longrightarrow> parse c (a @ b) = (c2, n + m, e1 @ e2))))"

lemma incrementalD:
  assumes "incremental parse"
  shows "parse c [] = (c, 0, [])"
    and "parse c a = (c1, n, e1) \<Longrightarrow> n \<le> length a"
    and "parse c a = (c1, n, e1) \<Longrightarrow> parse c1 (drop n a @ b) = (c2, m, e2) \<Longrightarrow>
      parse c (a @ b) = (c2, n + m, e1 @ e2)"
  using assms unfolding incremental_def by blast+

text \<open>One call of such a parser does all the loop does.\<close>

lemma drain_incremental:
  assumes inc: "incremental parse"
  shows "drain parse c a = (case parse c a of (c1, n, e1) \<Rightarrow> (c1, drop n a, e1))"
proof -
  obtain c1 n e1 where p: "parse c a = (c1, n, e1)" by (cases "parse c a")
  have n: "n \<le> length a" by (rule incrementalD(2) [OF inc p])
  obtain c2 m e2 where q: "parse c1 (drop n a) = (c2, m, e2)" by (cases "parse c1 (drop n a)")
  have "parse c a = (c2, n + m, e1 @ e2)"
    using incrementalD(3) [OF inc p, of "[]"] q by simp
  then have stop: "c2 = c1" "m = 0" "e2 = []" using p by simp_all
  have again: "drain parse c1 (drop n a) = (c1, drop n a, [])"
    using q stop by (subst drain.simps) simp
  show ?thesis
  proof (cases "a = []")
    case True
    then show ?thesis
      using incrementalD(1) [OF inc, of c] by (subst drain.simps) simp
  next
    case False
    then show ?thesis using p n again by (subst drain.simps) simp
  qed
qed

section \<open>Properties\<close>

text \<open>
  Writing a buffer ends and keeps the order.  Whatever the socket answers, \<^verbatim>\<open>onData\<close>
  returns after at most one call of \<^verbatim>\<open>send\<close> per byte; the bytes written are a prefix of the
  buffer, in order and without gaps, and it is the whole buffer exactly when the write is
  reported as successful.
\<close>
theorem rabbit_onData_writes_prefix:
  "case onData send buffer of (ok, written, calls) \<Rightarrow>
     calls \<le> buf_size buffer \<and>
     (\<exists>rest. buf_bytes buffer = written @ rest \<and> (ok \<longleftrightarrow> rest = []))"
proof (cases buffer)
  case (Buf d)
  obtain ok written calls where "onData_loop send 0 d = (ok, written, calls)"
    by (cases "onData_loop send 0 d")
  with onData_loop_facts [OF this] Buf show ?thesis by (auto simp: onData_def)
qed (simp add: onData_def)

lemma receive_chunks_from:
  assumes inc: "incremental parse" and p: "parse c a = (c1, n, e1)"
  shows "case parse c (a @ concat chunks) of (c2, k, es) \<Rightarrow>
    receive_chunks parse (c1, drop n a) chunks = ((c2, drop k (a @ concat chunks)), drop (length e1) es) \<and>
    take (length e1) es = e1"
  using p
proof (induction chunks arbitrary: a c1 n e1)
  case (Cons chunk chunks)
  obtain c2 m e2 where q: "parse c1 (drop n a @ chunk) = (c2, m, e2)"
    by (cases "parse c1 (drop n a @ chunk)")
  have n: "n \<le> length a" by (rule incrementalD(2) [OF inc Cons.prems])
  have all: "parse c (a @ chunk) = (c2, n + m, e1 @ e2)"
    by (rule incrementalD(3) [OF inc Cons.prems q])
  have rest: "drop m (drop n a @ chunk) = drop (n + m) (a @ chunk)"
    using n by (simp add: add.commute)
  obtain c3 k es where r: "parse c (a @ chunk @ concat chunks) = (c3, k, es)"
    by (cases "parse c (a @ chunk @ concat chunks)")
  from Cons.IH [OF all] r have
    IH: "receive_chunks parse (c2, drop (n + m) (a @ chunk)) chunks =
        ((c3, drop k (a @ chunk @ concat chunks)), drop (length (e1 @ e2)) es)"
      "take (length (e1 @ e2)) es = e1 @ e2"
    by simp_all
  obtain t where "es = (e1 @ e2) @ t" using IH(2) by (metis append_take_drop_id)
  then have "take (length e1) es = e1" "e2 @ drop (length (e1 @ e2)) es = drop (length e1) es"
    by simp_all
  then show ?case
    using IH(1) r by (simp add: receive_chunk_def drain_incremental [OF inc] q rest del: drop_append)
qed simp

text \<open>
  The cuts of the stream do not matter.  With a parser as documented, receiving a stream in
  any chunks, and draining after each, makes the same callbacks in the same order and leaves the
  same unprocessed bytes as parsing the whole stream at once.
\<close>
theorem rabbit_stream_chunking:
  assumes "incremental parse"
  shows "receive_chunks parse (c, []) chunks =
    (case parse c (concat chunks) of (c', n, events) \<Rightarrow> ((c', drop n (concat chunks)), events))"
  using receive_chunks_from [OF assms incrementalD(1) [OF assms, of c], of chunks]
  by (simp split: prod.splits)

text \<open>A parser of frames of two bytes, for the witness.\<close>

fun pairs_parser :: "nat \<Rightarrow> bytes \<Rightarrow> nat \<times> nat \<times> bytes list" where
  "pairs_parser c (a # b # rest) =
     (case pairs_parser (Suc c) rest of (c', n, es) \<Rightarrow> (c', 2 + n, [a, b] # es))"
| "pairs_parser c rest = (c, 0, [])"

lemma pairs_parser_append:
  "pairs_parser c a = (c1, n, e1) \<Longrightarrow> n \<le> length a \<and>
    (pairs_parser c1 (drop n a @ b) = (c2, m, e2) \<longrightarrow> pairs_parser c (a @ b) = (c2, n + m, e1 @ e2))"
  by (induction c a arbitrary: c1 n e1 rule: pairs_parser.induct) (auto split: prod.splits)

lemma incremental_pairs: "incremental pairs_parser"
  using pairs_parser_append by (fastforce simp: incremental_def)

lemma rabbit_stream_chunking_witness:
  "receive_chunks pairs_parser (0, []) [[1], [2, 3], [4, 5]] = ((2, [5]), [[1, 2], [3, 4]])"
  by (subst rabbit_stream_chunking [OF incremental_pairs]) simp

end
