(* ===== verification/RpcLink.thy ===== *)
theory RpcLink
  imports Tickets Lifecycle
begin

text \<open>
  What the RabbitMQ and Service Bus clients share: a call registers its id, sends over the
  client's link and waits (\<^verbatim>\<open>RabbitMqRpcClient::Call\<close>, \<^verbatim>\<open>ServiceBusRpcClient::Call\<close>),
  and a link that breaks marks itself broken and fails every waiting call
  (\<^verbatim>\<open>Link::Disconnect\<close>).  The interleavings of the two are a step relation.
\<close>

section \<open>Register, send, wait\<close>

text \<open>
  \<open>sent\<close> is the result of sending, which happens after the registration; \<open>during\<close> are the
  events of the other threads until the wait ends.  The ticket is destroyed on every path.
\<close>

definition await_reply ::
  "exn \<Rightarrow> string \<Rightarrow> pr_event list \<Rightarrow> unit result \<Rightarrow> pending \<Rightarrow> bytes result \<times> pending" where
  "await_reply timeout cid during sent p =
     (case Register cid p of
        Inl e \<Rightarrow> (Inl e, p)
      | Inr (ticket, p) \<Rightarrow>
          (let p = fold pr_apply during p in
           case sent of
             Inl e \<Rightarrow> (Inl e, ticket_destroy ticket p)
           | Inr _ \<Rightarrow>
               (case Wait ticket p of
                  (r, p) \<Rightarrow>
                    ((case r of
                        Inl e \<Rightarrow> Inl e
                      | Inr None \<Rightarrow> Inl timeout
                      | Inr (Some response) \<Rightarrow> Inr response),
                     ticket_destroy ticket p))))"

lemma await_reply_outcome:
  assumes "pending_wf p" "\<not> closed p" "map_of (slots p) cid = None" "leaves cid during"
  shows "fst (await_reply timeout cid during sent p) =
      (case sent of
         Inl e \<Rightarrow> Inl e
       | Inr _ \<Rightarrow>
           (case first_settle cid during of
              Waiting \<Rightarrow> Inl timeout
            | Failed e \<Rightarrow> Inl (RuntimeError e)
            | Done pl \<Rightarrow> Inr pl))"
    and "map_of (slots (snd (await_reply timeout cid during sent p))) cid = None"
    and "pending_wf (snd (await_reply timeout cid during sent p))"
proof -
  obtain t q where reg: "Register cid p = Inr (t, q)"
    by (rule Register_succeeds [OF assms(2,3)])
  obtain w r where w: "Wait t (fold pr_apply during q) = (w, r)"
    by (cases "Wait t (fold pr_apply during q)")
  note after = wait_after_run [OF assms(1) reg assms(4)] abandon_after_run [OF assms(1) reg]
    wait_entry_gone [OF assms(1) reg]
  show "fst (await_reply timeout cid during sent p) =
      (case sent of
         Inl e \<Rightarrow> Inl e
       | Inr _ \<Rightarrow>
           (case first_settle cid during of
              Waiting \<Rightarrow> Inl timeout
            | Failed e \<Rightarrow> Inl (RuntimeError e)
            | Done pl \<Rightarrow> Inr pl))"
    using after(1) by (simp add: await_reply_def reg w split: sum.split outcome.split)
  show "map_of (slots (snd (await_reply timeout cid during sent p))) cid = None"
    using after(4,6) w by (simp add: await_reply_def reg Let_def split: sum.split)
  show "pending_wf (snd (await_reply timeout cid during sent p))"
    using after(3,5) w by (simp add: await_reply_def reg Let_def split: sum.split)
qed

section \<open>A link that breaks while calls are under way\<close>

text \<open>
  The calls that use one link, with their tickets and whether their request went out.
  \<^verbatim>\<open>Disconnect\<close> has two steps: it sets the flag, then it fails the calls.  \<open>guarded\<close> says
  whether sending looks at the flag (\<^verbatim>\<open>Link::Publish\<close> of RabbitMQ does, \<^verbatim>\<open>Link::Send\<close>
  of Service Bus does not).
\<close>

datatype link_phase = Alive | Breaking | Down

record link_sys =
  ls_pending :: pending
  ls_phase :: link_phase
  ls_calls :: "(string \<times> ticket \<times> bool) list"

definition ls_broken :: "link_sys \<Rightarrow> bool" where
  "ls_broken s \<longleftrightarrow> ls_phase s \<noteq> Alive"

definition ls_init :: link_sys where
  "ls_init = \<lparr>ls_pending = new_pending, ls_phase = Alive, ls_calls = []\<rparr>"

inductive link_step :: "bool \<Rightarrow> link_sys \<Rightarrow> link_sys \<Rightarrow> bool" for guarded where
  ls_register: "Register i (ls_pending s) = Inr (t, p) \<Longrightarrow>
     link_step guarded s (s\<lparr>ls_pending := p, ls_calls := (i, t, False) # ls_calls s\<rparr>)"
| ls_send: "ls_calls s = xs @ (i, t, False) # ys \<Longrightarrow> \<not> (guarded \<and> ls_broken s) \<Longrightarrow>
     link_step guarded s (s\<lparr>ls_calls := xs @ (i, t, True) # ys\<rparr>)"
| ls_leave: "ls_calls s = xs @ (i, t, sent) # ys \<Longrightarrow>
     link_step guarded s (s\<lparr>ls_pending := ticket_destroy t (ls_pending s), ls_calls := xs @ ys\<rparr>)"
| ls_settle: "settles e \<Longrightarrow>
     link_step guarded s (s\<lparr>ls_pending := pr_apply e (ls_pending s)\<rparr>)"
| ls_break: "ls_phase s = Alive \<Longrightarrow> link_step guarded s (s\<lparr>ls_phase := Breaking\<rparr>)"
| ls_fail: "ls_phase s = Breaking \<Longrightarrow>
     link_step guarded s (s\<lparr>ls_pending := FailAll e (ls_pending s), ls_phase := Down\<rparr>)"

text \<open>
  Every call has its entry; once the link is down, the entries of the calls that went out over
  it are settled.
\<close>

definition call_ok :: "link_phase \<Rightarrow> pending \<Rightarrow> string \<times> ticket \<times> bool \<Rightarrow> bool" where
  "call_ok phase p c \<longleftrightarrow>
     (case c of (i, t, sent) \<Rightarrow>
        tk_owned t \<and> tk_id t = i \<and> map_of (slots p) i = Some (tk_slot t) \<and>
        (sent \<and> phase = Down \<longrightarrow> fst (reply_view p) i \<noteq> Some Waiting))"

definition ls_inv :: "link_sys \<Rightarrow> bool" where
  "ls_inv s \<longleftrightarrow>
     pending_wf (ls_pending s) \<and> distinct (map fst (ls_calls s)) \<and>
     (\<forall>c \<in> set (ls_calls s). call_ok (ls_phase s) (ls_pending s) c)"

lemma slots_FailAll: "slots (FailAll e p) = slots p"
  using slots_settle [of "EFailAll e" p] by simp

lemma settle_all_not_waiting: "settle_all (Failed e) m i \<noteq> Some Waiting"
proof -
  have "settle x (Failed e) \<noteq> Waiting" for x by (cases x) auto
  then show ?thesis by (auto simp: settle_all_def)
qed

lemma settles_keeps_settled:
  assumes "pending_wf p" "settles e" "fst (reply_view p) i \<noteq> Some Waiting"
  shows "fst (reply_view (pr_apply e p)) i \<noteq> Some Waiting"
proof -
  obtain m c where v: "reply_view p = (m, c)" by (cases "reply_view p")
  have settle: "settle x r \<noteq> Waiting" if "x \<noteq> Waiting" for x r
    using that by (cases x) auto
  have "fst (map_apply e (m, c)) i \<noteq> Some Waiting"
    using assms(2,3) v
    by (cases e) (auto simp: settle_at_def settle_all_def settle split: option.split)
  then show ?thesis by (simp add: view_pr_apply [OF assms(1)] v)
qed

lemma fst_view_None: "fst (reply_view p) i = None \<longleftrightarrow> map_of (slots p) i = None"
  by (simp add: reply_view_def)

lemma ls_inv_init: "ls_inv ls_init"
  by (simp add: ls_inv_def ls_init_def)

lemma call_ok_eq:
  assumes "map_of (slots p) (fst c) = map_of (slots q) (fst c)"
    and "fst (reply_view p) (fst c) = fst (reply_view q) (fst c)"
  shows "call_ok phase p c = call_ok phase q c"
  using assms by (cases c) (simp add: call_ok_def)

lemma ls_inv_register:
  assumes inv: "ls_inv s" and reg: "Register i (ls_pending s) = Inr (t, p)"
  shows "ls_inv (s\<lparr>ls_pending := p, ls_calls := (i, t, False) # ls_calls s\<rparr>)"
proof -
  have wf: "pending_wf (ls_pending s)" using inv by (simp add: ls_inv_def)
  note v = view_Register [OF wf reg]
  have new: "map_of (slots (ls_pending s)) i = None" "slots p = (i, tk_slot t) # slots (ls_pending s)"
    using reg by (auto simp: Register_def split: if_splits)
  have other: "fst c \<noteq> i" if "c \<in> set (ls_calls s)" for c
    using inv that new(1) by (cases c) (auto simp: ls_inv_def call_ok_def)
  have "fst (reply_view p) j = fst (reply_view (ls_pending s)) j" if "j \<noteq> i" for j
    using v(1) that by (cases "reply_view (ls_pending s)") (auto split: if_splits)
  then have "call_ok (ls_phase s) p c" if "c \<in> set (ls_calls s)" for c
    using call_ok_eq [of p c "ls_pending s"] other [OF that] new(2) inv that
    by (simp add: ls_inv_def)
  moreover have "call_ok (ls_phase s) p (i, t, False)"
    using v(2) new(2) by (simp add: call_ok_def)
  moreover have "i \<notin> fst ` set (ls_calls s)" using other by (metis imageE)
  ultimately show ?thesis
    using inv pending_wf_Register [OF wf reg] by (simp add: ls_inv_def)
qed

lemma ls_inv_leave:
  assumes inv: "ls_inv s" and calls: "ls_calls s = xs @ (i, t, sent) # ys"
  shows "ls_inv (s\<lparr>ls_pending := ticket_destroy t (ls_pending s), ls_calls := xs @ ys\<rparr>)"
proof -
  have t: "tk_owned t" "tk_id t = i" using inv calls by (auto simp: ls_inv_def call_ok_def)
  have "i \<notin> fst ` set (xs @ ys)" using inv calls by (auto simp: ls_inv_def)
  then have other: "fst c \<noteq> i" if "c \<in> set (xs @ ys)" for c
    using that by (metis image_eqI)
  have keep: "map_of (filter (\<lambda>(j, a). j \<noteq> i) zs) j = map_of zs j" if "j \<noteq> i"
    for j and zs :: "(string \<times> nat) list"
    using that by (induction zs) auto
  have "call_ok (ls_phase s) (ticket_destroy t (ls_pending s)) c" if c: "c \<in> set (xs @ ys)" for c
  proof -
    have "call_ok (ls_phase s) (ls_pending s) c" using inv calls c by (auto simp: ls_inv_def)
    moreover have "slots (ticket_destroy t (ls_pending s)) =
        filter (\<lambda>(j, a). j \<noteq> i) (slots (ls_pending s))"
      using t by (simp add: ticket_destroy_def Remove_def)
    moreover have "reply_view (ticket_destroy t (ls_pending s)) =
        ((fst (reply_view (ls_pending s)))(i := None), snd (reply_view (ls_pending s)))"
      using t by (simp add: ticket_destroy_def view_Remove)
    ultimately show ?thesis
      using call_ok_eq [of "ticket_destroy t (ls_pending s)" c "ls_pending s"] other [OF c]
      by (simp add: keep)
  qed
  moreover have "pending_wf (ticket_destroy t (ls_pending s))"
    using inv by (simp add: ls_inv_def ticket_destroy_def pending_wf_Remove)
  moreover have "distinct (map fst (xs @ ys))"
    using inv calls by (simp add: ls_inv_def)
  ultimately show ?thesis by (simp add: ls_inv_def)
qed

lemma ls_inv_step: "link_step True s s' \<Longrightarrow> ls_inv s \<Longrightarrow> ls_inv s'"
proof (induction rule: link_step.induct)
  case (ls_register i s t p)
  then show ?case by (intro ls_inv_register)
next
  case (ls_send s xs i t ys)
  then have "ls_phase s = Alive" by (simp add: ls_broken_def)
  with ls_send show ?case by (auto simp: ls_inv_def call_ok_def)
next
  case (ls_leave s xs i t sent ys)
  then show ?case by (intro ls_inv_leave)
next
  case (ls_settle e s)
  then have wf: "pending_wf (ls_pending s)" by (simp add: ls_inv_def)
  have "call_ok (ls_phase s) (pr_apply e (ls_pending s)) c" if "call_ok (ls_phase s) (ls_pending s) c" for c
    using that settles_keeps_settled [OF wf ls_settle(1)]
    by (auto simp: call_ok_def slots_settle [OF ls_settle(1)])
  with ls_settle wf show ?case by (simp add: ls_inv_def pending_wf_pr_apply)
next
  case (ls_break s)
  then show ?case by (auto simp: ls_inv_def call_ok_def)
next
  case (ls_fail s e)
  then have wf: "pending_wf (ls_pending s)" by (simp add: ls_inv_def)
  have "call_ok Down (FailAll e (ls_pending s)) c" if "call_ok (ls_phase s) (ls_pending s) c" for c
    using that by (auto simp: call_ok_def slots_FailAll view_FailAll [OF wf] settle_all_not_waiting)
  with ls_fail wf show ?case by (simp add: ls_inv_def pr_simps)
qed

lemma ls_reachable_inv: "reaches (link_step True) ls_init s \<Longrightarrow> ls_inv s"
  by (erule reaches_invariant) (auto intro: ls_inv_init ls_inv_step)

text \<open>
  C23. No call hangs on a broken RabbitMQ link.  Publishing checks the broken flag, so in every
  state that calls, replies and a disconnect can reach in any order: once the disconnect is
  through, the wait of each call whose request went out over the link ends at once, with its
  reply or an error, and never runs into its timeout.  Without the check, as in Service Bus, a
  call can send after the disconnect and then waits although nobody will settle it.
\<close>
theorem no_call_left_on_broken_link:
  "(reaches (link_step True) ls_init s \<and> ls_phase s = Down \<and> (i, t, True) \<in> set (ls_calls s) \<longrightarrow>
      fst (Wait t (ls_pending s)) \<noteq> Inr None) \<and>
   (\<exists>s i t. reaches (link_step False) ls_init s \<and> ls_phase s = Down \<and>
      (i, t, True) \<in> set (ls_calls s) \<and> fst (Wait t (ls_pending s)) = Inr None)"
proof (intro conjI impI)
  assume s: "reaches (link_step True) ls_init s \<and> ls_phase s = Down \<and> (i, t, True) \<in> set (ls_calls s)"
  then have inv: "ls_inv s" by (simp add: ls_reachable_inv)
  with s have "map_of (slots (ls_pending s)) i = Some (tk_slot t)" "pending_wf (ls_pending s)"
    "fst (reply_view (ls_pending s)) i \<noteq> Some Waiting"
    by (auto simp: ls_inv_def call_ok_def)
  moreover from this have "fst (reply_view (ls_pending s)) i \<noteq> None" by (simp add: fst_view_None)
  ultimately show "fst (Wait t (ls_pending s)) \<noteq> Inr None"
    using view_Wait(2) [of "ls_pending s" i t] by (auto split: outcome.split)
next
  define s1 where "s1 = ls_init\<lparr>ls_phase := Breaking\<rparr>"
  define s2 where "s2 = s1\<lparr>ls_pending := FailAll ''lost'' (ls_pending s1), ls_phase := Down\<rparr>"
  obtain t p where reg: "Register ''id'' (ls_pending s2) = Inr (t, p)"
    by (rule Register_succeeds [of "ls_pending s2" "''id''"])
      (simp_all add: s2_def s1_def ls_init_def FailAll_def new_pending_def)
  define s3 where "s3 = s2\<lparr>ls_pending := p, ls_calls := (''id'', t, False) # ls_calls s2\<rparr>"
  define s4 where "s4 = s3\<lparr>ls_calls := [(''id'', t, True)]\<rparr>"
  have "reaches (link_step False) ls_init s1"
    unfolding s1_def by (rule reaches_step [OF reaches_refl], rule ls_break) (simp add: ls_init_def)
  then have "reaches (link_step False) ls_init s2"
    unfolding s2_def by (rule reaches_step, intro ls_fail) (simp add: s1_def)
  then have "reaches (link_step False) ls_init s3"
    unfolding s3_def by (rule reaches_step, intro ls_register) (rule reg)
  then have r4: "reaches (link_step False) ls_init s4"
    unfolding s4_def
    by (rule reaches_step) (rule ls_send [where xs = "[]" and ys = "[]", simplified],
      simp_all add: s3_def s2_def s1_def ls_init_def)
  have "Wait t p = (Inr None, snd (Wait t p))"
    using reg by (auto simp: Register_def Wait_def new_slot_def Let_def s2_def s1_def ls_init_def
        FailAll_def new_pending_def)
  then have "fst (Wait t (ls_pending s4)) = Inr None"
    by (metis fst_conv link_sys.select_convs(1) link_sys.surjective link_sys.update_convs(1,3) s3_def s4_def)
  with r4 show "\<exists>s i t. reaches (link_step False) ls_init s \<and> ls_phase s = Down \<and>
      (i, t, True) \<in> set (ls_calls s) \<and> fst (Wait t (ls_pending s)) = Inr None"
    by (intro exI [of _ s4] exI [of _ "''id''"] exI [of _ t])
      (simp add: s4_def s3_def s2_def)
qed

lemma no_call_left_on_broken_link_witness:
  "\<exists>s i t. reaches (link_step True) ls_init s \<and> ls_phase s = Down \<and>
     (i, t, True) \<in> set (ls_calls s) \<and> fst (Wait t (ls_pending s)) \<noteq> Inr None"
proof -
  obtain t p where reg: "Register ''id'' (ls_pending ls_init) = Inr (t, p)"
    by (rule Register_succeeds [of "ls_pending ls_init" "''id''"])
      (simp_all add: ls_init_def new_pending_def)
  define s1 where "s1 = ls_init\<lparr>ls_pending := p, ls_calls := (''id'', t, False) # ls_calls ls_init\<rparr>"
  define s2 where "s2 = s1\<lparr>ls_calls := [(''id'', t, True)]\<rparr>"
  define s3 where "s3 = s2\<lparr>ls_phase := Breaking\<rparr>"
  define s4 where "s4 = s3\<lparr>ls_pending := FailAll ''lost'' (ls_pending s3), ls_phase := Down\<rparr>"
  have "reaches (link_step True) ls_init s1"
    unfolding s1_def by (rule reaches_step [OF reaches_refl], rule ls_register) (rule reg)
  then have "reaches (link_step True) ls_init s2"
    unfolding s2_def
    by (rule reaches_step) (rule ls_send [where xs = "[]" and ys = "[]", simplified],
      simp_all add: s1_def ls_init_def ls_broken_def)
  then have "reaches (link_step True) ls_init s3"
    unfolding s3_def by (rule reaches_step, intro ls_break) (simp add: s2_def s1_def ls_init_def)
  then have "reaches (link_step True) ls_init s4"
    unfolding s4_def by (rule reaches_step, intro ls_fail) (simp add: s3_def)
  moreover have "ls_phase s4 = Down" "(''id'', t, True) \<in> set (ls_calls s4)"
    by (simp_all add: s4_def s3_def s2_def)
  ultimately show ?thesis
    using no_call_left_on_broken_link [of s4 "''id''" t] by blast
qed

end
