(* ===== verification/TransportAbi.thy ===== *)
theory TransportAbi
  imports Prelude
begin

text \<open>
  The C ABI of a transport plugin (\<^verbatim>\<open>TransportPluginAbi.h\<close>,
  \<^verbatim>\<open>TransportPluginExports.h\<close>, the same files in all five plugins): buffers cross
  the boundary as malloc'ed copies with a terminating zero byte, exceptions as an error
  status with a message.

  A pointer argument is \<open>None\<close> (null) or \<open>Some region\<close>, the memory it points to.  A
  computation that reads outside a region is undefined behaviour: the type \<open>exec\<close> is
  \<open>None\<close> there, otherwise the thrown exception or the result.  \<^verbatim>\<open>malloc\<close> is a
  parameter: it says whether an allocation of a given size succeeds.
\<close>

type_synonym 'a exec = "'a result option"
type_synonym ptr = "bytes option"
type_synonym transport = "ptr \<Rightarrow> 32 word \<Rightarrow> bytes exec"

definition TRANSPORT_PLUGIN_OK :: int where "TRANSPORT_PLUGIN_OK = 0"
definition TRANSPORT_PLUGIN_ERROR :: int where "TRANSPORT_PLUGIN_ERROR = -1"

text \<open>Reading \<open>n\<close> bytes through a pointer.\<close>

definition read_ptr :: "ptr \<Rightarrow> nat \<Rightarrow> buf option" where
  "read_ptr p n =
     (case p of
        None \<Rightarrow> Some (Null n)
      | Some region \<Rightarrow> if n \<le> length region then Some (Buf (take n region)) else None)"

text \<open>\<^verbatim>\<open>static_cast<std::size_t>(int32_t)\<close>\<close>

definition size_of_int32 :: "32 word \<Rightarrow> nat" where
  "size_of_int32 n = unat (scast n :: u64)"

lemma unat_u64_of_int:
  "0 \<le> k \<Longrightarrow> k < 2 ^ 31 \<Longrightarrow> unat (word_of_int k :: u64) = nat k"
  by (simp add: nat_uint_eq [symmetric] uint_word_of_int)

lemma size_of_int32_nonneg:
  assumes "0 \<le> sint n"
  shows "size_of_int32 n = nat (sint n)"
proof -
  have "sint n < 2 ^ 31" using sint_less [of n] by simp
  then have "unat (word_of_int (sint n) :: u64) = nat (sint n)"
    by (rule unat_u64_of_int [OF assms])
  then show ?thesis by (simp add: size_of_int32_def)
qed

section \<open>Copies\<close>

definition CopyBuffer :: "(nat \<Rightarrow> bool) \<Rightarrow> bytes \<Rightarrow> bytes option" where
  "CopyBuffer malloc d = (if malloc (length d + 1) then Some (d @ [0]) else None)"

definition CopyMessage :: "(nat \<Rightarrow> bool) \<Rightarrow> string \<Rightarrow> bytes option" where
  "CopyMessage malloc m = CopyBuffer malloc (string_to_bytes m)"

text \<open>
  The text a \<^verbatim>\<open>catch (std::exception)\<close>, \<^verbatim>\<open>catch (...)\<close> pair stores:
  \<^verbatim>\<open>error = e.what()\<close> ends at the first zero byte.
\<close>

definition caught_text :: "exn \<Rightarrow> string" where
  "caught_text e = (if is_std e then what e else ''unknown transport plugin error'')"

section \<open>Entry points\<close>

text \<open>
  \<^verbatim>\<open>CreateTransport\<close>: the factory's result, the flag whether \<^verbatim>\<open>errorMessage\<close> is a
  null pointer.  Returns the channel (null on failure) and what was stored through
  \<^verbatim>\<open>errorMessage\<close> (\<open>None\<close> when nothing could be stored).
\<close>

definition CreateTransport ::
  "(nat \<Rightarrow> bool) \<Rightarrow> 'ch result \<Rightarrow> bool \<Rightarrow> 'ch option \<times> bytes option option" where
  "CreateTransport malloc factory want_message =
     (case factory of
        Inr ch \<Rightarrow> (Some ch, if want_message then Some None else None)
      | Inl e \<Rightarrow>
          (None, if want_message then Some (CopyMessage malloc (caught_text e)) else None))"

text \<open>
  \<^verbatim>\<open>TransportSendCommand\<close>: \<open>rp\<close> and \<open>lp\<close> say whether the two out-pointers are
  non-null.  Returns the status and what was stored through the two pointers (\<open>None\<close> when
  nothing was written).
\<close>

definition abi_failure :: "(nat \<Rightarrow> bool) \<Rightarrow> exn \<Rightarrow> int \<times> (bytes option \<times> 32 word) option" where
  "abi_failure malloc e =
     (let text = string_to_bytes (caught_text e);
          response = CopyBuffer malloc text
      in (TRANSPORT_PLUGIN_ERROR,
          Some (response, if response \<noteq> None then word_of_nat (length text) else 0)))"

definition AbiSendCommand ::
  "(nat \<Rightarrow> bool) \<Rightarrow> transport option \<Rightarrow> ptr \<Rightarrow> 32 word \<Rightarrow> bool \<Rightarrow> bool \<Rightarrow>
     (int \<times> (bytes option \<times> 32 word) option) option" where
  "AbiSendCommand malloc ch message messageLen rp lp =
     (if \<not> rp \<or> \<not> lp then Some (TRANSPORT_PLUGIN_ERROR, None)
      else case ch of
         None \<Rightarrow> Some (abi_failure malloc (InvalidArgument ''transport channel is null''))
       | Some t \<Rightarrow>
           (case t message messageLen of
              None \<Rightarrow> None
            | Some (Inl e) \<Rightarrow> Some (abi_failure malloc e)
            | Some (Inr r) \<Rightarrow>
                (case CopyBuffer malloc r of
                   None \<Rightarrow> Some (abi_failure malloc BadAlloc)
                 | Some buffer \<Rightarrow>
                     Some (TRANSPORT_PLUGIN_OK, Some (Some buffer, word_of_nat (length r))))))"

text \<open>
  The gateway marks an error reply with a first byte 255; the transports turn it into an
  exception with the rest of the payload as its text.
\<close>

definition RejectGatewayErrorPayload :: "bytes \<Rightarrow> unit result" where
  "RejectGatewayErrorPayload payload =
     (if payload \<noteq> [] \<and> hd payload = 255
      then Inl (RuntimeError (bytes_to_string (tl payload)))
      else Inr ())"

definition reject_error_reply :: "bytes \<Rightarrow> bytes result" where
  "reject_error_reply r = rbind (RejectGatewayErrorPayload r) (\<lambda>_. Inr r)"

lemma reject_error_reply_iff:
  "reject_error_reply r = Inr r' \<longleftrightarrow> r' = r \<and> (r = [] \<or> hd r \<noteq> 255)"
  by (auto simp: reject_error_reply_def RejectGatewayErrorPayload_def)

section \<open>The transports behind the ABI\<close>

text \<open>
  What the gateway gets for a reply of the other side.  The text of an error reply goes through
  \<^verbatim>\<open>what()\<close> and so ends at its first zero byte; a reply of data is not cut.
\<close>

definition gateway_answer ::
  "(nat \<Rightarrow> bool) \<Rightarrow> bytes \<Rightarrow> (int \<times> (bytes option \<times> 32 word) option) option" where
  "gateway_answer malloc r =
     (if r \<noteq> [] \<and> hd r = 255
      then let text = takeWhile (\<lambda>b. b \<noteq> 0) (tl r) in
        Some (TRANSPORT_PLUGIN_ERROR,
          if malloc (length text + 1) then Some (Some (text @ [0]), word_of_nat (length text))
          else Some (None, 0))
      else if malloc (length r + 1)
      then Some (TRANSPORT_PLUGIN_OK, Some (Some (r @ [0]), word_of_nat (length r)))
      else Some (abi_failure malloc BadAlloc))"

text \<open>
  What the gateway gets when the call itself fails: the text of a standard exception, and a fixed
  text for any other.
\<close>

definition gateway_failure :: "(nat \<Rightarrow> bool) \<Rightarrow> exn \<Rightarrow> int \<times> (bytes option \<times> 32 word) option" where
  "gateway_failure malloc e =
     (let text = string_to_bytes (if is_std e then what e else ''unknown transport plugin error'') in
      (TRANSPORT_PLUGIN_ERROR,
        if malloc (length text + 1) then Some (Some (text @ [0]), word_of_nat (length text))
        else Some (None, 0)))"

lemma abi_failure_gateway: "abi_failure malloc e = gateway_failure malloc e"
  by (simp add: gateway_failure_def abi_failure_def CopyBuffer_def caught_text_def Let_def)

lemma gateway_answer_failure:
  "gateway_answer malloc r =
     (if r \<noteq> [] \<and> hd r = 255 then Some (abi_failure malloc (RuntimeError (bytes_to_string (tl r))))
      else if malloc (length r + 1)
      then Some (TRANSPORT_PLUGIN_OK, Some (Some (r @ [0]), word_of_nat (length r)))
      else Some (abi_failure malloc BadAlloc))"
  by (simp add: gateway_answer_def abi_failure_def CopyBuffer_def caught_text_def c_str_bytes Let_def)

text \<open>An error text in the documented form: one zero byte, at its end.\<close>

definition c_text :: "bytes \<Rightarrow> bool" where
  "c_text b \<longleftrightarrow> b \<noteq> [] \<and> last b = 0 \<and> 0 \<notin> set (butlast b)"

lemma no_zero_byte: "CHR 0x00 \<notin> set s \<Longrightarrow> 0 \<notin> set (string_to_bytes s)"
proof
  assume s: "CHR 0x00 \<notin> set s" "0 \<in> set (string_to_bytes s)"
  have "takeWhile (\<lambda>b. b \<noteq> 0) (string_to_bytes s) = string_to_bytes s"
    using c_str_bytes [of "string_to_bytes s"] by (simp add: c_str_id [OF s(1)])
  then show False using s(2) by (metis set_takeWhileD)
qed

lemma caught_text_no_zero: "CHR 0x00 \<notin> set (caught_text e)"
  by (cases e) (simp_all add: caught_text_def c_str_no_zero)

lemma abi_failure_text:
  "abi_failure malloc e = (status, Some (Some b, k)) \<Longrightarrow> c_text b \<and> k = word_of_nat (length b - 1)"
  using no_zero_byte [OF caught_text_no_zero [of e]]
  by (auto simp: abi_failure_def Let_def CopyBuffer_def c_text_def split: if_splits)

lemma error_answer_text:
  assumes "Some (TRANSPORT_PLUGIN_ERROR, Some (Some b, k)) =
    (case r of Inl e \<Rightarrow> Some (abi_failure malloc e) | Inr reply \<Rightarrow> gateway_answer malloc reply)"
  shows "c_text b \<and> k = word_of_nat (length b - 1)"
proof (cases r)
  case (Inl e)
  with assms have "abi_failure malloc e = (TRANSPORT_PLUGIN_ERROR, Some (Some b, k))" by simp
  then show ?thesis by (rule abi_failure_text)
next
  case (Inr reply)
  moreover have "TRANSPORT_PLUGIN_ERROR \<noteq> TRANSPORT_PLUGIN_OK"
    by (simp add: TRANSPORT_PLUGIN_OK_def TRANSPORT_PLUGIN_ERROR_def)
  ultimately obtain e where "abi_failure malloc e = (TRANSPORT_PLUGIN_ERROR, Some (Some b, k))"
    using assms by (auto simp: gateway_answer_failure split: if_splits dest: sym)
  then show ?thesis by (rule abi_failure_text)
qed

text \<open>
  What the five transports have in common: a message of positive length goes to the client's
  call, and the reply is checked for the mark of a gateway error.
\<close>

locale plugin_transport =
  fixes transport :: "(buf \<Rightarrow> bytes result) \<Rightarrow> transport"
  assumes passes: "0 < sint len \<Longrightarrow> nat (sint len) \<le> length region \<Longrightarrow>
    transport call (Some region) len =
      Some (rbind (call (Buf (take (nat (sint len)) region))) reject_error_reply)"
begin

lemma answers:
  assumes "0 < sint len" "nat (sint len) \<le> length region"
  shows "AbiSendCommand malloc (Some (transport call)) (Some region) len True True =
    (case call (Buf (take (nat (sint len)) region)) of
       Inl e \<Rightarrow> Some (abi_failure malloc e)
     | Inr r \<Rightarrow> gateway_answer malloc r)"
  by (simp add: AbiSendCommand_def passes [OF assms] gateway_answer_failure reject_error_reply_def
      RejectGatewayErrorPayload_def CopyBuffer_def split: sum.split)

end

lemma read_ptr_positive:
  assumes "0 < sint len" "nat (sint len) \<le> length region"
  shows "read_ptr (Some region) (size_of_int32 len) = Some (Buf (take (nat (sint len)) region))"
  using assms by (simp add: read_ptr_def size_of_int32_nonneg)

section \<open>Properties\<close>

lemma CopyBuffer_Some: "CopyBuffer malloc d = Some b \<longleftrightarrow> malloc (length d + 1) \<and> b = d @ [0]"
  by (auto simp: CopyBuffer_def)

lemma CopyBuffer_None: "CopyBuffer malloc d = None \<longleftrightarrow> \<not> malloc (length d + 1)"
  by (auto simp: CopyBuffer_def)

text \<open>The exception that reaches the handlers, if any.\<close>

definition abi_exn :: "(nat \<Rightarrow> bool) \<Rightarrow> transport option \<Rightarrow> ptr \<Rightarrow> 32 word \<Rightarrow> exn option" where
  "abi_exn malloc ch msg len =
     (case ch of
        None \<Rightarrow> Some (InvalidArgument ''transport channel is null'')
      | Some t \<Rightarrow>
          (case t msg len of
             None \<Rightarrow> None
           | Some (Inl e) \<Rightarrow> Some e
           | Some (Inr r) \<Rightarrow> if malloc (length r + 1) then None else Some BadAlloc))"

text \<open>
  The contract of \<^verbatim>\<open>TransportSendCommand\<close>.  Success is reported exactly when the
  channel is non-null, the transport returned a reply and the copy could be allocated; the
  caller then gets the reply followed by one zero byte and the length of the reply.  In
  every other case the status is the error status and the caller gets the text of the
  exception, terminated and measured in the same way, or no buffer and the length 0 when
  that text cannot be allocated either.
\<close>

theorem abi_send_contract:
  assumes "AbiSendCommand malloc ch msg len True True = Some (status, out)"
  shows "(status = TRANSPORT_PLUGIN_OK \<longleftrightarrow>
       (\<exists>t r. ch = Some t \<and> t msg len = Some (Inr r) \<and> malloc (length r + 1) \<and>
         out = Some (Some (r @ [0]), word_of_nat (length r)))) \<and>
    (status \<noteq> TRANSPORT_PLUGIN_OK \<longleftrightarrow>
       (\<exists>e. status = TRANSPORT_PLUGIN_ERROR \<and> abi_exn malloc ch msg len = Some e \<and>
         out = (let text = string_to_bytes (caught_text e) in
           if malloc (length text + 1)
           then Some (Some (text @ [0]), word_of_nat (length text)) else Some (None, 0))))"
proof -
  have codes: "TRANSPORT_PLUGIN_ERROR \<noteq> TRANSPORT_PLUGIN_OK"
    by (simp add: TRANSPORT_PLUGIN_OK_def TRANSPORT_PLUGIN_ERROR_def)
  show ?thesis
  proof (cases "abi_exn malloc ch msg len")
    case None
    with assms codes show ?thesis
      by (auto simp: AbiSendCommand_def abi_exn_def CopyBuffer_Some CopyBuffer_None
          split: option.splits sum.splits if_splits)
  next
    case (Some e)
    with assms have "(status, out) = abi_failure malloc e"
      by (auto simp: AbiSendCommand_def abi_exn_def CopyBuffer_def
          split: option.splits sum.splits if_splits)
    moreover from Some have "\<not> (\<exists>t r. ch = Some t \<and> t msg len = Some (Inr r) \<and> malloc (length r + 1))"
      by (auto simp: abi_exn_def)
    ultimately show ?thesis
      using Some codes by (auto simp: abi_failure_def Let_def CopyBuffer_def)
  qed
qed

lemma abi_send_contract_witness:
  "AbiSendCommand (\<lambda>_. True) (Some (\<lambda>_ _. Some (Inr [7]))) (Some []) 0 True True
      = Some (TRANSPORT_PLUGIN_OK, Some (Some [7, 0], 1)) \<and>
   (\<exists>t r. Some (\<lambda>_ _. Some (Inr [7])) = Some t \<and> t (Some [] :: ptr) (0 :: 32 word) = Some (Inr r) \<and>
      Some (Some [7, 0 :: byte], 1 :: 32 word) = Some (Some (r @ [0]), word_of_nat (length r)))"
proof -
  have run: "AbiSendCommand (\<lambda>_. True) (Some (\<lambda>_ _. Some (Inr [7]))) (Some []) 0 True True
      = Some (TRANSPORT_PLUGIN_OK, Some (Some [7, 0], 1))"
    by (simp add: AbiSendCommand_def CopyBuffer_def)
  from abi_send_contract [OF run] run show ?thesis by blast
qed

text \<open>
  The length crosses the boundary intact for replies below 2 GiB, and only for those:
  the stored 32-bit length, read as a signed number, is the length of the data exactly
  when that length is below \<open>2 ^ 31\<close> (sizes are below \<open>2 ^ 32\<close> here).
\<close>

theorem abi_length_exact_iff:
  assumes "AbiSendCommand malloc (Some t) msg len True True = Some (TRANSPORT_PLUGIN_OK, Some (Some b, n))"
    and "t msg len = Some (Inr r)" and "length r < 2 ^ 32"
  shows "sint n = int (length r) \<longleftrightarrow> length r < 2 ^ 31"
proof -
  have n: "n = word_of_nat (length r)"
    using assms(1,2) by (auto simp: AbiSendCommand_def abi_failure_def TRANSPORT_PLUGIN_OK_def
        TRANSPORT_PLUGIN_ERROR_def Let_def split: option.splits)
  show ?thesis
  proof
    assume "sint n = int (length r)"
    moreover have "sint n < 2 ^ 31" using sint_less [of n] by simp
    ultimately show "length r < 2 ^ 31" by simp
  next
    assume "length r < 2 ^ 31"
    then show "sint n = int (length r)"
      by (simp add: n signed_of_nat signed_take_bit_int_eq_self)
  qed
qed

lemma abi_length_exact_iff_witness:
  "(sint (2 :: 32 word) = int (length [1, 2 :: byte])) = (length [1, 2 :: byte] < 2 ^ 31)"
proof -
  let ?t = "(\<lambda>_ _. Some (Inr [1, 2])) :: transport"
  have run: "AbiSendCommand (\<lambda>_. True) (Some ?t) None 0 True True
      = Some (TRANSPORT_PLUGIN_OK, Some (Some [1, 2, 0], 2))"
    by (simp add: AbiSendCommand_def CopyBuffer_def)
  have len: "length [1, 2 :: byte] < 2 ^ 32" by simp
  show ?thesis by (rule abi_length_exact_iff [OF run refl len])
qed

end
