(* ===== verification/RabbitMqClient.thy ===== *)
theory RabbitMqClient
  imports RabbitMqConfig RabbitMqLink RpcLink TransportAbi
begin

text \<open>
  The client of the RabbitMQ plugin (\<^verbatim>\<open>RabbitMqClient.h\<close>, \<^verbatim>\<open>RabbitMqClient.cpp\<close>,
  \<^verbatim>\<open>TransportRabbitMq.cpp\<close>): the link with its I/O thread, the current link, the call and
  the wrappers around it.  AMQP-CPP and the socket are parameters; the callbacks the library
  makes while it parses are the events of this theory.
\<close>

section \<open>Correlation ids\<close>

text \<open>The thread id as the library prints it, the clock, and the shared counter.\<close>

definition rabbit_BuildCorrelationId :: "string \<Rightarrow> int \<Rightarrow> u64 \<Rightarrow> string" where
  "rabbit_BuildCorrelationId tid now sequence =
     tid @ ''-'' @ to_string now @ ''-'' @ dec_digits (unat sequence)"

text \<open>Two values of the counter give two ids, whatever thread and clock say.\<close>

lemma last_number_inj:
  assumes "u @ CHR ''-'' # dec_digits n = v @ CHR ''-'' # dec_digits m"
  shows "n = m"
proof -
  have "CHR ''-'' \<notin> set (dec_digits k)" for k
    using dec_digits_class [of "CHR ''-''" k] by (auto simp: is_digit_def code_in_def)
  then show ?thesis using assms by (simp add: split_at_last dec_digits_inj)
qed

lemma rabbit_ids_distinct:
  "rabbit_BuildCorrelationId t1 now1 s1 = rabbit_BuildCorrelationId t2 now2 s2 \<Longrightarrow> s1 = s2"
  using last_number_inj [of "t1 @ ''-'' @ to_string now1" "unat s1" "t2 @ ''-'' @ to_string now2" "unat s2"]
  by (simp add: rabbit_BuildCorrelationId_def word_unat_eq_iff)

section \<open>The link\<close>

text \<open>\<open>rl_acked\<close> are the delivery tags of the replies the link acknowledged.\<close>

record rabbit_link =
  rl_queue :: string
  rl_replyQueue :: string
  rl_connectionError :: bool
  rl_connectionClosed :: bool
  rl_brokenError :: string
  rl_consumerReady :: bool
  rl_broken :: bool
  rl_acked :: "nat list"

definition new_link_state :: "rabbit_client_config \<Rightarrow> rabbit_link" where
  "new_link_state config =
    \<lparr>rl_queue = rc_queue config, rl_replyQueue = [], rl_connectionError = False,
     rl_connectionClosed = False, rl_brokenError = [], rl_consumerReady = False, rl_broken = False,
     rl_acked = []\<rparr>"

definition rabbit_Disconnect :: "string \<Rightarrow> rabbit_link \<Rightarrow> rabbit_link \<times> pr_event list" where
  "rabbit_Disconnect error l =
     (l\<lparr>rl_brokenError := (if rl_brokenError l = [] then error else rl_brokenError l),
        rl_broken := True\<rparr>,
      [EFailAll error])"

definition BrokenError :: "rabbit_link \<Rightarrow> string" where
  "BrokenError l =
     (if rl_brokenError l = [] then ''RabbitMQ: connection is not available'' else rl_brokenError l)"

text \<open>
  The callbacks: of the queue declaration, of the consumer that \<^verbatim>\<open>StartConsumer\<close> starts, of
  the channel, and of the connection handler (whose \<^verbatim>\<open>onData\<close> sets the error flag when a
  write fails).
\<close>

datatype amqp_event =
    QueueDeclared string
  | ConsumerStarted
  | Received nat "string option" bytes
  | ChannelError "string option"
  | HandlerError
  | HandlerClosed

definition StartConsumer :: "string \<Rightarrow> rabbit_link \<Rightarrow> rabbit_link" where
  "StartConsumer replyQueue l = l\<lparr>rl_replyQueue := replyQueue\<rparr>"

fun on_event :: "amqp_event \<Rightarrow> rabbit_link \<Rightarrow> rabbit_link \<times> pr_event list" where
  "on_event (QueueDeclared name) l = (StartConsumer name l, [])"
| "on_event ConsumerStarted l = (l\<lparr>rl_consumerReady := True\<rparr>, [])"
| "on_event (Received deliveryTag correlationId body) l =
     (l\<lparr>rl_acked := rl_acked l @ [deliveryTag]\<rparr>,
      (case correlationId of Some cid \<Rightarrow> [EComplete cid body] | None \<Rightarrow> []))"
| "on_event (ChannelError message) l =
     rabbit_Disconnect (''RabbitMQ channel error: '' @ (case message of Some m \<Rightarrow> m | None \<Rightarrow> [])) l"
| "on_event HandlerError l = (l\<lparr>rl_connectionError := True\<rparr>, [])"
| "on_event HandlerClosed l = (l\<lparr>rl_connectionClosed := True\<rparr>, [])"

fun on_events :: "amqp_event list \<Rightarrow> rabbit_link \<Rightarrow> rabbit_link \<times> pr_event list" where
  "on_events [] l = (l, [])"
| "on_events (e # es) l =
     (case on_event e l of (l, out) \<Rightarrow> (case on_events es l of (l, out') \<Rightarrow> (l, out @ out')))"

section \<open>The I/O thread\<close>

text \<open>What \<^verbatim>\<open>select\<close> and \<^verbatim>\<open>recv\<close> answer in one turn.\<close>

datatype io_turn =
    IoTimeout
  | IoSelectError
  | IoRead bytes
  | IoEof
  | IoWouldBlock
  | IoReadFailed

record 'c io_state =
  io_conn :: 'c
  io_pendingBytes :: bytes
  io_link :: rabbit_link

text \<open>One turn after the tests of the loop; the flag says whether the thread returns.\<close>

definition io_disconnect :: "string \<Rightarrow> 'c io_state \<Rightarrow> 'c io_state \<times> pr_event list \<times> bool" where
  "io_disconnect error s =
     (case rabbit_Disconnect error (io_link s) of (l, out) \<Rightarrow> (s\<lparr>io_link := l\<rparr>, out, True))"

definition run_turn ::
  "('c, amqp_event) parser \<Rightarrow> io_turn \<Rightarrow> 'c io_state \<Rightarrow> 'c io_state \<times> pr_event list \<times> bool" where
  "run_turn parse turn s =
     (if rl_connectionError (io_link s) \<or> rl_connectionClosed (io_link s)
      then io_disconnect ''RabbitMQ: connection lost'' s
      else case turn of
        IoTimeout \<Rightarrow> (s, [], False)
      | IoSelectError \<Rightarrow> io_disconnect ''RabbitMQ: socket error'' s
      | IoEof \<Rightarrow> io_disconnect ''RabbitMQ: connection closed by broker'' s
      | IoWouldBlock \<Rightarrow> (s, [], False)
      | IoReadFailed \<Rightarrow> io_disconnect ''RabbitMQ: socket read failed'' s
      | IoRead chunk \<Rightarrow>
          (case receive_chunk parse (io_conn s, io_pendingBytes s) chunk of
             (c, rest, events) \<Rightarrow>
               (case on_events events (io_link s) of
                  (l, out) \<Rightarrow>
                    (\<lparr>io_conn = c, io_pendingBytes = rest, io_link = l\<rparr>, out, False))))"

text \<open>The loop: each turn comes with the reading of \<^verbatim>\<open>stopping_\<close> before it.\<close>

fun rabbit_Run ::
  "('c, amqp_event) parser \<Rightarrow> (bool \<times> io_turn) list \<Rightarrow> 'c io_state \<Rightarrow> 'c io_state \<times> pr_event list" where
  "rabbit_Run parse [] s = (s, [])"
| "rabbit_Run parse ((stopping, turn) # turns) s =
     (if stopping \<or> rl_broken (io_link s) then (s, [])
      else case run_turn parse turn s of
        (s, out, True) \<Rightarrow> (s, out)
      | (s, out, False) \<Rightarrow>
          (case rabbit_Run parse turns s of (s, out') \<Rightarrow> (s, out @ out')))"

section \<open>Opening a link\<close>

text \<open>
  \<open>results\<close> are the addresses of the broker; \<open>turns\<close> are those of the I/O thread
  until the constructor stops waiting.  A failing constructor may have failed the waiting calls
  of the client before.
\<close>

definition rabbit_open_link ::
  "('c, amqp_event) parser \<Rightarrow> address list option \<Rightarrow> 'c \<Rightarrow> io_turn list \<Rightarrow> rabbit_client_config \<Rightarrow>
     'c io_state result \<times> pr_event list" where
  "rabbit_open_link parse results c turns config =
     (if fst (ConnectSocket results) = None
      then (Inl (RuntimeError (''RabbitMQ: cannot connect to '' @ rc_host config @ '':'' @
              dec_digits (unat (rc_port config)))), [])
      else case rabbit_Run parse (map (\<lambda>t. (False, t)) turns)
                  \<lparr>io_conn = c, io_pendingBytes = [], io_link = new_link_state config\<rparr> of
        (s, out) \<Rightarrow>
          (if rl_consumerReady (io_link s) then (Inr s, out)
           else (Inl (RuntimeError
                   (if rl_broken (io_link s) then BrokenError (io_link s)
                    else ''RabbitMQ: timed out waiting for the reply consumer'')), out)))"

section \<open>Publishing\<close>

record rabbit_envelope =
  re_routingKey :: string
  re_body :: bytes
  re_contentType :: string
  re_replyTo :: string
  re_correlationId :: string

definition request_envelope :: "rabbit_link \<Rightarrow> string \<Rightarrow> buf \<Rightarrow> rabbit_envelope" where
  "request_envelope l correlationId d =
    \<lparr>re_routingKey = rl_queue l, re_body = (if buf_size d = 0 then [] else buf_bytes d),
     re_contentType = ''application/octet-stream'', re_replyTo = rl_replyQueue l,
     re_correlationId = correlationId\<rparr>"

text \<open>\<open>published\<close> is the return value of \<^verbatim>\<open>channel_->publish\<close>.\<close>

definition rabbit_Publish ::
  "(rabbit_envelope \<Rightarrow> bool) \<Rightarrow> rabbit_link \<Rightarrow> string \<Rightarrow> buf \<Rightarrow> unit result \<times> rabbit_envelope list" where
  "rabbit_Publish published l correlationId d =
     (if rl_broken l then (Inl (RuntimeError (BrokenError l)), [])
      else let envelope = request_envelope l correlationId d in
        (if published envelope then Inr ()
         else Inl (RuntimeError (''RabbitMQ: failed to publish request to queue '' @ rl_queue l)),
         [envelope]))"

section \<open>The client\<close>

record rabbit_client =
  rk_config :: rabbit_client_config
  rk_pending :: pending
  rk_link :: "rabbit_link option"

definition new_RabbitMqRpcClient :: "rabbit_client_config \<Rightarrow> rabbit_client" where
  "new_RabbitMqRpcClient config = \<lparr>rk_config = config, rk_pending = new_pending, rk_link = None\<rparr>"

definition destroy_RabbitMqRpcClient :: "rabbit_client \<Rightarrow> rabbit_client" where
  "destroy_RabbitMqRpcClient c =
     c\<lparr>rk_pending := Close ''RabbitMQ client is shutting down'' (rk_pending c), rk_link := None\<rparr>"

text \<open>\<open>open_link\<close> is the constructor of the link with what it does to the waiting calls.\<close>

definition rabbit_relink ::
  "(rabbit_client_config \<Rightarrow> rabbit_link result \<times> pr_event list) \<Rightarrow> rabbit_client \<Rightarrow>
     rabbit_link result \<times> rabbit_client" where
  "rabbit_relink open_link c =
     (case open_link (rk_config c) of
        (r, out) \<Rightarrow>
          (r, c\<lparr>rk_pending := fold pr_apply out (rk_pending c),
                rk_link := (case r of Inl _ \<Rightarrow> None | Inr l \<Rightarrow> Some l)\<rparr>))"

definition rabbit_CurrentLink ::
  "(rabbit_client_config \<Rightarrow> rabbit_link result \<times> pr_event list) \<Rightarrow> rabbit_client \<Rightarrow>
     rabbit_link result \<times> rabbit_client" where
  "rabbit_CurrentLink open_link c =
     (case rk_link c of
        Some l \<Rightarrow> if rl_broken l then rabbit_relink open_link c else (Inr l, c)
      | None \<Rightarrow> rabbit_relink open_link c)"

definition rabbit_timeout_ms :: "rabbit_client_config \<Rightarrow> u32" where
  "rabbit_timeout_ms config = (if rc_rpcTimeoutMs config = 0 then 30000 else rc_rpcTimeoutMs config)"

definition rabbit_timeout :: "rabbit_client_config \<Rightarrow> string \<Rightarrow> exn" where
  "rabbit_timeout config correlationId =
     RuntimeError (''RabbitMQ RPC timed out after '' @ dec_digits (unat (rabbit_timeout_ms config)) @
       '' ms waiting for correlation id '' @ correlationId)"

text \<open>
  \<open>later\<close> is what the I/O thread has made of the link when the request is published;
  \<open>during\<close> are the events of the other threads after the registration.
\<close>

definition rabbit_Call ::
  "(rabbit_client_config \<Rightarrow> rabbit_link result \<times> pr_event list) \<Rightarrow> (rabbit_link \<Rightarrow> rabbit_link) \<Rightarrow>
     (rabbit_envelope \<Rightarrow> bool) \<Rightarrow> string \<Rightarrow> pr_event list \<Rightarrow> buf \<Rightarrow> rabbit_client \<Rightarrow>
     bytes result \<times> rabbit_client \<times> rabbit_envelope list" where
  "rabbit_Call open_link later published cid during d c =
     (if rc_queue (rk_config c) = []
      then (Inl (RuntimeError ''RabbitMQ queue is not configured''), c, [])
      else if buf_size d > 0 \<and> buf_is_null d
      then (Inl (InvalidArgument ''RabbitMQ client: null payload with non-zero length''), c, [])
      else case rabbit_CurrentLink open_link c of
        (Inl e, c) \<Rightarrow> (Inl e, c, [])
      | (Inr l, c) \<Rightarrow>
          (case rabbit_Publish published (later l) cid d of
             (sent, envelopes) \<Rightarrow>
               (case await_reply (rabbit_timeout (rk_config c) cid) cid during sent (rk_pending c) of
                  (r, p) \<Rightarrow>
                    (r, c\<lparr>rk_pending := p, rk_link := Some (later l)\<rparr>,
                     if isl (Register cid (rk_pending c)) then [] else envelopes))))"

text \<open>
  The wrappers: a client for one call, every exception turned into \<^verbatim>\<open>false\<close>.  An empty
  vector is passed as a null pointer.
\<close>

definition vector_buf :: "bytes \<Rightarrow> buf" where
  "vector_buf payload = (if payload = [] then Null 0 else Buf payload)"

definition rabbit_SendRpc ::
  "(buf \<Rightarrow> rabbit_client \<Rightarrow> bytes result \<times> rabbit_client \<times> rabbit_envelope list) \<Rightarrow>
     rabbit_client_config \<Rightarrow> buf \<Rightarrow> bool \<times> bytes" where
  "rabbit_SendRpc call config d =
     (case fst (call d (new_RabbitMqRpcClient config)) of
        Inr response \<Rightarrow> (True, response)
      | Inl _ \<Rightarrow> (False, []))"

definition rabbit_SendRpc_vector ::
  "(buf \<Rightarrow> rabbit_client \<Rightarrow> bytes result \<times> rabbit_client \<times> rabbit_envelope list) \<Rightarrow>
     rabbit_client_config \<Rightarrow> bytes \<Rightarrow> bool \<times> bytes" where
  "rabbit_SendRpc_vector call config payload = rabbit_SendRpc call config (vector_buf payload)"

definition rabbit_Send ::
  "(buf \<Rightarrow> rabbit_client \<Rightarrow> bytes result \<times> rabbit_client \<times> rabbit_envelope list) \<Rightarrow>
     rabbit_client_config \<Rightarrow> buf \<Rightarrow> bool" where
  "rabbit_Send call config d = fst (rabbit_SendRpc call config d)"

section \<open>The transport\<close>

definition new_TransportRabbitMq :: "cpp_env \<Rightarrow> string \<Rightarrow> u16 \<Rightarrow> string \<Rightarrow> rabbit_client" where
  "new_TransportRabbitMq env host port configSource =
     new_RabbitMqRpcClient (rabbit_ApplyConfigSource env configSource
       (default_rabbit_client\<lparr>rc_host := host, rc_port := port\<rparr>))"

definition rabbit_transport :: "(buf \<Rightarrow> bytes result) \<Rightarrow> transport" where
  "rabbit_transport call messageByteArray messageByteArrayLen =
     (if messageByteArray = None \<or> sint messageByteArrayLen < 0
      then Some (Inl (RuntimeError ''invalid RabbitMQ payload''))
      else case read_ptr messageByteArray (size_of_int32 messageByteArrayLen) of
        None \<Rightarrow> None
      | Some d \<Rightarrow> Some (rbind (call d) reject_error_reply))"

text \<open>The transport passes messages and replies as the ABI expects.\<close>

interpretation rabbit_plugin: plugin_transport rabbit_transport
  by unfold_locales (simp add: rabbit_transport_def read_ptr_positive)

section \<open>Properties\<close>

lemma CurrentLink_reuse:
  "rk_link c = Some l \<Longrightarrow> \<not> rl_broken l \<Longrightarrow> rabbit_CurrentLink open_link c = (Inr l, c)"
  by (simp add: rabbit_CurrentLink_def)

lemma rabbit_call_general:
  assumes "pending_wf (rk_pending c)" "\<not> closed (rk_pending c)"
    and "map_of (slots (rk_pending c)) cid = None" "leaves cid during"
    and "rk_link c = Some l" "\<not> rl_broken l"
    and "rc_queue (rk_config c) \<noteq> []" "\<not> (buf_size d > 0 \<and> buf_is_null d)"
  shows "\<exists>c'. rabbit_Call open_link later published cid during d c =
      ((case fst (rabbit_Publish published (later l) cid d) of
          Inl e \<Rightarrow> Inl e
        | Inr _ \<Rightarrow>
            (case first_settle cid during of
               Waiting \<Rightarrow> Inl (rabbit_timeout (rk_config c) cid)
             | Failed e \<Rightarrow> Inl (RuntimeError e)
             | Done pl \<Rightarrow> Inr pl)),
       c', snd (rabbit_Publish published (later l) cid d)) \<and>
    map_of (slots (rk_pending c')) cid = None \<and> pending_wf (rk_pending c')"
proof -
  obtain sent envelopes where pub: "rabbit_Publish published (later l) cid d = (sent, envelopes)"
    by (cases "rabbit_Publish published (later l) cid d")
  obtain r p where aw: "await_reply (rabbit_timeout (rk_config c) cid) cid during sent (rk_pending c) = (r, p)"
    by (cases "await_reply (rabbit_timeout (rk_config c) cid) cid during sent (rk_pending c)")
  obtain t q where "Register cid (rk_pending c) = Inr (t, q)"
    by (rule Register_succeeds [OF assms(2,3)])
  then have "\<not> isl (Register cid (rk_pending c))" by simp
  then have call: "rabbit_Call open_link later published cid during d c =
      (r, c\<lparr>rk_pending := p, rk_link := Some (later l)\<rparr>, envelopes)"
    unfolding rabbit_Call_def CurrentLink_reuse [OF assms(5,6)] prod.case sum.case pub aw
      if_not_P [OF assms(7)] if_not_P [OF assms(8)] by (simp only: if_False)
  have "r = (case sent of Inl e \<Rightarrow> Inl e | Inr _ \<Rightarrow>
      (case first_settle cid during of
         Waiting \<Rightarrow> Inl (rabbit_timeout (rk_config c) cid)
       | Failed e \<Rightarrow> Inl (RuntimeError e)
       | Done pl \<Rightarrow> Inr pl))" "map_of (slots p) cid = None" "pending_wf p"
    using await_reply_outcome [OF assms(1-4), of "rabbit_timeout (rk_config c) cid" sent]
    unfolding aw by simp_all
  then show ?thesis
    unfolding call pub by (intro exI [of _ "c\<lparr>rk_pending := p, rk_link := Some (later l)\<rparr>"]) simp
qed

text \<open>
  C22. The outcome of a RabbitMQ call.  On a working link, and whatever the I/O thread and other
  calls do meanwhile, a call ends with the error of a link that broke before the request was
  published, or of the failed publish, or with the first settlement of its own id, or a timeout;
  a request is sent only over a link that is not broken, it carries the caller's bytes, the
  call's id and the link's reply queue, and no entry is left behind.
\<close>
theorem rabbit_call_outcome:
  assumes "pending_wf (rk_pending c)" "\<not> closed (rk_pending c)"
    and "map_of (slots (rk_pending c)) cid = None" "leaves cid during"
    and "rk_link c = Some l" "\<not> rl_broken l"
    and "rc_queue (rk_config c) \<noteq> []" "\<not> (buf_size d > 0 \<and> buf_is_null d)"
  shows "\<exists>r c' sent. rabbit_Call open_link later published cid during d c = (r, c', sent) \<and>
    r = (if rl_broken (later l) then Inl (RuntimeError (BrokenError (later l)))
         else if \<not> published (request_envelope (later l) cid d)
         then Inl (RuntimeError (''RabbitMQ: failed to publish request to queue '' @ rl_queue (later l)))
         else case first_settle cid during of
             Waiting \<Rightarrow> Inl (rabbit_timeout (rk_config c) cid)
           | Failed e \<Rightarrow> Inl (RuntimeError e)
           | Done pl \<Rightarrow> Inr pl) \<and>
    sent = (if rl_broken (later l) then [] else [request_envelope (later l) cid d]) \<and>
    re_body (request_envelope (later l) cid d) = buf_bytes d \<and>
    re_replyTo (request_envelope (later l) cid d) = rl_replyQueue (later l) \<and>
    re_correlationId (request_envelope (later l) cid d) = cid \<and>
    map_of (slots (rk_pending c')) cid = None \<and> pending_wf (rk_pending c')"
proof -
  have "buf_size d = 0 \<Longrightarrow> buf_bytes d = []" by (cases d) auto
  then show ?thesis
    using rabbit_call_general [OF assms, of open_link later published]
    by (auto simp: rabbit_Publish_def Let_def request_envelope_def)
qed

definition rabbit_example_client :: rabbit_client where
  "rabbit_example_client =
     (new_RabbitMqRpcClient (default_rabbit_client\<lparr>rc_queue := ''q''\<rparr>))
       \<lparr>rk_link := Some ((new_link_state (default_rabbit_client\<lparr>rc_queue := ''q''\<rparr>))
          \<lparr>rl_replyQueue := ''r'', rl_consumerReady := True\<rparr>)\<rparr>"

lemma rabbit_call_outcome_witness:
  "\<forall>open_link. \<exists>c' sent. rabbit_Call open_link (\<lambda>l. l) (\<lambda>_. True) ''id''
     [EComplete ''x'' [1], EComplete ''id'' [2]] (Buf [7]) rabbit_example_client = (Inr [2], c', sent)"
proof
  fix open_link
  let ?es = "[EComplete ''x'' [1], EComplete ''id'' [2]]"
  obtain l where l: "rk_link rabbit_example_client = Some l" "\<not> rl_broken l"
    by (simp add: rabbit_example_client_def new_link_state_def)
  have fields: "pending_wf (rk_pending rabbit_example_client)" "\<not> closed (rk_pending rabbit_example_client)"
    "map_of (slots (rk_pending rabbit_example_client)) ''id'' = None"
    "rc_queue (rk_config rabbit_example_client) \<noteq> []"
    by (simp add: rabbit_example_client_def new_RabbitMqRpcClient_def)
      (simp_all add: rabbit_example_client_def new_RabbitMqRpcClient_def new_pending_def)
  show "\<exists>c' sent. rabbit_Call open_link (\<lambda>l. l) (\<lambda>_. True) ''id'' ?es (Buf [7]) rabbit_example_client =
      (Inr [2], c', sent)"
    using rabbit_call_outcome [OF fields(1-3) _ l fields(4), of ?es "Buf [7]" open_link "\<lambda>l. l" "\<lambda>_. True"] l(2)
    by auto
qed

end
