(* ===== verification/AckServer.thy ===== *)
theory AckServer
  imports Prelude
begin

text \<open>
  What the servers share: they run a handler over received messages, look at the stop flag
  before each one, and leave the loop on an exception the handler does not catch.  The locale
  \<open>ack_server\<close> is their contract: a message is acknowledged only when it is settled.
\<close>

text \<open>
  The handler may keep a state (a session) from message to message.  The messages come with the
  reading of the stop flag before each.
\<close>

fun run_batch ::
  "('s \<Rightarrow> 'm \<Rightarrow> 'a list \<times> unit result \<times> 's) \<Rightarrow> 's \<Rightarrow> (bool \<times> 'm) list \<Rightarrow>
     'a list \<times> unit result \<times> 's" where
  "run_batch handle s [] = ([], Inr (), s)"
| "run_batch handle s ((stop, m) # rest) =
     (if stop then ([], Inr (), s)
      else case handle s m of
        (acts, Inl e, s) \<Rightarrow> (acts, Inl e, s)
      | (acts, Inr _, s) \<Rightarrow>
          (case run_batch handle s rest of (acts', r, s) \<Rightarrow> (acts @ acts', r, s)))"

text \<open>\<open>xs\<close> are the first elements of \<open>ys\<close>.\<close>

definition first_of :: "'a list \<Rightarrow> 'a list \<Rightarrow> bool" where
  "first_of xs ys \<longleftrightarrow> take (length xs) ys = xs"

lemma first_of_simps [simp]:
  "first_of [] ys"
  "first_of xs xs"
  "first_of (x # xs) (y # ys) \<longleftrightarrow> x = y \<and> first_of xs ys"
  "first_of (xs @ ys) (xs @ zs) \<longleftrightarrow> first_of ys zs"
  by (auto simp: first_of_def)

lemma first_of_longer: "first_of xs ys \<Longrightarrow> first_of xs (ys @ zs)"
  by (simp add: first_of_def) (metis append_take_drop_id length_append length_take linorder_le_cases
      min.absorb1 take_all_iff take_append)

locale ack_server =
  fixes handle :: "'s \<Rightarrow> 'm \<Rightarrow> 'a list \<times> unit result \<times> 's"
    and is_ack :: "'a \<Rightarrow> bool"
    and acks :: "'m \<Rightarrow> 'a \<Rightarrow> bool"
    and settled :: "'s \<Rightarrow> 'm \<Rightarrow> bool"
  assumes ack_settled: "a \<in> set (fst (handle s m)) \<Longrightarrow> is_ack a \<Longrightarrow> acks m a \<and> settled s m"
    and ack_once: "length (filter is_ack (fst (handle s m))) \<le> 1"
begin

lemma batch_acks_settled:
  assumes "a \<in> set (fst (run_batch handle s ms))" "is_ack a"
  shows "\<exists>m \<in> snd ` set ms. \<exists>s'. acks m a \<and> settled s' m"
  using assms(1)
proof (induction ms arbitrary: s)
  case (Cons x ms)
  obtain stop m where x: "x = (stop, m)" by (cases x)
  obtain acts r s1 where h: "handle s m = (acts, r, s1)" by (cases "handle s m")
  have "a \<in> set acts \<or> a \<in> set (fst (run_batch handle s1 ms))"
    using Cons.prems by (auto simp: x h split: if_splits sum.splits prod.splits)
  then show ?case
    using Cons.IH [of s1] ack_settled [of a s m] assms(2) by (auto simp: x h)
qed simp

text \<open>A set stop flag is obeyed: no message after it is touched.\<close>

lemma batch_stops: "run_batch handle s (ms @ (True, m) # ms') = run_batch handle s ms"
  by (induction ms arbitrary: s) (auto split: sum.splits prod.splits)

text \<open>A batch holds at most one acknowledgement per message.\<close>

lemma batch_ack_count: "length (filter is_ack (fst (run_batch handle s ms))) \<le> length ms"
proof (induction ms arbitrary: s)
  case (Cons x ms)
  obtain stop m where x: "x = (stop, m)" by (cases x)
  obtain acts r s1 where h: "handle s m = (acts, r, s1)" by (cases "handle s m")
  have "length (filter is_ack acts) \<le> 1" using ack_once [of s m] by (simp add: h)
  then show ?case
    using Cons.IH [of s1] by (auto simp: x h split: sum.splits prod.splits)
qed simp

end

end
