(* ===== verification/RabbitMqServer.thy ===== *)
theory RabbitMqServer
  imports RabbitMqClient AckServer
begin

text \<open>
  The server of the RabbitMQ plugin (\<^verbatim>\<open>RabbitMqServer.cpp\<close>): the handler of a received
  message, the callbacks of the channel and the connection, the receive loop, and the socket
  that \<^verbatim>\<open>stop\<close> closes under the serving thread.
\<close>

section \<open>Messages and replies\<close>

type_synonym rabbit_process = "bytes \<Rightarrow> (buf list \<times> bool) result"

record rabbit_message =
  rm_body :: bytes
  rm_replyTo :: "string option"
  rm_correlationId :: "string option"
  rm_deliveryTag :: nat

record rabbit_reply =
  rr_routingKey :: string
  rr_body :: bytes
  rr_contentType :: string
  rr_correlationId :: "string option"

datatype rabbit_action =
    RProcess bytes
  | RPublish rabbit_reply
  | RAck nat
  | RReject nat bool
  | RFail string
  | RWarn string
  | RLog string

definition rabbit_reply_of :: "rabbit_message \<Rightarrow> string \<Rightarrow> bytes \<Rightarrow> rabbit_reply" where
  "rabbit_reply_of m replyTo response =
    \<lparr>rr_routingKey = replyTo, rr_body = response, rr_contentType = ''application/octet-stream'',
     rr_correlationId = rm_correlationId m\<rparr>"

text \<open>\<open>publish\<close> is the return value of \<^verbatim>\<open>channel.publish\<close>.\<close>

definition publishResponseIfRequested ::
  "(rabbit_reply \<Rightarrow> bool) \<Rightarrow> rabbit_message \<Rightarrow> bytes \<Rightarrow> rabbit_action list \<times> bool result" where
  "publishResponseIfRequested publish m response =
     (case rm_replyTo m of
        None \<Rightarrow> ([], Inr True)
      | Some replyTo \<Rightarrow>
          if replyTo = [] then ([], Inr True)
          else let reply = rabbit_reply_of m replyTo response in
            if publish reply then ([RPublish reply], Inr True)
            else ([RPublish reply], Inl (RuntimeError
              (''RabbitMQ consumer: failed to publish response to reply_to queue: '' @ replyTo))))"

definition reply_requested :: "rabbit_message \<Rightarrow> bool" where
  "reply_requested m \<longleftrightarrow> rm_replyTo m \<noteq> None \<and> rm_replyTo m \<noteq> Some []"

definition processed_log :: "rabbit_message \<Rightarrow> bytes \<Rightarrow> rabbit_action list" where
  "processed_log m response =
     [RLog (''RabbitMQ consumer: processed message ('' @ to_string (int (length (rm_body m))) @
        ''B), response size: '' @ to_string (int (length response)) @ ''B''),
      if reply_requested m
      then RLog (''RabbitMQ consumer: response published to reply_to queue: '' @ the (rm_replyTo m))
      else RWarn ''RabbitMQ consumer: request has no reply_to, response was not published'']"

definition rabbit_writeResponse :: "buf \<Rightarrow> bytes \<Rightarrow> bytes" where
  "rabbit_writeResponse d out = (if buf_is_null d \<or> buf_size d = 0 then [] else buf_bytes d)"

section \<open>The handler\<close>

text \<open>The body of the \<^verbatim>\<open>try\<close> block; an exception comes with the actions before it.\<close>

definition rabbit_try ::
  "(rabbit_reply \<Rightarrow> bool) \<Rightarrow> rabbit_process option \<Rightarrow> rabbit_message \<Rightarrow> rabbit_action list \<times> unit result"
where
  "rabbit_try publish process m =
     (case process of
        None \<Rightarrow> ([], Inl (RuntimeError ''RabbitMQ consumer: processMessage callback is not configured''))
      | Some f \<Rightarrow>
          (case f (rm_body m) of
             Inl e \<Rightarrow> ([RProcess (rm_body m)], Inl e)
           | Inr (writes, ok) \<Rightarrow>
               let response = fold rabbit_writeResponse writes [] in
               if \<not> ok
               then ([RProcess (rm_body m)],
                 Inl (RuntimeError ''RabbitMQ consumer: processMessage callback returned failure''))
               else (case publishResponseIfRequested publish m response of
                   (acts, Inl e) \<Rightarrow> (RProcess (rm_body m) # acts, Inl e)
                 | (acts, Inr False) \<Rightarrow>
                     (RProcess (rm_body m) # acts @ [RReject (rm_deliveryTag m) True], Inr ())
                 | (acts, Inr True) \<Rightarrow>
                     (RProcess (rm_body m) # acts @ processed_log m response @
                      [RAck (rm_deliveryTag m)], Inr ()))))"

text \<open>
  \<^verbatim>\<open>onReceived\<close>.  Both handlers of the \<^verbatim>\<open>try\<close> block throw again before they reject the
  message, so the calls of \<^verbatim>\<open>reject\<close> behind the \<^verbatim>\<open>throw\<close> have no counterpart here.
\<close>

definition rabbit_onReceived ::
  "(rabbit_reply \<Rightarrow> bool) \<Rightarrow> rabbit_process option \<Rightarrow> rabbit_message \<Rightarrow> rabbit_action list \<times> unit result"
where
  "rabbit_onReceived publish process m =
     (if rm_body m = []
      then ([RWarn ''RabbitMQ consumer: received empty message body'', RAck (rm_deliveryTag m)], Inr ())
      else case rabbit_try publish process m of
        (acts, Inr _) \<Rightarrow> (acts, Inr ())
      | (acts, Inl e) \<Rightarrow>
          (acts, Inl (RuntimeError
             (if is_std e then ''RabbitMQ consumer: processing failed: '' @ what e
              else ''RabbitMQ consumer: processing failed with unknown error''))))"

section \<open>The callbacks of a connection\<close>

record rabbit_runtime =
  rt_connectionReady :: bool
  rt_connectionClosed :: bool
  rt_connectionError :: bool

definition new_runtime :: rabbit_runtime where
  "new_runtime = \<lparr>rt_connectionReady = False, rt_connectionClosed = False, rt_connectionError = False\<rparr>"

text \<open>\<open>text\<close> is what \<^verbatim>\<open>strerror(errno)\<close> returns.\<close>

definition lastSocketErrorMessage :: "string \<Rightarrow> string \<Rightarrow> string" where
  "lastSocketErrorMessage text prefix = prefix @ '' ('' @ text @ '')''"

text \<open>\<open>SrvSendFailed\<close> is a failed write in \<^verbatim>\<open>onData\<close>, with the text of its \<^verbatim>\<open>errno\<close>.\<close>

datatype server_event =
    SrvReceived rabbit_message
  | SrvReady
  | SrvClosed
  | SrvError "string option"
  | SrvChannelError "string option"
  | SrvConsumerError "string option"
  | SrvSendFailed string

definition message_or_unknown :: "string option \<Rightarrow> string" where
  "message_or_unknown m = (case m of Some s \<Rightarrow> s | None \<Rightarrow> ''unknown'')"

definition server_failure :: "rabbit_runtime \<Rightarrow> string \<Rightarrow> rabbit_action list \<times> unit result \<times> rabbit_runtime" where
  "server_failure rt text = ([], Inl (RuntimeError text), rt\<lparr>rt_connectionError := True\<rparr>)"

definition on_server_event ::
  "(rabbit_reply \<Rightarrow> bool) \<Rightarrow> rabbit_runtime \<Rightarrow> rabbit_process option \<times> server_event \<Rightarrow>
     rabbit_action list \<times> unit result \<times> rabbit_runtime" where
  "on_server_event publish rt x =
     (case snd x of
        SrvReceived m \<Rightarrow> (case rabbit_onReceived publish (fst x) m of (acts, r) \<Rightarrow> (acts, r, rt))
      | SrvReady \<Rightarrow> ([RLog ''RabbitMQ consumer AMQP session is ready''], Inr (),
          rt\<lparr>rt_connectionReady := True\<rparr>)
      | SrvClosed \<Rightarrow> ([], Inr (), rt\<lparr>rt_connectionClosed := True\<rparr>)
      | SrvError m \<Rightarrow> server_failure rt (''RabbitMQ consumer AMQP error: '' @ message_or_unknown m)
      | SrvChannelError m \<Rightarrow>
          server_failure rt (''RabbitMQ consumer channel error: '' @ message_or_unknown m)
      | SrvConsumerError m \<Rightarrow>
          server_failure rt (''RabbitMQ consumer setup failed: '' @ message_or_unknown m)
      | SrvSendFailed text \<Rightarrow>
          server_failure rt (lastSocketErrorMessage text ''RabbitMQ consumer: socket send failed''))"

section \<open>The receive loop of a connection\<close>

text \<open>
  One turn: the reading of the stop flag at the loop test and in the error branches, the answer
  of the socket, the text of the \<^verbatim>\<open>errno\<close> it leaves, and the callback that is current for
  each event.  The callbacks run in the
  order in which the library makes them; the first exception leaves the loop.
\<close>

record rabbit_turn =
  tn_stop :: bool
  tn_io :: io_turn
  tn_strerror :: string
  tn_stop_later :: bool
  tn_callback :: "rabbit_process option"

type_synonym 'c serving = "'c \<times> bytes \<times> rabbit_runtime"

definition serve_turn ::
  "('c, server_event) parser \<Rightarrow> (rabbit_reply \<Rightarrow> bool) \<Rightarrow> rabbit_turn \<Rightarrow> 'c serving \<Rightarrow>
     rabbit_action list \<times> unit result \<times> 'c serving \<times> bool" where
  "serve_turn parse publish turn s =
     (case s of (c, bytes, rt) \<Rightarrow>
        (let failed = (\<lambda>prefix.
               if \<not> tn_stop_later turn
               then ([], Inl (RuntimeError (lastSocketErrorMessage (tn_strerror turn) prefix)), s, True)
               else ([], Inr (), (c, bytes, rt\<lparr>rt_connectionError := True\<rparr>), True))
         in case tn_io turn of
              IoTimeout \<Rightarrow> ([], Inr (), s, False)
            | IoWouldBlock \<Rightarrow> ([], Inr (), s, False)
            | IoSelectError \<Rightarrow> failed ''RabbitMQ consumer: select failed''
            | IoReadFailed \<Rightarrow> failed ''RabbitMQ consumer: recv failed''
            | IoEof \<Rightarrow> ([], Inr (), (c, bytes, rt\<lparr>rt_connectionClosed := True\<rparr>), True)
            | IoRead chunk \<Rightarrow>
                (case receive_chunk parse (c, bytes) chunk of
                   (c, bytes, events) \<Rightarrow>
                     (case run_batch (on_server_event publish) rt
                             (map (\<lambda>e. (False, tn_callback turn, e)) events) of
                        (acts, r, rt) \<Rightarrow> (acts, r, (c, bytes, rt), False)))))"

text \<open>The loop; \<open>None\<close>: the observed turns do not end it.\<close>

fun rabbit_loop ::
  "('c, server_event) parser \<Rightarrow> (rabbit_reply \<Rightarrow> bool) \<Rightarrow> rabbit_turn list \<Rightarrow> 'c serving \<Rightarrow>
     rabbit_action list \<times> (unit result \<times> rabbit_runtime) option" where
  "rabbit_loop parse publish [] s = ([], None)"
| "rabbit_loop parse publish (turn # turns) s =
     (if tn_stop turn \<or> rt_connectionClosed (snd (snd s)) \<or> rt_connectionError (snd (snd s))
      then ([], Some (Inr (), snd (snd s)))
      else case serve_turn parse publish turn s of
        (acts, Inl e, s, _) \<Rightarrow> (acts, Some (Inl e, snd (snd s)))
      | (acts, Inr _, s, True) \<Rightarrow> (acts, Some (Inr (), snd (snd s)))
      | (acts, Inr _, s, False) \<Rightarrow>
          (case rabbit_loop parse publish turns s of (acts', r) \<Rightarrow> (acts @ acts', r)))"

text \<open>
  After the loop, \<^verbatim>\<open>connection.fail\<close> when there was an error: the library then reports the
  failure to the error callback of the channel; \<open>reported\<close> are the messages it passes.
\<close>

definition rabbit_fail ::
  "(rabbit_reply \<Rightarrow> bool) \<Rightarrow> string option list \<Rightarrow> rabbit_runtime \<Rightarrow> rabbit_action list \<times> unit result" where
  "rabbit_fail publish reported rt =
     (if rt_connectionError rt
      then (case run_batch (on_server_event publish) rt
              (map (\<lambda>m. (False, None, SrvChannelError m)) reported) of
              (acts, r, _) \<Rightarrow> (RFail ''RabbitMQ consumer connection failure'' # acts, r))
      else ([], Inr ()))"

definition rabbit_serve ::
  "('c, server_event) parser \<Rightarrow> (rabbit_reply \<Rightarrow> bool) \<Rightarrow> rabbit_turn list \<Rightarrow> string option list \<Rightarrow>
     'c serving \<Rightarrow> rabbit_action list \<times> unit result option" where
  "rabbit_serve parse publish turns reported s =
     (case rabbit_loop parse publish turns s of
        (acts, None) \<Rightarrow> (acts, None)
      | (acts, Some (Inl e, _)) \<Rightarrow> (acts, Some (Inl e))
      | (acts, Some (Inr _, rt)) \<Rightarrow>
          (case rabbit_fail publish reported rt of (acts', r) \<Rightarrow> (acts @ acts', Some r)))"

section \<open>Connections in a row\<close>

text \<open>
  One round of \<^verbatim>\<open>start\<close>'s outer loop: the stop flag before it and after it, the addresses of
  the broker, the connection with its parser state, the turns it serves, and what the library
  reports when the connection is failed.
\<close>

record 'c rabbit_round =
  rd_stop :: bool
  rd_connect :: "string + address list"
  rd_conn :: 'c
  rd_publish :: "rabbit_reply \<Rightarrow> bool"
  rd_turns :: "rabbit_turn list"
  rd_reported :: "string option list"
  rd_stop_after :: bool

text \<open>The actions of a round and whether it has come to its end.\<close>

definition rabbit_serve_round ::
  "('c, server_event) parser \<Rightarrow> 'c rabbit_round \<Rightarrow> rabbit_action list \<times> bool" where
  "rabbit_serve_round parse x =
     (case (case fst (connectSocketToBroker (rd_connect x)) of
              Inl e \<Rightarrow> ([], Some (Inl e))
            | Inr _ \<Rightarrow> rabbit_serve parse (rd_publish x) (rd_turns x) (rd_reported x)
                (rd_conn x, [], new_runtime)) of
        (acts, None) \<Rightarrow> (acts, False)
      | (acts, Some r) \<Rightarrow>
          (acts @
           (if rd_stop_after x then []
            else [RWarn (case r of
                    Inr _ \<Rightarrow> ''RabbitMQ consumer disconnected, retrying in 2 seconds''
                  | Inl e \<Rightarrow> ''RabbitMQ consumer error: '' @ what e @ '', retrying in 2 seconds'')]),
           True))"

fun rabbit_start_loop :: "('c, server_event) parser \<Rightarrow> 'c rabbit_round list \<Rightarrow> rabbit_action list" where
  "rabbit_start_loop parse [] = []"
| "rabbit_start_loop parse (x # xs) =
     (if rd_stop x then []
      else case rabbit_serve_round parse x of
        (acts, ended) \<Rightarrow> acts @ (if ended then rabbit_start_loop parse xs else []))"

text \<open>\<^verbatim>\<open>configure\<close>: the global configuration and callback change only on success.\<close>

definition rabbit_configure ::
  "cpp_env \<Rightarrow> string option \<Rightarrow> rabbit_process option \<Rightarrow>
     rabbit_server_config \<times> rabbit_process option \<Rightarrow>
     unit result \<times> rabbit_server_config \<times> rabbit_process option" where
  "rabbit_configure env jsonConfig processMessage g =
     (case processMessage of
        None \<Rightarrow> (Inl (RuntimeError ''RabbitMQ consumer: processMessage callback is required''), g)
      | Some f \<Rightarrow>
          (case rabbit_applyConfigFromJson env (case jsonConfig of Some s \<Rightarrow> s | None \<Rightarrow> []) of
             Inl e \<Rightarrow> (Inl e, g)
           | Inr config \<Rightarrow> (Inr (), config, Some f)))"

section \<open>Acknowledgements\<close>

text \<open>
  Nothing is left to do for a message: it is empty, or the callback accepted it and the reply it
  asked for, if any, was published.
\<close>

definition rabbit_settled :: "(rabbit_reply \<Rightarrow> bool) \<Rightarrow> rabbit_process option \<Rightarrow> rabbit_message \<Rightarrow> bool"
where
  "rabbit_settled publish process m \<longleftrightarrow>
     rm_body m = [] \<or>
     (\<exists>f writes. process = Some f \<and> f (rm_body m) = Inr (writes, True) \<and>
        (reply_requested m \<longrightarrow>
           publish (rabbit_reply_of m (the (rm_replyTo m)) (fold rabbit_writeResponse writes []))))"

fun is_rabbit_ack :: "rabbit_action \<Rightarrow> bool" where
  "is_rabbit_ack (RAck t) = True"
| "is_rabbit_ack _ = False"

lemma is_rabbit_ack_iff: "is_rabbit_ack a \<longleftrightarrow> (\<exists>t. a = RAck t)"
  by (cases a) auto

lemma publishResponse_cases:
  "publishResponseIfRequested publish m response =
     (if \<not> reply_requested m then ([], Inr True)
      else let reply = rabbit_reply_of m (the (rm_replyTo m)) response in
        ([RPublish reply],
         if publish reply then Inr True
         else Inl (RuntimeError (''RabbitMQ consumer: failed to publish response to reply_to queue: '' @
           the (rm_replyTo m)))))"
  by (auto simp: publishResponseIfRequested_def reply_requested_def Let_def split: option.split)

lemma processed_log_quiet [simp]:
  "RAck t \<notin> set (processed_log m response)" "RReject t b \<notin> set (processed_log m response)"
  "RPublish r \<notin> set (processed_log m response)" "RProcess d \<notin> set (processed_log m response)"
  "filter is_rabbit_ack (processed_log m response) = []"
  by (simp_all add: processed_log_def)

lemma rabbit_try_cases:
  "(snd (rabbit_try publish process m) = Inr () \<and> rm_body m \<noteq> [] \<longleftrightarrow>
      rabbit_settled publish process m \<and> rm_body m \<noteq> []) \<and>
   (RAck t \<in> set (fst (rabbit_try publish process m)) \<longleftrightarrow>
      t = rm_deliveryTag m \<and> snd (rabbit_try publish process m) = Inr ()) \<and>
   RReject t b \<notin> set (fst (rabbit_try publish process m)) \<and>
   length (filter is_rabbit_ack (fst (rabbit_try publish process m))) \<le> 1"
  unfolding rabbit_try_def rabbit_settled_def publishResponse_cases
  by (cases "rm_body m = []") (auto simp: Let_def split: option.split sum.split prod.split)

lemma rabbit_onReceived_acks:
  "RAck t \<in> set (fst (rabbit_onReceived publish process m)) \<longleftrightarrow>
     t = rm_deliveryTag m \<and> rabbit_settled publish process m"
  "snd (rabbit_onReceived publish process m) = Inr () \<longleftrightarrow> rabbit_settled publish process m"
  "RReject t b \<notin> set (fst (rabbit_onReceived publish process m))"
  "length (filter is_rabbit_ack (fst (rabbit_onReceived publish process m))) \<le> 1"
proof -
  obtain acts r where body: "rabbit_try publish process m = (acts, r)"
    by (cases "rabbit_try publish process m")
  have empty: "rabbit_settled publish process m" if "rm_body m = []"
    using that by (simp add: rabbit_settled_def)
  note facts = rabbit_try_cases [of publish process m t b, unfolded body fst_conv snd_conv]
  show "RAck t \<in> set (fst (rabbit_onReceived publish process m)) \<longleftrightarrow>
     t = rm_deliveryTag m \<and> rabbit_settled publish process m"
    using facts empty by (cases r) (auto simp: rabbit_onReceived_def body)
  show "snd (rabbit_onReceived publish process m) = Inr () \<longleftrightarrow> rabbit_settled publish process m"
    using facts empty by (cases r) (auto simp: rabbit_onReceived_def body)
  show "RReject t b \<notin> set (fst (rabbit_onReceived publish process m))"
    using facts by (cases r) (auto simp: rabbit_onReceived_def body)
  show "length (filter is_rabbit_ack (fst (rabbit_onReceived publish process m))) \<le> 1"
    using facts by (cases r) (auto simp: rabbit_onReceived_def body)
qed

definition rabbit_ack_of :: "rabbit_process option \<times> server_event \<Rightarrow> rabbit_action \<Rightarrow> bool" where
  "rabbit_ack_of x a \<longleftrightarrow> (\<exists>m. snd x = SrvReceived m \<and> a = RAck (rm_deliveryTag m))"

definition rabbit_event_settled ::
  "(rabbit_reply \<Rightarrow> bool) \<Rightarrow> rabbit_runtime \<Rightarrow> rabbit_process option \<times> server_event \<Rightarrow> bool" where
  "rabbit_event_settled publish rt x \<longleftrightarrow>
     (\<exists>m. snd x = SrvReceived m \<and> rabbit_settled publish (fst x) m)"

lemma fst_on_server_event:
  "fst (on_server_event publish rt x) =
     (case snd x of
        SrvReceived m \<Rightarrow> fst (rabbit_onReceived publish (fst x) m)
      | SrvReady \<Rightarrow> [RLog ''RabbitMQ consumer AMQP session is ready'']
      | _ \<Rightarrow> [])"
  by (simp add: on_server_event_def server_failure_def split: server_event.split prod.split)

interpretation rabbit_ack: ack_server "on_server_event publish" is_rabbit_ack rabbit_ack_of
  "rabbit_event_settled publish" for publish
proof unfold_locales
  fix a s x
  assume "a \<in> set (fst (on_server_event publish s x))" "is_rabbit_ack a"
  then show "rabbit_ack_of x a \<and> rabbit_event_settled publish s x"
    by (cases "snd x")
      (auto simp: fst_on_server_event is_rabbit_ack_iff rabbit_ack_of_def
        rabbit_event_settled_def rabbit_onReceived_acks(1))
next
  fix s x
  show "length (filter is_rabbit_ack (fst (on_server_event publish s x))) \<le> 1"
    using rabbit_onReceived_acks(4) [of publish "fst x"]
    by (cases "snd x") (auto simp: fst_on_server_event)
qed

section \<open>Acknowledgements of a run\<close>

definition ack_tags :: "rabbit_action list \<Rightarrow> nat list" where
  "ack_tags acts = List.map_filter (\<lambda>a. case a of RAck t \<Rightarrow> Some t | _ \<Rightarrow> None) acts"

lemma ack_tags_simps [simp]:
  "ack_tags [] = []"
  "ack_tags (a # as) = (case a of RAck t \<Rightarrow> t # ack_tags as | _ \<Rightarrow> ack_tags as)"
  "ack_tags (as @ bs) = ack_tags as @ ack_tags bs"
  by (simp_all add: ack_tags_def List.map_filter_simps List.map_filter_def split: rabbit_action.split)

text \<open>
  The messages that the library delivers for the bytes read in a list of turns, in order, each with
  the callback of its turn.
\<close>

definition delivered_messages ::
  "rabbit_process option \<Rightarrow> server_event list \<Rightarrow> (rabbit_process option \<times> rabbit_message) list" where
  "delivered_messages callback events =
     List.map_filter (\<lambda>e. case e of SrvReceived m \<Rightarrow> Some (callback, m) | _ \<Rightarrow> None) events"

fun received_messages ::
  "('c, server_event) parser \<Rightarrow> rabbit_turn list \<Rightarrow> 'c \<times> bytes \<Rightarrow>
     (rabbit_process option \<times> rabbit_message) list" where
  "received_messages parse [] s = []"
| "received_messages parse (turn # turns) s =
     (case tn_io turn of
        IoRead chunk \<Rightarrow>
          (case receive_chunk parse s chunk of
             (c, bytes, events) \<Rightarrow>
               delivered_messages (tn_callback turn) events @ received_messages parse turns (c, bytes))
      | _ \<Rightarrow> received_messages parse turns s)"

text \<open>The tags of the messages that are settled, up to the first one that is not.\<close>

definition settled_tags ::
  "(rabbit_reply \<Rightarrow> bool) \<Rightarrow> (rabbit_process option \<times> rabbit_message) list \<Rightarrow> nat list" where
  "settled_tags publish ms =
     map (\<lambda>(callback, m). rm_deliveryTag m)
       (takeWhile (\<lambda>(callback, m). rabbit_settled publish callback m) ms)"

definition all_settled ::
  "(rabbit_reply \<Rightarrow> bool) \<Rightarrow> (rabbit_process option \<times> rabbit_message) list \<Rightarrow> bool" where
  "all_settled publish ms \<longleftrightarrow> (\<forall>(callback, m) \<in> set ms. rabbit_settled publish callback m)"

lemma settled_tags_append:
  "settled_tags publish (xs @ ys) =
     settled_tags publish xs @ (if all_settled publish xs then settled_tags publish ys else [])"
  by (induction xs) (auto simp: settled_tags_def all_settled_def)

lemma ack_tags_onReceived:
  "ack_tags (fst (rabbit_onReceived publish process m)) =
     (if rabbit_settled publish process m then [rm_deliveryTag m] else [])"
  by (auto simp: rabbit_onReceived_def rabbit_try_def rabbit_settled_def publishResponse_cases
      processed_log_def Let_def split: option.split sum.split prod.split)

text \<open>A batch acknowledges the settled messages, and all of them when it ends without an exception.\<close>

lemma batch_ack_tags:
  assumes "run_batch (on_server_event publish) rt (map (\<lambda>e. (False, callback, e)) events) = (acts, r, rt')"
  shows "first_of (ack_tags acts) (settled_tags publish (delivered_messages callback events)) \<and>
    (r = Inr () \<longrightarrow> all_settled publish (delivered_messages callback events) \<and>
       ack_tags acts = settled_tags publish (delivered_messages callback events))"
  using assms
proof (induction events arbitrary: rt acts r rt')
  case Nil
  then show ?case by (simp add: delivered_messages_def settled_tags_def all_settled_def List.map_filter_simps)
next
  case (Cons e events)
  obtain a1 r1 rt1 where e: "on_server_event publish rt (callback, e) = (a1, r1, rt1)"
    by (cases "on_server_event publish rt (callback, e)")
  obtain a2 r2 rt2 where
    rest: "run_batch (on_server_event publish) rt1 (map (\<lambda>e. (False, callback, e)) events) = (a2, r2, rt2)"
    by (cases "run_batch (on_server_event publish) rt1 (map (\<lambda>e. (False, callback, e)) events)")
  note IH = Cons.IH [OF rest]
  have run: "acts = (case r1 of Inl _ \<Rightarrow> a1 | Inr _ \<Rightarrow> a1 @ a2)" "r = (case r1 of Inl x \<Rightarrow> Inl x | Inr _ \<Rightarrow> r2)"
    using Cons.prems by (auto simp: e rest split: sum.splits)
  show ?case
  proof (cases "\<exists>m. e = SrvReceived m")
    case True
    then obtain m where m: "e = SrvReceived m" ..
    have "ack_tags a1 = (if rabbit_settled publish callback m then [rm_deliveryTag m] else [])"
      "r1 = Inr () \<longleftrightarrow> rabbit_settled publish callback m"
      using e ack_tags_onReceived [of publish callback m] rabbit_onReceived_acks(2) [of publish callback m]
      by (auto simp: on_server_event_def m split: prod.splits)
    then show ?thesis
      using IH by (cases r1) (auto simp: run m delivered_messages_def settled_tags_def all_settled_def
          List.map_filter_simps)
  next
    case False
    then have "delivered_messages callback (e # events) = delivered_messages callback events"
      by (cases e) (simp_all add: delivered_messages_def List.map_filter_simps)
    moreover have "ack_tags a1 = []"
      using e False by (cases e) (auto simp: on_server_event_def server_failure_def)
    ultimately show ?thesis using IH by (cases r1) (auto simp: run)
  qed
qed

lemma loop_ack_tags:
  "first_of (ack_tags (fst (rabbit_loop parse publish turns (c, bytes, rt))))
     (settled_tags publish (received_messages parse turns (c, bytes)))"
proof (induction turns arbitrary: c bytes rt)
  case Nil
  show ?case by simp
next
  case (Cons turn turns)
  show ?case
  proof (cases "tn_io turn")
    case (IoRead chunk)
    obtain c1 rest events where chunk: "receive_chunk parse (c, bytes) chunk = (c1, rest, events)"
      by (cases "receive_chunk parse (c, bytes) chunk")
    obtain acts r rt1 where
      batch: "run_batch (on_server_event publish) rt (map (\<lambda>e. (False, tn_callback turn, e)) events) = (acts, r, rt1)"
      by (cases "run_batch (on_server_event publish) rt (map (\<lambda>e. (False, tn_callback turn, e)) events)")
    have turn: "serve_turn parse publish turn (c, bytes, rt) = (acts, r, (c1, rest, rt1), False)"
      by (simp add: serve_turn_def IoRead chunk batch Let_def)
    note tags = batch_ack_tags [OF batch]
    show ?thesis
      using tags Cons.IH [of c1 rest rt1]
      by (cases r) (auto simp: turn IoRead chunk settled_tags_append split: prod.split
          intro: first_of_longer)
  qed (use Cons.IH [of c bytes rt] in \<open>auto simp: serve_turn_def Let_def split: prod.split\<close>)
qed

lemma rabbit_fail_ack_tags: "ack_tags (fst (rabbit_fail publish reported rt)) = []"
proof -
  have "ack_tags (fst (run_batch (on_server_event publish) rt
      (map (\<lambda>m. (False, None, SrvChannelError m)) reported))) = []" for rt
    by (induction reported arbitrary: rt) (auto simp: on_server_event_def server_failure_def)
  then show ?thesis by (auto simp: rabbit_fail_def split: prod.split) (metis fst_conv)
qed

lemma serve_ack_tags:
  "ack_tags (fst (rabbit_serve parse publish turns reported s)) =
     ack_tags (fst (rabbit_loop parse publish turns s))"
  using rabbit_fail_ack_tags
  by (auto simp: rabbit_serve_def split: prod.split option.split sum.split) (metis fst_conv)

text \<open>What a round may acknowledge: the messages of its connection.\<close>

definition round_settled :: "('c, server_event) parser \<Rightarrow> 'c rabbit_round \<Rightarrow> nat list" where
  "round_settled parse x =
     settled_tags (rd_publish x) (received_messages parse (rd_turns x) (rd_conn x, []))"

lemma round_ack_tags: "first_of (ack_tags (fst (rabbit_serve_round parse x))) (round_settled parse x)"
proof (cases "fst (connectSocketToBroker (rd_connect x))")
  case (Inl e)
  then show ?thesis by (simp add: rabbit_serve_round_def)
next
  case (Inr fd)
  obtain acts r where served: "rabbit_serve parse (rd_publish x) (rd_turns x) (rd_reported x)
      (rd_conn x, [], new_runtime) = (acts, r)" by (rule prod.exhaust)
  have "ack_tags (fst (rabbit_serve_round parse x)) = ack_tags acts"
    by (cases r) (auto simp: rabbit_serve_round_def Inr served)
  then show ?thesis
    using serve_ack_tags [of parse "rd_publish x" "rd_turns x" "rd_reported x" "(rd_conn x, [], new_runtime)"]
      loop_ack_tags [of parse "rd_publish x" "rd_turns x" "rd_conn x" "[]" new_runtime]
    by (simp add: served round_settled_def)
qed

section \<open>Properties\<close>

text \<open>
  C15. What the RabbitMQ server acknowledges.  A message is acknowledged exactly when it is empty
  or the callback accepted it and the reply it asked for was published.  Every other message
  raises an exception and is never rejected: the message stays unacknowledged and the connection
  is lost with it.  Over any number of connections, the tags that are acknowledged on a connection
  are, in order and once each, those of the first messages that the broker delivered on it, all of
  them settled: none is acknowledged that was not delivered, and none behind one that is not settled.
\<close>
theorem rabbit_ack_rule:
  "(RAck t \<in> set (fst (rabbit_onReceived publish process m)) \<longleftrightarrow>
      t = rm_deliveryTag m \<and> rabbit_settled publish process m) \<and>
   ((\<exists>text. snd (rabbit_onReceived publish process m) = Inl (RuntimeError text)) \<longleftrightarrow>
      \<not> rabbit_settled publish process m) \<and>
   RReject t b \<notin> set (fst (rabbit_onReceived publish process m)) \<and>
   (\<exists>tags. ack_tags (rabbit_start_loop parse xs) = concat tags \<and>
      list_all2 (\<lambda>ts x. first_of ts (map (\<lambda>(callback, m). rm_deliveryTag m)
        (takeWhile (\<lambda>(callback, m). rabbit_settled (rd_publish x) callback m)
          (received_messages parse (rd_turns x) (rd_conn x, []))))) tags xs)"
proof -
  have "\<exists>tags. ack_tags (rabbit_start_loop parse xs) = concat tags \<and>
      list_all2 (\<lambda>ts x. first_of ts (round_settled parse x)) tags xs"
  proof (induction xs)
    case (Cons x xs)
    have none: "\<exists>tags. concat tags = [] \<and> list_all2 (\<lambda>ts x. first_of ts (round_settled parse x)) tags ys"
      for ys :: "'a rabbit_round list"
      by (intro exI [of _ "replicate (length ys) []"]) (simp add: list_all2_conv_all_nth)
    obtain acts ended where x: "rabbit_serve_round parse x = (acts, ended)" by (rule prod.exhaust)
    have "\<exists>tags. ack_tags (if ended then rabbit_start_loop parse xs else []) = concat tags \<and>
        list_all2 (\<lambda>ts x. first_of ts (round_settled parse x)) tags xs"
      using Cons.IH none [of xs] by (cases ended) auto
    then obtain tags where tags: "ack_tags (if ended then rabbit_start_loop parse xs else []) = concat tags"
      "list_all2 (\<lambda>ts x. first_of ts (round_settled parse x)) tags xs" by blast
    show ?case
    proof (cases "rd_stop x")
      case True
      then show ?thesis using none [of "x # xs"] by simp
    next
      case False
      then show ?thesis
        using tags round_ack_tags [of parse x] by (intro exI [of _ "ack_tags acts # tags"]) (simp add: x)
    qed
  qed simp
  moreover have "(\<exists>text. snd (rabbit_onReceived publish process m) = Inl (RuntimeError text)) \<longleftrightarrow>
      snd (rabbit_onReceived publish process m) \<noteq> Inr ()"
    by (auto simp: rabbit_onReceived_def split: prod.split sum.split)
  ultimately show ?thesis
    using rabbit_onReceived_acks(1) [of t publish process m]
      rabbit_onReceived_acks(2) [of publish process m] rabbit_onReceived_acks(3) [of t b publish process m]
    unfolding round_settled_def settled_tags_def by blast
qed

definition rabbit_example_message :: rabbit_message where
  "rabbit_example_message =
    \<lparr>rm_body = [1], rm_replyTo = Some ''r'', rm_correlationId = Some ''id'', rm_deliveryTag = 7\<rparr>"

text \<open>A parser that reports every byte as the arrival of the example message.\<close>

definition example_parser :: "(unit, server_event) parser" where
  "example_parser c bytes = (c, length bytes, map (\<lambda>_. SrvReceived rabbit_example_message) bytes)"

lemma rabbit_ack_rule_witness:
  "\<exists>x. ack_tags (rabbit_start_loop example_parser [x]) = [7] \<and>
     first_of [7] (map (\<lambda>(callback, m). rm_deliveryTag m)
       (takeWhile (\<lambda>(callback, m). rabbit_settled (rd_publish x) callback m)
         (received_messages example_parser (rd_turns x) (rd_conn x, []))))"
proof -
  define f :: rabbit_process where "f = (\<lambda>_. Inr ([Buf [2]], True))"
  define turn where "turn = \<lparr>tn_stop = False, tn_io = IoRead [0], tn_strerror = [], tn_stop_later = False,
    tn_callback = Some f\<rparr>"
  define x where "x = \<lparr>rd_stop = False, rd_connect = Inr [SocketFor 5 True], rd_conn = (),
    rd_publish = (\<lambda>_. True), rd_turns = [turn, turn\<lparr>tn_stop := True\<rparr>], rd_reported = [], rd_stop_after = True\<rparr>"
  have drain: "drain example_parser () [0] = ((), [], [SrvReceived rabbit_example_message])"
    by (subst drain.simps) (simp add: example_parser_def drain.simps)
  have settled: "rabbit_settled (\<lambda>_. True) (Some f) rabbit_example_message"
    by (simp add: rabbit_settled_def f_def)
  obtain acts where handler: "rabbit_onReceived (\<lambda>_. True) (Some f) rabbit_example_message = (acts, Inr ())"
    "ack_tags acts = [7]"
    using settled rabbit_onReceived_acks(2) [of "\<lambda>_. True" "Some f" rabbit_example_message]
      ack_tags_onReceived [of "\<lambda>_. True" "Some f" rabbit_example_message]
    by (cases "rabbit_onReceived (\<lambda>_. True) (Some f) rabbit_example_message")
      (auto simp: rabbit_example_message_def)
  have run: "ack_tags (rabbit_start_loop example_parser [x]) = [7]"
    by (simp add: x_def turn_def rabbit_serve_round_def rabbit_serve_def rabbit_fail_def serve_turn_def
        receive_chunk_def drain connectSocketToBroker_def on_server_event_def handler new_runtime_def Let_def)
  obtain tags where "ack_tags (rabbit_start_loop example_parser [x]) = concat tags"
    "list_all2 (\<lambda>ts x. first_of ts (map (\<lambda>(callback, m). rm_deliveryTag m)
        (takeWhile (\<lambda>(callback, m). rabbit_settled (rd_publish x) callback m)
          (received_messages example_parser (rd_turns x) (rd_conn x, []))))) tags [x]"
    using rabbit_ack_rule [of 7 "\<lambda>_. True" "Some f" rabbit_example_message True example_parser "[x]"] by blast
  with run show ?thesis by (intro exI [of _ x]) (auto simp: list_all2_Cons2)
qed

section \<open>The round trip\<close>

text \<open>What the broker delivers to the server for a request of the client.\<close>

definition rabbit_delivered :: "rabbit_envelope \<Rightarrow> nat \<Rightarrow> rabbit_message" where
  "rabbit_delivered e tag =
    \<lparr>rm_body = re_body e, rm_replyTo = Some (re_replyTo e),
     rm_correlationId = Some (re_correlationId e), rm_deliveryTag = tag\<rparr>"

text \<open>A callback of the client's library that does not settle the call \<open>cid\<close>.\<close>

fun unrelated :: "string \<Rightarrow> amqp_event \<Rightarrow> bool" where
  "unrelated cid (Received t (Some j) body) \<longleftrightarrow> j \<noteq> cid"
| "unrelated cid (ChannelError m) \<longleftrightarrow> False"
| "unrelated cid _ \<longleftrightarrow> True"

lemma on_events_append:
  "snd (on_events (xs @ ys) l) = snd (on_events xs l) @ snd (on_events ys (fst (on_events xs l)))"
  by (induction xs arbitrary: l) (simp_all add: case_prod_beta)

lemma unrelated_waiting: "\<forall>e \<in> set es. unrelated cid e \<Longrightarrow> first_settle cid (snd (on_events es l)) = Waiting"
proof (induction es arbitrary: l)
  case (Cons e es)
  have "first_settle cid (snd (on_event e l)) = Waiting"
    using Cons.prems by (cases "(cid, e)" rule: unrelated.cases) auto
  then show ?case
    using Cons by (simp add: first_settle_append case_prod_beta)
qed simp

lemma leaves_on_events: "leaves cid (snd (on_events es l))"
proof (induction es arbitrary: l)
  case (Cons e es)
  have "leaves cid (snd (on_event e l))"
    by (cases e) (auto simp: rabbit_Disconnect_def split: option.split)
  with Cons show ?case by (simp add: case_prod_beta)
qed simp

text \<open>
  A RabbitMQ request makes the round trip.  The server's callback gets exactly the caller's
  bytes; when it accepts them, the reply goes to the private reply queue of the client's link
  with the id of the call; and once the client's I/O thread receives that message, after any
  callbacks that concern other calls, the call returns exactly the bytes the callback wrote.
\<close>
lemma rabbit_round_trip:
  assumes client: "pending_wf (rk_pending c)" "\<not> closed (rk_pending c)"
      "map_of (slots (rk_pending c)) cid = None" "rk_link c = Some l" "\<not> rl_broken l"
      "\<not> rl_broken (later l)" "rl_replyQueue (later l) \<noteq> []" "rc_queue (rk_config c) \<noteq> []"
    and payload: "d \<noteq> []"
    and ok: "\<And>e. published e" "\<And>r. publish r"
    and callback: "process d = Inr (writes, True)"
    and before: "\<forall>e \<in> set before. unrelated cid e"
  shows "\<exists>request reply c'.
    re_body request = d \<and> re_routingKey request = rl_queue (later l) \<and>
    re_replyTo request = rl_replyQueue (later l) \<and> re_correlationId request = cid \<and>
    RProcess d \<in> set (fst (rabbit_onReceived publish (Some process) (rabbit_delivered request tag))) \<and>
    RPublish reply \<in> set (fst (rabbit_onReceived publish (Some process) (rabbit_delivered request tag))) \<and>
    RAck tag \<in> set (fst (rabbit_onReceived publish (Some process) (rabbit_delivered request tag))) \<and>
    rr_routingKey reply = rl_replyQueue (later l) \<and> rr_correlationId reply = Some cid \<and>
    rr_body reply = fold rabbit_writeResponse writes [] \<and>
    rabbit_Call open_link later published cid
      (snd (on_events (before @ Received tag' (rr_correlationId reply) (rr_body reply) # after) l'))
      (Buf d) c = (Inr (fold rabbit_writeResponse writes []), c', [request])"
proof -
  define request where "request = request_envelope (later l) cid (Buf d)"
  define response where "response = fold rabbit_writeResponse writes []"
  define reply where "reply = rabbit_reply_of (rabbit_delivered request tag) (re_replyTo request) response"
  let ?during = "snd (on_events (before @ Received tag' (rr_correlationId reply) (rr_body reply) # after) l')"
  have fields: "re_body request = d" "re_routingKey request = rl_queue (later l)"
    "re_replyTo request = rl_replyQueue (later l)"
    "re_correlationId request = cid" "rr_correlationId reply = Some cid" "rr_body reply = response"
    using payload
    by (simp_all add: request_def request_envelope_def reply_def rabbit_reply_of_def rabbit_delivered_def)
  have settle: "first_settle cid ?during = Done response"
    by (simp add: on_events_append first_settle_append unrelated_waiting [OF before] fields
        split: prod.split)
  have pub: "rabbit_Publish published (later l) cid (Buf d) = (Inr (), [request])"
    using client(6) ok(1) by (simp add: rabbit_Publish_def request_def)
  obtain c' where call: "rabbit_Call open_link later published cid ?during (Buf d) c =
      (Inr response, c', [request])"
    using rabbit_call_general [where d = "Buf d" and during = ?during and open_link = open_link
        and later = later and published = published, OF client(1-3) leaves_on_events client(4,5,8)]
      settle pub by auto
  have "rabbit_onReceived publish (Some process) (rabbit_delivered request tag) =
      ([RProcess d, RPublish reply] @ processed_log (rabbit_delivered request tag) response @ [RAck tag], Inr ())"
    using payload client(7) callback ok(2)
    by (simp add: rabbit_onReceived_def rabbit_try_def publishResponseIfRequested_def Let_def
        rabbit_delivered_def fields reply_def response_def)
  moreover have "rr_routingKey reply = rl_replyQueue (later l)"
    by (simp add: reply_def rabbit_reply_of_def fields)
  ultimately show ?thesis
    using call fields unfolding response_def
    by (intro exI [of _ request] exI [of _ reply] exI [of _ c']) simp
qed

section \<open>The socket that stop closes\<close>

text \<open>
  Descriptors are numbers the kernel hands out; \<open>so_open\<close> says for each open one whether it is
  the server's or belongs to another part of the process.  \<open>so_foreign_closes\<close> logs the
  descriptors of others that the server closed.  The serving thread is between two of its steps.
\<close>

datatype serving_thread = NoSocket | Connected int | Serving int | Clearing int | Closing int

record rabbit_sockets =
  so_stopRequested :: bool
  so_activeSocket :: "int option"
  so_thread :: serving_thread
  so_open :: "(int \<times> bool) list"
  so_closes :: "int list"
  so_foreign_closes :: "int list"

definition new_sockets :: rabbit_sockets where
  "new_sockets = \<lparr>so_stopRequested = False, so_activeSocket = None, so_thread = NoSocket,
     so_open = [], so_closes = [], so_foreign_closes = []\<rparr>"

definition setActiveSocket :: "int \<Rightarrow> rabbit_sockets \<Rightarrow> rabbit_sockets" where
  "setActiveSocket fd s = s\<lparr>so_activeSocket := Some fd\<rparr>"

definition clearActiveSocket :: "int \<Rightarrow> rabbit_sockets \<Rightarrow> rabbit_sockets" where
  "clearActiveSocket fd s =
     (if so_activeSocket s = Some fd then s\<lparr>so_activeSocket := None\<rparr> else s)"

definition closeSocket :: "int \<Rightarrow> rabbit_sockets \<Rightarrow> rabbit_sockets" where
  "closeSocket fd s =
     s\<lparr>so_open := filter (\<lambda>(d, own). d \<noteq> fd) (so_open s),
       so_closes := fd # so_closes s,
       so_foreign_closes := (if (fd, False) \<in> set (so_open s) then [fd] else []) @ so_foreign_closes s\<rparr>"

definition closeActiveSocket :: "rabbit_sockets \<Rightarrow> rabbit_sockets" where
  "closeActiveSocket s =
     (case so_activeSocket s of
        None \<Rightarrow> s
      | Some fd \<Rightarrow> closeSocket fd s\<lparr>so_activeSocket := None\<rparr>)"

definition rabbit_stop_flag :: "rabbit_sockets \<Rightarrow> rabbit_sockets" where
  "rabbit_stop_flag s = s\<lparr>so_stopRequested := True\<rparr>"

definition rabbit_stop :: "rabbit_sockets \<Rightarrow> rabbit_sockets" where
  "rabbit_stop s = closeActiveSocket (rabbit_stop_flag s)"

text \<open>
  The steps of the serving thread, and of a thread that opens a descriptor elsewhere; with
  \<open>stops\<close>, also calls of \<^verbatim>\<open>stop\<close>.
\<close>

inductive so_step :: "bool \<Rightarrow> rabbit_sockets \<Rightarrow> rabbit_sockets \<Rightarrow> bool" for stops where
  so_connect: "so_thread s = NoSocket \<Longrightarrow> \<not> so_stopRequested s \<Longrightarrow> fd \<notin> fst ` set (so_open s) \<Longrightarrow>
     so_step stops s (s\<lparr>so_thread := Connected fd, so_open := (fd, True) # so_open s\<rparr>)"
| so_activate: "so_thread s = Connected fd \<Longrightarrow>
     so_step stops s (setActiveSocket fd s\<lparr>so_thread := Serving fd\<rparr>)"
| so_leave: "so_thread s = Serving fd \<Longrightarrow> so_step stops s (s\<lparr>so_thread := Clearing fd\<rparr>)"
| so_clear: "so_thread s = Clearing fd \<Longrightarrow>
     so_step stops s (clearActiveSocket fd s\<lparr>so_thread := Closing fd\<rparr>)"
| so_close: "so_thread s = Closing fd \<Longrightarrow> so_step stops s (closeSocket fd s\<lparr>so_thread := NoSocket\<rparr>)"
| so_other: "fd \<notin> fst ` set (so_open s) \<Longrightarrow>
     so_step stops s (s\<lparr>so_open := (fd, False) # so_open s\<rparr>)"
| so_stop: "stops \<Longrightarrow> so_step stops s (rabbit_stop s)"

text \<open>Without \<^verbatim>\<open>stop\<close>: the descriptor the thread holds is open and its own.\<close>

fun thread_socket :: "serving_thread \<Rightarrow> int option" where
  "thread_socket NoSocket = None"
| "thread_socket (Connected fd) = Some fd"
| "thread_socket (Serving fd) = Some fd"
| "thread_socket (Clearing fd) = Some fd"
| "thread_socket (Closing fd) = Some fd"

definition so_inv :: "rabbit_sockets \<Rightarrow> bool" where
  "so_inv s \<longleftrightarrow> distinct (map fst (so_open s)) \<and> so_foreign_closes s = [] \<and>
     (case thread_socket (so_thread s) of None \<Rightarrow> True | Some fd \<Rightarrow> (fd, True) \<in> set (so_open s))"

lemma so_inv_step: "so_step False s t \<Longrightarrow> so_inv s \<Longrightarrow> so_inv t"
proof (induction rule: so_step.induct)
  case (so_close s fd)
  then have "(fd, True) \<in> set (so_open s)" "distinct (map fst (so_open s))"
    by (simp_all add: so_inv_def)
  then have "(fd, False) \<notin> set (so_open s)" by (metis eq_key_imp_eq_value)
  with so_close show ?case
    by (simp add: so_inv_def closeSocket_def distinct_map_filter)
qed (auto simp: so_inv_def setActiveSocket_def clearActiveSocket_def split: option.split)

text \<open>
  C31. Stopping the RabbitMQ server may close a descriptor twice.  As long as nobody calls
  \<^verbatim>\<open>stop\<close>, the serving thread closes only its own open sockets.  A \<^verbatim>\<open>stop\<close> during a
  connection closes the thread's socket, and when the thread then leaves its loop it closes the
  same number again, which by then may belong to another part of the process.
\<close>
theorem rabbit_stop_closes_foreign_socket:
  "(reaches (so_step False) new_sockets s \<longrightarrow> so_foreign_closes s = []) \<and>
   (\<exists>s fd. reaches (so_step True) new_sockets s \<and> so_foreign_closes s = [fd] \<and>
      so_closes s = [fd, fd])"
proof (intro conjI impI)
  assume "reaches (so_step False) new_sockets s"
  moreover have "so_inv new_sockets" by (simp add: so_inv_def new_sockets_def)
  ultimately have "so_inv s"
    by (rule reaches_invariant) (rule so_inv_step)
  then show "so_foreign_closes s = []" by (simp add: so_inv_def)
next
  define s1 where "s1 = new_sockets\<lparr>so_thread := Connected 5, so_open := [(5, True)]\<rparr>"
  define s2 where "s2 = setActiveSocket 5 s1\<lparr>so_thread := Serving 5\<rparr>"
  define s3 where "s3 = rabbit_stop s2"
  define s4 where "s4 = s3\<lparr>so_open := (5, False) # so_open s3\<rparr>"
  define s5 where "s5 = s4\<lparr>so_thread := Clearing 5\<rparr>"
  define s6 where "s6 = clearActiveSocket 5 s5\<lparr>so_thread := Closing 5\<rparr>"
  define s7 where "s7 = closeSocket 5 s6\<lparr>so_thread := NoSocket\<rparr>"
  note defs = new_sockets_def setActiveSocket_def clearActiveSocket_def closeSocket_def
    closeActiveSocket_def rabbit_stop_flag_def rabbit_stop_def
  have "so_step True new_sockets s1"
    using so_connect [of new_sockets 5 True] by (simp add: s1_def) (simp add: defs)
  moreover have "so_step True s1 s2"
    unfolding s2_def by (rule so_activate) (simp add: s1_def)
  moreover have "so_step True s2 s3" unfolding s3_def by (rule so_stop) simp
  moreover have "so_step True s3 s4"
    unfolding s4_def by (rule so_other) (simp add: s3_def s2_def s1_def defs)
  moreover have "so_step True s4 s5"
    unfolding s5_def by (rule so_leave) (simp add: s4_def s3_def s2_def s1_def defs)
  moreover have "so_step True s5 s6" unfolding s6_def by (rule so_clear) (simp add: s5_def)
  moreover have "so_step True s6 s7" unfolding s7_def by (rule so_close) (simp add: s6_def)
  ultimately have "reaches (so_step True) new_sockets s7"
    by (meson reaches_refl reaches_step)
  moreover have "so_foreign_closes s7 = [5] \<and> so_closes s7 = [5, 5]"
    by (simp add: s7_def s6_def s5_def s4_def s3_def s2_def s1_def defs)
  ultimately show "\<exists>s fd. reaches (so_step True) new_sockets s \<and> so_foreign_closes s = [fd] \<and>
      so_closes s = [fd, fd]" by blast
qed

lemma rabbit_stop_closes_foreign_socket_witness:
  "so_foreign_closes (new_sockets\<lparr>so_open := [(3, False)]\<rparr>) = []"
proof -
  have "so_step False new_sockets (new_sockets\<lparr>so_open := [(3, False)]\<rparr>)"
    using so_other [of 3 new_sockets False] by (simp add: new_sockets_def)
  with rabbit_stop_closes_foreign_socket [of "new_sockets\<lparr>so_open := [(3, False)]\<rparr>"] show ?thesis
    by (meson reaches_refl reaches_step)
qed

end
