(* ===== verification/ServiceBusConfig.thy ===== *)
theory ServiceBusConfig
  imports RabbitMqConfig
begin

text \<open>
  The configuration of the Service Bus plugin: the client's search and silent reader
  (\<^verbatim>\<open>FindServiceBusNode\<close>, \<^verbatim>\<open>ApplyServiceBusConfig\<close>), the server's strict reader
  (\<^verbatim>\<open>applyConfigFromJson\<close>) and the connection string both build from the same fields.
  The readers of a number in a range are those of \<^verbatim>\<open>RabbitMqConfig\<close>: the code is the same.
\<close>

section \<open>Configurations\<close>

record sb_client_config =
  sb_connectionString :: string
  sb_host :: string
  sb_sharedAccessKeyName :: string
  sb_sharedAccessKey :: string
  sb_queue :: string
  sb_replyQueue :: string
  sb_topic :: string
  sb_useDevelopmentEmulator :: bool
  sb_rpcTimeoutMs :: u32

definition default_sb_client :: sb_client_config where
  "default_sb_client =
    \<lparr>sb_connectionString = [], sb_host = [], sb_sharedAccessKeyName = [], sb_sharedAccessKey = [],
     sb_queue = [], sb_replyQueue = [], sb_topic = [], sb_useDevelopmentEmulator = False,
     sb_rpcTimeoutMs = 30000\<rparr>"

record sb_server_config =
  ss_name :: string
  ss_connectionString :: string
  ss_host :: string
  ss_sharedAccessKeyName :: string
  ss_sharedAccessKey :: string
  ss_queue :: string
  ss_replyQueue :: string
  ss_topic :: string
  ss_subscription :: string
  ss_useDevelopmentEmulator :: bool
  ss_rpcTimeoutMs :: u32

definition default_sb_server :: sb_server_config where
  "default_sb_server =
    \<lparr>ss_name = [], ss_connectionString = [], ss_host = [], ss_sharedAccessKeyName = [],
     ss_sharedAccessKey = [], ss_queue = [], ss_replyQueue = [], ss_topic = [],
     ss_subscription = [], ss_useDevelopmentEmulator = False, ss_rpcTimeoutMs = 30000\<rparr>"

section \<open>The connection string\<close>

definition sb_scheme :: string where "sb_scheme = ''sb://''"

definition endpoint_host :: "string \<Rightarrow> string" where
  "endpoint_host host =
     (let host = (if \<not> starts_with sb_scheme host then sb_scheme @ host else host)
      in if host \<noteq> [] \<and> last host \<noteq> CHR ''/'' then host @ ''/'' else host)"

definition BuildConnectionString :: "sb_client_config \<Rightarrow> string" where
  "BuildConnectionString config =
     (if sb_connectionString config \<noteq> [] then sb_connectionString config
      else if sb_host config = [] \<or> sb_sharedAccessKeyName config = [] \<or> sb_sharedAccessKey config = []
      then []
      else ''Endpoint='' @ endpoint_host (sb_host config) @
        '';SharedAccessKeyName='' @ sb_sharedAccessKeyName config @
        '';SharedAccessKey='' @ sb_sharedAccessKey config @
        (if sb_useDevelopmentEmulator config then '';UseDevelopmentEmulator=true'' else []))"

definition sb_buildConnectionString :: "sb_server_config \<Rightarrow> string" where
  "sb_buildConnectionString config =
     BuildConnectionString (default_sb_client
       \<lparr>sb_connectionString := ss_connectionString config, sb_host := ss_host config,
        sb_sharedAccessKeyName := ss_sharedAccessKeyName config,
        sb_sharedAccessKey := ss_sharedAccessKey config,
        sb_useDevelopmentEmulator := ss_useDevelopmentEmulator config\<rparr>)"

section \<open>The client's node\<close>

definition hasDedicatedSbKeys :: "json \<Rightarrow> bool" where
  "hasDedicatedSbKeys node \<longleftrightarrow>
     jcontains node ''connectionString'' \<or> jcontains node ''queue'' \<or> jcontains node ''replyQueue'' \<or>
     jcontains node ''sharedAccessKeyName'' \<or> jcontains node ''sharedAccessKey''"

definition sb_select :: "bool \<Rightarrow> json \<Rightarrow> json option" where
  "sb_select isRoot node =
     (case jfind node ''servicebus'' of
        Some (JObject kvs) \<Rightarrow> Some (JObject kvs)
      | _ \<Rightarrow>
          if hasDedicatedSbKeys node \<or>
             ((isPluginChannel node \<or> isRoot) \<and> jcontains node ''connectionString'')
          then Some node else None)"

fun FindServiceBusNode :: "bool \<Rightarrow> json \<Rightarrow> json option" where
  "FindServiceBusNode isRoot (JObject kvs) =
     (case sb_select isRoot (JObject kvs) of
        Some n \<Rightarrow> Some n
      | None \<Rightarrow> first_some (\<lambda>x. FindServiceBusNode False (snd x)) kvs)"
| "FindServiceBusNode isRoot (JArray js) = first_some (FindServiceBusNode False) js"
| "FindServiceBusNode isRoot _ = None"

interpretation sb_search: node_search "FindServiceBusNode False" "sb_select False"
proof
  fix j :: json
  assume "\<not> is_object j" "\<nexists>js. j = JArray js"
  then show "FindServiceBusNode False j = None" by (cases j) auto
qed simp_all

section \<open>The readers\<close>

definition read_flag :: "json \<Rightarrow> string \<Rightarrow> bool \<Rightarrow> bool" where
  "read_flag node key target = (case jfind node key of Some (JBool b) \<Rightarrow> b | _ \<Rightarrow> target)"

definition ApplyServiceBusConfig :: "json \<Rightarrow> sb_client_config \<Rightarrow> sb_client_config" where
  "ApplyServiceBusConfig node config =
     (if \<not> is_object node then config
      else \<lparr>sb_connectionString = ReadString node ''connectionString'' (sb_connectionString config),
            sb_host = ReadString node ''host'' (sb_host config),
            sb_sharedAccessKeyName =
              ReadString node ''sharedAccessKeyName'' (sb_sharedAccessKeyName config),
            sb_sharedAccessKey = ReadString node ''sharedAccessKey'' (sb_sharedAccessKey config),
            sb_queue = ReadString node ''queue'' (sb_queue config),
            sb_replyQueue = ReadString node ''replyQueue'' (sb_replyQueue config),
            sb_topic = ReadString node ''topic'' (sb_topic config),
            sb_useDevelopmentEmulator =
              read_flag node ''useDevelopmentEmulator'' (sb_useDevelopmentEmulator config),
            sb_rpcTimeoutMs =
              read_in_range node ''rpcTimeoutMs'' 4294967295 (sb_rpcTimeoutMs config)\<rparr>)"

definition sb_ApplyConfigSource :: "cpp_env \<Rightarrow> string \<Rightarrow> sb_client_config \<Rightarrow> sb_client_config" where
  "sb_ApplyConfigSource env configSource config =
     (case ParseJsonConfigSource env configSource of
        None \<Rightarrow> config
      | Some parsed \<Rightarrow>
          (case FindServiceBusNode True parsed of
             None \<Rightarrow> config
           | Some node \<Rightarrow> ApplyServiceBusConfig node config))"

definition sb_server_strings :: "json \<Rightarrow> sb_server_config" where
  "sb_server_strings parsed =
     default_sb_server
      \<lparr>ss_name := getOptionalString parsed ''name'' [],
       ss_connectionString := getOptionalString parsed ''connectionString'' [],
       ss_host := getOptionalString parsed ''host'' [],
       ss_sharedAccessKeyName := getOptionalString parsed ''sharedAccessKeyName'' [],
       ss_sharedAccessKey := getOptionalString parsed ''sharedAccessKey'' [],
       ss_queue := getOptionalString parsed ''queue'' [],
       ss_replyQueue := getOptionalString parsed ''replyQueue'' [],
       ss_topic := getOptionalString parsed ''topic'' [],
       ss_subscription := getOptionalString parsed ''subscription'' [],
       ss_useDevelopmentEmulator := read_flag parsed ''useDevelopmentEmulator'' False\<rparr>"

definition check_sb_server :: "sb_server_config \<Rightarrow> sb_server_config result" where
  "check_sb_server config =
     (let topicMode = ss_subscription config \<noteq> [] in
      if topicMode \<and> ss_topic config = []
      then Inl (RuntimeError (''Service Bus consumer: '' @ quoted ''subscription'' @ '' requires '' @
        quoted ''topic'' @ '' to be set''))
      else if \<not> topicMode \<and> ss_queue config = []
      then Inl (RuntimeError (''Service Bus consumer: missing required field '' @ quoted ''queue'' @
        '' (or '' @ quoted ''topic'' @ ''+'' @ quoted ''subscription'' @ '')''))
      else if sb_buildConnectionString config = []
      then Inl (RuntimeError (''Service Bus consumer: missing '' @ quoted ''connectionString'' @
        '' (or host/sharedAccessKeyName/sharedAccessKey)''))
      else Inr config)"

definition sb_applyConfigFromJson :: "cpp_env \<Rightarrow> string \<Rightarrow> sb_server_config result" where
  "sb_applyConfigFromJson env jsonSource =
     (if jsonSource = [] then Inl (RuntimeError ''Service Bus consumer: empty configuration JSON'')
      else rbind (json_parse env (normalizeRelaxedJson jsonSource)) (\<lambda>parsed.
        if \<not> is_object parsed
        then Inl (RuntimeError ''Service Bus consumer: configuration must be a JSON object'')
        else let config = sb_server_strings parsed in
          rbind (read_or_throw parsed ''rpcTimeoutMs'' 4294967295
            (RuntimeError ''Service Bus consumer: invalid rpcTimeoutMs in configuration'')
            (ss_rpcTimeoutMs config)) (\<lambda>t.
          check_sb_server (config\<lparr>ss_rpcTimeoutMs := t\<rparr>))))"

section \<open>Properties\<close>

text \<open>The second half of the test at an object adds nothing to the first.\<close>

lemma sb_select_root: "sb_select isRoot node = sb_select False node"
  by (auto simp: sb_select_def hasDedicatedSbKeys_def split: option.split json.split)

lemma FindServiceBusNode_root: "FindServiceBusNode isRoot j = FindServiceBusNode False j"
  by (cases j) (auto simp: sb_select_root [of isRoot] split: option.split)

lemma endpoint_host_shape:
  "starts_with sb_scheme (endpoint_host h) \<and> last (endpoint_host h) = CHR ''/'' \<and>
   endpoint_host (endpoint_host h) = endpoint_host h"
proof -
  define h' where "h' = (if \<not> starts_with sb_scheme h then sb_scheme @ h else h)"
  have h': "starts_with sb_scheme h'" by (simp add: h'_def)
  then have ne: "h' \<noteq> []" by (auto simp: starts_with_def sb_scheme_def)
  have "starts_with sb_scheme (h' @ ''/'')" using h' by (auto simp: starts_with_iff)
  moreover have "endpoint_host h = (if last h' \<noteq> CHR ''/'' then h' @ ''/'' else h')"
    using ne by (simp add: endpoint_host_def h'_def Let_def)
  ultimately show ?thesis using h' ne by (auto simp: endpoint_host_def)
qed

text \<open>
  The Service Bus node and connection string.  The client's search finds the first object of
  the document, in document order, that nests a \<^verbatim>\<open>servicebus\<close> object or has one of the
  five dedicated keys: the tests for the root and for plugin channels never matter.  Host, key
  name and key give a connection string whose endpoint has exactly one scheme and ends in a
  slash, however the host was written, and an explicit connection string is kept.
\<close>
theorem sb_node_and_connection_string:
  "FindServiceBusNode isRoot j = first_some (sb_select False) (objects_of j) \<and>
   (sb_select isRoot n = Some n \<and> jfind n ''servicebus'' = None \<longleftrightarrow>
      hasDedicatedSbKeys n \<and> jfind n ''servicebus'' = None) \<and>
   (if sb_connectionString c \<noteq> [] then BuildConnectionString c = sb_connectionString c
    else if sb_host c = [] \<or> sb_sharedAccessKeyName c = [] \<or> sb_sharedAccessKey c = []
    then BuildConnectionString c = []
    else \<exists>e rest. BuildConnectionString c = ''Endpoint='' @ e @ '';SharedAccessKeyName='' @ rest \<and>
      starts_with sb_scheme e \<and> last e = CHR ''/'' \<and>
      BuildConnectionString (c\<lparr>sb_host := e\<rparr>) = BuildConnectionString c)"
proof -
  have "\<exists>e rest. BuildConnectionString c = ''Endpoint='' @ e @ '';SharedAccessKeyName='' @ rest \<and>
      starts_with sb_scheme e \<and> last e = CHR ''/'' \<and>
      BuildConnectionString (c\<lparr>sb_host := e\<rparr>) = BuildConnectionString c"
    if c: "sb_connectionString c = []" "sb_host c \<noteq> []" "sb_sharedAccessKeyName c \<noteq> []"
      "sb_sharedAccessKey c \<noteq> []"
  proof -
    let ?e = "endpoint_host (sb_host c)"
    have "?e \<noteq> []" using endpoint_host_shape [of "sb_host c"] by (auto simp: starts_with_def sb_scheme_def)
    then have "BuildConnectionString (c\<lparr>sb_host := ?e\<rparr>) = BuildConnectionString c"
      using c endpoint_host_shape [of "sb_host c"] by (simp add: BuildConnectionString_def)
    moreover have "\<exists>rest. BuildConnectionString c = ''Endpoint='' @ ?e @ '';SharedAccessKeyName='' @ rest"
      using c by (simp add: BuildConnectionString_def)
    ultimately show ?thesis using endpoint_host_shape [of "sb_host c"] by blast
  qed
  moreover have "sb_select isRoot n = Some n \<and> jfind n ''servicebus'' = None \<longleftrightarrow>
      hasDedicatedSbKeys n \<and> jfind n ''servicebus'' = None"
    by (auto simp: sb_select_root [of isRoot]) (auto simp: sb_select_def hasDedicatedSbKeys_def split: if_splits)
  moreover have "FindServiceBusNode isRoot j = first_some (sb_select False) (objects_of j)"
    by (simp only: FindServiceBusNode_root [of isRoot] sb_search.find_first)
  moreover have "BuildConnectionString c = sb_connectionString c" if "sb_connectionString c \<noteq> []"
    using that by (simp add: BuildConnectionString_def)
  moreover have "BuildConnectionString c = []"
    if "sb_connectionString c = []"
      "sb_host c = [] \<or> sb_sharedAccessKeyName c = [] \<or> sb_sharedAccessKey c = []"
    using that by (simp add: BuildConnectionString_def)
  ultimately show ?thesis by (simp split: if_splits)
qed

end
