(* ===== verification/ServiceBusClient.thy ===== *)
theory ServiceBusClient
  imports ServiceBusConfig RpcLink TransportAbi
begin

text \<open>
  The client of the Service Bus plugin (\<^verbatim>\<open>ServiceBusClient.cpp\<close>,
  \<^verbatim>\<open>TransportServiceBus.cpp\<close>): the body of a message, the link with its dispatcher
  thread, the current link, the call in RPC and in one-way mode, and the wrappers.  The Azure
  AMQP library is a parameter: the results of opening, sending and receiving.
\<close>

section \<open>Messages\<close>

text \<open>An AMQP value; the cast to \<^verbatim>\<open>std::string\<close> throws unless it is a string.\<close>

datatype amqp_value = AmqpNull | AmqpString string | AmqpOther

fun as_string :: "amqp_value \<Rightarrow> string option" where
  "as_string (AmqpString s) = Some s"
| "as_string _ = None"

datatype sb_body = DataSections "bytes list" | ValueBody amqp_value | OtherBody

fun ExtractMessageBody :: "sb_body \<Rightarrow> bytes" where
  "ExtractMessageBody (DataSections sections) = concat sections"
| "ExtractMessageBody (ValueBody v) =
     (case as_string v of Some s \<Rightarrow> string_to_bytes s | None \<Rightarrow> [])"
| "ExtractMessageBody OtherBody = []"

text \<open>The parts of a message the plugin reads or writes.\<close>

record sb_message =
  sm_body :: sb_body
  sm_messageId :: amqp_value
  sm_correlationId :: amqp_value
  sm_replyTo :: amqp_value
  sm_replyToGroupId :: "string option"
  sm_groupId :: "string option"
  sm_contentType :: "string option"
  sm_properties :: "(string \<times> amqp_value) list"

definition new_sb_message :: sb_message where
  "new_sb_message =
    \<lparr>sm_body = OtherBody, sm_messageId = AmqpNull, sm_correlationId = AmqpNull,
     sm_replyTo = AmqpNull, sm_replyToGroupId = None, sm_groupId = None, sm_contentType = None,
     sm_properties = []\<rparr>"

definition sb_BuildCorrelationId :: "string \<Rightarrow> int \<Rightarrow> u64 \<Rightarrow> string" where
  "sb_BuildCorrelationId tid now sequence =
     ''graftcode-'' @ tid @ ''-'' @ to_string now @ ''-'' @ dec_digits (unat sequence)"

section \<open>The link\<close>

record sb_link =
  sl_receiver :: bool
  sl_broken :: bool

text \<open>
  The constructor: \<open>connect\<close> is the credential, the connection and the session for a
  connection string, \<open>openReceiver\<close> the reply receiver on a queue and session, \<open>openSender\<close>
  the sender on an entity (\<open>False\<close> when \<^verbatim>\<open>Open\<close> reports an error).  Any of them may
  throw.
\<close>

definition sb_open_link ::
  "(string \<Rightarrow> unit result) \<Rightarrow> (string \<Rightarrow> string \<Rightarrow> unit result) \<Rightarrow> (string \<Rightarrow> bool result) \<Rightarrow>
     sb_client_config \<Rightarrow> string \<Rightarrow> sb_link result" where
  "sb_open_link connect openReceiver openSender config replySessionId =
     (let connectionString = BuildConnectionString config;
          oneWay = sb_topic config \<noteq> [] in
      if connectionString = []
      then Inl (RuntimeError ''Service Bus connection string is not configured'')
      else if \<not> oneWay \<and> (sb_queue config = [] \<or> sb_replyQueue config = [])
      then Inl (RuntimeError ''Service Bus queue and replyQueue must be configured'')
      else rbind (connect connectionString) (\<lambda>_.
        rbind (if \<not> oneWay then openReceiver (sb_replyQueue config) replySessionId else Inr ()) (\<lambda>_.
        rbind (openSender (if oneWay then sb_topic config else sb_queue config)) (\<lambda>opened.
        if \<not> opened then Inl (RuntimeError ''failed to open Service Bus sender'')
        else Inr \<lparr>sl_receiver = \<not> oneWay, sl_broken = False\<rparr>))))"

text \<open>\<^verbatim>\<open>Send\<close>: a send that throws leaves the flag alone, one that reports failure sets it.\<close>

definition sb_Send ::
  "(sb_message \<Rightarrow> bool result) \<Rightarrow> sb_link \<Rightarrow> sb_message \<Rightarrow> unit result \<times> sb_link" where
  "sb_Send send l m =
     (case send m of
        Inl e \<Rightarrow> (Inl e, l)
      | Inr sendSucceeded \<Rightarrow>
          if \<not> sendSucceeded
          then (Inl (RuntimeError ''failed to send Service Bus message''), l\<lparr>sl_broken := True\<rparr>)
          else (Inr (), l))"

definition sb_Disconnect :: "string \<Rightarrow> sb_link \<Rightarrow> sb_link \<times> pr_event list" where
  "sb_Disconnect error l = (l\<lparr>sl_broken := True\<rparr>, [EFailAll error])"

text \<open>What \<^verbatim>\<open>WaitForIncomingMessage\<close> does in one turn of the dispatcher.\<close>

datatype sb_turn =
    SbCancelled
  | SbThrows string
  | SbIncoming "string option" "sb_message option"

definition reply_events :: "sb_message \<Rightarrow> pr_event list" where
  "reply_events m =
     (let correlation = (if sm_correlationId m = AmqpNull then sm_messageId m else sm_correlationId m)
      in if correlation = AmqpNull then []
         else case as_string correlation of
           Some cid \<Rightarrow> [EComplete cid (ExtractMessageBody (sm_body m))]
         | None \<Rightarrow> [])"

text \<open>The loop: each turn comes with the reading of \<^verbatim>\<open>stopping_\<close> before it.\<close>

fun sb_DispatchReplies :: "(bool \<times> sb_turn) list \<Rightarrow> sb_link \<Rightarrow> sb_link \<times> pr_event list" where
  "sb_DispatchReplies [] l = (l, [])"
| "sb_DispatchReplies ((stopping, turn) # turns) l =
     (if stopping then (l, [])
      else case turn of
        SbCancelled \<Rightarrow> sb_DispatchReplies turns l
      | SbThrows reason \<Rightarrow> sb_Disconnect (''Service Bus reply receiver failed: '' @ reason) l
      | SbIncoming (Some description) _ \<Rightarrow>
          sb_Disconnect (''Service Bus reply receiver failed: '' @ description) l
      | SbIncoming None None \<Rightarrow> sb_DispatchReplies turns l
      | SbIncoming None (Some m) \<Rightarrow>
          (case sb_DispatchReplies turns l of (l, out) \<Rightarrow> (l, reply_events m @ out)))"

section \<open>The client\<close>

record sb_client =
  sk_config :: sb_client_config
  sk_replySessionId :: string
  sk_pending :: pending
  sk_link :: "sb_link option"

definition new_ServiceBusRpcClient :: "sb_client_config \<Rightarrow> string \<Rightarrow> sb_client" where
  "new_ServiceBusRpcClient config replySessionId =
    \<lparr>sk_config = config, sk_replySessionId = replySessionId, sk_pending = new_pending,
     sk_link = None\<rparr>"

definition destroy_ServiceBusRpcClient :: "sb_client \<Rightarrow> sb_client" where
  "destroy_ServiceBusRpcClient c =
     c\<lparr>sk_pending := Close ''Service Bus client is shutting down'' (sk_pending c), sk_link := None\<rparr>"

type_synonym sb_opener = "sb_client_config \<Rightarrow> string \<Rightarrow> sb_link result"

definition sb_relink :: "sb_opener \<Rightarrow> sb_client \<Rightarrow> sb_link result \<times> sb_client" where
  "sb_relink open_link c =
     (case open_link (sk_config c) (sk_replySessionId c) of
        Inl e \<Rightarrow> (Inl e, c\<lparr>sk_link := None\<rparr>)
      | Inr l \<Rightarrow> (Inr l, c\<lparr>sk_link := Some l\<rparr>))"

definition sb_CurrentLink :: "sb_opener \<Rightarrow> sb_client \<Rightarrow> sb_link result \<times> sb_client" where
  "sb_CurrentLink open_link c =
     (case sk_link c of
        Some l \<Rightarrow> if sl_broken l then sb_relink open_link c else (Inr l, c)
      | None \<Rightarrow> sb_relink open_link c)"

definition sb_timeout_ms :: "sb_client_config \<Rightarrow> u32" where
  "sb_timeout_ms config = (if sb_rpcTimeoutMs config = 0 then 30000 else sb_rpcTimeoutMs config)"

definition sb_timeout :: "sb_client_config \<Rightarrow> string \<Rightarrow> exn" where
  "sb_timeout config correlationId =
     RuntimeError (''Service Bus RPC timed out after '' @ dec_digits (unat (sb_timeout_ms config)) @
       '' ms waiting for correlation id '' @ correlationId)"

definition oneway_message :: "string \<Rightarrow> buf \<Rightarrow> sb_message" where
  "oneway_message correlationId d =
     new_sb_message
      \<lparr>sm_body := DataSections [if buf_size d > 0 then buf_bytes d else []],
       sm_messageId := AmqpString correlationId,
       sm_contentType := Some ''application/octet-stream''\<rparr>"

definition request_message :: "sb_client \<Rightarrow> string \<Rightarrow> buf \<Rightarrow> sb_message" where
  "request_message c correlationId d =
     (oneway_message correlationId d)
      \<lparr>sm_replyTo := AmqpString (sb_replyQueue (sk_config c)),
       sm_replyToGroupId := Some (sk_replySessionId c)\<rparr>"

text \<open>
  \<open>later\<close> is what the dispatcher has made of the link when the message is sent; \<open>during\<close> are
  the events of the other threads after the registration.
\<close>

definition sb_Call ::
  "sb_opener \<Rightarrow> (sb_link \<Rightarrow> sb_link) \<Rightarrow> (sb_message \<Rightarrow> bool result) \<Rightarrow> string \<Rightarrow> pr_event list \<Rightarrow>
     buf \<Rightarrow> sb_client \<Rightarrow> bytes result \<times> sb_client \<times> sb_message list" where
  "sb_Call open_link later send cid during d c =
     (if buf_size d > 0 \<and> buf_is_null d
      then (Inl (InvalidArgument ''Service Bus client: null payload with non-zero length''), c, [])
      else case sb_CurrentLink open_link c of
        (Inl e, c) \<Rightarrow> (Inl e, c, [])
      | (Inr l, c) \<Rightarrow>
          (if sb_topic (sk_config c) \<noteq> []
           then case sb_Send send (later l) (oneway_message cid d) of
             (sent, l) \<Rightarrow>
               (rbind sent (\<lambda>_. Inr []), c\<lparr>sk_link := Some l\<rparr>, [oneway_message cid d])
           else case Register cid (sk_pending c) of
             Inl e \<Rightarrow> (Inl e, c\<lparr>sk_link := Some (later l)\<rparr>, [])
           | Inr _ \<Rightarrow>
               (case sb_Send send (later l) (request_message c cid d) of
                  (sent, l) \<Rightarrow>
                    (case await_reply (sb_timeout (sk_config c) cid) cid during sent (sk_pending c) of
                       (r, p) \<Rightarrow>
                         (r, c\<lparr>sk_pending := p, sk_link := Some l\<rparr>, [request_message c cid d])))))"

section \<open>The wrappers\<close>

text \<open>A client for one call, whose every exception becomes \<^verbatim>\<open>false\<close>.\<close>

type_synonym sb_caller = "buf \<Rightarrow> sb_client \<Rightarrow> bytes result \<times> sb_client \<times> sb_message list"

definition sb_vector_buf :: "bytes \<Rightarrow> buf" where
  "sb_vector_buf payload = (if payload = [] then Null 0 else Buf payload)"

definition PublishOneWay :: "sb_caller \<Rightarrow> sb_client_config \<Rightarrow> string \<Rightarrow> buf \<Rightarrow> bool" where
  "PublishOneWay call config session d =
     (if sb_topic config = [] then False
      else \<not> isl (fst (call d (new_ServiceBusRpcClient config session))))"

definition PublishOneWay_vector :: "sb_caller \<Rightarrow> sb_client_config \<Rightarrow> string \<Rightarrow> bytes \<Rightarrow> bool" where
  "PublishOneWay_vector call config session payload =
     PublishOneWay call config session (sb_vector_buf payload)"

definition sb_SendRpc :: "sb_caller \<Rightarrow> sb_client_config \<Rightarrow> string \<Rightarrow> buf \<Rightarrow> bool \<times> bytes" where
  "sb_SendRpc call config session d =
     (case fst (call d (new_ServiceBusRpcClient config session)) of
        Inr response \<Rightarrow> (True, response)
      | Inl _ \<Rightarrow> (False, []))"

definition sb_SendRpc_vector :: "sb_caller \<Rightarrow> sb_client_config \<Rightarrow> string \<Rightarrow> bytes \<Rightarrow> bool \<times> bytes" where
  "sb_SendRpc_vector call config session payload =
     sb_SendRpc call config session (sb_vector_buf payload)"

definition ServiceBus_Send :: "sb_caller \<Rightarrow> sb_client_config \<Rightarrow> string \<Rightarrow> buf \<Rightarrow> bool" where
  "ServiceBus_Send call config session d = fst (sb_SendRpc call config session d)"

definition ServiceBus_Send_vector :: "sb_caller \<Rightarrow> sb_client_config \<Rightarrow> string \<Rightarrow> bytes \<Rightarrow> bool" where
  "ServiceBus_Send_vector call config session payload =
     fst (sb_SendRpc_vector call config session payload)"

section \<open>The transport\<close>

definition new_TransportServiceBus :: "cpp_env \<Rightarrow> string \<Rightarrow> u16 \<Rightarrow> string \<Rightarrow> string \<Rightarrow> sb_client" where
  "new_TransportServiceBus env host port configSource replySessionId =
     new_ServiceBusRpcClient
       (sb_ApplyConfigSource env configSource (default_sb_client\<lparr>sb_host := host\<rparr>)) replySessionId"

definition sb_transport :: "(buf \<Rightarrow> bytes result) \<Rightarrow> transport" where
  "sb_transport call messageByteArray messageByteArrayLen =
     (if messageByteArray = None \<or> sint messageByteArrayLen < 0
      then Some (Inl (RuntimeError ''invalid Service Bus payload''))
      else case read_ptr messageByteArray (size_of_int32 messageByteArrayLen) of
        None \<Rightarrow> None
      | Some d \<Rightarrow> Some (rbind (call d) reject_error_reply))"

text \<open>The transport passes messages and replies as the ABI expects.\<close>

interpretation sb_plugin: plugin_transport sb_transport
  by unfold_locales (simp add: sb_transport_def read_ptr_positive)

section \<open>Properties\<close>

lemma sb_CurrentLink_reuse:
  "sk_link c = Some l \<Longrightarrow> \<not> sl_broken l \<Longrightarrow> sb_CurrentLink open_link c = (Inr l, c)"
  by (simp add: sb_CurrentLink_def)

lemma buf_bytes_empty: "buf_size d = 0 \<Longrightarrow> buf_bytes d = []"
  by (cases d) auto

lemma message_fields:
  "ExtractMessageBody (sm_body (oneway_message cid d)) = buf_bytes d"
  "ExtractMessageBody (sm_body (request_message c cid d)) = buf_bytes d"
  "sm_messageId (request_message c cid d) = AmqpString cid"
  "sm_replyTo (request_message c cid d) = AmqpString (sb_replyQueue (sk_config c))"
  "sm_replyToGroupId (request_message c cid d) = Some (sk_replySessionId c)"
  "sm_replyTo (oneway_message cid d) = AmqpNull"
  by (simp_all add: request_message_def oneway_message_def new_sb_message_def buf_bytes_empty)

lemma sb_call_general:
  assumes "pending_wf (sk_pending c)" "\<not> closed (sk_pending c)"
    and "map_of (slots (sk_pending c)) cid = None" "leaves cid during"
    and "sk_link c = Some l" "\<not> sl_broken l"
    and "sb_topic (sk_config c) = []" "\<not> (buf_size d > 0 \<and> buf_is_null d)"
  shows "\<exists>p. sb_Call open_link later send cid during d c =
      ((case fst (sb_Send send (later l) (request_message c cid d)) of
          Inl e \<Rightarrow> Inl e
        | Inr _ \<Rightarrow>
            (case first_settle cid during of
               Waiting \<Rightarrow> Inl (sb_timeout (sk_config c) cid)
             | Failed e \<Rightarrow> Inl (RuntimeError e)
             | Done pl \<Rightarrow> Inr pl)),
       c\<lparr>sk_pending := p, sk_link := Some (snd (sb_Send send (later l) (request_message c cid d)))\<rparr>,
       [request_message c cid d]) \<and>
    map_of (slots p) cid = None \<and> pending_wf p"
proof -
  obtain sent l' where send: "sb_Send send (later l) (request_message c cid d) = (sent, l')"
    by (cases "sb_Send send (later l) (request_message c cid d)")
  obtain r p where aw: "await_reply (sb_timeout (sk_config c) cid) cid during sent (sk_pending c) = (r, p)"
    by (cases "await_reply (sb_timeout (sk_config c) cid) cid during sent (sk_pending c)")
  obtain t q where reg: "Register cid (sk_pending c) = Inr (t, q)"
    by (rule Register_succeeds [OF assms(2,3)])
  have call: "sb_Call open_link later send cid during d c =
      (r, c\<lparr>sk_pending := p, sk_link := Some l'\<rparr>, [request_message c cid d])"
    unfolding sb_Call_def sb_CurrentLink_reuse [OF assms(5,6)] prod.case sum.case send aw
      if_not_P [OF assms(8)] reg using assms(7) by simp
  have "r = (case sent of Inl e \<Rightarrow> Inl e | Inr _ \<Rightarrow>
      (case first_settle cid during of
         Waiting \<Rightarrow> Inl (sb_timeout (sk_config c) cid)
       | Failed e \<Rightarrow> Inl (RuntimeError e)
       | Done pl \<Rightarrow> Inr pl))" "map_of (slots p) cid = None" "pending_wf p"
    using await_reply_outcome [OF assms(1-4), of "sb_timeout (sk_config c) cid" sent]
    unfolding aw by simp_all
  then show ?thesis unfolding call send by (intro exI [of _ p]) simp
qed

text \<open>
  The outcome of a Service Bus call.  With a topic the call only publishes: it returns an
  empty reply as soon as the message is sent, registers nothing and asks for no reply.  Without
  one it ends with the error of the send, the first settlement of its own id or a timeout, and
  leaves no entry.  Either way exactly one message goes out, with the caller's bytes, and a send
  that reports failure breaks the link, so the next call opens a new one.
\<close>
theorem sb_call_outcome:
  assumes "pending_wf (sk_pending c)" "\<not> closed (sk_pending c)"
    and "map_of (slots (sk_pending c)) cid = None" "leaves cid during"
    and "sk_link c = Some l" "\<not> sl_broken l" "\<not> (buf_size d > 0 \<and> buf_is_null d)"
  shows "\<exists>r c' m. sb_Call open_link later send cid during d c = (r, c', [m]) \<and>
    ExtractMessageBody (sm_body m) = buf_bytes d \<and>
    map_of (slots (sk_pending c')) cid = None \<and> pending_wf (sk_pending c') \<and>
    (if sb_topic (sk_config c) \<noteq> [] then sm_replyTo m = AmqpNull \<and> sk_pending c' = sk_pending c
     else sm_replyTo m = AmqpString (sb_replyQueue (sk_config c))) \<and>
    r = (case send m of
           Inl e \<Rightarrow> Inl e
         | Inr False \<Rightarrow> Inl (RuntimeError ''failed to send Service Bus message'')
         | Inr True \<Rightarrow>
             (if sb_topic (sk_config c) \<noteq> [] then Inr []
              else case first_settle cid during of
                Waiting \<Rightarrow> Inl (sb_timeout (sk_config c) cid)
              | Failed e \<Rightarrow> Inl (RuntimeError e)
              | Done pl \<Rightarrow> Inr pl)) \<and>
    (send m = Inr False \<longrightarrow> sb_CurrentLink open_link c' = sb_relink open_link c')"
proof (cases "sb_topic (sk_config c) = []")
  case True
  let ?m = "request_message c cid d"
  obtain p where p: "sb_Call open_link later send cid during d c =
      ((case fst (sb_Send send (later l) ?m) of
          Inl e \<Rightarrow> Inl e
        | Inr _ \<Rightarrow>
            (case first_settle cid during of
               Waiting \<Rightarrow> Inl (sb_timeout (sk_config c) cid)
             | Failed e \<Rightarrow> Inl (RuntimeError e)
             | Done pl \<Rightarrow> Inr pl)),
       c\<lparr>sk_pending := p, sk_link := Some (snd (sb_Send send (later l) ?m))\<rparr>, [?m])"
    "map_of (slots p) cid = None" "pending_wf p"
    using sb_call_general [OF assms(1-6) True assms(7), of open_link later send] by blast
  show ?thesis
    by (rule exI, rule exI, rule exI [of _ ?m], rule conjI, rule p(1))
      (simp add: True p(2,3) message_fields sb_Send_def sb_CurrentLink_def split: sum.split bool.split)
next
  case False
  let ?m = "oneway_message cid d"
  have call: "sb_Call open_link later send cid during d c =
      (rbind (fst (sb_Send send (later l) ?m)) (\<lambda>_. Inr []),
       c\<lparr>sk_link := Some (snd (sb_Send send (later l) ?m))\<rparr>, [?m])"
    unfolding sb_Call_def sb_CurrentLink_reuse [OF assms(5,6)] prod.case sum.case if_not_P [OF assms(7)]
    using False by (simp add: case_prod_unfold)
  show ?thesis
    by (rule exI, rule exI, rule exI [of _ ?m], rule conjI, rule call)
      (simp add: False assms(1,3) message_fields sb_Send_def sb_CurrentLink_def
        split: sum.split bool.split)
qed

definition sb_example_client :: "string \<Rightarrow> sb_client" where
  "sb_example_client topic =
     (new_ServiceBusRpcClient (default_sb_client\<lparr>sb_topic := topic, sb_replyQueue := ''r''\<rparr>) ''s'')
       \<lparr>sk_link := Some \<lparr>sl_receiver = True, sl_broken = False\<rparr>\<rparr>"

lemma sb_example_fields:
  "pending_wf (sk_pending (sb_example_client topic))" "\<not> closed (sk_pending (sb_example_client topic))"
  "map_of (slots (sk_pending (sb_example_client topic))) cid = None"
  "sk_link (sb_example_client topic) = Some \<lparr>sl_receiver = True, sl_broken = False\<rparr>"
  "sb_topic (sk_config (sb_example_client topic)) = topic"
  "sb_replyQueue (sk_config (sb_example_client topic)) = ''r''"
  "sk_replySessionId (sb_example_client topic) = ''s''"
  by (simp_all add: sb_example_client_def new_ServiceBusRpcClient_def new_pending_def)
    (simp add: pending_wf_def)

lemma sb_call_outcome_witness:
  "\<forall>open_link. \<exists>c' m. sb_Call open_link (\<lambda>l. l) (\<lambda>_. Inr True) ''id''
     [EComplete ''x'' [1], EComplete ''id'' [2]] (Buf [7]) (sb_example_client []) = (Inr [2], c', [m])"
proof
  fix open_link
  show "\<exists>c' m. sb_Call open_link (\<lambda>l. l) (\<lambda>_. Inr True) ''id''
     [EComplete ''x'' [1], EComplete ''id'' [2]] (Buf [7]) (sb_example_client []) = (Inr [2], c', [m])"
    using sb_call_outcome [where c = "sb_example_client []" and cid = "''id''" and d = "Buf [7]"
        and during = "[EComplete ''x'' [1], EComplete ''id'' [2]]" and open_link = open_link
        and later = "\<lambda>l. l" and send = "\<lambda>_. Inr True", OF sb_example_fields(1-3) _ sb_example_fields(4)]
    by (auto simp: sb_example_fields)
qed

end
