(* ===== verification/ReplySenderCache.thy ===== *)
theory ReplySenderCache
  imports ServiceBusClient
begin

text \<open>
  The cache of reply senders of the Service Bus server (\<^verbatim>\<open>ReplySenderCache\<close> in
  \<^verbatim>\<open>ServiceBusServer.cpp\<close>).  Service Bus detaches a link that was idle for ten minutes,
  and sending over a detached link crashes the library; the cache replaces a sender after five.
  Senders are numbers in the order of their creation; \<open>sn_log\<close> records what was done with
  them, newest first.
\<close>

section \<open>The cache\<close>

datatype sender_event =
    COpen nat string int
  | CAcquired nat int
  | CSend nat sb_message bool int
  | CClose nat

record sender_cache =
  sn_senders :: "(string \<times> nat) list"
  sn_lastUsed :: "string \<Rightarrow> int option"
  sn_next :: nat
  sn_log :: "sender_event list"

definition new_sender_cache :: sender_cache where
  "new_sender_cache =
    \<lparr>sn_senders = [], sn_lastUsed = (\<lambda>_. None), sn_next = 0, sn_log = []\<rparr>"

text \<open>Five minutes in nanoseconds.\<close>

definition kReplySenderMaxIdle :: int where "kReplySenderMaxIdle = 300000000000"

text \<open>
  One attempt to publish: the clock at the test for staleness, the result of creating and
  opening a sender (\<open>False\<close> when \<^verbatim>\<open>Open\<close> reports an error), the clock after that, the
  result of the send, and the clock after it.
\<close>

record send_attempt =
  at_now :: int
  at_open :: "bool result"
  at_opened :: int
  at_send :: "bool result"
  at_sent :: int

definition evict :: "string \<Rightarrow> sender_cache \<Rightarrow> sender_cache" where
  "evict replyEntity c =
     (case map_of (sn_senders c) replyEntity of
        Some s \<Rightarrow>
          c\<lparr>sn_senders := filter (\<lambda>(e, _). e \<noteq> replyEntity) (sn_senders c),
            sn_lastUsed := (sn_lastUsed c)(replyEntity := None),
            sn_log := CClose s # sn_log c\<rparr>
      | None \<Rightarrow> c\<lparr>sn_lastUsed := (sn_lastUsed c)(replyEntity := None)\<rparr>)"

definition open_sender ::
  "send_attempt \<Rightarrow> string \<Rightarrow> sender_cache \<Rightarrow> nat option result \<times> sender_cache" where
  "open_sender a replyEntity c =
     (case at_open a of
        Inl e \<Rightarrow> (Inl e, c)
      | Inr opened \<Rightarrow>
          if \<not> opened then (Inr None, c)
          else let s = sn_next c in
            (Inr (Some s),
             c\<lparr>sn_senders := (replyEntity, s) # sn_senders c,
               sn_lastUsed := (sn_lastUsed c)(replyEntity := Some (at_opened a)),
               sn_next := s + 1,
               sn_log := CAcquired s (at_opened a) # COpen s replyEntity (at_opened a) # sn_log c\<rparr>))"

definition acquire ::
  "send_attempt \<Rightarrow> string \<Rightarrow> sender_cache \<Rightarrow> nat option result \<times> sender_cache" where
  "acquire a replyEntity c =
     (case map_of (sn_senders c) replyEntity of
        Some s \<Rightarrow>
          (let stale = (case sn_lastUsed c replyEntity of
                 None \<Rightarrow> True | Some used \<Rightarrow> at_now a - used > kReplySenderMaxIdle)
           in if \<not> stale then (Inr (Some s), c\<lparr>sn_log := CAcquired s (at_now a) # sn_log c\<rparr>)
              else open_sender a replyEntity (evict replyEntity c))
      | None \<Rightarrow> open_sender a replyEntity c)"

text \<open>The body of the loop in \<^verbatim>\<open>publish\<close>; \<open>Inr None\<close> goes on to the next attempt.\<close>

definition publish_attempt ::
  "send_attempt \<Rightarrow> string \<Rightarrow> sb_message \<Rightarrow> sender_cache \<Rightarrow> bool option result \<times> sender_cache"
where
  "publish_attempt a replyEntity response c =
     (case acquire a replyEntity c of
        (Inl e, c) \<Rightarrow> (Inl e, c)
      | (Inr None, c) \<Rightarrow> (Inr (Some False), c)
      | (Inr (Some s), c) \<Rightarrow>
          (let ok = (case at_send a of Inr b \<Rightarrow> b | Inl _ \<Rightarrow> False);
               c = c\<lparr>sn_log := CSend s response ok (at_sent a) # sn_log c\<rparr>
           in if ok
              then (Inr (Some True), c\<lparr>sn_lastUsed := (sn_lastUsed c)(replyEntity := Some (at_sent a))\<rparr>)
              else (Inr None, evict replyEntity c)))"

fun publish_attempts ::
  "send_attempt list \<Rightarrow> string \<Rightarrow> sb_message \<Rightarrow> sender_cache \<Rightarrow> bool result \<times> sender_cache" where
  "publish_attempts [] replyEntity response c = (Inr False, c)"
| "publish_attempts (a # as) replyEntity response c =
     (case publish_attempt a replyEntity response c of
        (Inl e, c) \<Rightarrow> (Inl e, c)
      | (Inr (Some ok), c) \<Rightarrow> (Inr ok, c)
      | (Inr None, c) \<Rightarrow> publish_attempts as replyEntity response c)"

definition response_message :: "bytes \<Rightarrow> amqp_value \<Rightarrow> string option \<Rightarrow> sb_message" where
  "response_message responseBytes correlationId replySessionId =
     new_sb_message
      \<lparr>sm_body := DataSections [responseBytes], sm_correlationId := correlationId,
       sm_groupId := replySessionId, sm_contentType := Some ''application/octet-stream''\<rparr>"

text \<open>Two attempts.\<close>

definition sb_publish ::
  "send_attempt \<times> send_attempt \<Rightarrow> string \<Rightarrow> bytes \<Rightarrow> amqp_value \<Rightarrow> string option \<Rightarrow>
     sender_cache \<Rightarrow> bool result \<times> sender_cache" where
  "sb_publish as replyEntity responseBytes correlationId replySessionId c =
     publish_attempts [fst as, snd as] replyEntity
       (response_message responseBytes correlationId replySessionId) c"

definition closeAll :: "sender_cache \<Rightarrow> sender_cache" where
  "closeAll c =
     c\<lparr>sn_senders := [], sn_lastUsed := (\<lambda>_. None),
       sn_log := rev (map (\<lambda>(_, s). CClose s) (sn_senders c)) @ sn_log c\<rparr>"

section \<open>What the log must look like\<close>

text \<open>When a sender was last opened or used with success, if nothing ended it since.\<close>

fun touched :: "nat \<Rightarrow> sender_event list \<Rightarrow> int option" where
  "touched s [] = None"
| "touched s (COpen s' e t # es) = (if s' = s then Some t else touched s es)"
| "touched s (CAcquired s' t # es) = touched s es"
| "touched s (CSend s' m ok t # es) =
     (if s' = s then if ok then Some t else None else touched s es)"
| "touched s (CClose s' # es) = (if s' = s then None else touched s es)"

fun log_ok :: "sender_event list \<Rightarrow> bool" where
  "log_ok [] = True"
| "log_ok (CAcquired s t # es) =
     (log_ok es \<and> (case touched s es of Some t0 \<Rightarrow> t - t0 \<le> kReplySenderMaxIdle | None \<Rightarrow> False))"
| "log_ok (CSend s m ok t # es) =
     (log_ok es \<and> (case es of CAcquired s' t' # _ \<Rightarrow> s' = s | _ \<Rightarrow> False))"
| "log_ok (_ # es) = log_ok es"

fun live_senders :: "sender_event list \<Rightarrow> nat set" where
  "live_senders [] = {}"
| "live_senders (COpen s e t # es) = insert s (live_senders es)"
| "live_senders (CClose s # es) = live_senders es - {s}"
| "live_senders (_ # es) = live_senders es"

fun is_send :: "sender_event \<Rightarrow> bool" where
  "is_send (CSend s m ok t) = True"
| "is_send _ = False"

section \<open>The invariant\<close>

definition sn_inv :: "sender_cache \<Rightarrow> bool" where
  "sn_inv c \<longleftrightarrow>
     distinct (map fst (sn_senders c)) \<and> distinct (map snd (sn_senders c)) \<and>
     (\<forall>e. sn_lastUsed c e =
        (case map_of (sn_senders c) e of None \<Rightarrow> None | Some s \<Rightarrow> touched s (sn_log c))) \<and>
     (\<forall>(e, s) \<in> set (sn_senders c). s < sn_next c \<and> touched s (sn_log c) \<noteq> None) \<and>
     live_senders (sn_log c) = snd ` set (sn_senders c) \<and> log_ok (sn_log c)"

lemma sn_invD:
  assumes "sn_inv c"
  shows "distinct (map fst (sn_senders c))" "distinct (map snd (sn_senders c))"
    "sn_lastUsed c e = (case map_of (sn_senders c) e of None \<Rightarrow> None | Some s \<Rightarrow> touched s (sn_log c))"
    "(e, s) \<in> set (sn_senders c) \<Longrightarrow> s < sn_next c"
    "(e, s) \<in> set (sn_senders c) \<Longrightarrow> touched s (sn_log c) \<noteq> None"
    "live_senders (sn_log c) = snd ` set (sn_senders c)" "log_ok (sn_log c)"
  using assms unfolding sn_inv_def by blast+

lemma sn_inv_new: "sn_inv new_sender_cache"
  by (simp add: sn_inv_def new_sender_cache_def)

lemma log_ok_closes: "log_ok (map (\<lambda>(e, s). CClose s) xs @ es) = log_ok es"
  by (induction xs) auto

lemma live_closes: "live_senders (map (\<lambda>(e, s). CClose s) xs @ es) = live_senders es - snd ` set xs"
  by (induction xs) auto

lemma sn_inv_closeAll:
  assumes "sn_inv c"
  shows "sn_inv (closeAll c)"
  using sn_invD(6,7) [OF assms]
  by (simp add: sn_inv_def closeAll_def rev_map log_ok_closes live_closes)

lemma filter_entity:
  "map_of (filter (\<lambda>(e, _). e \<noteq> x) xs) y = (if y = x then None else map_of xs y)"
  by (induction xs) auto

lemma sn_inv_evict:
  assumes inv: "sn_inv c"
  shows "sn_inv (evict x c)"
proof (cases "map_of (sn_senders c) x")
  case None
  then have "sn_lastUsed c x = None" using sn_invD(3) [OF inv, of x] by simp
  then have "evict x c = c" using None by (simp add: evict_def fun_upd_idem)
  with inv show ?thesis by simp
next
  case (Some s)
  let ?xs = "filter (\<lambda>(e, _). e \<noteq> x) (sn_senders c)"
  have mem: "(x, s) \<in> set (sn_senders c)" using Some by (rule map_of_SomeD)
  have inj: "e' = x" if "(e', s) \<in> set (sn_senders c)" for e'
    using sn_invD(2) [OF inv] that mem by (metis (no_types) distinct_map inj_onD prod.inject snd_conv)
  have other: "s' \<noteq> s" if "(e', s') \<in> set ?xs" for e' s' using inj that by auto
  have "snd ` set ?xs = snd ` set (sn_senders c) - {s}"
  proof -
    have "s' \<in> snd ` set ?xs" if "(e', s') \<in> set (sn_senders c)" "s' \<noteq> s" for e' s'
      using that mem sn_invD(1) [OF inv] by (force dest: eq_key_imp_eq_value)
    then show ?thesis using other by force
  qed
  moreover have "s' \<noteq> s" if "map_of (sn_senders c) y = Some s'" "y \<noteq> x" for y s'
    using inj that by (metis map_of_SomeD)
  moreover have "distinct (map snd ?xs)" "distinct (map fst ?xs)"
    using sn_invD(1,2) [OF inv] by (simp_all add: distinct_map_filter)
  ultimately show ?thesis
    using Some sn_invD(3-7) [OF inv]
    by (auto simp: sn_inv_def evict_def filter_entity dest: inj map_of_SomeD split: option.split)
qed

lemma evict_gone: "map_of (sn_senders (evict x c)) x = None"
  by (simp add: evict_def filter_entity split: option.split)

lemma evict_keeps:
  "sn_next (evict x c) = sn_next c"
  "filter is_send (sn_log (evict x c)) = filter is_send (sn_log c)"
  by (simp_all add: evict_def split: option.split)

lemma open_sender_inv:
  assumes inv: "sn_inv c" and new: "map_of (sn_senders c) x = None"
  shows "sn_inv (snd (open_sender a x c))"
proof -
  have fresh: "s \<noteq> sn_next c" if "(e, s) \<in> set (sn_senders c)" for e s
    using sn_invD(4) [OF inv that] by simp
  have "x \<notin> fst ` set (sn_senders c)" using new by (simp add: map_of_eq_None_iff)
  moreover have "sn_next c \<notin> snd ` set (sn_senders c)" using fresh by force
  moreover have "s \<noteq> sn_next c" if "map_of (sn_senders c) y = Some s" for y s
    using fresh that by (metis map_of_SomeD)
  ultimately show ?thesis
    using inv new sn_invD(1-3,6,7) [OF inv] sn_invD(4,5) [OF inv] fresh
    by (auto simp: sn_inv_def open_sender_def Let_def kReplySenderMaxIdle_def less_SucI
        split: sum.split option.split)
qed

lemma open_sender_result:
  assumes "open_sender a x c = (r, c')" "map_of (sn_senders c) x = None"
  shows "case r of Inr (Some s) \<Rightarrow>
        map_of (sn_senders c') x = Some s \<and> (\<exists>t es. sn_log c' = CAcquired s t # es)
      | _ \<Rightarrow> map_of (sn_senders c') x = None"
    and "filter is_send (sn_log c') = filter is_send (sn_log c)"
  using assms by (auto simp: open_sender_def Let_def split: sum.splits if_splits)

lemma acquire_inv:
  assumes inv: "sn_inv c"
  shows "sn_inv (snd (acquire a x c))"
proof (cases "map_of (sn_senders c) x")
  case None
  then show ?thesis using open_sender_inv [OF inv None] by (simp add: acquire_def)
next
  case (Some s)
  then have "(x, s) \<in> set (sn_senders c)" by (rule map_of_SomeD)
  note t = sn_invD(5) [OF inv this] sn_invD(3) [OF inv, of x]
  have "sn_inv (c\<lparr>sn_log := CAcquired s (at_now a) # sn_log c\<rparr>)"
    if "sn_lastUsed c x = Some used" "at_now a - used \<le> kReplySenderMaxIdle" for used
    using that inv t Some by (simp add: sn_inv_def cong: option.case_cong)
  then show ?thesis
    using Some open_sender_inv [OF sn_inv_evict [OF inv] evict_gone]
    by (auto simp: acquire_def Let_def split: option.split)
qed

lemma acquire_result:
  assumes "acquire a x c = (r, c')"
  shows "case r of Inr (Some s) \<Rightarrow>
        map_of (sn_senders c') x = Some s \<and> (\<exists>t es. sn_log c' = CAcquired s t # es)
      | _ \<Rightarrow> map_of (sn_senders c') x = None"
    and "filter is_send (sn_log c') = filter is_send (sn_log c)"
  using assms open_sender_result [of a x c r c'] open_sender_result [of a x "evict x c" r c']
    evict_gone [of x c]
  by (auto simp: acquire_def Let_def evict_keeps split: option.split_asm if_split_asm)

lemma sn_inv_sent:
  assumes inv: "sn_inv c" and s: "map_of (sn_senders c) x = Some s"
    and acq: "sn_log c = CAcquired s t # es"
  shows "sn_inv (c\<lparr>sn_log := CSend s m True t' # CAcquired s t # es,
      sn_lastUsed := (sn_lastUsed c)(x := Some t')\<rparr>)"
proof -
  have "s' \<noteq> s" if "map_of (sn_senders c) y = Some s'" "y \<noteq> x" for y s'
  proof
    assume "s' = s"
    with that s have "(y, s) \<in> set (sn_senders c)" "(x, s) \<in> set (sn_senders c)"
      by (metis map_of_SomeD)+
    with sn_invD(2) [OF inv] that(2) show False
      by (metis (no_types) distinct_map inj_onD prod.inject snd_conv)
  qed
  then show ?thesis
    using sn_invD [OF inv] s by (auto simp: sn_inv_def acq split: option.split)
qed

lemma sn_inv_send_failed:
  assumes inv: "sn_inv c" and s: "map_of (sn_senders c) x = Some s"
    and acq: "sn_log c = CAcquired s t # es"
  shows "sn_inv (evict x (c\<lparr>sn_log := CSend s m False t' # CAcquired s t # es\<rparr>))"
proof -
  define d where "d = evict x c"
  have d: "sn_log d = CClose s # sn_log c" "sn_senders d = filter (\<lambda>(e, _). e \<noteq> x) (sn_senders c)"
    using s by (simp_all add: d_def evict_def)
  have inv_d: "sn_inv d" unfolding d_def by (rule sn_inv_evict [OF inv])
  have other: "s' \<noteq> s" "touched s' es \<noteq> None" if "(y, s') \<in> set (sn_senders d)" for y s'
    using sn_invD(5) [OF inv_d that] by (auto simp: d(1) acq split: if_splits)
  have "evict x (c\<lparr>sn_log := CSend s m False t' # CAcquired s t # es\<rparr>) =
      d\<lparr>sn_log := CClose s # CSend s m False t' # sn_log c\<rparr>"
    using s by (simp add: d_def evict_def acq)
  moreover have "sn_inv (d\<lparr>sn_log := CClose s # CSend s m False t' # sn_log c\<rparr>)"
    using sn_invD(1-4,6) [OF inv_d] sn_invD(7) [OF inv] other
    by (auto simp: sn_inv_def d(1) acq dest: map_of_SomeD other(1) split: option.split)
  ultimately show ?thesis by simp
qed

lemma publish_attempt_cases:
  assumes "sn_inv c" "publish_attempt a x m c = (r, c')"
  shows "sn_inv c'"
    and "r \<noteq> Inr (Some True) \<longrightarrow> map_of (sn_senders c') x = None"
    and "r = Inr (Some True) \<longrightarrow> map_of (sn_senders c') x \<noteq> None \<and>
      sn_lastUsed c' x = Some (at_sent a) \<and>
      (\<exists>s es. sn_log c' = CSend s m True (at_sent a) # es)"
    and "length (filter is_send (sn_log c')) \<le> length (filter is_send (sn_log c)) + 1"
proof -
  obtain q c1 where acq: "acquire a x c = (q, c1)" by (cases "acquire a x c")
  have inv1: "sn_inv c1" using acquire_inv [OF assms(1), of a x] acq by simp
  note res = acquire_result [OF acq]
  show "sn_inv c'"
    using assms(2) inv1 res(1)
    by (auto simp: publish_attempt_def acq Let_def intro: sn_inv_sent sn_inv_send_failed
        split: sum.splits option.splits if_splits)
  show "r \<noteq> Inr (Some True) \<longrightarrow> map_of (sn_senders c') x = None"
    using assms(2) res(1)
    by (auto simp: publish_attempt_def acq Let_def evict_gone split: sum.splits option.splits if_splits)
  show "r = Inr (Some True) \<longrightarrow> map_of (sn_senders c') x \<noteq> None \<and>
      sn_lastUsed c' x = Some (at_sent a) \<and>
      (\<exists>s es. sn_log c' = CSend s m True (at_sent a) # es)"
    using assms(2) res(1)
    by (auto simp: publish_attempt_def acq Let_def split: sum.splits option.splits if_splits)
  show "length (filter is_send (sn_log c')) \<le> length (filter is_send (sn_log c)) + 1"
    using assms(2) res(2)
    by (auto simp: publish_attempt_def acq Let_def evict_keeps split: sum.splits option.splits if_splits)
qed

lemma publish_attempts_cases:
  assumes "sn_inv c" "publish_attempts as x m c = (r, c')" "as \<noteq> []"
  shows "sn_inv c'"
    and "r \<noteq> Inr True \<longrightarrow> map_of (sn_senders c') x = None"
    and "r = Inr True \<longrightarrow> map_of (sn_senders c') x \<noteq> None \<and>
      (\<exists>s t es. sn_log c' = CSend s m True t # es)"
    and "length (filter is_send (sn_log c')) \<le> length (filter is_send (sn_log c)) + length as"
proof -
  have "sn_inv c' \<and> (r \<noteq> Inr True \<longrightarrow> map_of (sn_senders c') x = None) \<and>
      (r = Inr True \<longrightarrow> map_of (sn_senders c') x \<noteq> None \<and>
        (\<exists>s t es. sn_log c' = CSend s m True t # es)) \<and>
      length (filter is_send (sn_log c')) \<le> length (filter is_send (sn_log c)) + length as"
    using assms
  proof (induction as arbitrary: c)
    case (Cons a as)
    obtain q c1 where at: "publish_attempt a x m c = (q, c1)" by (cases "publish_attempt a x m c")
    note step = publish_attempt_cases [OF Cons.prems(1) at]
    show ?case
    proof (cases "q = Inr None")
      case True
      then show ?thesis
        using Cons.IH [of c1] Cons.prems(2) step by (cases "as = []") (auto simp: at)
    next
      case False
      then show ?thesis
        using Cons.prems(2) step by (auto simp: at split: sum.splits option.splits)
    qed
  qed simp
  then show "sn_inv c'" "r \<noteq> Inr True \<longrightarrow> map_of (sn_senders c') x = None"
    "r = Inr True \<longrightarrow> map_of (sn_senders c') x \<noteq> None \<and> (\<exists>s t es. sn_log c' = CSend s m True t # es)"
    "length (filter is_send (sn_log c')) \<le> length (filter is_send (sn_log c)) + length as"
    by blast+
qed

section \<open>Property\<close>

inductive cache_reachable :: "sender_cache \<Rightarrow> bool" where
  cache_new: "cache_reachable new_sender_cache"
| cache_publish: "cache_reachable c \<Longrightarrow> cache_reachable (snd (sb_publish as e d i g c))"
| cache_closeAll: "cache_reachable c \<Longrightarrow> cache_reachable (closeAll c)"

lemma cache_reachable_inv: "cache_reachable c \<Longrightarrow> sn_inv c"
proof (induction rule: cache_reachable.induct)
  case (cache_publish c as e d i g)
  then show ?case
    using publish_attempts_cases(1) [OF cache_publish.IH prod.collapse [symmetric]]
    by (simp add: sb_publish_def del: publish_attempts.simps)
qed (simp_all add: sn_inv_new sn_inv_closeAll)

text \<open>
  C19. The reply senders of the Service Bus server are used safely.  In every state the cache can
  reach, each send went over a sender that was acquired right before, was open, and was opened or
  used with success at most five minutes earlier; the open senders are exactly the cached ones,
  one per entity, so none leaks.  One publish sends at most twice, and unless it succeeds the
  entity is no longer cached.
\<close>
theorem sb_senders_used_safely:
  assumes "cache_reachable c"
  shows "log_ok (sn_log c) \<and> live_senders (sn_log c) = snd ` set (sn_senders c) \<and>
    distinct (map fst (sn_senders c)) \<and> distinct (map snd (sn_senders c)) \<and>
    live_senders (sn_log (closeAll c)) = {} \<and>
    length (filter is_send (sn_log (snd (sb_publish as e d i g c))))
      \<le> length (filter is_send (sn_log c)) + 2 \<and>
    (fst (sb_publish as e d i g c) = Inr True \<longleftrightarrow>
       e \<in> fst ` set (sn_senders (snd (sb_publish as e d i g c))))"
proof -
  note inv = cache_reachable_inv [OF assms]
  obtain r c' where p: "publish_attempts [fst as, snd as] e (response_message d i g) c = (r, c')"
    by (cases "publish_attempts [fst as, snd as] e (response_message d i g) c")
  note publish = publish_attempts_cases [OF inv p]
  have "r = Inr True \<longleftrightarrow> map_of (sn_senders c') e \<noteq> None" using publish(2,3) by auto
  then have "r = Inr True \<longleftrightarrow> e \<in> fst ` set (sn_senders c')" by (simp add: map_of_eq_None_iff)
  moreover have "live_senders (sn_log (closeAll c)) = {}"
    using sn_invD(6) [OF sn_inv_closeAll [OF inv]] by (simp add: closeAll_def)
  ultimately show ?thesis
    using sn_invD(1,2,6,7) [OF inv] publish(4) unfolding sb_publish_def p by simp
qed

definition example_attempt :: "int \<Rightarrow> bool \<Rightarrow> send_attempt" where
  "example_attempt t ok =
    \<lparr>at_now = t, at_open = Inr True, at_opened = t, at_send = Inr ok, at_sent = t\<rparr>"

lemma sb_senders_used_safely_witness:
  "\<exists>c. cache_reachable c \<and> sn_senders c = [(''r'', 1)] \<and> log_ok (sn_log c) \<and>
     live_senders (sn_log c) = {1}"
proof -
  define c where "c = snd (sb_publish (example_attempt 0 False, example_attempt 1 True) ''r'' [7]
    (AmqpString ''id'') None new_sender_cache)"
  have reach: "cache_reachable c" unfolding c_def by (intro cache_publish cache_new)
  moreover have "sn_senders c = [(''r'', 1)]"
    by (simp add: c_def sb_publish_def publish_attempt_def acquire_def open_sender_def evict_def
        example_attempt_def new_sender_cache_def Let_def)
  ultimately show ?thesis
    using sb_senders_used_safely [OF reach] by (intro exI [of _ c]) simp
qed

end
