(* ===== verification/ServiceBusServer.thy ===== *)
theory ServiceBusServer
  imports ReplySenderCache
begin

text \<open>
  The server of the Service Bus plugin (\<^verbatim>\<open>ServiceBusServer.cpp\<close>): what it reads from a
  request, the handler of one message, the receive loop of a connection, the reconnecting loop
  of \<^verbatim>\<open>start\<close>, and the global state \<^verbatim>\<open>configure\<close>, \<^verbatim>\<open>start\<close> and
  \<^verbatim>\<open>stop\<close> share.
\<close>

section \<open>Requests\<close>

type_synonym sb_process = "bytes \<Rightarrow> (buf list \<times> bool) result"

definition tryGetReplyTo :: "sb_message \<Rightarrow> string option" where
  "tryGetReplyTo m =
     (case as_string (sm_replyTo m) of
        None \<Rightarrow> None
      | Some s \<Rightarrow> if s = [] then None else Some s)"

definition tryGetReplySessionId :: "sb_message \<Rightarrow> string option" where
  "tryGetReplySessionId m =
     (if sm_replyToGroupId m \<noteq> None \<and> sm_replyToGroupId m \<noteq> Some [] then sm_replyToGroupId m
      else case map_of (sm_properties m) ''ReplyToSessionId'' of
        None \<Rightarrow> None
      | Some v \<Rightarrow>
          (case as_string v of
             None \<Rightarrow> None
           | Some s \<Rightarrow> if s \<noteq> [] then Some s else None))"

text \<open>The server's own copy of \<^verbatim>\<open>extractMessageBody\<close> is the client's.\<close>

definition extractMessageBody :: "sb_message \<Rightarrow> bytes" where
  "extractMessageBody m = ExtractMessageBody (sm_body m)"

definition sb_writeResponse :: "buf \<Rightarrow> bytes \<Rightarrow> bytes" where
  "sb_writeResponse d out = (if buf_is_null d \<or> buf_size d = 0 then [] else buf_bytes d)"

section \<open>One message\<close>

datatype sb_action =
    SProcess bytes
  | SPublish string bytes amqp_value "string option" bool
  | SWarn string
  | SLog string

text \<open>\<open>SPublish\<close> carries the arguments of \<^verbatim>\<open>publish\<close> and its result.\<close>

definition sb_reply ::
  "send_attempt \<times> send_attempt \<Rightarrow> sb_message \<Rightarrow> bytes \<Rightarrow> sender_cache \<Rightarrow>
     sb_action list \<times> unit result \<times> sender_cache" where
  "sb_reply as m response c =
     (case tryGetReplyTo m of
        None \<Rightarrow>
          ([SWarn ''Service Bus consumer: request has no reply_to, response was not published''], Inr (), c)
      | Some replyEntity \<Rightarrow>
          (let replySessionId = tryGetReplySessionId m;
               warn = (if replySessionId = None
                 then [SWarn (''Service Bus consumer: request has no reply session id; '' @
                   ''reply queue must be session-enabled for correlation'')] else [])
           in case sb_publish as replyEntity response (sm_messageId m) replySessionId c of
                (Inl e, c) \<Rightarrow> (warn, Inl e, c)
              | (Inr ok, c) \<Rightarrow>
                  (warn @ [SPublish replyEntity response (sm_messageId m) replySessionId ok,
                     if \<not> ok
                     then SWarn (''Service Bus consumer: failed to publish response to reply entity: '' @
                       replyEntity)
                     else SLog ''processed message''],
                   Inr (), c)))"

definition sb_handle ::
  "bool \<Rightarrow> sb_process option \<Rightarrow> send_attempt \<times> send_attempt \<Rightarrow> sb_message \<Rightarrow> sender_cache \<Rightarrow>
     sb_action list \<times> unit result \<times> sender_cache" where
  "sb_handle oneWay process as m c =
     (let request = extractMessageBody m in
      if request = [] then ([SWarn ''Service Bus consumer: received empty message body''], Inr (), c)
      else case process of
        None \<Rightarrow>
          ([], Inl (RuntimeError ''Service Bus consumer: processMessage callback is not configured''), c)
      | Some f \<Rightarrow>
          (case f request of
             Inl e \<Rightarrow> ([SProcess request], Inl e, c)
           | Inr (writes, ok) \<Rightarrow>
               let response = fold sb_writeResponse writes [] in
               if \<not> ok
               then ([SProcess request,
                  SWarn ''Service Bus consumer: processMessage callback returned failure''], Inr (), c)
               else if oneWay
               then ([SProcess request, SLog ''processed one-way message''], Inr (), c)
               else (case sb_reply as m response c of
                  (acts, r, c) \<Rightarrow> (SProcess request # acts, r, c))))"

section \<open>The receive loop of a connection\<close>

text \<open>
  One turn: the stop flag at the loop test and what \<^verbatim>\<open>WaitForIncomingMessage\<close> does.  Any
  exception it throws, also other than the elapsed deadline, goes on to the next turn.
\<close>

datatype sb_server_turn =
    SvThrows
  | SvError string
  | SvNothing
  | SvMessage sb_message "sb_process option" "send_attempt \<times> send_attempt"

fun sb_serve ::
  "bool \<Rightarrow> (bool \<times> sb_server_turn) list \<Rightarrow> sender_cache \<Rightarrow>
     sb_action list \<times> unit result \<times> sender_cache" where
  "sb_serve oneWay [] c = ([], Inr (), c)"
| "sb_serve oneWay ((stop, turn) # turns) c =
     (if stop then ([], Inr (), closeAll c)
      else case turn of
        SvThrows \<Rightarrow> sb_serve oneWay turns c
      | SvError description \<Rightarrow>
          ([SWarn (''Service Bus consumer receive error: '' @ description)], Inr (), closeAll c)
      | SvNothing \<Rightarrow> sb_serve oneWay turns c
      | SvMessage m process as \<Rightarrow>
          (case sb_handle oneWay process as m c of
             (acts, Inl e, c) \<Rightarrow> (acts, Inl e, c)
           | (acts, Inr _, c) \<Rightarrow>
               (case sb_serve oneWay turns c of (acts', r, c) \<Rightarrow> (acts @ acts', r, c))))"

section \<open>Connections in a row\<close>

text \<open>
  One round of the outer loop: the stop flag at its test, the result of connecting and opening
  the receiver, the turns served, and the stop flag in the handler and after it.  An exception
  that is not a \<^verbatim>\<open>std::exception\<close> leaves the loop.
\<close>

record sb_round =
  sr_stop :: bool
  sr_connect :: "unit result"
  sr_turns :: "(bool \<times> sb_server_turn) list"
  sr_stop_caught :: bool
  sr_stop_after :: bool

definition sb_serve_round :: "bool \<Rightarrow> sb_round \<Rightarrow> sb_action list \<times> unit result" where
  "sb_serve_round oneWay x =
     (case (case sr_connect x of
              Inl e \<Rightarrow> ([], Inl e)
            | Inr _ \<Rightarrow>
                (case sb_serve oneWay (sr_turns x) new_sender_cache of
                   (acts, r, c) \<Rightarrow> (SLog ''Service Bus consumer connection established'' # acts, r))) of
        (acts, r) \<Rightarrow>
          (let retry = (if \<not> sr_stop_after x
                 then [SWarn ''Service Bus consumer disconnected, retrying in 2 seconds''] else [])
           in case r of
                Inr _ \<Rightarrow> (acts @ retry, Inr ())
              | Inl e \<Rightarrow>
                  if is_std e
                  then (acts @
                    (if \<not> sr_stop_caught x
                     then [SWarn (''Service Bus consumer connection error: '' @ what e)] else []) @ retry,
                    Inr ())
                  else (acts, Inl e)))"

fun sb_start_loop :: "bool \<Rightarrow> sb_round list \<Rightarrow> sb_action list" where
  "sb_start_loop oneWay [] = []"
| "sb_start_loop oneWay (x # xs) =
     (if sr_stop x then [SLog ''Service Bus consumer stopped'']
      else case sb_serve_round oneWay x of
        (acts, Inr _) \<Rightarrow> acts @ sb_start_loop oneWay xs
      | (acts, Inl _) \<Rightarrow> acts @ [SWarn ''Service Bus consumer stopped with unknown error''])"

section \<open>The global state\<close>

record sb_server =
  sg_stopRequested :: bool
  sg_config :: sb_server_config
  sg_processMessage :: "sb_process option"

definition new_sb_server :: sb_server where
  "new_sb_server =
    \<lparr>sg_stopRequested = False, sg_config = default_sb_server, sg_processMessage = None\<rparr>"

definition sb_configure ::
  "cpp_env \<Rightarrow> string option \<Rightarrow> sb_process option \<Rightarrow> sb_server \<Rightarrow> unit result \<times> sb_server" where
  "sb_configure env jsonConfig processMessage g =
     (case processMessage of
        None \<Rightarrow> (Inl (RuntimeError ''Service Bus consumer: processMessage callback is required''), g)
      | Some f \<Rightarrow>
          (case sb_applyConfigFromJson env (case jsonConfig of Some s \<Rightarrow> s | None \<Rightarrow> []) of
             Inl e \<Rightarrow> (Inl e, g)
           | Inr config \<Rightarrow> (Inr (), g\<lparr>sg_config := config, sg_processMessage := Some f\<rparr>)))"

definition sb_source :: "sb_server_config \<Rightarrow> bool \<times> string" where
  "sb_source config =
     (let oneWay = ss_subscription config \<noteq> []
      in (oneWay,
          if oneWay then ss_topic config @ ''/Subscriptions/'' @ ss_subscription config
          else ss_queue config))"

text \<open>The log of a run, and the state in which its loop begins: an earlier stop is forgotten.\<close>

definition sb_start :: "sb_round list \<Rightarrow> sb_server \<Rightarrow> sb_action list \<times> sb_server" where
  "sb_start rounds g =
     (case sb_source (sg_config g) of
        (oneWay, sourceAddress) \<Rightarrow>
          (SLog (''Service Bus consumer '' @ quoted (ss_name (sg_config g)) @ '' is enabled. '' @
             (if oneWay then ''Subscription: '' @ sourceAddress @ '' (one-way)''
              else ''Queue: '' @ ss_queue (sg_config g))) #
           sb_start_loop oneWay rounds,
           g\<lparr>sg_stopRequested := False\<rparr>))"

definition sb_stop :: "sb_server \<Rightarrow> sb_action list \<times> sb_server" where
  "sb_stop g = ([SLog ''Shutting down Service Bus consumer... ''], g\<lparr>sg_stopRequested := True\<rparr>)"

section \<open>Facts about the handler\<close>

fun is_publish :: "sb_action \<Rightarrow> bool" where
  "is_publish (SPublish e d i g ok) = True"
| "is_publish _ = False"

fun is_process :: "sb_action \<Rightarrow> bool" where
  "is_process (SProcess d) = True"
| "is_process _ = False"

text \<open>The bytes with which the callback accepts a message.\<close>

definition accepted :: "sb_process option \<Rightarrow> sb_message \<Rightarrow> bytes option" where
  "accepted process m =
     (case process of
        None \<Rightarrow> None
      | Some f \<Rightarrow>
          if extractMessageBody m = [] then None
          else case f (extractMessageBody m) of
            Inr (writes, True) \<Rightarrow> Some (fold sb_writeResponse writes [])
          | _ \<Rightarrow> None)"

lemma sb_reply_publishes:
  "filter is_publish (fst (sb_reply as m response c)) =
     (case tryGetReplyTo m of
        None \<Rightarrow> []
      | Some entity \<Rightarrow>
          (case fst (sb_publish as entity response (sm_messageId m) (tryGetReplySessionId m) c) of
             Inl e \<Rightarrow> []
           | Inr ok \<Rightarrow> [SPublish entity response (sm_messageId m) (tryGetReplySessionId m) ok]))"
  "filter is_process (fst (sb_reply as m response c)) = []"
  "fst (snd (sb_reply as m response c)) =
     (case tryGetReplyTo m of
        None \<Rightarrow> Inr ()
      | Some entity \<Rightarrow>
          rbind (fst (sb_publish as entity response (sm_messageId m) (tryGetReplySessionId m) c))
            (\<lambda>_. Inr ()))"
  by (simp_all add: sb_reply_def Let_def split: option.split sum.split prod.split)

lemma sb_handle_accepted:
  assumes "accepted process m = Some response"
  shows "sb_handle oneWay process as m c =
     (if oneWay
      then ([SProcess (extractMessageBody m), SLog ''processed one-way message''], Inr (), c)
      else case sb_reply as m response c of
        (acts, r, c) \<Rightarrow> (SProcess (extractMessageBody m) # acts, r, c))"
  using assms
  by (auto simp: accepted_def sb_handle_def Let_def split: option.splits if_splits sum.splits bool.splits)

lemma sb_handle_not_accepted:
  assumes "accepted process m = None"
  shows "filter is_publish (fst (sb_handle oneWay process as m c)) = []"
    and "snd (snd (sb_handle oneWay process as m c)) = c"
    and "fst (snd (sb_handle oneWay process as m c)) =
      (if extractMessageBody m = [] then Inr ()
       else case process of
         None \<Rightarrow> Inl (RuntimeError ''Service Bus consumer: processMessage callback is not configured'')
       | Some f \<Rightarrow> rbind (f (extractMessageBody m)) (\<lambda>_. Inr ()))"
  using assms
  by (auto simp: accepted_def sb_handle_def Let_def split: option.splits if_splits sum.splits bool.splits)

lemma sb_handle_process:
  "filter is_process (fst (sb_handle oneWay process as m c)) =
     (if process = None \<or> extractMessageBody m = [] then [] else [SProcess (extractMessageBody m)])"
  by (auto simp: sb_handle_def Let_def sb_reply_publishes(2) case_prod_unfold
      split: option.splits sum.splits)

text \<open>Over a run: a reply belongs to a received message that asked for it.\<close>

definition reply_of :: "bool \<Rightarrow> sb_message \<Rightarrow> sb_process option \<Rightarrow> sb_action \<Rightarrow> bool" where
  "reply_of oneWay m process a \<longleftrightarrow>
     \<not> oneWay \<and> (\<exists>response entity ok. accepted process m = Some response \<and>
       tryGetReplyTo m = Some entity \<and>
       a = SPublish entity response (sm_messageId m) (tryGetReplySessionId m) ok)"

lemma sb_handle_publishes:
  assumes "a \<in> set (fst (sb_handle oneWay process as m c))" "is_publish a"
  shows "reply_of oneWay m process a"
proof (cases "accepted process m")
  case None
  have "a \<in> set (filter is_publish (fst (sb_handle oneWay process as m c)))" using assms by simp
  then show ?thesis by (simp add: sb_handle_not_accepted(1) [OF None])
next
  case (Some response)
  have "a \<in> set (filter is_publish (fst (sb_reply as m response c)))" and "\<not> oneWay"
    using assms by (auto simp: sb_handle_accepted [OF Some] split: if_splits prod.splits)
  then show ?thesis
    using Some by (auto simp: sb_reply_publishes(1) reply_of_def split: option.splits sum.splits)
qed

lemma sb_serve_publishes:
  assumes "a \<in> set (fst (sb_serve oneWay turns c))" "is_publish a"
  shows "\<exists>m process as. (False, SvMessage m process as) \<in> set turns \<and> reply_of oneWay m process a"
  using assms
proof (induction turns arbitrary: c)
  case (Cons x turns)
  obtain stop turn where x: "x = (stop, turn)" by (cases x)
  have tail: "\<exists>m process as. (False, SvMessage m process as) \<in> set (x # turns) \<and> reply_of oneWay m process a"
    if "a \<in> set (fst (sb_serve oneWay turns c'))" for c'
    using Cons.IH [OF that Cons.prems(2)] by auto
  show ?case
  proof (cases "\<exists>m process as. \<not> stop \<and> turn = SvMessage m process as")
    case True
    then obtain m process as where t: "stop = False" "turn = SvMessage m process as" by auto
    obtain acts r c1 where h: "sb_handle oneWay process as m c = (acts, r, c1)"
      by (cases "sb_handle oneWay process as m c")
    have "a \<in> set acts \<or> a \<in> set (fst (sb_serve oneWay turns c1))"
      using Cons.prems(1) by (auto simp: x t h split: sum.splits prod.splits)
    then show ?thesis
    proof
      assume "a \<in> set acts"
      then have "reply_of oneWay m process a"
        using sb_handle_publishes [of a oneWay process as m c] Cons.prems(2) h by simp
      moreover have "(False, SvMessage m process as) \<in> set (x # turns)" by (simp add: x t)
      ultimately show ?thesis by blast
    qed (rule tail)
  next
    case False
    then have "a \<in> set (fst (sb_serve oneWay turns c))"
      using Cons.prems by (cases turn) (auto simp: x split: if_splits)
    then show ?thesis by (rule tail)
  qed
qed simp

lemma sb_loop_publishes:
  assumes "a \<in> set (sb_start_loop oneWay xs)" "is_publish a"
  shows "\<exists>x \<in> set xs. \<exists>m process as. (False, SvMessage m process as) \<in> set (sr_turns x) \<and>
    reply_of oneWay m process a"
  using assms
proof (induction xs)
  case (Cons x xs)
  obtain acts r where round: "sb_serve_round oneWay x = (acts, r)" by (cases "sb_serve_round oneWay x")
  have "a \<in> set (fst (sb_serve_round oneWay x)) \<or> a \<in> set (sb_start_loop oneWay xs)"
    using Cons.prems by (cases r) (auto simp: round split: if_splits)
  moreover have "a \<in> set (fst (sb_serve oneWay (sr_turns x) new_sender_cache))"
    if "a \<in> set (fst (sb_serve_round oneWay x))"
    using that Cons.prems(2)
    by (auto simp: sb_serve_round_def Let_def split: sum.splits prod.splits if_splits)
  ultimately show ?case using Cons.IH Cons.prems(2) sb_serve_publishes by force
qed simp

section \<open>Properties\<close>

text \<open>
  C18. What the Service Bus server does with a message.  The callback runs once, on exactly the
  bytes of a non-empty message.  A reply goes out only in request mode, only when the callback
  accepted the message and it names a reply entity, with the message's id as correlation id and
  the session it asked for.  A failing send is only logged; the connection ends exactly when the
  callback is missing or throws, or the library throws while a sender is opened.  Over a whole
  run, with any reconnects, every reply belongs to a received message in this way.
\<close>
theorem sb_server_rule:
  "filter is_process (fst (sb_handle oneWay process as m c)) =
      (if process = None \<or> extractMessageBody m = [] then [] else [SProcess (extractMessageBody m)]) \<and>
   filter is_publish (fst (sb_handle oneWay process as m c)) =
      (case (accepted process m, tryGetReplyTo m) of
         (Some response, Some entity) \<Rightarrow>
           (if oneWay then []
            else case fst (sb_publish as entity response (sm_messageId m) (tryGetReplySessionId m) c) of
              Inl e \<Rightarrow> []
            | Inr ok \<Rightarrow> [SPublish entity response (sm_messageId m) (tryGetReplySessionId m) ok])
       | _ \<Rightarrow> []) \<and>
   fst (snd (sb_handle oneWay process as m c)) =
      (case accepted process m of
         Some response \<Rightarrow>
           (if oneWay then Inr ()
            else case tryGetReplyTo m of
              None \<Rightarrow> Inr ()
            | Some entity \<Rightarrow>
                rbind (fst (sb_publish as entity response (sm_messageId m) (tryGetReplySessionId m) c))
                  (\<lambda>_. Inr ()))
       | None \<Rightarrow>
           (if extractMessageBody m = [] then Inr ()
            else case process of
              None \<Rightarrow> Inl (RuntimeError ''Service Bus consumer: processMessage callback is not configured'')
            | Some f \<Rightarrow> rbind (f (extractMessageBody m)) (\<lambda>_. Inr ()))) \<and>
   (SPublish e d i g ok \<in> set (sb_start_loop oneWay xs) \<longrightarrow>
      \<not> oneWay \<and> (\<exists>x \<in> set xs. \<exists>m process as. (False, SvMessage m process as) \<in> set (sr_turns x) \<and>
        accepted process m = Some d \<and> tryGetReplyTo m = Some e \<and> i = sm_messageId m \<and>
        g = tryGetReplySessionId m))"
  (is "?handler \<and> ?publish \<and> ?result \<and> ?run")
proof (intro conjI)
  show ?run
    using sb_loop_publishes [of "SPublish e d i g ok" oneWay xs] by (fastforce simp: reply_of_def)
next
  show ?handler by (rule sb_handle_process)
next
  show ?publish
  proof (cases "accepted process m")
    case None
    then show ?thesis using sb_handle_not_accepted [OF None, of oneWay as c] by simp
  next
    case (Some response)
    then show ?thesis
      using sb_reply_publishes [of as m response c]
      by (simp add: sb_handle_accepted [OF Some] case_prod_unfold split: option.split)
  qed
next
  show ?result
  proof (cases "accepted process m")
    case None
    then show ?thesis using sb_handle_not_accepted [OF None, of oneWay as c] by simp
  next
    case (Some response)
    then show ?thesis
      using sb_reply_publishes [of as m response c]
      by (simp add: sb_handle_accepted [OF Some] case_prod_unfold split: option.split)
  qed
qed

lemma sb_server_rule_witness:
  "\<exists>x. SPublish ''r'' [2] (AmqpString ''id'') (Some ''s'') True \<in> set (sb_start_loop False [x]) \<and>
     (\<exists>m process as. (False, SvMessage m process as) \<in> set (sr_turns x) \<and>
        accepted process m = Some [2] \<and> tryGetReplyTo m = Some ''r'')"
proof -
  define f :: sb_process where "f = (\<lambda>_. Inr ([Buf [2]], True))"
  define m where "m = request_message (sb_example_client []) ''id'' (Buf [1])"
  define x where "x = \<lparr>sr_stop = False, sr_connect = Inr (),
    sr_turns = [(False, SvMessage m (Some f) (example_attempt 0 True, example_attempt 1 True))],
    sr_stop_caught = False, sr_stop_after = True\<rparr>"
  have fields: "extractMessageBody m = [1]" "tryGetReplyTo m = Some ''r''" "sm_messageId m = AmqpString ''id''"
    "tryGetReplySessionId m = Some ''s''"
    by (simp_all add: m_def extractMessageBody_def tryGetReplyTo_def tryGetReplySessionId_def
        message_fields sb_example_fields)
  have acc: "accepted (Some f) m = Some [2]"
    by (simp add: accepted_def fields f_def sb_writeResponse_def)
  obtain cache where pub: "sb_publish (example_attempt 0 True, example_attempt 1 True) ''r'' [2]
      (AmqpString ''id'') (Some ''s'') new_sender_cache = (Inr True, cache)"
    by (simp add: sb_publish_def publish_attempt_def acquire_def open_sender_def new_sender_cache_def
        example_attempt_def Let_def)
  have sent: "SPublish ''r'' [2] (AmqpString ''id'') (Some ''s'') True \<in> set (sb_start_loop False [x])"
    by (simp add: x_def sb_serve_round_def sb_handle_accepted [OF acc] sb_reply_def fields pub Let_def)
  then have "\<exists>y \<in> set [x]. \<exists>m process as. (False, SvMessage m process as) \<in> set (sr_turns y) \<and>
      accepted process m = Some [2] \<and> tryGetReplyTo m = Some ''r''"
    using sb_server_rule [of False "Some f" "(example_attempt 0 True, example_attempt 1 True)" m
        new_sender_cache "''r''" "[2]" "AmqpString ''id''" "Some ''s''" True "[x]"] by blast
  then have "\<exists>m process as. (False, SvMessage m process as) \<in> set (sr_turns x) \<and>
      accepted process m = Some [2] \<and> tryGetReplyTo m = Some ''r''" by simp
  with sent show ?thesis by blast
qed

text \<open>
  A Service Bus request makes the round trip.  The server's callback gets exactly the caller's
  bytes.  When it accepts them and the send succeeds, the message sent last goes to the reply
  queue with the id of the call and the client's reply session; and when the client's dispatcher
  receives that message, after any replies that concern other calls, the call returns exactly the
  bytes the callback wrote.
\<close>
lemma sb_round_trip:
  assumes client: "pending_wf (sk_pending c)" "\<not> closed (sk_pending c)"
      "map_of (slots (sk_pending c)) cid = None" "sk_link c = Some l" "\<not> sl_broken l"
      "sb_topic (sk_config c) = []" "sb_replyQueue (sk_config c) \<noteq> []"
      "sk_replySessionId c \<noteq> []"
    and payload: "d \<noteq> []"
    and sends: "\<And>m. send m = Inr True" "at_open (fst as) = Inr True" "at_send (fst as) = Inr True"
    and callback: "process d = Inr (writes, True)"
    and before: "\<forall>(stop, turn) \<in> set before. \<not> stop \<and>
        (turn = SbCancelled \<or> (\<exists>m. turn = SbIncoming None (Some m) \<and> (\<forall>x. EComplete cid x \<notin> set (reply_events m))))"
  shows "\<exists>request reply acts cache s log c'.
    extractMessageBody request = d \<and> sm_messageId request = AmqpString cid \<and>
    tryGetReplyTo request = Some (sb_replyQueue (sk_config c)) \<and>
    tryGetReplySessionId request = Some (sk_replySessionId c) \<and>
    sb_handle False (Some process) as request new_sender_cache = (acts, Inr (), cache) \<and>
    SProcess d \<in> set acts \<and>
    SPublish (sb_replyQueue (sk_config c)) (fold sb_writeResponse writes []) (AmqpString cid)
      (Some (sk_replySessionId c)) True \<in> set acts \<and>
    sn_log cache = CSend s reply True (at_sent (fst as)) # log \<and>
    sm_groupId reply = Some (sk_replySessionId c) \<and>
    sb_Call open_link later send cid
      (snd (sb_DispatchReplies (before @ (False, SbIncoming None (Some reply)) # after) l')) (Buf d) c =
      (Inr (fold sb_writeResponse writes []), c', [request])"
proof -
  define request where "request = request_message c cid (Buf d)"
  define response where "response = fold sb_writeResponse writes []"
  define reply where "reply = response_message response (AmqpString cid) (Some (sk_replySessionId c))"
  let ?during = "snd (sb_DispatchReplies (before @ (False, SbIncoming None (Some reply)) # after) l')"
  have fields: "extractMessageBody request = d" "tryGetReplyTo request = Some (sb_replyQueue (sk_config c))"
    "tryGetReplySessionId request = Some (sk_replySessionId c)" "sm_messageId request = AmqpString cid"
    using client(7,8)
    by (simp_all add: request_def extractMessageBody_def tryGetReplyTo_def tryGetReplySessionId_def
        message_fields)
  have reply: "reply_events reply = [EComplete cid response]"
    by (simp add: reply_def response_message_def new_sb_message_def reply_events_def Let_def)
  have one: "reply_events m = [] \<or> (\<exists>i x. reply_events m = [EComplete i x])" for m
    by (auto simp: reply_events_def Let_def split: option.split)
  have settle: "first_settle cid ?during = Done response"
    using before
  proof (induction before)
    case Nil
    then show ?case by (simp add: reply case_prod_unfold)
  next
    case (Cons x xs)
    obtain stop turn where x: "x = (stop, turn)" by (cases x)
    from Cons.prems x consider "stop = False" "turn = SbCancelled"
      | m where "stop = False" "turn = SbIncoming None (Some m)" "\<forall>x. EComplete cid x \<notin> set (reply_events m)"
      by auto
    then show ?case
    proof cases
      case 1
      then show ?thesis using Cons by (simp add: x)
    next
      case 2
      then have "first_settle cid (reply_events m) = Waiting" using one [of m] by auto
      then show ?thesis
        using Cons 2 by (simp add: x case_prod_unfold first_settle_append)
    qed
  qed
  have leaves_reply: "leaves cid (reply_events m)" for m using one [of m] by auto
  have "leaves cid (snd (sb_DispatchReplies turns l''))" for turns l''
    by (induction turns l'' rule: sb_DispatchReplies.induct)
      (auto simp: sb_Disconnect_def leaves_reply case_prod_unfold split: sb_turn.split option.split)
  then have "\<exists>p. sb_Call open_link later send cid ?during (Buf d) c =
      (Inr response, c\<lparr>sk_pending := p, sk_link := Some (later l)\<rparr>, [request])"
    using sb_call_general [OF client(1-3) _ client(4-6), where during = ?during and d = "Buf d"
        and open_link = open_link and later = later and send = send]
    by (auto simp: settle sb_Send_def sends(1) request_def)
  then obtain c' where call: "sb_Call open_link later send cid ?during (Buf d) c =
      (Inr response, c', [request])" by blast
  obtain cache log where pub: "sb_publish as (sb_replyQueue (sk_config c)) response (AmqpString cid)
      (Some (sk_replySessionId c)) new_sender_cache = (Inr True, cache)"
    "sn_log cache = CSend 0 reply True (at_sent (fst as)) # log"
    by (simp add: sb_publish_def publish_attempt_def acquire_def open_sender_def new_sender_cache_def
        sends Let_def reply_def)
  have "accepted (Some process) request = Some response"
    using callback payload by (simp add: accepted_def fields response_def)
  then have "sb_handle False (Some process) as request new_sender_cache =
      ([SProcess d, SPublish (sb_replyQueue (sk_config c)) response (AmqpString cid)
          (Some (sk_replySessionId c)) True, SLog ''processed message''], Inr (), cache)"
    by (simp add: sb_handle_accepted sb_reply_def Let_def fields pub(1))
  moreover have "sm_groupId reply = Some (sk_replySessionId c)"
    by (simp add: reply_def response_message_def)
  ultimately show ?thesis
    using call pub(2) fields unfolding response_def [symmetric]
    by (intro exI [of _ request] exI [of _ reply]) auto
qed

end
