(* ===== verification/SqsConfig.thy ===== *)
theory SqsConfig
  imports Json
begin

text \<open>
  Configuration of the SQS plugin (\<^verbatim>\<open>SqsConfig.h\<close>, \<^verbatim>\<open>SqsConfig.cpp\<close>): the search
  for the plugin's node, the fields and their limits, the endpoint override and the
  recognition of FIFO queues.
\<close>

section \<open>The configuration\<close>

record sqs_config =
  sqs_name :: string
  sqs_region :: string
  sqs_endpointOverride :: string
  sqs_accessKeyId :: string
  sqs_secretAccessKey :: string
  sqs_sessionToken :: string
  sqs_requestQueueUrl :: string
  sqs_replyQueueUrl :: string
  sqs_messageGroupId :: string
  sqs_rpcTimeoutMs :: u32
  sqs_waitTimeSeconds :: u32
  sqs_visibilityTimeoutSeconds :: u32
  sqs_oneWay :: bool
  sqs_verifySsl :: bool

definition default_sqs_config :: sqs_config where
  "default_sqs_config =
    \<lparr>sqs_name = [], sqs_region = ''us-east-1'', sqs_endpointOverride = [],
     sqs_accessKeyId = [], sqs_secretAccessKey = [], sqs_sessionToken = [],
     sqs_requestQueueUrl = [], sqs_replyQueueUrl = [], sqs_messageGroupId = ''graftcode'',
     sqs_rpcTimeoutMs = 30000, sqs_waitTimeSeconds = 1, sqs_visibilityTimeoutSeconds = 30,
     sqs_oneWay = False, sqs_verifySsl = True\<rparr>"

section \<open>The search for the plugin's node\<close>

definition HasSpecificSqsKeys :: "json \<Rightarrow> bool" where
  "HasSpecificSqsKeys node \<longleftrightarrow>
     jcontains node ''requestQueueUrl'' \<or>
     jcontains node ''replyQueueUrl'' \<or>
     jcontains node ''queueUrl'' \<or>
     jcontains node ''endpointOverride'' \<or>
     jcontains node ''accessKeyId'' \<or>
     jcontains node ''secretAccessKey'' \<or>
     jcontains node ''visibilityTimeoutSeconds'' \<or>
     jcontains node ''waitTimeSeconds'' \<or>
     jcontains node ''messageGroupId''"

definition IsFlatSqsAlias :: "json \<Rightarrow> bool" where
  "IsFlatSqsAlias node \<longleftrightarrow>
     (if \<not> (jcontains node ''queue'' \<or> jcontains node ''replyQueue'') then False
      else if jcontains node ''region'' \<or> jcontains node ''endpointOverride'' \<or>
        jcontains node ''accessKeyId'' \<or> jcontains node ''messageGroupId'' then True
      else case jstring_at node ''name'' of
        Some pluginName \<Rightarrow> contains_sub ''Sqs'' pluginName \<or> contains_sub ''sqs'' pluginName
      | None \<Rightarrow> False)"

definition sqs_select :: "json \<Rightarrow> json option" where
  "sqs_select node =
     (case jfind node ''sqs'' of
        Some (JObject kvs) \<Rightarrow> Some (JObject kvs)
      | _ \<Rightarrow> if HasSpecificSqsKeys node \<or> IsFlatSqsAlias node then Some node else None)"

fun FindSqsNode :: "json \<Rightarrow> json option" where
  "FindSqsNode (JObject kvs) =
     (case sqs_select (JObject kvs) of
        Some n \<Rightarrow> Some n
      | None \<Rightarrow> first_some (\<lambda>x. FindSqsNode (snd x)) kvs)"
| "FindSqsNode (JArray js) = first_some FindSqsNode js"
| "FindSqsNode _ = None"

interpretation sqs_search: node_search FindSqsNode sqs_select
proof unfold_locales
  fix j :: json
  assume "\<not> is_object j" "\<nexists>js. j = JArray js"
  then show "FindSqsNode j = None" by (cases j) auto
qed simp_all

lemma sqs_select_is_object: "sqs_select n = Some m \<Longrightarrow> is_object n \<Longrightarrow> is_object m"
  by (auto simp: sqs_select_def split: option.splits json.splits if_splits)

section \<open>Reading and checking\<close>

text \<open>The strings first, with the flat aliases of the queue URLs, then the numbers and flags.\<close>

definition read_sqs_strings :: "json \<Rightarrow> sqs_config" where
  "read_sqs_strings node =
    (let c = default_sqs_config;
         c = c\<lparr>sqs_name := ReadString node ''name'' (sqs_name c),
               sqs_region := ReadString node ''region'' (sqs_region c),
               sqs_endpointOverride := ReadString node ''endpointOverride'' (sqs_endpointOverride c),
               sqs_accessKeyId := ReadString node ''accessKeyId'' (sqs_accessKeyId c),
               sqs_secretAccessKey := ReadString node ''secretAccessKey'' (sqs_secretAccessKey c),
               sqs_sessionToken := ReadString node ''sessionToken'' (sqs_sessionToken c),
               sqs_requestQueueUrl := ReadString node ''requestQueueUrl'' (sqs_requestQueueUrl c),
               sqs_replyQueueUrl := ReadString node ''replyQueueUrl'' (sqs_replyQueueUrl c),
               sqs_messageGroupId := ReadString node ''messageGroupId'' (sqs_messageGroupId c)\<rparr>;
         c = (if sqs_requestQueueUrl c = []
              then c\<lparr>sqs_requestQueueUrl := ReadString node ''queueUrl'' (sqs_requestQueueUrl c)\<rparr> else c);
         c = (if sqs_requestQueueUrl c = []
              then c\<lparr>sqs_requestQueueUrl := ReadString node ''queue'' (sqs_requestQueueUrl c)\<rparr> else c);
         c = (if sqs_replyQueueUrl c = []
              then c\<lparr>sqs_replyQueueUrl := ReadString node ''replyQueue'' (sqs_replyQueueUrl c)\<rparr> else c)
     in c)"

definition read_sqs_config :: "json \<Rightarrow> sqs_config result" where
  "read_sqs_config node =
    (let c = read_sqs_strings node
     in rbind (ReadPositiveUint ''SQS plugin'' node ''rpcTimeoutMs'' (sqs_rpcTimeoutMs c)) (\<lambda>rpc.
        rbind (ReadPositiveUint ''SQS plugin'' node ''waitTimeSeconds'' (sqs_waitTimeSeconds c)) (\<lambda>wait.
        rbind (ReadPositiveUint ''SQS plugin'' node ''visibilityTimeoutSeconds''
          (sqs_visibilityTimeoutSeconds c)) (\<lambda>vis.
        rbind (ReadBool ''SQS plugin'' node ''oneWay'' (sqs_oneWay c)) (\<lambda>one.
        rbind (ReadBool ''SQS plugin'' node ''verifySsl'' (sqs_verifySsl c)) (\<lambda>ssl.
        Inr (c\<lparr>sqs_rpcTimeoutMs := rpc, sqs_waitTimeSeconds := wait,
               sqs_visibilityTimeoutSeconds := vis, sqs_oneWay := one, sqs_verifySsl := ssl\<rparr>)))))))"

definition check_sqs_config :: "sqs_config \<Rightarrow> sqs_config result" where
  "check_sqs_config c =
     (if sqs_waitTimeSeconds c > 20
      then Inl (RuntimeError (''SQS plugin: '' @ quoted ''waitTimeSeconds'' @ '' cannot exceed 20''))
      else if sqs_visibilityTimeoutSeconds c > 43200
      then Inl (RuntimeError
        (''SQS plugin: '' @ quoted ''visibilityTimeoutSeconds'' @ '' cannot exceed 43200''))
      else if sqs_region c = []
      then Inl (RuntimeError (''SQS plugin: '' @ quoted ''region'' @ '' cannot be empty''))
      else if length (sqs_messageGroupId c) > 128
      then Inl (RuntimeError
        (''SQS plugin: '' @ quoted ''messageGroupId'' @ '' cannot exceed 128 characters''))
      else if (sqs_accessKeyId c \<noteq> []) \<noteq> (sqs_secretAccessKey c \<noteq> [])
      then Inl (RuntimeError (''SQS plugin: '' @ quoted ''accessKeyId'' @ '' and '' @
        quoted ''secretAccessKey'' @ '' must be provided together''))
      else Inr c)"

definition ParseSqsConfigSource :: "cpp_env \<Rightarrow> string \<Rightarrow> sqs_config result" where
  "ParseSqsConfigSource env configSource =
     rbind (ParseJsonSource ''SQS plugin'' env configSource) (\<lambda>root.
       case FindSqsNode root of
         None \<Rightarrow> Inl (RuntimeError ''SQS plugin: configuration does not contain SQS settings'')
       | Some node \<Rightarrow>
           if \<not> is_object node
           then Inl (RuntimeError ''SQS plugin: configuration does not contain SQS settings'')
           else rbind (read_sqs_config node) check_sqs_config)"

definition sqs_ValidateClientConfig :: "sqs_config \<Rightarrow> unit result" where
  "sqs_ValidateClientConfig c =
     (if sqs_requestQueueUrl c = []
      then Inl (RuntimeError (''SQS client: missing required field '' @ quoted ''requestQueueUrl''))
      else if \<not> sqs_oneWay c \<and> sqs_replyQueueUrl c = []
      then Inl (RuntimeError (''SQS client: missing required field '' @ quoted ''replyQueueUrl''))
      else Inr ())"

definition sqs_ValidateServerConfig :: "sqs_config \<Rightarrow> unit result" where
  "sqs_ValidateServerConfig c =
     (if sqs_requestQueueUrl c = []
      then Inl (RuntimeError (''SQS server: missing required field '' @ quoted ''requestQueueUrl''))
      else Inr ())"

section \<open>Endpoints and queue URLs\<close>

record parsed_endpoint =
  overridden :: bool
  useHttps :: bool
  authority :: string

definition is_blank :: "char \<Rightarrow> bool" where
  "is_blank c \<longleftrightarrow> c = CHR '' '' \<or> c = CHR 0x09"

definition is_slash :: "char \<Rightarrow> bool" where
  "is_slash c \<longleftrightarrow> c = CHR ''/''"

definition ParseEndpointOverride :: "string \<Rightarrow> parsed_endpoint result" where
  "ParseEndpointOverride endpointOverride =
     (let v = strip_front is_blank (strip_back is_blank endpointOverride) in
      if v = [] then Inr \<lparr>overridden = False, useHttps = True, authority = []\<rparr>
      else
        let (https, v) =
          (if starts_with ''http://'' v then (False, drop 7 v)
           else if starts_with ''https://'' v then (True, drop 8 v)
           else (True, v));
          v = strip_back is_slash v
        in if v = []
           then Inl (RuntimeError (''SQS plugin: '' @ quoted ''endpointOverride'' @ '' is missing a host''))
           else Inr \<lparr>overridden = True, useHttps = https, authority = v\<rparr>)"

definition IsFifoQueueUrl :: "string \<Rightarrow> bool" where
  "IsFifoQueueUrl queueUrl \<longleftrightarrow>
     (let normalized = strip_back is_slash (takeWhile (\<lambda>c. c \<noteq> CHR ''?'') queueUrl)
      in 5 \<le> length normalized \<and> drop (length normalized - 5) normalized = ''.fifo'')"

section \<open>Properties\<close>

text \<open>
  The search returns the first node, in document order, that is selected by the local
  test, and it fails only when no object of the document is selected.
\<close>

theorem FindSqsNode_first:
  "FindSqsNode root = first_some sqs_select (objects_of root) \<and>
   (FindSqsNode root = None \<longleftrightarrow> (\<forall>n \<in> set (objects_of root). sqs_select n = None))"
  using sqs_search.find_first sqs_search.find_None_iff by blast

lemma FindSqsNode_first_witness:
  "FindSqsNode (JObject [(''a'', JArray [JNull, JObject [(''queueUrl'', JNull)]])])
     = Some (JObject [(''queueUrl'', JNull)])"
  by (simp add: FindSqsNode_first) (simp add: sqs_select_def HasSpecificSqsKeys_def
      IsFlatSqsAlias_def jcontains_def jstring_at_def)

definition sqs_number_ok :: "json \<Rightarrow> string \<Rightarrow> int \<Rightarrow> u32 \<Rightarrow> bool" where
  "sqs_number_ok node key d w \<longleftrightarrow>
     uint w = (case jfind node key of None \<Rightarrow> d | Some v \<Rightarrow> int_value v) \<and> 0 < uint w"

lemma sqs_number_okI:
  "ReadPositiveUint plugin node key d = Inr w \<Longrightarrow> 0 < uint d \<Longrightarrow> sqs_number_ok node key (uint d) w"
  by (auto simp: ReadPositiveUint_Inr_iff sqs_number_ok_def split: option.splits)

lemma read_sqs_strings_numbers:
  "sqs_rpcTimeoutMs (read_sqs_strings node) = 30000"
  "sqs_waitTimeSeconds (read_sqs_strings node) = 1"
  "sqs_visibilityTimeoutSeconds (read_sqs_strings node) = 30"
  by (simp_all add: read_sqs_strings_def Let_def default_sqs_config_def)

lemma read_sqs_config_numbers:
  assumes "read_sqs_config node = Inr c"
  shows "sqs_number_ok node ''rpcTimeoutMs'' 30000 (sqs_rpcTimeoutMs c) \<and>
    sqs_number_ok node ''waitTimeSeconds'' 1 (sqs_waitTimeSeconds c) \<and>
    sqs_number_ok node ''visibilityTimeoutSeconds'' 30 (sqs_visibilityTimeoutSeconds c)"
  using assms
  by (auto simp: read_sqs_config_def Let_def read_sqs_strings_numbers
      elim!: rbind_Inr_E dest!: sqs_number_okI)

lemma check_sqs_config_Inr:
  "check_sqs_config c = Inr c' \<longleftrightarrow>
     c' = c \<and> sqs_waitTimeSeconds c \<le> 20 \<and> sqs_visibilityTimeoutSeconds c \<le> 43200 \<and>
     sqs_region c \<noteq> [] \<and> length (sqs_messageGroupId c) \<le> 128 \<and>
     (sqs_accessKeyId c = [] \<longleftrightarrow> sqs_secretAccessKey c = [])"
  by (auto simp: check_sqs_config_def not_less)

lemma ParseSqsConfigSource_InrE:
  assumes "ParseSqsConfigSource env src = Inr c"
  obtains root node where "ParseJsonSource ''SQS plugin'' env src = Inr root"
    and "FindSqsNode root = Some node" and "is_object node"
    and "read_sqs_config node = Inr c" and "check_sqs_config c = Inr c"
  using assms
  by (auto simp: ParseSqsConfigSource_def rbind_Inr_iff check_sqs_config_Inr
      split: option.splits if_splits)

text \<open>
  A configuration that is accepted respects every limit of SQS, and its three numbers
  are exactly the ones of the document or the defaults.
\<close>
theorem sqs_config_within_limits:
  assumes "ParseSqsConfigSource env src = Inr c"
  shows "1 \<le> sqs_waitTimeSeconds c \<and> sqs_waitTimeSeconds c \<le> 20 \<and>
    1 \<le> sqs_visibilityTimeoutSeconds c \<and> sqs_visibilityTimeoutSeconds c \<le> 43200 \<and>
    1 \<le> sqs_rpcTimeoutMs c \<and> sqs_region c \<noteq> [] \<and> length (sqs_messageGroupId c) \<le> 128 \<and>
    (sqs_accessKeyId c = [] \<longleftrightarrow> sqs_secretAccessKey c = []) \<and>
    (\<exists>root node. ParseJsonSource ''SQS plugin'' env src = Inr root \<and> FindSqsNode root = Some node \<and>
       sqs_number_ok node ''rpcTimeoutMs'' 30000 (sqs_rpcTimeoutMs c) \<and>
       sqs_number_ok node ''waitTimeSeconds'' 1 (sqs_waitTimeSeconds c) \<and>
       sqs_number_ok node ''visibilityTimeoutSeconds'' 30 (sqs_visibilityTimeoutSeconds c))"
proof -
  from assms obtain root node where
    src: "ParseJsonSource ''SQS plugin'' env src = Inr root" "FindSqsNode root = Some node"
    and c: "read_sqs_config node = Inr c" "check_sqs_config c = Inr c"
    by (rule ParseSqsConfigSource_InrE)
  have "1 \<le> w" if "sqs_number_ok node k d w" for k d w
    using that by (simp add: sqs_number_ok_def word_le_def)
  with src read_sqs_config_numbers [OF c(1)] c(2) show ?thesis
    unfolding check_sqs_config_Inr by blast
qed

definition sqs_example_env :: cpp_env where
  "sqs_example_env =
    \<lparr>json_parse = (\<lambda>_. Inr (JObject [(''queueUrl'', JString ''q''), (''waitTimeSeconds'', JUnsigned 10)])),
     file_exists = (\<lambda>_. False), read_file = (\<lambda>_. None), getenv = (\<lambda>_. None)\<rparr>"

lemma sqs_example_parse:
  "ParseSqsConfigSource sqs_example_env ''x'' =
    Inr (default_sqs_config\<lparr>sqs_requestQueueUrl := ''q'', sqs_waitTimeSeconds := 10\<rparr>)"
  by (simp add: sqs_example_env_def ParseSqsConfigSource_def ParseJsonSource_def sqs_select_def
      HasSpecificSqsKeys_def jcontains_def read_sqs_config_def read_sqs_strings_def Let_def ReadString_def
      ReadPositiveUint_def ReadBool_def default_sqs_config_def check_sqs_config_def)

lemma sqs_config_within_limits_witness:
  "ParseSqsConfigSource sqs_example_env ''x'' =
      Inr (default_sqs_config\<lparr>sqs_requestQueueUrl := ''q'', sqs_waitTimeSeconds := 10\<rparr>) \<and>
   (10 :: u32) \<le> 20"
  using sqs_config_within_limits [OF sqs_example_parse] sqs_example_parse by simp

text \<open>
  A queue URL is a FIFO one exactly when, up to a query string and trailing slashes, it
  ends in \<^verbatim>\<open>.fifo\<close>.
\<close>

theorem IsFifoQueueUrl_iff:
  "IsFifoQueueUrl url \<longleftrightarrow>
     (\<exists>base slashes query. url = base @ ''.fifo'' @ slashes @ query \<and> CHR ''?'' \<notin> set base \<and>
        set slashes \<subseteq> {CHR ''/''} \<and> (query = [] \<or> hd query = CHR ''?''))"
  (is "_ \<longleftrightarrow> ?shape")
proof
  define u where "u = takeWhile (\<lambda>c. c \<noteq> CHR ''?'') url"
  define n where "n = strip_back is_slash u"
  assume "IsFifoQueueUrl url"
  then have suffix: "drop (length n - 5) n = ''.fifo''"
    by (simp add: IsFifoQueueUrl_def Let_def u_def n_def)
  define base where "base = take (length n - 5) n"
  have n: "n = base @ ''.fifo''"
    unfolding base_def suffix [symmetric] by (rule append_take_drop_id [symmetric])
  let ?slashes = "rev (takeWhile is_slash (rev u))" and ?query = "dropWhile (\<lambda>c. c \<noteq> CHR ''?'') url"
  have u: "u = (base @ ''.fifo'') @ ?slashes"
    using strip_back_split [of u is_slash] by (simp only: n_def [symmetric] n)
  have "url = u @ ?query" by (simp add: u_def)
  also have "\<dots> = base @ ''.fifo'' @ ?slashes @ ?query" by (subst u) simp
  finally have "url = base @ ''.fifo'' @ ?slashes @ ?query" .
  moreover have "set ?slashes \<subseteq> {CHR ''/''}"
    by (auto simp: is_slash_def dest: set_takeWhileD)
  moreover have "CHR ''?'' \<notin> set u" by (auto simp: u_def dest: set_takeWhileD)
  then have "CHR ''?'' \<notin> set base" by (subst (asm) u) simp
  moreover have "?query = [] \<or> hd ?query = CHR ''?''"
    using hd_dropWhile [of "\<lambda>c. c \<noteq> CHR ''?''" url] by auto
  ultimately show ?shape by blast
next
  assume ?shape
  then obtain base slashes query where url: "url = base @ ''.fifo'' @ slashes @ query"
    and base: "CHR ''?'' \<notin> set base" and sl: "set slashes \<subseteq> {CHR ''/''}"
    and q: "query = [] \<or> hd query = CHR ''?''" by blast
  have "takeWhile (\<lambda>c. c \<noteq> CHR ''?'') query = []" using q by (cases query) auto
  moreover have "\<forall>c \<in> set (base @ ''.fifo'' @ slashes). c \<noteq> CHR ''?''" using base sl by auto
  ultimately have "takeWhile (\<lambda>c. c \<noteq> CHR ''?'') url = base @ ''.fifo'' @ slashes"
    unfolding url by (simp add: takeWhile_append2)
  moreover have "strip_back is_slash ((base @ ''.fifo'') @ slashes) = strip_back is_slash (base @ ''.fifo'')"
    by (rule strip_back_append_all) (use sl in \<open>auto simp: is_slash_def\<close>)
  moreover have "strip_back is_slash (base @ ''.fifo'') = base @ ''.fifo''"
    by (rule strip_back_id) (simp add: is_slash_def)
  ultimately show "IsFifoQueueUrl url" by (simp add: IsFifoQueueUrl_def)
qed

text \<open>
  The endpoint override is cut out of the text, never invented: around the authority
  the text holds only blanks, at most one scheme and trailing slashes, the scheme decides
  about HTTPS, and the authority is non-empty without a trailing slash.  A text of blanks
  is no override, and a scheme without a host is an error.
\<close>

theorem ParseEndpointOverride_shape:
  assumes "ParseEndpointOverride s = Inr e"
  shows "if overridden e
    then authority e \<noteq> [] \<and> last (authority e) \<noteq> CHR ''/'' \<and>
      (\<exists>pre scheme slashes post. s = pre @ scheme @ authority e @ slashes @ post \<and>
         list_all is_blank pre \<and> list_all is_blank post \<and> list_all is_slash slashes \<and>
         scheme \<in> {[], ''http://'', ''https://''} \<and>
         (useHttps e \<longleftrightarrow> scheme \<noteq> ''http://''))
    else list_all is_blank s \<and> authority e = []"
proof -
  define t where "t = strip_back is_blank s"
  define v where "v = strip_front is_blank t"
  define pre where "pre = takeWhile is_blank t"
  define post where "post = rev (takeWhile is_blank (rev s))"
  have "t = pre @ v" by (simp add: pre_def v_def strip_front_def)
  moreover have "s = t @ post" unfolding t_def post_def by (rule strip_back_split)
  ultimately have s: "s = pre @ v @ post" by simp
  have blanks: "list_all is_blank pre" "list_all is_blank post"
    by (auto simp: pre_def post_def list_all_iff dest: set_takeWhileD)
  show ?thesis
  proof (cases "v = []")
    case True
    then have "list_all is_blank s" using s blanks by simp
    with True assms show ?thesis
      by (auto simp: ParseEndpointOverride_def v_def t_def)
  next
    case False
    define scheme where "scheme =
      (if starts_with ''http://'' v then ''http://''
       else if starts_with ''https://'' v then ''https://'' else [])"
    define w where "w =
      (if starts_with ''http://'' v then drop 7 v
       else if starts_with ''https://'' v then drop 8 v else v)"
    define slashes where "slashes = rev (takeWhile is_slash (rev w))"
    have v: "v = scheme @ w"
      by (auto simp: scheme_def w_def starts_with_iff)
    have e: "authority e = strip_back is_slash w" "overridden e" "authority e \<noteq> []"
        "useHttps e \<longleftrightarrow> scheme \<noteq> ''http://''"
      using assms False
      by (auto simp: ParseEndpointOverride_def Let_def scheme_def w_def
          simp flip: v_def t_def split: if_splits)
    have "w = authority e @ slashes"
      unfolding e(1) slashes_def by (rule strip_back_split)
    with s v have split: "s = pre @ scheme @ authority e @ slashes @ post" by simp
    have "last (authority e) \<noteq> CHR ''/''"
      using strip_back_last [of is_slash w] e by (auto simp: is_slash_def)
    moreover have "list_all is_slash slashes"
      by (auto simp: slashes_def list_all_iff dest: set_takeWhileD)
    moreover have "scheme \<in> {[], ''http://'', ''https://''}" by (simp add: scheme_def)
    ultimately show ?thesis using e(2-4) blanks split by auto
  qed
qed

lemma ParseEndpointOverride_shape_witness:
  "ParseEndpointOverride '' http://localhost:4566// '' =
     Inr \<lparr>overridden = True, useHttps = False, authority = ''localhost:4566''\<rparr> \<and>
   last ''localhost:4566'' \<noteq> CHR ''/''"
proof -
  have run: "ParseEndpointOverride '' http://localhost:4566// '' =
     Inr \<lparr>overridden = True, useHttps = False, authority = ''localhost:4566''\<rparr>"
    by (simp add: ParseEndpointOverride_def strip_back_def strip_front_def is_blank_def
        is_slash_def)
  from ParseEndpointOverride_shape [OF run] run show ?thesis by simp
qed

end
