(* ===== verification/Base64.thy ===== *)
theory Base64
  imports Prelude
begin

unbundle bit_operations_syntax

text \<open>
  The Base64 codec of the Pub/Sub plugin (\<^verbatim>\<open>PubSubUtil.cpp\<close>), on 32-bit words as
  in the code, and the interface \<open>base64_codec\<close> that both this codec and the one of the
  AWS library satisfy.
\<close>

section \<open>Encoding\<close>

definition kTable :: string where
  "kTable = ''ABCDEFGHIJKLMNOPQRSTUVWXYZabcdefghijklmnopqrstuvwxyz0123456789+/''"

definition table_at :: "u32 \<Rightarrow> char" where
  "table_at v = kTable ! unat (v AND 63)"

definition b64_word :: "byte \<Rightarrow> byte \<Rightarrow> byte \<Rightarrow> u32" where
  "b64_word a b c = push_bit 16 (ucast a) OR push_bit 8 (ucast b) OR ucast c"

text \<open>
  The loop takes three bytes at a time; the last one or two bytes are padded.
\<close>

fun b64_encode :: "bytes \<Rightarrow> string" where
  "b64_encode (a # b # c # rest) =
     (let value = b64_word a b c in
      table_at (drop_bit 18 value) # table_at (drop_bit 12 value) #
      table_at (drop_bit 6 value) # table_at value # b64_encode rest)"
| "b64_encode [a, b] =
     (let value = push_bit 16 (ucast a) in
      let value' = value OR push_bit 8 (ucast b) in
      [table_at (drop_bit 18 value), table_at (drop_bit 12 value'),
       table_at (drop_bit 6 value'), CHR ''='']) "
| "b64_encode [a] =
     (let value = push_bit 16 (ucast a) in
      [table_at (drop_bit 18 value), table_at (drop_bit 12 value), CHR ''='', CHR ''=''])"
| "b64_encode [] = []"

definition Base64Encode :: "buf \<Rightarrow> string result" where
  "Base64Encode d =
     (if buf_size d = 0 then Inr []
      else if buf_is_null d
        then Inl (InvalidArgument ''Pub/Sub plugin: null payload with non-zero length'')
      else Inr (b64_encode (buf_bytes d)))"

section \<open>Decoding\<close>

definition Base64Value :: "char \<Rightarrow> int" where
  "Base64Value c =
     (if is_upper c then of_char c - 65
      else if is_lower c then of_char c - 97 + 26
      else if is_digit c then of_char c - 48 + 52
      else if c = CHR ''+'' \<or> c = CHR ''-'' then 62
      else if c = CHR ''/'' \<or> c = CHR ''_'' then 63
      else -1)"

definition not_base64 :: exn where
  "not_base64 = RuntimeError ''Pub/Sub plugin: message data is not valid base64''"

definition b64_skipped :: "char \<Rightarrow> bool" where
  "b64_skipped c \<longleftrightarrow> c = CHR '' '' \<or> c = CHR 0x0A \<or> c = CHR 0x0D \<or> c = CHR 0x09"

fun b64_filter :: "string \<Rightarrow> string result" where
  "b64_filter [] = Inr []"
| "b64_filter (c # cs) =
     (if c = CHR ''='' \<or> Base64Value c \<ge> 0 then rbind (b64_filter cs) (\<lambda>r. Inr (c # r))
      else if b64_skipped c then b64_filter cs
      else Inl not_base64)"

fun b64_accumulate :: "u32 \<Rightarrow> nat \<Rightarrow> string \<Rightarrow> bytes result" where
  "b64_accumulate acc bits [] = Inr []"
| "b64_accumulate acc bits (c # cs) =
     (let value = Base64Value c in
      if value < 0 then Inl not_base64
      else
        let acc' = push_bit 6 acc OR word_of_int value; bits' = bits + 6 in
        if bits' \<ge> 8
        then rbind (b64_accumulate acc' (bits' - 8) cs)
               (\<lambda>r. Inr (ucast (drop_bit (bits' - 8) acc' AND 0xFF) # r))
        else b64_accumulate acc' bits' cs)"

definition is_pad :: "char \<Rightarrow> bool" where
  "is_pad c \<longleftrightarrow> c = CHR ''=''"

definition Base64Decode :: "string \<Rightarrow> bytes result" where
  "Base64Decode encoded =
     rbind (b64_filter encoded) (\<lambda>filtered. b64_accumulate 0 0 (strip_back is_pad filtered))"

definition url_char :: "char \<Rightarrow> char" where
  "url_char c = (if c = CHR ''+'' then CHR ''-'' else if c = CHR ''/'' then CHR ''_'' else c)"

definition Base64Url :: "string \<Rightarrow> string" where
  "Base64Url raw = strip_back is_pad (map url_char (b64_encode (string_to_bytes raw)))"

section \<open>Facts about the alphabet\<close>

lemma Base64Value_kTable: "map Base64Value kTable = map int [0..<64]"
  by (simp add: kTable_def Base64Value_def char_class_defs upt_rec)

lemma Base64Value_url_kTable: "map (Base64Value \<circ> url_char) kTable = map int [0..<64]"
  by (simp add: kTable_def Base64Value_def url_char_def char_class_defs upt_rec)

lemma length_kTable: "length kTable = 64"
  by (simp add: kTable_def)

lemma Base64Value_table: "n < 64 \<Longrightarrow> Base64Value (kTable ! n) = int n"
  using Base64Value_kTable nth_map [of n kTable Base64Value] by (simp add: length_kTable)

lemma url_char_table: "n < 64 \<Longrightarrow> Base64Value (url_char (kTable ! n)) = int n"
  using Base64Value_url_kTable nth_map [of n kTable "Base64Value \<circ> url_char"]
  by (simp add: length_kTable)

lemma Base64Value_pad [simp]: "Base64Value (CHR ''='') = -1"
  by code_simp

lemma unat_and_63: "unat (v AND 63 :: u32) < 64"
proof -
  have "v AND 63 = take_bit 6 v" by (simp add: take_bit_eq_mask mask_numeral)
  then show ?thesis by (simp add: unsigned_take_bit_eq take_bit_nat_less_exp [of 6, simplified])
qed

lemma Base64Value_table_at: "Base64Value (table_at v) = uint (v AND 63)"
  by (simp add: table_at_def Base64Value_table unat_and_63)

lemma Base64Value_url_table_at: "Base64Value (url_char (table_at v)) = uint (v AND 63)"
  by (simp add: table_at_def url_char_table unat_and_63)

section \<open>The round trip\<close>

text \<open>
  \<open>b64_raw\<close> is the encoding without its padding; both the encoder and the decoder come down
  to it.
\<close>

fun b64_raw :: "bytes \<Rightarrow> string" where
  "b64_raw (a # b # c # rest) =
     (let w = b64_word a b c in
      table_at (drop_bit 18 w) # table_at (drop_bit 12 w) #
      table_at (drop_bit 6 w) # table_at w # b64_raw rest)"
| "b64_raw [a, b] =
     (let w = b64_word a b 0 in
      [table_at (drop_bit 18 w), table_at (drop_bit 12 w), table_at (drop_bit 6 w)])"
| "b64_raw [a] =
     (let w = b64_word a 0 0 in [table_at (drop_bit 18 w), table_at (drop_bit 12 w)])"
| "b64_raw [] = []"

definition b64_padding :: "bytes \<Rightarrow> nat" where
  "b64_padding d = (if length d mod 3 = 0 then 0 else 3 - length d mod 3)"

lemma lt8_cases:
  "n < (8::nat) \<Longrightarrow> n = 0 \<or> n = 1 \<or> n = 2 \<or> n = 3 \<or> n = 4 \<or> n = 5 \<or> n = 6 \<or> n = 7"
  by arith

lemma and_63: "v AND 63 = take_bit 6 (v :: u32)"
  by (simp add: take_bit_eq_mask mask_numeral)

lemma and_255: "v AND 255 = take_bit 8 (v :: u32)"
  by (simp add: take_bit_eq_mask mask_numeral)

text \<open>One step of the decoder's accumulator: the low six bits of \<open>v\<close> come in.\<close>

definition sextet_in :: "u32 \<Rightarrow> u32 \<Rightarrow> u32" where
  "sextet_in acc v = push_bit 6 acc OR take_bit 6 v"

lemma bit_sextet_in:
  "bit (sextet_in acc v) n \<longleftrightarrow> n < 32 \<and> (if n < 6 then bit v n else bit acc (n - 6))"
  by (auto simp: sextet_in_def bit_simps)

lemma bit_b64_word:
  "bit (b64_word a b c) n \<longleftrightarrow>
     n < 24 \<and> (if n < 8 then bit c n else if n < 16 then bit b (n - 8) else bit a (n - 16))"
  by (auto simp: b64_word_def bit_simps dest: bit_imp_le_length)

lemmas sextet_bits = bit_simps bit_sextet_in bit_b64_word

lemma sextet_byte_1:
  "(ucast (take_bit 8 (drop_bit 4
      (sextet_in (sextet_in acc (drop_bit 18 (b64_word a b c))) (drop_bit 12 (b64_word a b c)))))
      :: byte) = a" (is "?l = a")
proof (rule bit_word_eqI)
  fix n assume "n < LENGTH(8)"
  then show "bit ?l n = bit a n"
    using lt8_cases [of n] by (auto simp: sextet_bits)
qed

lemma sextet_byte_2:
  "(ucast (take_bit 8 (drop_bit 2
      (sextet_in (sextet_in acc (drop_bit 12 (b64_word a b c))) (drop_bit 6 (b64_word a b c)))))
      :: byte) = b" (is "?l = b")
proof (rule bit_word_eqI)
  fix n assume "n < LENGTH(8)"
  then show "bit ?l n = bit b n"
    using lt8_cases [of n] by (auto simp: sextet_bits)
qed

lemma sextet_byte_3:
  "(ucast (take_bit 8
      (sextet_in (sextet_in acc (drop_bit 6 (b64_word a b c))) (b64_word a b c))) :: byte) = c"
  (is "?l = c")
proof (rule bit_word_eqI)
  fix n assume "n < LENGTH(8)"
  then show "bit ?l n = bit c n"
    using lt8_cases [of n] by (auto simp: sextet_bits)
qed

lemma b64_accumulate_table:
  assumes f: "\<And>w. Base64Value (f (table_at w)) = uint (w AND 63)"
  shows "b64_accumulate acc bits (f (table_at v) # cs) =
     (if bits + 6 \<ge> 8
      then rbind (b64_accumulate (sextet_in acc v) (bits + 6 - 8) cs)
             (\<lambda>r. Inr (ucast (take_bit 8 (drop_bit (bits + 6 - 8) (sextet_in acc v))) # r))
      else b64_accumulate (sextet_in acc v) (bits + 6) cs)"
  by (simp add: f Let_def sextet_in_def and_63 and_255 word_of_int_uint)

lemma b64_accumulate_steps:
  assumes f: "\<And>w. Base64Value (f (table_at w)) = uint (w AND 63)"
  shows "b64_accumulate acc 0 (f (table_at v) # cs) = b64_accumulate (sextet_in acc v) 6 cs"
    and "b64_accumulate acc 6 (f (table_at v) # cs) =
      rbind (b64_accumulate (sextet_in acc v) 4 cs)
        (\<lambda>r. Inr (ucast (take_bit 8 (drop_bit 4 (sextet_in acc v))) # r))"
    and "b64_accumulate acc 4 (f (table_at v) # cs) =
      rbind (b64_accumulate (sextet_in acc v) 2 cs)
        (\<lambda>r. Inr (ucast (take_bit 8 (drop_bit 2 (sextet_in acc v))) # r))"
    and "b64_accumulate acc 2 (f (table_at v) # cs) =
      rbind (b64_accumulate (sextet_in acc v) 0 cs)
        (\<lambda>r. Inr (ucast (take_bit 8 (sextet_in acc v)) # r))"
  by (simp_all only: b64_accumulate_table [OF f]) simp_all

lemma b64_accumulate_raw:
  assumes f: "\<And>w. Base64Value (f (table_at w)) = uint (w AND 63)"
  shows "b64_accumulate acc 0 (map f (b64_raw d)) = Inr d"
proof (induction d arbitrary: acc rule: b64_raw.induct)
  case (1 a b c rest)
  then show ?case
    by (simp only: b64_raw.simps Let_def list.map b64_accumulate_steps [OF f] rbind_simps
        sextet_byte_1 sextet_byte_2 sextet_byte_3)
next
  case (2 a b)
  show ?case
    by (simp only: b64_raw.simps Let_def list.map b64_accumulate_steps [OF f] rbind_simps
        sextet_byte_1 sextet_byte_2 b64_accumulate.simps(1))
next
  case (3 a)
  show ?case
    by (simp only: b64_raw.simps Let_def list.map b64_accumulate_steps [OF f] rbind_simps
        sextet_byte_1 b64_accumulate.simps(1))
qed simp

lemma table_at_eqI: "take_bit 6 v = take_bit 6 w \<Longrightarrow> table_at v = table_at w"
  by (simp add: table_at_def and_63)

lemma b64_tail_word:
  "table_at (drop_bit 18 (push_bit 16 (ucast a))) = table_at (drop_bit 18 (b64_word a b c))"
  "table_at (drop_bit 12 (push_bit 16 (ucast a))) = table_at (drop_bit 12 (b64_word a 0 c))"
  "push_bit 16 (ucast a) OR push_bit 8 (ucast b) = b64_word a b 0"
    apply (rule table_at_eqI, rule bit_word_eqI, simp add: sextet_bits)
    apply (auto simp: sextet_bits dest: bit_imp_le_length)[1]
   apply (rule table_at_eqI, rule bit_word_eqI, auto simp: sextet_bits dest: bit_imp_le_length)[1]
  apply (simp add: b64_word_def)
  done

lemma b64_encode_tail:
  "b64_encode [a, b] = b64_raw [a, b] @ [CHR ''='']"
  "b64_encode [a] = b64_raw [a] @ [CHR ''='', CHR ''='']"
  using b64_tail_word(1) [of a b 0] b64_tail_word(1) [of a 0 0] b64_tail_word(2) [of a 0]
    b64_tail_word(3) [of a b]
  by (simp_all only: b64_encode.simps b64_raw.simps Let_def append.simps)

lemma b64_padding_Cons3: "b64_padding (a # b # c # rest) = b64_padding rest"
  by (simp add: b64_padding_def)

lemma b64_padding_short: "b64_padding [a, b] = 1" "b64_padding [a] = 2" "b64_padding [] = 0"
  by (simp_all add: b64_padding_def)

lemma b64_encode_raw: "b64_encode d = b64_raw d @ replicate (b64_padding d) (CHR ''='')"
proof (induction d rule: b64_raw.induct)
  case (1 a b c rest)
  then show ?case
    by (simp only: b64_encode.simps b64_raw.simps Let_def append.simps b64_padding_Cons3)
next
  case (2 a b)
  show ?case by (simp only: b64_encode_tail b64_padding_short) simp
next
  case (3 a)
  show ?case by (simp only: b64_encode_tail b64_padding_short) (simp add: numeral_2_eq_2)
qed (simp add: b64_padding_short)

section \<open>Shape and length\<close>

definition b64_char :: "char \<Rightarrow> bool" where
  "b64_char c \<longleftrightarrow> is_alnum c \<or> c = CHR ''+'' \<or> c = CHR ''/''"

lemma kTable_chars: "list_all b64_char kTable"
  by (simp add: kTable_def b64_char_def char_class_defs)

lemma table_at_char: "b64_char (table_at v)"
  using kTable_chars unat_and_63 [of v] by (simp add: table_at_def list_all_length length_kTable)

lemma b64_char_not_pad: "b64_char c \<Longrightarrow> c \<noteq> CHR ''=''"
  by (auto simp: b64_char_def char_class_defs)

lemma b64_raw_chars: "\<forall>c \<in> set (b64_raw d). b64_char c"
  by (induction d rule: b64_raw.induct) (simp_all add: Let_def table_at_char)

lemma length_b64_raw: "length (b64_raw d) + b64_padding d = 4 * ((length d + 2) div 3)"
proof (induction d rule: b64_raw.induct)
  case (1 a b c rest)
  have "(length (a # b # c # rest) + 2) div 3 = (length rest + 2) div 3 + 1"
    by simp
  then show ?case
    using 1 by (simp only: b64_raw.simps Let_def b64_padding_Cons3) simp
qed (simp_all add: Let_def b64_padding_short)

lemma length_b64_encode: "length (b64_encode d) = 4 * ((length d + 2) div 3)"
  using length_b64_raw [of d] by (simp add: b64_encode_raw)

lemma b64_padding_le: "b64_padding d \<le> 2"
  by (auto simp: b64_padding_def)

lemma of_char_int: "(of_char c :: int) = int (of_char c)"
  by (metis of_nat_of_char)

lemma b64_char_range: "b64_char c \<Longrightarrow> Base64Value c \<ge> 0 \<and> Base64Value (url_char c) \<ge> 0"
  by (auto simp: b64_char_def Base64Value_def url_char_def is_alnum_def is_alpha_def
      char_class_defs of_char_int simp del: of_nat_of_char)

lemma url_char_not_pad: "b64_char c \<Longrightarrow> url_char c \<noteq> CHR ''=''"
  by (auto simp: url_char_def dest: b64_char_not_pad)

section \<open>Decoding what was encoded\<close>

lemma b64_filter_all:
  "(\<forall>c \<in> set s. c = CHR ''='' \<or> Base64Value c \<ge> 0) \<Longrightarrow> b64_filter s = Inr s"
  by (induction s) auto

lemma strip_pad_raw:
  assumes "\<And>c. b64_char c \<Longrightarrow> f c \<noteq> CHR ''=''"
  shows "strip_back is_pad (map f (b64_raw d) @ replicate n (CHR ''='')) = map f (b64_raw d)"
proof -
  have "\<not> is_pad (last (map f (b64_raw d)))" if "b64_raw d \<noteq> []"
    using that b64_raw_chars [of d] assms by (simp add: is_pad_def last_map)
  then show ?thesis
    using strip_back_id [of "map f (b64_raw d)" is_pad]
    by (auto simp: strip_back_append_all is_pad_def)
qed

lemma Base64Decode_raw:
  assumes f: "\<And>w. Base64Value (f (table_at w)) = uint (w AND 63)"
    and np: "\<And>c. b64_char c \<Longrightarrow> f c \<noteq> CHR ''='' \<and> Base64Value (f c) \<ge> 0"
  shows "Base64Decode (map f (b64_raw d) @ replicate n (CHR ''='')) = Inr d"
proof -
  have "b64_filter (map f (b64_raw d) @ replicate n (CHR ''='')) =
      Inr (map f (b64_raw d) @ replicate n (CHR ''=''))"
    using b64_raw_chars [of d] np by (intro b64_filter_all) auto
  moreover have "strip_back is_pad (map f (b64_raw d) @ replicate n (CHR ''='')) =
      map f (b64_raw d)"
    using np by (intro strip_pad_raw) auto
  ultimately show ?thesis
    by (simp add: Base64Decode_def b64_accumulate_raw [OF f])
qed

lemma Base64Decode_encode: "Base64Decode (b64_encode d) = Inr d"
  using Base64Decode_raw [of "\<lambda>c. c" d "b64_padding d"] Base64Value_table_at
    b64_char_not_pad b64_char_range
  by (simp add: b64_encode_raw)

lemma Base64Url_raw: "Base64Url s = map url_char (b64_raw (string_to_bytes s))"
proof -
  have "map url_char (replicate n (CHR ''='')) = replicate n (CHR ''='')" for n
    by (simp add: url_char_def)
  then show ?thesis
    using strip_pad_raw [OF url_char_not_pad]
    by (simp add: Base64Url_def b64_encode_raw del: map_replicate)
qed

lemma Base64Decode_Base64Url: "Base64Decode (Base64Url s) = Inr (string_to_bytes s)"
  using Base64Decode_raw [of url_char "string_to_bytes s" 0] Base64Value_url_table_at
    url_char_not_pad b64_char_range
  by (simp add: Base64Url_raw)

section \<open>The interface of a Base64 codec\<close>

text \<open>
  What a user of a codec relies on: decoding undoes encoding, the length is the padded one, and
  the text is alphabet characters followed by at most two padding characters.
\<close>

definition b64_shape :: "string \<Rightarrow> bool" where
  "b64_shape s \<longleftrightarrow>
     (\<forall>c \<in> set (strip_back is_pad s). b64_char c) \<and> length s \<le> length (strip_back is_pad s) + 2"

locale base64_codec =
  fixes enc :: "bytes \<Rightarrow> string" and dec :: "string \<Rightarrow> bytes"
  assumes dec_enc: "dec (enc d) = d"
    and enc_length: "length (enc d) = 4 * ((length d + 2) div 3)"
    and enc_shape: "b64_shape (enc d)"
begin

lemma enc_inj: "enc d = enc d' \<longleftrightarrow> d = d'"
  using dec_enc by metis

lemma enc_Nil_iff: "enc d = [] \<longleftrightarrow> d = []"
proof -
  have "enc d = [] \<longleftrightarrow> 4 * ((length d + 2) div 3) = 0"
    using enc_length [of d] by (metis length_0_conv)
  also have "\<dots> \<longleftrightarrow> d = []"
    by (cases d) auto
  finally show ?thesis .
qed

lemma enc_bound: "length (enc d) \<le> 4 * m \<longleftrightarrow> length d \<le> 3 * m"
  by (simp add: enc_length) arith

end

definition b64_decode_total :: "string \<Rightarrow> bytes" where
  "b64_decode_total s = (case Base64Decode s of Inl _ \<Rightarrow> [] | Inr d \<Rightarrow> d)"

lemma b64_encode_shape: "b64_shape (b64_encode d)"
proof -
  have "strip_back is_pad (b64_encode d) = b64_raw d"
    using strip_pad_raw [of "\<lambda>c. c" d "b64_padding d"] b64_char_not_pad
    by (simp add: b64_encode_raw)
  then show ?thesis
    using b64_raw_chars [of d] b64_padding_le [of d]
    by (simp add: b64_shape_def) (simp add: b64_encode_raw)
qed

interpretation pubsub_b64: base64_codec b64_encode b64_decode_total
  by unfold_locales
    (simp_all add: b64_decode_total_def Base64Decode_encode length_b64_encode b64_encode_shape)

lemma Base64Decode_Base64Encode:
  assumes "Base64Encode d = Inr s"
  shows "Base64Decode s = Inr (buf_bytes d)"
proof (cases "buf_size d = 0")
  case True
  then show ?thesis
    using assms by (cases d) (auto simp: Base64Encode_def Base64Decode_def)
next
  case False
  then show ?thesis
    using assms by (auto simp: Base64Encode_def Base64Decode_encode split: if_splits)
qed

text \<open>
  Base64 round trip.  \<open>Base64Decode\<close> gives back exactly the bytes that \<open>Base64Encode\<close>
  was given, for every non-null payload and for the null one of length zero, and it gives back
  the raw text from the padding-free URL form that the JWT uses.
\<close>
theorem Base64_round_trip:
  assumes "Base64Encode d = Inr s"
  shows "Base64Decode s = Inr (buf_bytes d) \<and>
    Base64Decode (Base64Url raw) = Inr (string_to_bytes raw)"
  using Base64Decode_Base64Encode [OF assms] Base64Decode_Base64Url by simp

lemma Base64_round_trip_witness:
  "Base64Encode (Buf [0, 255, 16, 7]) = Inr ''AP8QBw=='' \<and>
   Base64Decode ''AP8QBw=='' = Inr [0, 255, 16, 7]"
proof -
  have "Base64Encode (Buf [0, 255, 16, 7]) = Inr ''AP8QBw==''"
    by code_simp
  then show ?thesis
    using Base64_round_trip [of "Buf [0, 255, 16, 7]" "''AP8QBw==''"] by simp
qed

definition b64_well_formed :: "string \<Rightarrow> bool" where
  "b64_well_formed s \<longleftrightarrow>
     (\<forall>c \<in> set (strip_back is_pad (filter (\<lambda>c. \<not> b64_skipped c) s)). Base64Value c \<ge> 0)"

lemma b64_filter_Inr_iff:
  "b64_filter s = Inr r \<longleftrightarrow>
     (\<forall>c \<in> set s. is_pad c \<or> Base64Value c \<ge> 0 \<or> b64_skipped c) \<and>
     r = filter (\<lambda>c. \<not> b64_skipped c) s"
proof (induction s arbitrary: r)
  case (Cons c cs)
  have "\<not> b64_skipped c" if "is_pad c \<or> Base64Value c \<ge> 0"
    using that by (auto simp: b64_skipped_def is_pad_def Base64Value_def char_class_defs)
  then show ?case
    using Cons by (auto simp: rbind_Inr_iff is_pad_def)
qed auto

lemma b64_accumulate_cases:
  "(if \<forall>c \<in> set s. Base64Value c \<ge> 0
    then \<exists>d. b64_accumulate acc bits s = Inr d \<and>
          (bits < 8 \<longrightarrow> length d = (bits + 6 * length s) div 8)
    else b64_accumulate acc bits s = Inl not_base64)"
proof (induction s arbitrary: acc bits)
  case (Cons c cs)
  show ?case
    using Cons [of "push_bit 6 acc OR word_of_int (Base64Value c)" "bits + 6 - 8"]
      Cons [of "push_bit 6 acc OR word_of_int (Base64Value c)" "bits + 6"]
    by (auto simp: Let_def rbind_Inr_iff not_less split: if_splits)
qed simp

lemma b64_filter_error: "b64_filter s = Inl e \<Longrightarrow> e = not_base64"
  by (induction s) (auto simp: rbind_def split: sum.splits if_splits)

text \<open>
  What the decoder accepts.  Decoding succeeds exactly when every character is of the two
  alphabets, padding or white space, and none but alphabet characters remain once white space
  and trailing padding are dropped; the result then has one byte for every full eight bits, and
  every other input is reported as the one error of invalid Base64.
\<close>
theorem Base64Decode_spec:
  "(if (\<forall>c \<in> set s. is_pad c \<or> Base64Value c \<ge> 0 \<or> b64_skipped c) \<and> b64_well_formed s
    then \<exists>d. Base64Decode s = Inr d \<and>
      length d = 6 * length (strip_back is_pad (filter (\<lambda>c. \<not> b64_skipped c) s)) div 8
    else Base64Decode s = Inl not_base64)"
proof (cases "b64_filter s")
  case (Inl e)
  then show ?thesis
    using b64_filter_error [OF Inl] b64_filter_Inr_iff [of s "filter (\<lambda>c. \<not> b64_skipped c) s"]
    by (auto simp: Base64Decode_def)
next
  case (Inr r)
  then have "(\<forall>c \<in> set s. is_pad c \<or> Base64Value c \<ge> 0 \<or> b64_skipped c)"
    and r: "r = filter (\<lambda>c. \<not> b64_skipped c) s"
    using b64_filter_Inr_iff [of s r] by simp_all
  moreover have "Base64Decode s = b64_accumulate 0 0 (strip_back is_pad r)"
    using Inr by (simp add: Base64Decode_def)
  ultimately show ?thesis
    using b64_accumulate_cases [of "strip_back is_pad r" 0 0]
    by (simp only: b64_well_formed_def r if_True simp_thms add_0 split: if_splits) simp
qed

lemma Base64Decode_spec_witness:
  "\<exists>d. Base64Decode ''A Q=='' = Inr d \<and> length d = 1"
proof -
  have 1: "\<forall>c \<in> set ''A Q==''. is_pad c \<or> Base64Value c \<ge> 0 \<or> b64_skipped c" by code_simp
  have 2: "b64_well_formed ''A Q==''" by code_simp
  have 3: "6 * length (strip_back is_pad (filter (\<lambda>c. \<not> b64_skipped c) ''A Q=='')) div 8 = 1"
    by code_simp
  show ?thesis
    using Base64Decode_spec [of "''A Q==''"] unfolding 3 if_P [OF conjI [OF 1 2]] .
qed

lemma Base64Decode_error: "Base64Decode s = Inl e \<Longrightarrow> e = not_base64"
proof (cases "b64_filter s")
  case (Inr r)
  moreover assume "Base64Decode s = Inl e"
  ultimately show ?thesis
    using b64_accumulate_cases [of "strip_back is_pad r" 0 0]
    by (auto simp: Base64Decode_def split: if_splits)
qed (simp add: Base64Decode_def b64_filter_error)

end
