(* ===== verification/SqsUtil.thy ===== *)
theory SqsUtil
  imports SqsConfig Base64
begin

text \<open>
  The helpers of the SQS plugin (\<^verbatim>\<open>SqsUtil.cpp\<close>): the client configuration handed to
  the AWS library, the encoding of payloads as message bodies, correlation ids, attributes
  and the FIFO fields of a message.  The Base64 routines of the AWS library are parameters
  that satisfy the interface \<open>base64_codec\<close>.
\<close>

definition MaxEncodedBodyBytes :: nat where
  "MaxEncodedBodyBytes = 1024 * 1024"

definition CorrelationIdAttribute :: string where
  "CorrelationIdAttribute = ''GraftcodeCorrelationId''"

definition ReplyToAttribute :: string where
  "ReplyToAttribute = ''GraftcodeReplyTo''"

section \<open>The configuration of the AWS client\<close>

text \<open>
  The fields of \<^verbatim>\<open>ClientConfiguration\<close> that the plugin sets; \<open>None\<close> is the default
  of the library.  \<open>imds_disabled\<close> records \<^verbatim>\<open>DisableImdsLookupForEmulator\<close>.
\<close>

record aws_client =
  aws_region :: string
  aws_verifySSL :: bool
  aws_connectTimeoutMs :: int
  aws_requestTimeoutMs :: int
  aws_httpRequestTimeoutMs :: int
  aws_https :: "bool option"
  aws_endpointOverride :: "string option"
  aws_credentials :: "(string \<times> string \<times> string) option"
  imds_disabled :: bool

definition client_timeout :: "u32 \<Rightarrow> u32" where
  "client_timeout wait = max 30000 ((wait + 5) * 1000)"

definition CreateAwsSqsClient :: "sqs_config \<Rightarrow> aws_client result" where
  "CreateAwsSqsClient config =
     (let timeoutMs = uint (client_timeout (sqs_waitTimeSeconds config));
          c = \<lparr>aws_region = c_str (sqs_region config), aws_verifySSL = sqs_verifySsl config,
               aws_connectTimeoutMs = 5000, aws_requestTimeoutMs = timeoutMs,
               aws_httpRequestTimeoutMs = timeoutMs, aws_https = None,
               aws_endpointOverride = None, aws_credentials = None, imds_disabled = False\<rparr>
      in rbind (ParseEndpointOverride (sqs_endpointOverride config)) (\<lambda>endpoint.
        let c = (if overridden endpoint
                 then let c = c\<lparr>imds_disabled := True,
                                aws_https := Some (useHttps endpoint),
                                aws_endpointOverride := Some (c_str (authority endpoint))\<rparr>
                      in if \<not> useHttps endpoint then c\<lparr>aws_verifySSL := False\<rparr> else c
                 else c)
        in if sqs_accessKeyId config \<noteq> []
           then Inr (c\<lparr>aws_credentials := Some (c_str (sqs_accessKeyId config),
                  c_str (sqs_secretAccessKey config), c_str (sqs_sessionToken config))\<rparr>)
           else Inr c))"

section \<open>Payloads\<close>

fun b64_scan :: "bool \<Rightarrow> string \<Rightarrow> bool" where
  "b64_scan padding [] = True"
| "b64_scan padding (c # cs) =
     (if c = CHR ''='' then b64_scan True cs
      else if padding then False
      else if \<not> (is_alnum c \<or> c = CHR ''+'' \<or> c = CHR ''/'') then False
      else b64_scan padding cs)"

definition IsValidBase64 :: "string \<Rightarrow> bool" where
  "IsValidBase64 s \<longleftrightarrow>
     (if s = [] then True else if length s mod 4 \<noteq> 0 then False else b64_scan False s)"

definition payload_prefix :: string where
  "payload_prefix = ''graftcode-base64:''"

definition EncodePayload :: "(bytes \<Rightarrow> string) \<Rightarrow> buf \<Rightarrow> string result" where
  "EncodePayload enc d =
     (if buf_size d > 0 \<and> buf_is_null d
      then Inl (InvalidArgument ''SQS plugin: null payload with non-zero length'')
      else let encoded = payload_prefix @ enc (buf_bytes d) in
        if length encoded > MaxEncodedBodyBytes
        then Inl (RuntimeError ''SQS plugin: encoded payload exceeds the 1 MiB SQS limit'')
        else Inr encoded)"

definition DecodePayload :: "(string \<Rightarrow> bytes) \<Rightarrow> string \<Rightarrow> bytes result" where
  "DecodePayload dec body =
     (if length body < 17 \<or> take 17 body \<noteq> payload_prefix
      then Inl (RuntimeError ''SQS plugin: message body has an unsupported encoding'')
      else let encoded = drop 17 body in
        if \<not> IsValidBase64 encoded
        then Inl (RuntimeError ''SQS plugin: message body is not valid base64'')
        else let decoded = dec encoded in
          if length decoded = 0
          then if encoded \<noteq> []
               then Inl (RuntimeError ''SQS plugin: failed to decode message body'')
               else Inr []
          else Inr decoded)"

section \<open>Messages\<close>

text \<open>The two 64-bit numbers come from the random engine.\<close>

definition sqs_NewCorrelationId :: "u64 \<Rightarrow> u64 \<Rightarrow> string" where
  "sqs_NewCorrelationId first second = hex_setw 16 (unat first) @ hex_setw 16 (unat second)"

record sqs_message =
  sm_attributes :: "string \<rightharpoonup> string"
  sm_body :: string
  sm_receiptHandle :: string

record sqs_send_request =
  ss_queueUrl :: string
  ss_body :: string
  ss_attributes :: "string \<rightharpoonup> string"
  ss_groupId :: "string option"
  ss_deduplicationId :: "string option"

definition GetStringAttribute :: "sqs_message \<Rightarrow> string \<Rightarrow> string" where
  "GetStringAttribute message name =
     (case sm_attributes message name of None \<Rightarrow> [] | Some value \<Rightarrow> c_str value)"

definition StringAttribute :: "string \<Rightarrow> string" where
  "StringAttribute value = c_str value"

definition ConfigureFifoMessage ::
  "sqs_send_request \<Rightarrow> string \<Rightarrow> string \<Rightarrow> string \<Rightarrow> sqs_send_request" where
  "ConfigureFifoMessage request queueUrl groupId deduplicationId =
     (if \<not> IsFifoQueueUrl queueUrl then request
      else request\<lparr>ss_groupId := Some (if groupId = [] then ''graftcode'' else c_str groupId),
                   ss_deduplicationId := Some (c_str deduplicationId)\<rparr>)"

section \<open>Facts\<close>

lemma b64_scan_pads: "b64_scan p (replicate n (CHR ''=''))"
  by (induction n arbitrary: p) auto

lemma b64_scan_char: "b64_char c \<Longrightarrow> b64_scan False (c # cs) = b64_scan False cs"
  using b64_char_not_pad [of c] by (simp add: b64_char_def)

lemma b64_scan_body:
  "\<forall>c \<in> set body. b64_char c \<Longrightarrow> b64_scan False (body @ replicate n (CHR ''=''))"
  by (induction body) (simp_all add: b64_scan_pads b64_scan_char del: b64_scan.simps(2))

lemma b64_shape_scan:
  assumes "b64_shape s"
  shows "b64_scan False s"
proof -
  have all: "\<forall>c \<in> set (takeWhile is_pad (rev s)). c = CHR ''=''"
    by (auto simp: is_pad_def dest: set_takeWhileD)
  then have "takeWhile is_pad (rev s) = replicate (length (takeWhile is_pad (rev s))) (CHR ''='')"
    by (intro replicate_eqI) auto
  then have "s = strip_back is_pad s @ replicate (length (takeWhile is_pad (rev s))) (CHR ''='')"
    using strip_back_split [of s is_pad] by (metis rev_replicate)
  moreover have "\<forall>c \<in> set (strip_back is_pad s). b64_char c"
    using assms by (simp add: b64_shape_def)
  ultimately show ?thesis
    using b64_scan_body by metis
qed

lemma length_payload_prefix [simp]: "length payload_prefix = 17"
  by (simp add: payload_prefix_def)

lemma EncodePayload_Inr_iff:
  "EncodePayload enc d = Inr s \<longleftrightarrow>
     \<not> (buf_size d > 0 \<and> buf_is_null d) \<and> s = payload_prefix @ enc (buf_bytes d) \<and>
     17 + length (enc (buf_bytes d)) \<le> MaxEncodedBodyBytes"
  by (auto simp: EncodePayload_def Let_def)

context base64_codec
begin

lemma enc_valid: "IsValidBase64 (enc d)"
  by (simp add: IsValidBase64_def enc_length b64_shape_scan enc_shape)

lemma DecodePayload_enc: "DecodePayload dec (payload_prefix @ enc d) = Inr d"
  by (simp add: DecodePayload_def enc_valid dec_enc enc_Nil_iff Let_def)

lemma payload_round_trip: "EncodePayload enc d = Inr s \<Longrightarrow> DecodePayload dec s = Inr (buf_bytes d)"
  by (simp add: EncodePayload_Inr_iff DecodePayload_enc)

lemma payload_fits_iff: "17 + length (enc d) \<le> MaxEncodedBodyBytes \<longleftrightarrow> length d \<le> 786417"
proof -
  have "17 + length (enc d) \<le> MaxEncodedBodyBytes \<longleftrightarrow> length (enc d) \<le> 4 * 262139"
    by (simp add: MaxEncodedBodyBytes_def enc_length) arith
  then show ?thesis using enc_bound [of d 262139] by simp
qed

end

lemma client_timeout_exact:
  assumes "w \<le> 20"
  shows "uint (client_timeout w) = max 30000 ((uint w + 5) * 1000)"
proof -
  have "uint w \<le> 20" using assms by (simp add: word_le_def)
  then have "uint ((w + 5) * 1000) = (uint w + 5) * 1000"
    by (simp add: uint_word_ariths)
  then show ?thesis
    by (simp add: client_timeout_def max_def word_le_def)
qed

section \<open>Properties\<close>

text \<open>
  Payloads cross the queue intact, up to the size limit of SQS and not beyond: a payload of
  at most 786417 bytes is encoded into a body of at most 1 MiB that decodes to the same bytes,
  and a longer one is refused with the size error, given any Base64 codec that keeps the laws of
  \<open>base64_codec\<close>.
\<close>
theorem sqs_payload_round_trip:
  assumes "base64_codec enc dec"
  shows "if length d \<le> 786417
    then \<exists>body. EncodePayload enc (Buf d) = Inr body \<and> length body \<le> MaxEncodedBodyBytes \<and>
      DecodePayload dec body = Inr d
    else EncodePayload enc (Buf d) =
      Inl (RuntimeError ''SQS plugin: encoded payload exceeds the 1 MiB SQS limit'')"
  using base64_codec.payload_fits_iff [OF assms, of d] base64_codec.DecodePayload_enc [OF assms, of d]
  by (auto simp: EncodePayload_def Let_def)

lemma sqs_payload_round_trip_witness:
  "\<exists>body. EncodePayload b64_encode (Buf [1, 2, 3, 255]) = Inr body \<and>
    DecodePayload b64_decode_total body = Inr [1, 2, 3, 255]"
  using sqs_payload_round_trip [OF pubsub_b64.base64_codec_axioms, of "[1, 2, 3, 255]"] by auto

text \<open>
  The client outlives long polling: for every accepted configuration both request timeouts
  are computed without wrap-around and exceed the polling time by at least five seconds; TLS
  verification is only given up for a plain HTTP override, and static credentials are used
  exactly when an access key is configured.
\<close>
theorem sqs_client_timeouts:
  assumes "ParseSqsConfigSource env src = Inr c" and "CreateAwsSqsClient c = Inr a"
  shows "aws_requestTimeoutMs a = max 30000 ((uint (sqs_waitTimeSeconds c) + 5) * 1000) \<and>
    aws_httpRequestTimeoutMs a = aws_requestTimeoutMs a \<and>
    (sqs_verifySsl c \<and> \<not> aws_verifySSL a \<longrightarrow> aws_https a = Some False) \<and>
    (aws_verifySSL a \<longrightarrow> sqs_verifySsl c) \<and>
    (aws_credentials a \<noteq> None \<longleftrightarrow> sqs_accessKeyId c \<noteq> [])"
proof -
  have "sqs_waitTimeSeconds c \<le> 20"
    using assms(1) by (auto elim!: ParseSqsConfigSource_InrE simp: check_sqs_config_Inr)
  then show ?thesis
    using assms(2)
    by (auto simp: CreateAwsSqsClient_def Let_def client_timeout_exact elim!: rbind_Inr_E
        split: if_splits)
qed

lemma sqs_client_timeouts_witness:
  "\<exists>a. CreateAwsSqsClient (default_sqs_config\<lparr>sqs_requestQueueUrl := ''q'', sqs_waitTimeSeconds := 10\<rparr>) =
      Inr a \<and> aws_requestTimeoutMs a = 30000"
proof -
  obtain a where a: "CreateAwsSqsClient
      (default_sqs_config\<lparr>sqs_requestQueueUrl := ''q'', sqs_waitTimeSeconds := 10\<rparr>) = Inr a"
    by (simp add: CreateAwsSqsClient_def Let_def ParseEndpointOverride_def default_sqs_config_def
        strip_front_def)
  from sqs_client_timeouts [OF sqs_example_parse a] a show ?thesis by simp
qed

lemma length_u64_hex: "length (hex_setw 16 (unat (v :: u64))) = 16"
proof -
  have "unat v < 16 ^ 16" using unsigned_less [where ?'a = nat and w = v] by simp
  then show ?thesis by (simp add: length_hex_setw)
qed

text \<open>
  A correlation id is 32 lower-case hexadecimal digits, without a zero byte that
  \<^verbatim>\<open>c_str\<close> would cut, and different random numbers give different ids.
\<close>
theorem sqs_correlation_id_format:
  "length (sqs_NewCorrelationId a b) = 32 \<and>
   list_all is_hex_lower (sqs_NewCorrelationId a b) \<and>
   c_str (sqs_NewCorrelationId a b) = sqs_NewCorrelationId a b \<and>
   (sqs_NewCorrelationId a b = sqs_NewCorrelationId a' b' \<longleftrightarrow> a = a' \<and> b = b')"
proof -
  have "CHR 0x00 \<notin> set (sqs_NewCorrelationId a b)"
    by (simp add: sqs_NewCorrelationId_def hex_setw_no_zero)
  then have "c_str (sqs_NewCorrelationId a b) = sqs_NewCorrelationId a b"
    by (rule c_str_id)
  moreover have "sqs_NewCorrelationId a b = sqs_NewCorrelationId a' b' \<longleftrightarrow> a = a' \<and> b = b'"
    using word_unat_eq_iff [of a a'] word_unat_eq_iff [of b b']
    by (simp add: sqs_NewCorrelationId_def length_u64_hex hex_setw_inj)
  ultimately show ?thesis
    by (simp add: sqs_NewCorrelationId_def length_u64_hex hex_setw_class)
qed

end
