(* ===== verification/SqsClient.thy ===== *)
theory SqsClient
  imports SqsUtil Tickets TransportAbi
begin

text \<open>
  The client of the SQS plugin (\<^verbatim>\<open>SqsClient.cpp\<close>, \<^verbatim>\<open>TransportSqs.cpp\<close>): one call
  registers a correlation id, sends the request and waits for the reply; the dispatcher
  thread moves the messages of the reply queue into the table of pending replies.

  The AWS service is a parameter: what a send, a receive or a delete answers.  An error is
  the exception name and the message, success is \<open>Inr\<close>.
\<close>

type_synonym aws_error = "string \<times> string"

definition AwsError :: "string \<Rightarrow> aws_error \<Rightarrow> exn" where
  "AwsError operation error =
     RuntimeError (''SQS '' @ operation @ '' failed: '' @ c_str (fst error) @ '' - '' @
       c_str (snd error))"

section \<open>The client object\<close>

record sqs_client =
  sc_config :: sqs_config
  sc_aws :: aws_client
  sc_pending :: pending
  sc_started :: bool
  sc_stopping :: bool

definition new_SqsClient :: "sqs_config \<Rightarrow> sqs_client result" where
  "new_SqsClient config =
     rbind (sqs_ValidateClientConfig config) (\<lambda>_.
     rbind (CreateAwsSqsClient config) (\<lambda>aws.
       Inr \<lparr>sc_config = config, sc_aws = aws, sc_pending = new_pending,
            sc_started = False, sc_stopping = False\<rparr>))"

definition destroy_SqsClient :: "sqs_client \<Rightarrow> sqs_client" where
  "destroy_SqsClient c =
     c\<lparr>sc_stopping := True, sc_pending := Close ''SQS client is shutting down'' (sc_pending c)\<rparr>"

text \<open>The dispatcher thread is started once; both tests of the double check see the flag.\<close>

definition EnsureDispatcher :: "sqs_client \<Rightarrow> sqs_client" where
  "EnsureDispatcher c = (if sc_started c then c else c\<lparr>sc_started := True\<rparr>)"

section \<open>The dispatcher\<close>

record sqs_receive_request =
  sr_queueUrl :: string
  sr_maxMessages :: int
  sr_waitTimeSeconds :: int
  sr_visibilityTimeout :: int
  sr_attributeNames :: "string list"

record sqs_delete_request =
  sd_queueUrl :: string
  sd_receiptHandle :: string

record sqs_service =
  svc_receive :: "sqs_receive_request \<Rightarrow> aws_error + sqs_message list"
  svc_send :: "sqs_send_request \<Rightarrow> aws_error + unit"
  svc_delete :: "sqs_delete_request \<Rightarrow> aws_error + unit"

definition client_receive_request :: "sqs_config \<Rightarrow> sqs_receive_request" where
  "client_receive_request config =
    \<lparr>sr_queueUrl = c_str (sqs_replyQueueUrl config), sr_maxMessages = 10,
     sr_waitTimeSeconds = uint (sqs_waitTimeSeconds config),
     sr_visibilityTimeout = uint (sqs_visibilityTimeoutSeconds config),
     sr_attributeNames = [''All'']\<rparr>"

text \<open>What one reply message does to the table: it is deleted first, then settled.\<close>

definition dispatch_message ::
  "(string \<Rightarrow> bytes) \<Rightarrow> sqs_service \<Rightarrow> sqs_config \<Rightarrow> sqs_message \<Rightarrow> pr_event" where
  "dispatch_message dec svc config message =
     (let correlationId = GetStringAttribute message CorrelationIdAttribute in
      case svc_delete svc \<lparr>sd_queueUrl = c_str (sqs_replyQueueUrl config),
                           sd_receiptHandle = sm_receiptHandle message\<rparr> of
        Inl e \<Rightarrow> EFail correlationId (what (AwsError ''DeleteMessage'' e))
      | Inr _ \<Rightarrow>
          (case DecodePayload dec (sm_body message) of
             Inl e \<Rightarrow> EFail correlationId (what e)
           | Inr payload \<Rightarrow> EComplete correlationId payload))"

text \<open>
  One turn of the loop of \<^verbatim>\<open>DispatchReplies\<close> as the events it performs on the table,
  in order; nothing is received while nobody waits or after the stop flag is set.
\<close>

definition dispatch_turn ::
  "(string \<Rightarrow> bytes) \<Rightarrow> sqs_service \<Rightarrow> sqs_client \<Rightarrow> pr_event list" where
  "dispatch_turn dec svc c =
     (if sc_stopping c then []
      else if \<not> WaitForPending (sc_pending c) then []
      else case svc_receive svc (client_receive_request (sc_config c)) of
        Inl e \<Rightarrow> [EFailAll (what (AwsError ''ReceiveMessage'' e))]
      | Inr messages \<Rightarrow> map (dispatch_message dec svc (sc_config c)) messages)"

definition DispatchReplies ::
  "(string \<Rightarrow> bytes) \<Rightarrow> sqs_service \<Rightarrow> sqs_client \<Rightarrow> sqs_client" where
  "DispatchReplies dec svc c =
     c\<lparr>sc_pending := fold pr_apply (dispatch_turn dec svc c) (sc_pending c)\<rparr>"

section \<open>A call\<close>

definition call_request ::
  "sqs_config \<Rightarrow> string \<Rightarrow> string \<Rightarrow> sqs_send_request" where
  "call_request config correlationId body =
     (let send = \<lparr>ss_queueUrl = c_str (sqs_requestQueueUrl config), ss_body = body,
            ss_attributes = [CorrelationIdAttribute \<mapsto> StringAttribute correlationId],
            ss_groupId = None, ss_deduplicationId = None\<rparr>;
          send = (if \<not> sqs_oneWay config
                  then send\<lparr>ss_attributes := (ss_attributes send)
                    (ReplyToAttribute \<mapsto> StringAttribute (sqs_replyQueueUrl config))\<rparr>
                  else send)
      in ConfigureFifoMessage send (sqs_requestQueueUrl config) (sqs_messageGroupId config)
           correlationId)"

text \<open>The part of \<^verbatim>\<open>Call\<close> between the registration and the wait.\<close>

definition send_call ::
  "(bytes \<Rightarrow> string) \<Rightarrow> sqs_service \<Rightarrow> sqs_config \<Rightarrow> string \<Rightarrow> buf \<Rightarrow>
     unit result \<times> sqs_send_request list" where
  "send_call enc svc config correlationId d =
     (case EncodePayload enc d of
        Inl e \<Rightarrow> (Inl e, [])
      | Inr body \<Rightarrow>
          (let send = call_request config correlationId body in
           case svc_send svc send of
             Inl e \<Rightarrow> (Inl (AwsError ''SendMessage'' e), [send])
           | Inr _ \<Rightarrow> (Inr (), [send])))"

text \<open>
  \<^verbatim>\<open>Call\<close>: \<open>correlationId\<close> is the fresh id, \<open>during\<close> what the other threads do to
  the table between the registration and the end of the wait.  The result, the client after
  the ticket is destroyed, and the messages handed to the service.
\<close>

definition SqsCall ::
  "(bytes \<Rightarrow> string) \<Rightarrow> sqs_service \<Rightarrow> string \<Rightarrow> pr_event list \<Rightarrow> buf \<Rightarrow> sqs_client \<Rightarrow>
     bytes result \<times> sqs_client \<times> sqs_send_request list" where
  "SqsCall enc svc correlationId during d c =
     (if buf_size d > 0 \<and> buf_is_null d
      then (Inl (InvalidArgument ''SQS client: null payload with non-zero length''), c, [])
      else if sqs_oneWay (sc_config c)
      then (case send_call enc svc (sc_config c) correlationId d of
              (Inl e, sent) \<Rightarrow> (Inl e, c, sent)
            | (Inr _, sent) \<Rightarrow> (Inr [], c, sent))
      else let c = EnsureDispatcher c in
        (case Register correlationId (sc_pending c) of
           Inl e \<Rightarrow> (Inl e, c, [])
         | Inr (ticket, p) \<Rightarrow>
             let p = fold pr_apply during p in
             (case send_call enc svc (sc_config c) correlationId d of
                (Inl e, sent) \<Rightarrow> (Inl e, c\<lparr>sc_pending := ticket_destroy ticket p\<rparr>, sent)
              | (Inr _, sent) \<Rightarrow>
                  let (r, p) = Wait ticket p;
                      c = c\<lparr>sc_pending := ticket_destroy ticket p\<rparr>
                  in (case r of
                        Inl e \<Rightarrow> Inl e
                      | Inr None \<Rightarrow> Inl (RuntimeError (''SQS RPC timed out after '' @
                          to_string (uint (sqs_rpcTimeoutMs (sc_config c))) @
                          '' ms waiting for correlation id '' @ correlationId))
                      | Inr (Some response) \<Rightarrow> Inr response, c, sent))))"

section \<open>The transport\<close>

definition sqs_transport ::
  "(buf \<Rightarrow> bytes result) \<Rightarrow> transport" where
  "sqs_transport call messageByteArray messageByteArrayLen =
     (if sint messageByteArrayLen < 0 \<or> (sint messageByteArrayLen > 0 \<and> messageByteArray = None)
      then Some (Inl (InvalidArgument ''SQS transport: invalid request payload''))
      else case read_ptr messageByteArray (size_of_int32 messageByteArrayLen) of
        None \<Rightarrow> None
      | Some d \<Rightarrow> Some (rbind (call d) (\<lambda>response.
          rbind (RejectGatewayErrorPayload response) (\<lambda>_. Inr response))))"

text \<open>The transport passes messages and replies as the ABI expects.\<close>

interpretation sqs_plugin: plugin_transport sqs_transport
  by unfold_locales (simp add: sqs_transport_def reject_error_reply_def [abs_def] read_ptr_positive)

section \<open>Properties of a call\<close>

lemma EnsureDispatcher_fields [simp]:
  "sc_pending (EnsureDispatcher c) = sc_pending c"
  "sc_config (EnsureDispatcher c) = sc_config c"
  "sc_started (EnsureDispatcher c)"
  by (simp_all add: EnsureDispatcher_def)

definition sqs_timeout :: "sqs_config \<Rightarrow> string \<Rightarrow> exn" where
  "sqs_timeout config correlationId =
     RuntimeError (''SQS RPC timed out after '' @ to_string (uint (sqs_rpcTimeoutMs config)) @
       '' ms waiting for correlation id '' @ correlationId)"

lemma sqs_call_general:
  assumes "pending_wf (sc_pending c)" and "\<not> closed (sc_pending c)"
    and "map_of (slots (sc_pending c)) cid = None"
    and "\<not> sqs_oneWay (sc_config c)" and "\<not> (buf_size d > 0 \<and> buf_is_null d)"
    and "leaves cid during"
  shows "\<exists>c'. SqsCall enc svc cid during d c =
      ((case fst (send_call enc svc (sc_config c) cid d) of
          Inl e \<Rightarrow> Inl e
        | Inr _ \<Rightarrow>
            (case first_settle cid during of
               Waiting \<Rightarrow> Inl (sqs_timeout (sc_config c) cid)
             | Failed e \<Rightarrow> Inl (RuntimeError e)
             | Done pl \<Rightarrow> Inr pl)),
       c', snd (send_call enc svc (sc_config c) cid d)) \<and>
    map_of (slots (sc_pending c')) cid = None \<and> pending_wf (sc_pending c') \<and> sc_started c'"
proof -
  obtain t p where reg: "Register cid (sc_pending c) = Inr (t, p)"
    by (rule Register_succeeds [OF assms(2,3)])
  note after = wait_after_run [OF assms(1) reg assms(6)] wait_entry_gone [OF assms(1) reg]
    abandon_after_run [OF assms(1) reg]
  obtain r sent where send: "send_call enc svc (sc_config c) cid d = (r, sent)"
    by (cases "send_call enc svc (sc_config c) cid d")
  obtain w q where w: "Wait t (fold pr_apply during p) = (w, q)"
    by (cases "Wait t (fold pr_apply during p)")
  show ?thesis
  proof (cases r)
    case (Inl e)
    then show ?thesis
      using assms(4,5) reg send after(5,6) by (auto simp: SqsCall_def Let_def)
  next
    case (Inr u)
    then show ?thesis
      using assms(4,5) reg send w after(1,3,4) after(4) [of q]
      by (auto simp: SqsCall_def Let_def sqs_timeout_def split: outcome.split)
  qed
qed

text \<open>
  The outcome of an RPC call.  Whatever the other threads do to the table meanwhile, the
  call ends with the encoding or sending error, or with exactly what the first event for its own
  id says: that reply, that failure, or a timeout when there was none; and on every path the
  table is left well-formed without an entry of the call.
\<close>
theorem sqs_call_outcome:
  assumes "pending_wf (sc_pending c)" and "\<not> closed (sc_pending c)"
    and "map_of (slots (sc_pending c)) cid = None"
    and "\<not> sqs_oneWay (sc_config c)" and "\<not> (buf_size d > 0 \<and> buf_is_null d)"
    and "leaves cid during"
  shows "\<exists>c'. SqsCall enc svc cid during d c =
      ((case fst (send_call enc svc (sc_config c) cid d) of
          Inl e \<Rightarrow> Inl e
        | Inr _ \<Rightarrow>
            (case first_settle cid during of
               Waiting \<Rightarrow> Inl (sqs_timeout (sc_config c) cid)
             | Failed e \<Rightarrow> Inl (RuntimeError e)
             | Done pl \<Rightarrow> Inr pl)),
       c', snd (send_call enc svc (sc_config c) cid d)) \<and>
    map_of (slots (sc_pending c')) cid = None \<and> pending_wf (sc_pending c') \<and> sc_started c'"
  using assms by (rule sqs_call_general)

definition sqs_example_service :: sqs_service where
  "sqs_example_service =
    \<lparr>svc_receive = (\<lambda>_. Inr []), svc_send = (\<lambda>_. Inr ()), svc_delete = (\<lambda>_. Inr ())\<rparr>"

definition sqs_example_client :: sqs_client where
  "sqs_example_client =
    \<lparr>sc_config = default_sqs_config,
     sc_aws = \<lparr>aws_region = ''us-east-1'', aws_verifySSL = True, aws_connectTimeoutMs = 5000,
       aws_requestTimeoutMs = 30000, aws_httpRequestTimeoutMs = 30000, aws_https = None,
       aws_endpointOverride = None, aws_credentials = None, imds_disabled = False\<rparr>,
     sc_pending = new_pending,
     sc_started = False, sc_stopping = False\<rparr>"

lemma sqs_example_client_fields:
  "sc_config sqs_example_client = default_sqs_config"
  "sc_pending sqs_example_client = new_pending"
  "sqs_oneWay default_sqs_config = False"
  "slots new_pending = []" "closed new_pending = False"
  by (simp_all add: sqs_example_client_def default_sqs_config_def new_pending_def)

lemma sqs_example_send:
  "fst (send_call b64_encode sqs_example_service default_sqs_config ''id'' (Buf [1])) = Inr ()"
proof -
  have "length (b64_encode [1]) = 4" by (simp add: length_b64_encode)
  then have "EncodePayload b64_encode (Buf [1]) = Inr (payload_prefix @ b64_encode [1])"
    unfolding EncodePayload_Inr_iff by (simp add: MaxEncodedBodyBytes_def)
  then show ?thesis
    by (simp add: send_call_def sqs_example_service_def Let_def)
qed

lemma sqs_call_outcome_witness:
  "\<exists>c' sent. SqsCall b64_encode sqs_example_service ''id''
      [EComplete ''other'' [9], EComplete ''id'' [7]] (Buf [1]) sqs_example_client =
    (Inr [7], c', sent) \<and> map_of (slots (sc_pending c')) ''id'' = None"
  using sqs_call_outcome [of sqs_example_client "''id''" "Buf [1]"
      "[EComplete ''other'' [9], EComplete ''id'' [7]]" b64_encode sqs_example_service]
  by (auto simp: sqs_example_client_fields sqs_example_send)

text \<open>
  A one-way call never waits and never touches the table: it sends exactly one message,
  without a reply address, and returns the empty reply, or it reports the error of the encoding
  or of the service.
\<close>
theorem sqs_one_way_call:
  assumes "sqs_oneWay (sc_config c)" and "\<not> (buf_size d > 0 \<and> buf_is_null d)"
  shows "case SqsCall enc svc cid during d c of
    (r, c', sent) \<Rightarrow> c' = c \<and>
      (\<forall>m \<in> set sent. ss_attributes m ReplyToAttribute = None) \<and>
      (\<forall>reply. r = Inr reply \<longrightarrow> reply = [] \<and> length sent = 1)"
proof -
  have ne: "CorrelationIdAttribute \<noteq> ReplyToAttribute"
    by (simp add: CorrelationIdAttribute_def ReplyToAttribute_def)
  then have "ss_attributes (call_request (sc_config c) cid body) ReplyToAttribute = None" for body
    using assms(1) by (simp add: call_request_def ConfigureFifoMessage_def Let_def)
  then show ?thesis
    using assms by (auto simp: SqsCall_def send_call_def Let_def split: sum.splits)
qed

lemma sqs_one_way_call_witness:
  "\<exists>sent c'. SqsCall b64_encode sqs_example_service ''id'' [] (Buf [])
     (sqs_example_client\<lparr>sc_config := default_sqs_config\<lparr>sqs_oneWay := True\<rparr>\<rparr>) = (Inr [], c', sent) \<and>
   length sent = 1"
proof -
  let ?c = "sqs_example_client\<lparr>sc_config := default_sqs_config\<lparr>sqs_oneWay := True\<rparr>\<rparr>"
  obtain r c' sent where run: "SqsCall b64_encode sqs_example_service ''id'' [] (Buf []) ?c = (r, c', sent)"
    by (cases "SqsCall b64_encode sqs_example_service ''id'' [] (Buf []) ?c")
  have "EncodePayload b64_encode (Buf []) = Inr payload_prefix"
    by (simp add: EncodePayload_def MaxEncodedBodyBytes_def)
  then have "r = Inr []"
    using run by (simp add: SqsCall_def send_call_def sqs_example_service_def Let_def)
  then show ?thesis
    using sqs_one_way_call [of ?c "Buf []" b64_encode sqs_example_service "''id''" "[]"] run by auto
qed

section \<open>The dispatcher and the waiting call\<close>

lemma leaves_dispatch: "leaves cid (map (dispatch_message dec svc config) ms)"
  by (induction ms) (auto simp: dispatch_message_def Let_def split: sum.splits)

lemma first_settle_dispatch:
  "first_settle cid (map (dispatch_message dec svc config) ms) =
     (case filter (\<lambda>m. GetStringAttribute m CorrelationIdAttribute = cid) ms of
        [] \<Rightarrow> Waiting
      | m # _ \<Rightarrow>
          (case svc_delete svc \<lparr>sd_queueUrl = c_str (sqs_replyQueueUrl config),
                                sd_receiptHandle = sm_receiptHandle m\<rparr> of
             Inl e \<Rightarrow> Failed (what (AwsError ''DeleteMessage'' e))
           | Inr _ \<Rightarrow>
               (case DecodePayload dec (sm_body m) of
                  Inl e \<Rightarrow> Failed (what e)
                | Inr payload \<Rightarrow> Done payload)))"
  by (induction ms) (auto simp: dispatch_message_def Let_def split: sum.splits)

end
