(* ===== verification/SqsServer.thy ===== *)
theory SqsServer
  imports SqsClient AckServer Lifecycle
begin

text \<open>
  The server of the SQS plugin (\<^verbatim>\<open>SqsServer.cpp\<close>): how one request is handled, the
  receive loop, and the life cycle of \<^verbatim>\<open>start\<close> and \<^verbatim>\<open>stop\<close>.

  The gateway's callback is a parameter.  It calls \<^verbatim>\<open>writeResponse\<close> any number of
  times and returns a bool, or it throws.  What the handler does to the outside is a trace.
\<close>

section \<open>One request\<close>

type_synonym process_fn = "bytes \<Rightarrow> (buf list \<times> bool) result"

definition writeResponse :: "buf \<Rightarrow> bytes \<Rightarrow> bytes" where
  "writeResponse d output = (if buf_is_null d \<or> buf_size d = 0 then [] else buf_bytes d)"

datatype sqs_action =
    ProcessRequest bytes
  | SendReply sqs_send_request
  | DeleteRequest sqs_delete_request
  | LogWarn string

definition server_reply ::
  "sqs_config \<Rightarrow> string \<Rightarrow> string \<Rightarrow> string \<Rightarrow> string \<Rightarrow> sqs_send_request" where
  "server_reply config replyQueueUrl correlationId deduplicationId body =
     ConfigureFifoMessage
       \<lparr>ss_queueUrl = c_str replyQueueUrl, ss_body = body,
        ss_attributes = [CorrelationIdAttribute \<mapsto> StringAttribute correlationId],
        ss_groupId = None, ss_deduplicationId = None\<rparr>
       replyQueueUrl (sqs_messageGroupId config) deduplicationId"

text \<open>The end of a handled request: the delete and its warning.\<close>

definition delete_request :: "sqs_service \<Rightarrow> sqs_config \<Rightarrow> sqs_message \<Rightarrow> sqs_action list" where
  "delete_request svc config message =
     (let remove = \<lparr>sd_queueUrl = c_str (sqs_requestQueueUrl config),
                    sd_receiptHandle = sm_receiptHandle message\<rparr>
      in DeleteRequest remove #
         (case svc_delete svc remove of
            Inl e \<Rightarrow> [LogWarn (''DeleteMessage failed: '' @ c_str (snd e))]
          | Inr _ \<Rightarrow> []))"

text \<open>
  The body of the loop over the received messages.  \<open>Inl\<close> is an exception that the handler
  does not catch (it is not a \<^verbatim>\<open>std::exception\<close>).
\<close>

definition handle_message ::
  "(bytes \<Rightarrow> string) \<Rightarrow> (string \<Rightarrow> bytes) \<Rightarrow> sqs_service \<Rightarrow> process_fn \<Rightarrow> sqs_config \<Rightarrow> string \<Rightarrow>
     sqs_message \<Rightarrow> sqs_action list \<times> unit result" where
  "handle_message enc dec svc process config deduplicationId message =
     (let correlationId = GetStringAttribute message CorrelationIdAttribute;
          replyQueueUrl = (if sqs_oneWay config then []
                           else GetStringAttribute message ReplyToAttribute);
          caught = (\<lambda>acts e.
            if is_std e then (acts @ [LogWarn (''request processing failed: '' @ what e)], Inr ())
            else (acts, Inl e))
      in if \<not> sqs_oneWay config \<and> (correlationId = [] \<or> replyQueueUrl = [])
         then ([LogWarn (''RPC request is missing GraftcodeCorrelationId or GraftcodeReplyTo; '' @
                 ''request left for queue retry/DLQ policy'')], Inr ())
         else case DecodePayload dec (sm_body message) of
           Inl e \<Rightarrow> caught [] e
         | Inr request \<Rightarrow>
             (case process request of
                Inl e \<Rightarrow> caught [ProcessRequest request] e
              | Inr (writes, ok) \<Rightarrow>
                  let response = fold writeResponse writes [] in
                  if \<not> ok
                  then ([ProcessRequest request,
                         LogWarn (''processMessage returned false; request left '' @
                           ''for queue retry/DLQ policy'')], Inr ())
                  else if replyQueueUrl \<noteq> []
                  then (case EncodePayload enc (Buf response) of
                          Inl e \<Rightarrow> caught [ProcessRequest request] e
                        | Inr body \<Rightarrow>
                            let send = server_reply config replyQueueUrl correlationId
                                  deduplicationId body in
                            (case svc_send svc send of
                               Inl e \<Rightarrow> ([ProcessRequest request, SendReply send,
                                   LogWarn (''SendMessage reply failed: '' @ c_str (snd e))], Inr ())
                             | Inr _ \<Rightarrow> ([ProcessRequest request, SendReply send] @
                                   delete_request svc config message, Inr ())))
                  else ([ProcessRequest request] @ delete_request svc config message, Inr ())))"

section \<open>The receive loop\<close>

definition server_receive_request :: "sqs_config \<Rightarrow> sqs_receive_request" where
  "server_receive_request config =
    \<lparr>sr_queueUrl = c_str (sqs_requestQueueUrl config), sr_maxMessages = 1,
     sr_waitTimeSeconds = uint (sqs_waitTimeSeconds config),
     sr_visibilityTimeout = uint (sqs_visibilityTimeoutSeconds config),
     sr_attributeNames = [''All'']\<rparr>"

text \<open>
  A received batch: each message comes with the reading of the stop flag before it and with the
  fresh deduplication id of its reply.
\<close>

fun serve_batch ::
  "(bytes \<Rightarrow> string) \<Rightarrow> (string \<Rightarrow> bytes) \<Rightarrow> sqs_service \<Rightarrow> process_fn \<Rightarrow> sqs_config \<Rightarrow>
     (bool \<times> string \<times> sqs_message) list \<Rightarrow> sqs_action list \<times> unit result" where
  "serve_batch enc dec svc process config [] = ([], Inr ())"
| "serve_batch enc dec svc process config ((stop, dedup, message) # rest) =
     (if stop then ([], Inr ())
      else case handle_message enc dec svc process config dedup message of
        (acts, Inl e) \<Rightarrow> (acts, Inl e)
      | (acts, Inr _) \<Rightarrow>
          (case serve_batch enc dec svc process config rest of
             (acts', r) \<Rightarrow> (acts @ acts', r)))"

text \<open>
  The loop: each turn is the reading of the stop flag, the answer to the receive with the
  reading of the flag after a failure, and the annotated batch.  The loop ends when the flag is
  read as set or an exception leaves the batch; a run of which only the given turns are observed
  ends with \<open>None\<close>.
\<close>

datatype sqs_turn =
    StopSeen
  | ReceiveFailed aws_error bool
  | Received "(bool \<times> string \<times> sqs_message) list"

fun serve_loop ::
  "(bytes \<Rightarrow> string) \<Rightarrow> (string \<Rightarrow> bytes) \<Rightarrow> sqs_service \<Rightarrow> process_fn \<Rightarrow> sqs_config \<Rightarrow>
     sqs_turn list \<Rightarrow> sqs_action list \<times> unit result option" where
  "serve_loop enc dec svc process config [] = ([], None)"
| "serve_loop enc dec svc process config (StopSeen # _) = ([], Some (Inr ()))"
| "serve_loop enc dec svc process config (ReceiveFailed e stop # rest) =
     (case serve_loop enc dec svc process config rest of
        (acts, r) \<Rightarrow>
          ((if stop then [] else [LogWarn (''ReceiveMessage failed: '' @ c_str (snd e))]) @ acts, r))"
| "serve_loop enc dec svc process config (Received batch # rest) =
     (case serve_batch enc dec svc process config batch of
        (acts, Inl e) \<Rightarrow>
          (acts @ [LogWarn (if is_std e then ''server stopped after error: '' @ what e
             else ''server stopped after unknown error'')], Some (Inl e))
      | (acts, Inr _) \<Rightarrow>
          (case serve_loop enc dec svc process config rest of
             (acts', r) \<Rightarrow> (acts @ acts', r)))"

section \<open>When a request is deleted\<close>

text \<open>
  The request is settled: it decodes, the callback accepts it, and the reply, where one is due,
  was accepted by the service.
\<close>

definition request_settled ::
  "(bytes \<Rightarrow> string) \<Rightarrow> (string \<Rightarrow> bytes) \<Rightarrow> sqs_service \<Rightarrow> process_fn \<Rightarrow> sqs_config \<Rightarrow> string \<Rightarrow>
     sqs_message \<Rightarrow> bool" where
  "request_settled enc dec svc process config dedup m \<longleftrightarrow>
     (\<exists>request writes. DecodePayload dec (sm_body m) = Inr request \<and>
        process request = Inr (writes, True) \<and>
        (\<not> sqs_oneWay config \<longrightarrow>
           GetStringAttribute m CorrelationIdAttribute \<noteq> [] \<and>
           GetStringAttribute m ReplyToAttribute \<noteq> [] \<and>
           (\<exists>body. EncodePayload enc (Buf (fold writeResponse writes [])) = Inr body \<and>
              svc_send svc (server_reply config (GetStringAttribute m ReplyToAttribute)
                (GetStringAttribute m CorrelationIdAttribute) dedup body) = Inr ())))"

lemma delete_request_set:
  "DeleteRequest r \<in> set (delete_request svc config m) \<longleftrightarrow>
     r = \<lparr>sd_queueUrl = c_str (sqs_requestQueueUrl config), sd_receiptHandle = sm_receiptHandle m\<rparr>"
  "SendReply s \<notin> set (delete_request svc config m)"
  by (auto simp: delete_request_def Let_def split: sum.splits)

lemma handle_message_deletes_iff:
  "DeleteRequest r \<in> set (fst (handle_message enc dec svc process config dedup m)) \<longleftrightarrow>
     r = \<lparr>sd_queueUrl = c_str (sqs_requestQueueUrl config), sd_receiptHandle = sm_receiptHandle m\<rparr> \<and>
     request_settled enc dec svc process config dedup m"
  by (auto simp: handle_message_def Let_def request_settled_def delete_request_set
      split: sum.splits prod.splits)

fun is_delete :: "sqs_action \<Rightarrow> bool" where
  "is_delete (DeleteRequest r) = True"
| "is_delete _ = False"

lemma is_delete_iff: "is_delete a \<longleftrightarrow> (\<exists>r. a = DeleteRequest r)"
  by (cases a) auto

lemma handle_message_once:
  "length (filter is_delete (fst (handle_message enc dec svc process config dedup m))) \<le> 1"
proof -
  have "length (filter is_delete (delete_request svc config m)) \<le> 1"
    by (auto simp: delete_request_def Let_def split: sum.splits)
  then show ?thesis
    by (auto simp: handle_message_def Let_def split: sum.splits prod.splits)
qed

definition sqs_delete_of :: "sqs_config \<Rightarrow> string \<times> sqs_message \<Rightarrow> sqs_action \<Rightarrow> bool" where
  "sqs_delete_of config x a \<longleftrightarrow>
     a = DeleteRequest \<lparr>sd_queueUrl = c_str (sqs_requestQueueUrl config),
                        sd_receiptHandle = sm_receiptHandle (snd x)\<rparr>"

text \<open>The handler in the form of the interface; it keeps no state.\<close>

definition sqs_handle ::
  "(bytes \<Rightarrow> string) \<Rightarrow> (string \<Rightarrow> bytes) \<Rightarrow> sqs_service \<Rightarrow> process_fn \<Rightarrow> sqs_config \<Rightarrow> unit \<Rightarrow>
     string \<times> sqs_message \<Rightarrow> sqs_action list \<times> unit result \<times> unit" where
  "sqs_handle enc dec svc process config s x =
     (case handle_message enc dec svc process config (fst x) (snd x) of (acts, r) \<Rightarrow> (acts, r, s))"

lemma fst_sqs_handle [simp]:
  "fst (sqs_handle enc dec svc process config s x) =
     fst (handle_message enc dec svc process config (fst x) (snd x))"
  by (simp add: sqs_handle_def split: prod.split)

interpretation sqs_ack: ack_server
  "sqs_handle enc dec svc process config"
  is_delete
  "sqs_delete_of config"
  "\<lambda>_ x. request_settled enc dec svc process config (fst x) (snd x)"
  for enc dec svc process config
proof unfold_locales
  fix a s m
  assume "a \<in> set (fst (sqs_handle enc dec svc process config s m))"
    and "is_delete a"
  then show "sqs_delete_of config m a \<and> request_settled enc dec svc process config (fst m) (snd m)"
    using handle_message_deletes_iff by (auto simp: sqs_delete_of_def is_delete_iff)
next
  fix s m
  show "length (filter is_delete (fst (sqs_handle enc dec svc process config s m))) \<le> 1"
    by (simp only: fst_sqs_handle handle_message_once)
qed

lemma serve_batch_run:
  "serve_batch enc dec svc process config ms =
     (case run_batch (sqs_handle enc dec svc process config) () ms of (acts, r, _) \<Rightarrow> (acts, r))"
  by (induction ms) (auto simp: sqs_handle_def split: prod.splits sum.splits)

text \<open>
  C14. A request is deleted exactly when it is settled, and then exactly in this order: the
  callback ran on the decoded payload, the reply (for an RPC request) was handed to the service,
  and only then the request was deleted.  A request that fails anywhere stays in the queue.
\<close>
theorem sqs_delete_iff_settled:
  "(DeleteRequest r \<in> set (fst (handle_message enc dec svc process config dedup m)) \<longleftrightarrow>
     r = \<lparr>sd_queueUrl = c_str (sqs_requestQueueUrl config),
          sd_receiptHandle = sm_receiptHandle m\<rparr> \<and>
     request_settled enc dec svc process config dedup m) \<and>
   (request_settled enc dec svc process config dedup m \<longrightarrow>
     (\<exists>request replies warnings.
        fst (handle_message enc dec svc process config dedup m) =
          ProcessRequest request # map SendReply replies @
          DeleteRequest \<lparr>sd_queueUrl = c_str (sqs_requestQueueUrl config),
            sd_receiptHandle = sm_receiptHandle m\<rparr> # map LogWarn warnings \<and>
        DecodePayload dec (sm_body m) = Inr request \<and>
        length replies = (if sqs_oneWay config then 0 else 1)))"
proof -
  have "\<exists>warnings. delete_request svc config m =
      DeleteRequest \<lparr>sd_queueUrl = c_str (sqs_requestQueueUrl config),
        sd_receiptHandle = sm_receiptHandle m\<rparr> # map LogWarn warnings"
  proof (cases "svc_delete svc \<lparr>sd_queueUrl = c_str (sqs_requestQueueUrl config),
      sd_receiptHandle = sm_receiptHandle m\<rparr>")
    case (Inl e)
    then show ?thesis
      by (intro exI [of _ "[''DeleteMessage failed: '' @ c_str (snd e)]"])
        (simp add: delete_request_def Let_def)
  next
    case (Inr u)
    then show ?thesis by (intro exI [of _ "[]"]) (simp add: delete_request_def Let_def)
  qed
  then obtain warnings where del: "delete_request svc config m =
      DeleteRequest \<lparr>sd_queueUrl = c_str (sqs_requestQueueUrl config),
        sd_receiptHandle = sm_receiptHandle m\<rparr> # map LogWarn warnings" ..
  have "\<exists>request replies.
      fst (handle_message enc dec svc process config dedup m) =
        ProcessRequest request # map SendReply replies @ delete_request svc config m \<and>
      DecodePayload dec (sm_body m) = Inr request \<and>
      length replies = (if sqs_oneWay config then 0 else 1)"
    if settled: "request_settled enc dec svc process config dedup m"
  proof (cases "sqs_oneWay config")
    case True
    then show ?thesis
      using settled by (auto simp: request_settled_def handle_message_def Let_def)
  next
    case False
    obtain request writes body where
      *: "DecodePayload dec (sm_body m) = Inr request" "process request = Inr (writes, True)"
      "GetStringAttribute m CorrelationIdAttribute \<noteq> []" "GetStringAttribute m ReplyToAttribute \<noteq> []"
      "EncodePayload enc (Buf (fold writeResponse writes [])) = Inr body"
      "svc_send svc (server_reply config (GetStringAttribute m ReplyToAttribute)
        (GetStringAttribute m CorrelationIdAttribute) dedup body) = Inr ()"
      using settled False unfolding request_settled_def by blast
    then show ?thesis
      using False
      by (intro exI [of _ request] exI [of _ "[server_reply config (GetStringAttribute m ReplyToAttribute)
            (GetStringAttribute m CorrelationIdAttribute) dedup body]"])
        (simp add: handle_message_def Let_def)
  qed
  then show ?thesis
    using handle_message_deletes_iff del by (metis (no_types, lifting))
qed

text \<open>
  The whole loop keeps the rule: in a run of the server, over any batches, failures and
  readings of the stop flag, every deleted request is one that was received and settled.
\<close>

theorem sqs_loop_deletes_settled:
  assumes "DeleteRequest r \<in> set (fst (serve_loop enc dec svc process config turns))"
  shows "\<exists>batch dedup m. Received batch \<in> set turns \<and> (dedup, m) \<in> snd ` set batch \<and>
    sd_receiptHandle r = sm_receiptHandle m \<and> request_settled enc dec svc process config dedup m"
  using assms
proof (induction turns)
  case (Cons t turns)
  obtain acts' r' where rest: "serve_loop enc dec svc process config turns = (acts', r')"
    by (cases "serve_loop enc dec svc process config turns")
  show ?case
  proof (cases t)
    case StopSeen
    with Cons.prems show ?thesis by simp
  next
    case (ReceiveFailed e stop)
    with Cons rest show ?thesis by (auto split: if_splits)
  next
    case (Received batch)
    obtain acts r'' where b: "serve_batch enc dec svc process config batch = (acts, r'')"
      by (cases "serve_batch enc dec svc process config batch")
    have "DeleteRequest r \<in> set acts \<or> DeleteRequest r \<in> set acts'"
      using Cons.prems by (auto simp: Received b rest split: sum.splits)
    then show ?thesis
    proof
      assume "DeleteRequest r \<in> set acts"
      then have "DeleteRequest r \<in> set (fst (run_batch (sqs_handle enc dec svc process config) () batch))"
        using b by (auto simp: serve_batch_run split: prod.splits)
      from sqs_ack.batch_acks_settled [OF this]
      have "\<exists>x \<in> snd ` set batch. sqs_delete_of config x (DeleteRequest r) \<and>
          request_settled enc dec svc process config (fst x) (snd x)"
        by simp
      then obtain x where
        "x \<in> snd ` set batch" "sqs_delete_of config x (DeleteRequest r)"
        "request_settled enc dec svc process config (fst x) (snd x)"
        by blast
      then show ?thesis
        using Received
        by (intro exI [of _ batch] exI [of _ "fst x"] exI [of _ "snd x"])
          (simp add: sqs_delete_of_def)
    next
      assume "DeleteRequest r \<in> set acts'"
      then show ?thesis using Cons.IH rest by auto
    qed
  qed
qed simp

definition sqs_example_request :: sqs_message where
  "sqs_example_request =
    \<lparr>sm_attributes = [CorrelationIdAttribute \<mapsto> ''c'', ReplyToAttribute \<mapsto> ''q''],
     sm_body = payload_prefix @ b64_encode [1], sm_receiptHandle = ''h''\<rparr>"

lemma sqs_example_request_settled:
  "request_settled b64_encode b64_decode_total sqs_example_service (\<lambda>_. Inr ([Buf [2]], True))
     default_sqs_config dedup sqs_example_request"
proof -
  have "17 + length (b64_encode [2]) \<le> MaxEncodedBodyBytes"
    by (simp add: length_b64_encode MaxEncodedBodyBytes_def)
  then have "EncodePayload b64_encode (Buf [2]) = Inr (payload_prefix @ b64_encode [2])"
    unfolding EncodePayload_Inr_iff by (simp del: b64_encode.simps)
  then show ?thesis
    by (simp add: request_settled_def sqs_example_request_def pubsub_b64.DecodePayload_enc
        writeResponse_def GetStringAttribute_def CorrelationIdAttribute_def ReplyToAttribute_def
        c_str_def sqs_example_service_def del: b64_encode.simps)
qed

lemma sqs_delete_iff_settled_witness:
  "\<exists>request replies warnings.
     fst (handle_message b64_encode b64_decode_total sqs_example_service
        (\<lambda>_. Inr ([Buf [2]], True)) default_sqs_config ''d'' sqs_example_request) =
       ProcessRequest request # map SendReply replies @
       DeleteRequest \<lparr>sd_queueUrl = [], sd_receiptHandle = ''h''\<rparr> # map LogWarn warnings \<and>
     length replies = 1"
  using conjunct2 [OF sqs_delete_iff_settled [of undefined b64_encode b64_decode_total
      sqs_example_service "\<lambda>_. Inr ([Buf [2]], True)" default_sqs_config "''d''"
      sqs_example_request], THEN mp, OF sqs_example_request_settled]
  by (auto simp: sqs_example_request_def default_sqs_config_def c_str_def)

lemma sqs_loop_deletes_settled_witness:
  "\<exists>batch dedup m. Received batch \<in> {Received [(False, ''d'', sqs_example_request)]} \<and>
    (dedup, m) \<in> snd ` set batch \<and>
    request_settled b64_encode b64_decode_total sqs_example_service (\<lambda>_. Inr ([Buf [2]], True))
      default_sqs_config dedup m"
proof -
  let ?r = "\<lparr>sd_queueUrl = c_str (sqs_requestQueueUrl default_sqs_config), sd_receiptHandle = ''h''\<rparr>"
  let ?h = "handle_message b64_encode b64_decode_total sqs_example_service
    (\<lambda>_. Inr ([Buf [2]], True)) default_sqs_config ''d'' sqs_example_request"
  have "DeleteRequest ?r \<in> set (fst ?h)"
    using sqs_example_request_settled [of "''d''"]
    by (simp add: handle_message_deletes_iff) (simp add: sqs_example_request_def)
  then have "DeleteRequest ?r \<in> set (fst (serve_loop b64_encode b64_decode_total
      sqs_example_service (\<lambda>_. Inr ([Buf [2]], True)) default_sqs_config
      [Received [(False, ''d'', sqs_example_request)], StopSeen]))"
    by (cases ?h) (auto split: sum.split)
  from sqs_loop_deletes_settled [OF this] show ?thesis by auto
qed

section \<open>From the caller to the callback and back\<close>

text \<open>What the queue delivers for a sent message.\<close>

definition delivered :: "sqs_send_request \<Rightarrow> string \<Rightarrow> sqs_message" where
  "delivered s handle =
     \<lparr>sm_attributes = ss_attributes s, sm_body = ss_body s, sm_receiptHandle = handle\<rparr>"

lemma call_request_attributes:
  assumes "\<not> sqs_oneWay config"
  shows "ss_attributes (call_request config cid body) =
      [CorrelationIdAttribute \<mapsto> c_str cid, ReplyToAttribute \<mapsto> c_str (sqs_replyQueueUrl config)]"
    and "ss_body (call_request config cid body) = body"
  using assms by (simp_all add: call_request_def ConfigureFifoMessage_def Let_def StringAttribute_def)

lemma server_reply_fields:
  "ss_attributes (server_reply config url cid dedup body) = [CorrelationIdAttribute \<mapsto> c_str cid]"
  "ss_body (server_reply config url cid dedup body) = body"
  by (simp_all add: server_reply_def ConfigureFifoMessage_def StringAttribute_def)

text \<open>
  C12. A request makes the round trip.  With a service that accepts what it is given and any
  lawful Base64 codec, the request of a call is decoded by the server to the caller's bytes, the
  server answers with a reply, and when that reply is dispatched, behind any messages of other
  ids and before any further ones, the call returns exactly the bytes that the callback wrote
  last.
\<close>
theorem sqs_rpc_round_trip:
  assumes codec: "base64_codec enc dec"
    and svc: "\<And>s. svc_send svc s = Inr ()" "\<And>r. svc_delete svc r = Inr ()"
    and rpc: "\<not> sqs_oneWay (sc_config c)" "\<not> sqs_oneWay config"
    and cid: "cid \<noteq> []" "c_str cid = cid" "c_str (sqs_replyQueueUrl (sc_config c)) \<noteq> []"
    and sizes: "length d \<le> 786417" "length (fold writeResponse writes []) \<le> 786417"
    and process: "process d = Inr (writes, True)"
    and table: "pending_wf (sc_pending c)" "\<not> closed (sc_pending c)"
      "map_of (slots (sc_pending c)) cid = None"
    and stale: "\<forall>m \<in> set before. GetStringAttribute m CorrelationIdAttribute \<noteq> cid"
  shows "\<exists>request reply c'.
    SendReply reply \<in> set (fst (handle_message enc dec svc process config dedup
      (delivered request h))) \<and>
    SqsCall enc svc cid
      (map (dispatch_message dec svc (sc_config c)) (before @ delivered reply h' # after))
      (Buf d) c = (Inr (fold writeResponse writes []), c', [request])"
proof -
  have fits: "EncodePayload enc (Buf x) = Inr (payload_prefix @ enc x)" if "length x \<le> 786417" for x
    unfolding EncodePayload_Inr_iff using base64_codec.payload_fits_iff [OF codec, of x] that by simp
  note dec = base64_codec.DecodePayload_enc [OF codec]
  have ne: "CorrelationIdAttribute \<noteq> ReplyToAttribute"
    by (simp add: CorrelationIdAttribute_def ReplyToAttribute_def)
  define request where "request = call_request (sc_config c) cid (payload_prefix @ enc d)"
  define url where "url = c_str (sqs_replyQueueUrl (sc_config c))"
  define reply where
    "reply = server_reply config url cid dedup (payload_prefix @ enc (fold writeResponse writes []))"
  have send: "send_call enc svc (sc_config c) cid (Buf d) = (Inr (), [request])"
    by (simp add: send_call_def fits sizes svc request_def Let_def)
  have attrs: "GetStringAttribute (delivered request h) CorrelationIdAttribute = cid"
      "GetStringAttribute (delivered request h) ReplyToAttribute = url"
      "sm_body (delivered request h) = payload_prefix @ enc d"
    using ne by (simp_all add: GetStringAttribute_def delivered_def request_def url_def
        call_request_attributes rpc cid)
  have served: "SendReply reply \<in> set (fst (handle_message enc dec svc process config dedup
      (delivered request h)))"
    using cid rpc
    by (simp add: handle_message_def Let_def attrs dec process fits sizes svc reply_def url_def)
  have got: "first_settle cid (map (dispatch_message dec svc (sc_config c))
      (before @ delivered reply h' # after)) = Done (fold writeResponse writes [])"
  proof -
    have "filter (\<lambda>m. GetStringAttribute m CorrelationIdAttribute = cid) before = []"
      using stale by (auto simp: filter_empty_conv)
    then show ?thesis
      unfolding first_settle_dispatch
      by (simp add: GetStringAttribute_def delivered_def reply_def server_reply_fields cid svc dec)
  qed
  from sqs_call_general [OF table rpc(1), of "Buf d" "map (dispatch_message dec svc (sc_config c))
      (before @ delivered reply h' # after)" enc svc]
  have "\<exists>c'. SqsCall enc svc cid (map (dispatch_message dec svc (sc_config c))
      (before @ delivered reply h' # after)) (Buf d) c =
      (Inr (fold writeResponse writes []), c', [request])"
    by (simp only: got send leaves_dispatch) auto
  with served show ?thesis by blast
qed

lemma sqs_rpc_round_trip_witness:
  "\<exists>request reply c'.
    SendReply reply \<in> set (fst (handle_message b64_encode b64_decode_total sqs_example_service
      (\<lambda>d. Inr ([Buf (rev d)], True)) default_sqs_config ''dedup'' (delivered request ''h''))) \<and>
    SqsCall b64_encode sqs_example_service ''id''
      (map (dispatch_message b64_decode_total sqs_example_service default_sqs_config)
        [delivered reply ''h2''])
      (Buf [1, 2])
      (sqs_example_client\<lparr>sc_config := default_sqs_config\<lparr>sqs_replyQueueUrl := ''replies''\<rparr>\<rparr>) =
    (Inr [2, 1], c', [request])"
proof -
  let ?c = "sqs_example_client\<lparr>sc_config := default_sqs_config\<lparr>sqs_replyQueueUrl := ''replies''\<rparr>\<rparr>"
  have c: "sc_config ?c = default_sqs_config\<lparr>sqs_replyQueueUrl := ''replies''\<rparr>"
    "sc_pending ?c = new_pending"
    by (simp_all add: sqs_example_client_def)
  have "c_str ''id'' = ''id''" "c_str ''replies'' = ''replies''" by (simp_all add: c_str_def)
  with sqs_rpc_round_trip [OF pubsub_b64.base64_codec_axioms, of sqs_example_service ?c
      default_sqs_config "''id''" "[1, 2]" "[Buf [2, 1]]" "\<lambda>d. Inr ([Buf (rev d)], True)" "[]"
      "''dedup''" "''h''" "''h2''" "[]"] c sqs_example_client_fields
  show ?thesis by (simp add: sqs_example_service_def writeResponse_def dispatch_message_def)
qed

section \<open>Start and stop\<close>

text \<open>
  The server object and the place where the starting thread is.  Clients are numbered in the
  order of their creation; \<open>sv_disabled\<close> are those whose request processing was disabled;
  \<open>sv_stoppers\<close> are the snapshots of threads inside \<^verbatim>\<open>stop\<close> that have not yet acted
  on them.
\<close>

datatype sv_phase = SvIdle | SvPublished | SvCopied | SvLoop | SvFinish

record sqs_server =
  sv_config :: sqs_config
  sv_process :: bool
  sv_running :: bool
  sv_stopRequested :: bool
  sv_activeClient :: "nat option"
  sv_phase :: sv_phase
  sv_run :: "sqs_config \<times> bool"
  sv_clients :: nat
  sv_disabled :: "nat set"
  sv_stoppers :: "nat option list"

definition new_SqsServer :: sqs_server where
  "new_SqsServer =
    \<lparr>sv_config = default_sqs_config, sv_process = False, sv_running = False,
     sv_stopRequested = False, sv_activeClient = None, sv_phase = SvIdle,
     sv_run = (default_sqs_config, False), sv_clients = 0, sv_disabled = {}, sv_stoppers = []\<rparr>"

definition configure :: "cpp_env \<Rightarrow> string \<Rightarrow> bool \<Rightarrow> sqs_server \<Rightarrow> unit result \<times> sqs_server" where
  "configure env jsonConfig hasProcess s =
     (if \<not> hasProcess
      then (Inl (RuntimeError ''SQS server: processMessage callback is required''), s)
      else case rbind (ParseSqsConfigSource env jsonConfig)
          (\<lambda>c. rbind (sqs_ValidateServerConfig c) (\<lambda>_. Inr c)) of
        Inl e \<Rightarrow> (Inl e, s)
      | Inr config \<Rightarrow>
          if sv_running s
          then (Inl (RuntimeError ''SQS server: cannot configure while running''), s)
          else (Inr (), s\<lparr>sv_config := config, sv_process := True\<rparr>))"

text \<open>The critical sections and decisions of \<^verbatim>\<open>start\<close>, in order.\<close>

definition start_publish :: "sqs_server \<Rightarrow> sqs_server" where
  "start_publish s =
     (if sv_running s then s
      else s\<lparr>sv_stopRequested := False, sv_running := True, sv_phase := SvPublished\<rparr>)"

definition start_copy :: "sqs_server \<Rightarrow> sqs_server" where
  "start_copy s = s\<lparr>sv_run := (sv_config s, sv_process s), sv_phase := SvCopied\<rparr>"

definition start_client :: "sqs_server \<Rightarrow> sqs_server" where
  "start_client s =
     (case rbind (sqs_ValidateServerConfig (fst (sv_run s)))
        (\<lambda>_. if \<not> snd (sv_run s)
             then Inl (RuntimeError ''SQS server: processMessage callback is not configured'')
             else CreateAwsSqsClient (fst (sv_run s))) of
        Inl e \<Rightarrow> s\<lparr>sv_phase := SvFinish\<rparr>
      | Inr client \<Rightarrow>
          s\<lparr>sv_activeClient := Some (sv_clients s), sv_clients := sv_clients s + 1,
            sv_disabled := (if sv_stopRequested s then insert (sv_clients s) (sv_disabled s)
                            else sv_disabled s),
            sv_phase := SvLoop\<rparr>)"

text \<open>The loop test; \<open>crash\<close> says that an exception left the turn.\<close>

definition start_turn :: "bool \<Rightarrow> sqs_server \<Rightarrow> sqs_server" where
  "start_turn crash s = (if sv_stopRequested s \<or> crash then s\<lparr>sv_phase := SvFinish\<rparr> else s)"

definition start_finish :: "sqs_server \<Rightarrow> sqs_server" where
  "start_finish s = s\<lparr>sv_activeClient := None, sv_running := False, sv_phase := SvIdle\<rparr>"

definition stop_signal :: "sqs_server \<Rightarrow> sqs_server" where
  "stop_signal s = s\<lparr>sv_stopRequested := True, sv_stoppers := sv_activeClient s # sv_stoppers s\<rparr>"

definition stop_disable :: "nat option \<Rightarrow> sqs_server \<Rightarrow> sqs_server" where
  "stop_disable client s =
     s\<lparr>sv_disabled := (case client of None \<Rightarrow> sv_disabled s | Some k \<Rightarrow> insert k (sv_disabled s)),
       sv_stoppers := remove1 client (sv_stoppers s)\<rparr>"

inductive sv_own :: "sqs_server \<Rightarrow> sqs_server \<Rightarrow> bool" where
  own_copy: "sv_phase s = SvPublished \<Longrightarrow> sv_own s (start_copy s)"
| own_client: "sv_phase s = SvCopied \<Longrightarrow> sv_own s (start_client s)"
| own_turn: "sv_phase s = SvLoop \<Longrightarrow> sv_own s (start_turn crash s)"
| own_finish: "sv_phase s = SvFinish \<Longrightarrow> sv_own s (start_finish s)"

inductive sv_step :: "sqs_server \<Rightarrow> sqs_server \<Rightarrow> bool" where
  sv_own_step: "sv_own s t \<Longrightarrow> sv_step s t"
| sv_configure: "sv_step s (snd (configure env source hasProcess s))"
| sv_start: "sv_step s (start_publish s)"
| sv_signal: "sv_step s (stop_signal s)"
| sv_disable: "client \<in> set (sv_stoppers s) \<Longrightarrow> sv_step s (stop_disable client s)"

inductive_cases sv_own_E: "sv_own s t"
inductive_cases sv_step_E: "sv_step s t"

lemmas sv_ops =
  start_publish_def start_copy_def start_client_def start_turn_def start_finish_def
  stop_signal_def stop_disable_def configure_def

definition sv_inv :: "sqs_server \<Rightarrow> bool" where
  "sv_inv s \<longleftrightarrow>
     (sv_running s \<longleftrightarrow> sv_phase s \<noteq> SvIdle) \<and>
     (sv_phase s = SvLoop \<longrightarrow> sv_activeClient s \<noteq> None) \<and>
     (sv_phase s \<in> {SvIdle, SvPublished, SvCopied} \<longrightarrow> sv_activeClient s = None) \<and>
     (\<forall>k. sv_activeClient s = Some k \<and> sv_stopRequested s \<longrightarrow>
        k \<in> sv_disabled s \<or> Some k \<in> set (sv_stoppers s))"

lemma sv_inv_new: "sv_inv new_SqsServer"
  by (simp add: sv_inv_def new_SqsServer_def)

lemma sv_inv_own: "sv_own s t \<Longrightarrow> sv_inv s \<Longrightarrow> sv_inv t"
  by (erule sv_own_E) (auto simp: sv_inv_def sv_ops split: sum.splits if_splits)

lemma sv_inv_disable: "sv_inv s \<Longrightarrow> sv_inv (stop_disable client s)"
  by (cases client) (auto simp: sv_inv_def stop_disable_def)

lemma sv_inv_step: "sv_step s t \<Longrightarrow> sv_inv s \<Longrightarrow> sv_inv t"
proof (erule sv_step_E)
  fix env source hasProcess
  assume "sv_inv s" "t = snd (configure env source hasProcess s)"
  then show "sv_inv t"
    by (auto simp: sv_inv_def configure_def split: sum.splits if_splits)
qed (auto intro: sv_inv_own sv_inv_disable, auto simp: sv_inv_def sv_ops)

fun sv_rank :: "sv_phase \<Rightarrow> nat" where
  "sv_rank SvIdle = 0"
| "sv_rank SvFinish = 1"
| "sv_rank SvLoop = 2"
| "sv_rank SvCopied = 3"
| "sv_rank SvPublished = 4"

text \<open>The states of which the serving thread is at a place of \<^verbatim>\<open>start\<close> while it runs.\<close>

definition sv_busy :: "sqs_server \<Rightarrow> bool" where
  "sv_busy s \<longleftrightarrow> sv_running s \<and> sv_phase s \<noteq> SvIdle"

lemma sv_stop_kept:
  assumes "sv_step s t" "sv_running s" "sv_stopRequested s"
  shows "sv_stopRequested t"
  using assms(1)
proof (rule sv_step_E)
  assume "sv_own s t"
  then show ?thesis
    by (rule sv_own_E) (use assms in \<open>auto simp: sv_ops split: sum.splits\<close>)
next
  fix env source hasProcess
  assume "t = snd (configure env source hasProcess s)"
  then show ?thesis using assms by (auto simp: configure_def split: sum.splits)
qed (use assms in \<open>auto simp: sv_ops\<close>)

lemma sv_wind_down:
  "sv_own s t \<Longrightarrow> sv_stopRequested s \<Longrightarrow> sv_rank (sv_phase t) < sv_rank (sv_phase s)"
  by (elim sv_own_E) (auto simp: sv_ops split: sum.splits)

interpretation sqs_stop: stoppable_among sv_step sv_own sv_busy sv_stopRequested
  "\<lambda>s. sv_rank (sv_phase s)"
proof unfold_locales
  fix s t
  assume "sv_step s t" "sv_busy s" "sv_stopRequested s"
  then show "sv_stopRequested t" using sv_stop_kept by (simp add: sv_busy_def)
next
  fix s
  assume "sv_busy s"
  then show "\<exists>t. sv_own s t"
    by (cases "sv_phase s") (auto simp: sv_busy_def intro: sv_own.intros)
next
  fix s t
  assume "sv_own s t" "sv_stopRequested s"
  then show "sv_rank (sv_phase t) < sv_rank (sv_phase s)" by (rule sv_wind_down)
next
  fix s t
  assume "sv_step s t" "sv_busy s" "sv_stopRequested s"
  then show "sv_rank (sv_phase t) \<le> sv_rank (sv_phase s)"
    by (elim sv_step_E) (auto simp: sv_ops sv_busy_def less_imp_le sv_wind_down split: sum.splits)
qed (rule sv_own_step)

text \<open>
  C28. A stop is not lost.  In every state the server can reach: when a stop was requested and a
  client of the AWS library is active, its request processing is disabled or a thread inside
  \<^verbatim>\<open>stop\<close> is about to disable it, so the receive loop cannot stay blocked in long polling;
  no step but the end of the run clears the request; in every interleaving with the other threads
  the serving thread makes at most three more steps before its last one, the one that ends the
  run, and until then it always has a step to make, so that every fair run ends; it can also get
  there alone; and when the run is over no client is left active.
\<close>
theorem sqs_stop_not_lost:
  assumes "reaches sv_step new_SqsServer s" and "sv_running s" and "sv_stopRequested s"
  shows "(\<forall>k. sv_activeClient s = Some k \<longrightarrow> k \<in> sv_disabled s \<or> Some k \<in> set (sv_stoppers s)) \<and>
    (\<forall>t. sv_step s t \<longrightarrow> sv_stopRequested t) \<and>
    (\<forall>n t. serves sv_step sv_own sv_running n s t \<longrightarrow>
       sv_stopRequested t \<and> n \<le> 3 \<and> (\<exists>u. sv_own t u)) \<and>
    (\<exists>t. reaches sv_own s t \<and> \<not> sv_running t \<and> sv_activeClient t = None) \<and>
    (\<forall>t. reaches sv_step s t \<and> \<not> sv_running t \<longrightarrow> sv_activeClient t = None)"
proof -
  have inv: "sv_inv s"
    using assms(1) by (rule reaches_invariant) (auto intro: sv_inv_new sv_inv_step)
  then have busy: "sv_busy s" using assms(2) by (simp add: sv_busy_def sv_inv_def)
  from sqs_stop.stops [OF this assms(3)] obtain t where t: "reaches sv_own s t" "\<not> sv_busy t"
    by blast
  have "sv_inv t"
    using t(1) inv by (rule reaches_invariant) (rule sv_inv_own)
  then have "\<not> sv_running t \<and> sv_activeClient t = None"
    using t(2) by (auto simp: sv_busy_def sv_inv_def)
  moreover have "sv_stopRequested t \<and> n \<le> 3 \<and> (\<exists>u. sv_own t u)"
    if serves: "serves sv_step sv_own sv_running n s t" for n t
  proof -
    have "serves sv_step sv_own sv_busy n s t"
      by (rule conjunct2 [OF serves_mono [OF serves, of sv_inv]])
        (use inv sv_own_step sv_inv_step in \<open>simp_all add: sv_busy_def sv_inv_def\<close>)
    from sqs_stop.serves_bounded [OF this busy assms(3)]
    have "sv_busy t" "sv_stopRequested t" "n + sv_rank (sv_phase t) \<le> sv_rank (sv_phase s)" "\<exists>u. sv_own t u"
      by auto
    moreover have "sv_rank (sv_phase s) \<le> 4" by (cases "sv_phase s") simp_all
    moreover have "1 \<le> sv_rank (sv_phase t)"
      using \<open>sv_busy t\<close> by (cases "sv_phase t") (simp_all add: sv_busy_def)
    ultimately show ?thesis by simp
  qed
  moreover have "sv_activeClient t = None" if "reaches sv_step s t" "\<not> sv_running t" for t
  proof -
    have "sv_inv t" using that(1) inv by (rule reaches_invariant) (rule sv_inv_step)
    with that(2) show ?thesis by (simp add: sv_inv_def)
  qed
  moreover have "\<forall>k. sv_activeClient s = Some k \<longrightarrow> k \<in> sv_disabled s \<or> Some k \<in> set (sv_stoppers s)"
    using inv assms(3) by (simp add: sv_inv_def)
  ultimately show ?thesis
    using t(1) sv_stop_kept assms(2,3) by blast
qed

lemma sqs_stop_not_lost_witness:
  "\<exists>s t. reaches sv_step new_SqsServer s \<and> sv_running s \<and> sv_stopRequested s \<and>
    reaches sv_own s t \<and> \<not> sv_running t"
proof -
  define s where "s = stop_signal (start_publish new_SqsServer)"
  have "reaches sv_step new_SqsServer s"
    unfolding s_def
    using sv_start [of new_SqsServer] sv_signal [of "start_publish new_SqsServer"]
    by (blast intro: reaches_step reaches_refl)
  moreover have "sv_running s" "sv_stopRequested s"
    by (simp_all add: s_def stop_signal_def start_publish_def new_SqsServer_def)
  ultimately show ?thesis using sqs_stop_not_lost by blast
qed

end
