(* ===== verification/PubSubConfig.thy ===== *)
theory PubSubConfig
  imports Json
begin

text \<open>
  Configuration of the Pub/Sub plugin (\<^verbatim>\<open>PubSubConfig.h\<close>,
  \<^verbatim>\<open>PubSubConfig.cpp\<close>): the search for the plugin's node, the fields, their defaults
  and limits, the emulator host, the run-time environment and the validators.
\<close>

section \<open>The configuration\<close>

record pubsub_config =
  ps_name :: string
  ps_projectId :: string
  ps_requestTopic :: string
  ps_requestSubscription :: string
  ps_replyTopic :: string
  ps_replySubscription :: string
  ps_emulatorHost :: string
  ps_credentialsFile :: string
  ps_accessToken :: string
  ps_rpcTimeoutMs :: u32
  ps_ackDeadlineSeconds :: u32
  ps_maxMessages :: u32
  ps_oneWay :: bool
  ps_autoCreate :: bool
  ps_autoCreateSpecified :: bool
  ps_verifySsl :: bool
  ps_emulatorUseHttps :: bool

definition default_pubsub_config :: pubsub_config where
  "default_pubsub_config =
    \<lparr>ps_name = [], ps_projectId = [], ps_requestTopic = [], ps_requestSubscription = [],
     ps_replyTopic = [], ps_replySubscription = [], ps_emulatorHost = [],
     ps_credentialsFile = [], ps_accessToken = [], ps_rpcTimeoutMs = 30000,
     ps_ackDeadlineSeconds = 60, ps_maxMessages = 10, ps_oneWay = False,
     ps_autoCreate = False, ps_autoCreateSpecified = False, ps_verifySsl = True,
     ps_emulatorUseHttps = False\<rparr>"

section \<open>The search for the plugin's node\<close>

definition Trim :: "string \<Rightarrow> string" where
  "Trim value = strip_front is_space (strip_back is_space value)"

definition HasSpecificPubSubKeys :: "json \<Rightarrow> bool" where
  "HasSpecificPubSubKeys node \<longleftrightarrow>
     jcontains node ''projectId'' \<or>
     jcontains node ''requestTopic'' \<or>
     jcontains node ''requestSubscription'' \<or>
     jcontains node ''replySubscription'' \<or>
     jcontains node ''emulatorHost'' \<or>
     jcontains node ''credentialsFile'' \<or>
     jcontains node ''accessToken'' \<or>
     jcontains node ''ackDeadlineSeconds''"

definition NameLooksLikePubSub :: "json \<Rightarrow> bool" where
  "NameLooksLikePubSub node \<longleftrightarrow>
     (case jstring_at node ''name'' of
        None \<Rightarrow> False
      | Some pluginName \<Rightarrow>
          contains_sub ''PubSub'' pluginName \<or> contains_sub ''pubsub'' pluginName)"

definition IsFlatPubSubAlias :: "json \<Rightarrow> bool" where
  "IsFlatPubSubAlias node \<longleftrightarrow>
     (let hasAlias = jcontains node ''queue'' \<or> jcontains node ''replyQueue'' \<or>
            jcontains node ''requestTopic'' \<or> jcontains node ''replyTopic''
      in if \<not> hasAlias \<and> \<not> jcontains node ''projectId'' then False
         else if HasSpecificPubSubKeys node then True
         else NameLooksLikePubSub node)"

definition pubsub_select :: "json \<Rightarrow> json option" where
  "pubsub_select node =
     (case jfind node ''pubsub'' of
        Some (JObject kvs) \<Rightarrow> Some (JObject kvs)
      | _ \<Rightarrow> if HasSpecificPubSubKeys node \<or> IsFlatPubSubAlias node then Some node else None)"

fun FindPubSubNode :: "json \<Rightarrow> json option" where
  "FindPubSubNode (JObject kvs) =
     (case pubsub_select (JObject kvs) of
        Some n \<Rightarrow> Some n
      | None \<Rightarrow> first_some (\<lambda>x. FindPubSubNode (snd x)) kvs)"
| "FindPubSubNode (JArray js) = first_some FindPubSubNode js"
| "FindPubSubNode _ = None"

interpretation pubsub_search: node_search FindPubSubNode pubsub_select
proof unfold_locales
  fix j :: json
  assume "\<not> is_object j" "\<nexists>js. j = JArray js"
  then show "FindPubSubNode j = None" by (cases j) auto
qed simp_all

section \<open>Names\<close>

definition IsValidProjectId :: "string \<Rightarrow> bool" where
  "IsValidProjectId value \<longleftrightarrow>
     (if value = [] \<or> length value > 128 then False
      else list_all (\<lambda>c. is_alnum c \<or> c = CHR ''-'' \<or> c = CHR ''_'') value)"

definition IsValidResourceId :: "string \<Rightarrow> bool" where
  "IsValidResourceId value \<longleftrightarrow>
     (if length value < 3 \<or> length value > 255 then False
      else if \<not> is_alpha (hd value) then False
      else list_all (\<lambda>c. is_alnum c \<or> c = CHR ''-'' \<or> c = CHR ''_'' \<or> c = CHR ''.'') value)"

definition EndpointBase :: "pubsub_config \<Rightarrow> string" where
  "EndpointBase config =
     (if ps_emulatorHost config = [] then ''https://pubsub.googleapis.com''
      else (if ps_emulatorUseHttps config then ''https://'' else ''http://'') @
        ps_emulatorHost config)"

definition bad_emulator_host :: exn where
  "bad_emulator_host = RuntimeError (''Pub/Sub plugin: '' @ quoted ''emulatorHost'' @
     '' must be host or host:port'')"

definition is_slash_char :: "char \<Rightarrow> bool" where
  "is_slash_char c \<longleftrightarrow> c = CHR ''/''"

definition NormalizeEmulatorHost :: "pubsub_config \<Rightarrow> pubsub_config result" where
  "NormalizeEmulatorHost config =
     (let value = Trim (ps_emulatorHost config) in
      if value = [] then Inr (config\<lparr>ps_emulatorHost := []\<rparr>)
      else
        let (https, value) =
              (if starts_with ''https://'' value then (True, drop 8 value)
               else if starts_with ''http://'' value then (False, drop 7 value)
               else (False, value));
            value = strip_back is_slash_char value
        in if value = [] \<or> CHR ''/'' \<in> set value \<or> CHR '' '' \<in> set value
           then Inl bad_emulator_host
           else Inr (config\<lparr>ps_emulatorUseHttps := https, ps_emulatorHost := value\<rparr>))"

definition DefaultSubscription :: "string \<Rightarrow> string \<Rightarrow> string" where
  "DefaultSubscription subscription topic =
     (if subscription \<noteq> [] \<or> topic = [] then subscription else topic @ ''-sub'')"

section \<open>Parsing\<close>

definition ReadBoolSpecified :: "json \<Rightarrow> string \<Rightarrow> bool \<Rightarrow> bool \<Rightarrow> (bool \<times> bool) result" where
  "ReadBoolSpecified node key target specified =
     (case jfind node key of
        None \<Rightarrow> Inr (target, specified)
      | Some (JBool b) \<Rightarrow> Inr (b, True)
      | Some _ \<Rightarrow> Inl (RuntimeError (''Pub/Sub plugin: '' @ quoted key @ '' must be a boolean'')))"

definition read_pubsub_strings :: "json \<Rightarrow> pubsub_config" where
  "read_pubsub_strings node =
    (let c = default_pubsub_config;
         c = c\<lparr>ps_name := ReadString node ''name'' (ps_name c),
               ps_projectId := ReadString node ''projectId'' (ps_projectId c),
               ps_requestTopic := ReadString node ''requestTopic'' (ps_requestTopic c),
               ps_requestSubscription := ReadString node ''requestSubscription'' (ps_requestSubscription c),
               ps_replyTopic := ReadString node ''replyTopic'' (ps_replyTopic c),
               ps_replySubscription := ReadString node ''replySubscription'' (ps_replySubscription c),
               ps_emulatorHost := ReadString node ''emulatorHost'' (ps_emulatorHost c),
               ps_credentialsFile := ReadString node ''credentialsFile'' (ps_credentialsFile c),
               ps_accessToken := ReadString node ''accessToken'' (ps_accessToken c)\<rparr>;
         c = (if ps_requestTopic c = []
              then c\<lparr>ps_requestTopic := ReadString node ''queue'' (ps_requestTopic c)\<rparr> else c);
         c = (if ps_replyTopic c = []
              then c\<lparr>ps_replyTopic := ReadString node ''replyQueue'' (ps_replyTopic c)\<rparr> else c);
         c = (if ps_requestSubscription c = []
              then c\<lparr>ps_requestSubscription := ReadString node ''subscription''
                (ps_requestSubscription c)\<rparr> else c)
     in c)"

definition read_pubsub_config :: "json \<Rightarrow> pubsub_config result" where
  "read_pubsub_config node =
    (let c = read_pubsub_strings node
     in rbind (ReadPositiveUint ''Pub/Sub plugin'' node ''rpcTimeoutMs'' (ps_rpcTimeoutMs c)) (\<lambda>rpc.
        rbind (ReadPositiveUint ''Pub/Sub plugin'' node ''ackDeadlineSeconds''
          (ps_ackDeadlineSeconds c)) (\<lambda>ack.
        rbind (ReadPositiveUint ''Pub/Sub plugin'' node ''maxMessages'' (ps_maxMessages c)) (\<lambda>maxm.
        rbind (ReadBool ''Pub/Sub plugin'' node ''oneWay'' (ps_oneWay c)) (\<lambda>one.
        rbind (ReadBoolSpecified node ''autoCreate'' (ps_autoCreate c)
          (ps_autoCreateSpecified c)) (\<lambda>(auto, spec).
        rbind (ReadBool ''Pub/Sub plugin'' node ''verifySsl'' (ps_verifySsl c)) (\<lambda>ssl.
        Inr (c\<lparr>ps_rpcTimeoutMs := rpc, ps_ackDeadlineSeconds := ack, ps_maxMessages := maxm,
               ps_oneWay := one, ps_autoCreate := auto, ps_autoCreateSpecified := spec,
               ps_verifySsl := ssl\<rparr>))))))))"

definition check_pubsub_config :: "pubsub_config \<Rightarrow> pubsub_config result" where
  "check_pubsub_config c =
     (if ps_ackDeadlineSeconds c < 10 \<or> ps_ackDeadlineSeconds c > 600
      then Inl (RuntimeError (''Pub/Sub plugin: '' @ quoted ''ackDeadlineSeconds'' @
        '' must be between 10 and 600''))
      else if ps_maxMessages c < 1 \<or> ps_maxMessages c > 100
      then Inl (RuntimeError (''Pub/Sub plugin: '' @ quoted ''maxMessages'' @
        '' must be between 1 and 100''))
      else if ps_rpcTimeoutMs c > 3600000
      then Inl (RuntimeError (''Pub/Sub plugin: '' @ quoted ''rpcTimeoutMs'' @
        '' cannot exceed 3600000''))
      else rbind (NormalizeEmulatorHost c) (\<lambda>c.
        let c = c\<lparr>ps_requestSubscription :=
              DefaultSubscription (ps_requestSubscription c) (ps_requestTopic c)\<rparr>
        in Inr (c\<lparr>ps_replySubscription :=
              DefaultSubscription (ps_replySubscription c) (ps_replyTopic c)\<rparr>)))"

definition ParsePubSubConfigSource :: "cpp_env \<Rightarrow> string \<Rightarrow> pubsub_config result" where
  "ParsePubSubConfigSource env configSource =
     rbind (ParseJsonSource ''Pub/Sub plugin'' env configSource) (\<lambda>root.
       case FindPubSubNode root of
         None \<Rightarrow> Inl (RuntimeError
           ''Pub/Sub plugin: configuration does not contain Pub/Sub settings'')
       | Some node \<Rightarrow>
           if \<not> is_object node
           then Inl (RuntimeError
             ''Pub/Sub plugin: configuration does not contain Pub/Sub settings'')
           else rbind (read_pubsub_config node) check_pubsub_config)"

section \<open>The run-time environment\<close>

definition ApplyRuntimeEnvironment :: "cpp_env \<Rightarrow> pubsub_config \<Rightarrow> pubsub_config result" where
  "ApplyRuntimeEnvironment env config =
     rbind (if ps_emulatorHost config = []
            then case getenv env ''PUBSUB_EMULATOR_HOST'' of
                   Some host \<Rightarrow> NormalizeEmulatorHost (config\<lparr>ps_emulatorHost := host\<rparr>)
                 | None \<Rightarrow> Inr config
            else Inr config) (\<lambda>config.
     let config = (if ps_accessToken config = []
                   then case getenv env ''PUBSUB_ACCESS_TOKEN'' of
                          Some token \<Rightarrow> config\<lparr>ps_accessToken := token\<rparr>
                        | None \<Rightarrow> config
                   else config);
         config = (if ps_credentialsFile config = []
                   then case getenv env ''GOOGLE_APPLICATION_CREDENTIALS'' of
                          Some path \<Rightarrow> config\<lparr>ps_credentialsFile := path\<rparr>
                        | None \<Rightarrow> config
                   else config);
         config = (if \<not> ps_autoCreateSpecified config
                   then config\<lparr>ps_autoCreate := (ps_emulatorHost config \<noteq> [])\<rparr>
                   else config)
     in Inr config)"

section \<open>Validation\<close>

definition ValidateCommon :: "pubsub_config \<Rightarrow> string \<Rightarrow> unit result" where
  "ValidateCommon config role =
     (let fail = (\<lambda>text. Inl (RuntimeError (''Pub/Sub '' @ role @ '': '' @ text))) in
      if ps_projectId config = [] then fail (''missing required field '' @ quoted ''projectId'')
      else if \<not> IsValidProjectId (ps_projectId config)
      then fail (quoted ''projectId'' @ '' must be 1-128 letters, digits, '' @ quoted ''-'' @
        '' or '' @ quoted ''_'')
      else if ps_ackDeadlineSeconds config < 10 \<or> ps_ackDeadlineSeconds config > 600
      then fail (quoted ''ackDeadlineSeconds'' @ '' must be between 10 and 600'')
      else if ps_maxMessages config < 1 \<or> ps_maxMessages config > 100
      then fail (quoted ''maxMessages'' @ '' must be between 1 and 100'')
      else if ps_rpcTimeoutMs config = 0 \<or> ps_rpcTimeoutMs config > 3600000
      then fail (quoted ''rpcTimeoutMs'' @ '' must be between 1 and 3600000'')
      else if ps_emulatorHost config \<noteq> [] \<and>
        (CHR ''/'' \<in> set (ps_emulatorHost config) \<or> CHR '' '' \<in> set (ps_emulatorHost config))
      then fail (quoted ''emulatorHost'' @ '' must be host or host:port'')
      else Inr ())"

definition ValidateResource :: "string \<Rightarrow> string \<Rightarrow> string \<Rightarrow> bool \<Rightarrow> unit result" where
  "ValidateResource value role field required =
     (if value = []
      then if required
           then Inl (RuntimeError (''Pub/Sub '' @ role @ '': missing required field '' @ quoted field))
           else Inr ()
      else if \<not> IsValidResourceId value
      then Inl (RuntimeError (''Pub/Sub '' @ role @ '': '' @ quoted field @
        '' must be 3-255 characters, start with a letter, and contain only letters, digits, '' @
        quoted ''-'' @ '', '' @ quoted ''_'' @ '' or '' @ quoted ''.''))
      else Inr ())"

definition pubsub_ValidateClientConfig :: "pubsub_config \<Rightarrow> unit result" where
  "pubsub_ValidateClientConfig config =
     rbind (ValidateCommon config ''client'') (\<lambda>_.
     rbind (ValidateResource (ps_requestTopic config) ''client'' ''requestTopic'' True) (\<lambda>_.
       if \<not> ps_oneWay config
       then rbind (ValidateResource (ps_replyTopic config) ''client'' ''replyTopic'' True) (\<lambda>_.
         ValidateResource (ps_replySubscription config) ''client'' ''replySubscription'' True)
       else Inr ()))"

definition pubsub_ValidateServerConfig :: "pubsub_config \<Rightarrow> unit result" where
  "pubsub_ValidateServerConfig config =
     rbind (ValidateCommon config ''server'') (\<lambda>_.
     rbind (ValidateResource (ps_requestTopic config) ''server'' ''requestTopic'' True) (\<lambda>_.
       ValidateResource (ps_requestSubscription config) ''server'' ''requestSubscription'' True))"

section \<open>Properties\<close>

lemma NormalizeEmulatorHost_Inr:
  assumes "NormalizeEmulatorHost c = Inr c'"
  shows "CHR ''/'' \<notin> set (ps_emulatorHost c')" "CHR '' '' \<notin> set (ps_emulatorHost c')"
    "ps_autoCreate c' = ps_autoCreate c" "ps_autoCreateSpecified c' = ps_autoCreateSpecified c"
  using assms
  by (auto simp: NormalizeEmulatorHost_def Let_def split: if_splits prod.splits)

lemma ValidateResource_Inr:
  "ValidateResource v role field True = Inr () \<longleftrightarrow> IsValidResourceId v"
  by (auto simp: ValidateResource_def IsValidResourceId_def)

lemma ValidateCommon_Inr:
  "ValidateCommon c role = Inr () \<longleftrightarrow>
     IsValidProjectId (ps_projectId c) \<and> 10 \<le> ps_ackDeadlineSeconds c \<and>
     ps_ackDeadlineSeconds c \<le> 600 \<and> 1 \<le> ps_maxMessages c \<and> ps_maxMessages c \<le> 100 \<and>
     ps_rpcTimeoutMs c \<noteq> 0 \<and> ps_rpcTimeoutMs c \<le> 3600000 \<and>
     CHR ''/'' \<notin> set (ps_emulatorHost c) \<and> CHR '' '' \<notin> set (ps_emulatorHost c)"
proof -
  have one: "w < 1 \<longleftrightarrow> w = 0" for w :: u32
    by (metis word_gt_0 word_less_1)
  have "IsValidProjectId (ps_projectId c) \<Longrightarrow> ps_projectId c \<noteq> []"
    by (auto simp: IsValidProjectId_def)
  moreover have "x \<in> set (ps_emulatorHost c) \<Longrightarrow> ps_emulatorHost c \<noteq> []" for x
    by auto
  ultimately show ?thesis
    unfolding ValidateCommon_def Let_def guard_Inr_iff not_less [symmetric] one by blast
qed

lemma ApplyRuntimeEnvironment_autoCreate:
  assumes "ApplyRuntimeEnvironment env c0 = Inr c"
  shows "ps_autoCreate c =
    (if ps_autoCreateSpecified c0 then ps_autoCreate c0 else ps_emulatorHost c \<noteq> [])"
proof -
  obtain c1 where c1: "(if ps_emulatorHost c0 = []
      then case getenv env ''PUBSUB_EMULATOR_HOST'' of
             Some host \<Rightarrow> NormalizeEmulatorHost (c0\<lparr>ps_emulatorHost := host\<rparr>)
           | None \<Rightarrow> Inr c0
      else Inr c0) = Inr c1"
    and c: "c = (let config = (if ps_accessToken c1 = []
                   then case getenv env ''PUBSUB_ACCESS_TOKEN'' of
                          Some token \<Rightarrow> c1\<lparr>ps_accessToken := token\<rparr>
                        | None \<Rightarrow> c1
                   else c1);
         config = (if ps_credentialsFile config = []
                   then case getenv env ''GOOGLE_APPLICATION_CREDENTIALS'' of
                          Some path \<Rightarrow> config\<lparr>ps_credentialsFile := path\<rparr>
                        | None \<Rightarrow> config
                   else config)
      in if \<not> ps_autoCreateSpecified config
         then config\<lparr>ps_autoCreate := (ps_emulatorHost config \<noteq> [])\<rparr> else config)"
    using assms unfolding ApplyRuntimeEnvironment_def by (elim rbind_Inr_E) (simp add: Let_def)
  have "ps_autoCreate c1 = ps_autoCreate c0" "ps_autoCreateSpecified c1 = ps_autoCreateSpecified c0"
    using c1 by (auto dest: NormalizeEmulatorHost_Inr(3,4) split: if_splits option.splits)
  then show ?thesis
    by (simp add: c Let_def split: option.split)
qed

text \<open>
  A Pub/Sub client starts only with a sound configuration: whatever the document and the
  environment say, when parsing, the environment and the validation accept it, all names are
  valid resource names, all numbers are within the limits of the service, the endpoint is the
  public one or an authority without a path, and topics are created automatically exactly when
  the document says so or, if it is silent, when an emulator is used.
\<close>
theorem pubsub_client_config_sound:
  assumes "ParsePubSubConfigSource env src = Inr c0"
    and "ApplyRuntimeEnvironment env c0 = Inr c"
    and "pubsub_ValidateClientConfig c = Inr ()"
  shows "IsValidProjectId (ps_projectId c) \<and> IsValidResourceId (ps_requestTopic c) \<and>
    (\<not> ps_oneWay c \<longrightarrow> IsValidResourceId (ps_replyTopic c) \<and>
       IsValidResourceId (ps_replySubscription c)) \<and>
    10 \<le> ps_ackDeadlineSeconds c \<and> ps_ackDeadlineSeconds c \<le> 600 \<and>
    1 \<le> ps_maxMessages c \<and> ps_maxMessages c \<le> 100 \<and>
    ps_rpcTimeoutMs c \<noteq> 0 \<and> ps_rpcTimeoutMs c \<le> 3600000 \<and>
    (\<exists>host. EndpointBase c \<in> {''https://pubsub.googleapis.com'', ''http://'' @ host, ''https://'' @ host} \<and>
       CHR ''/'' \<notin> set host \<and> CHR '' '' \<notin> set host) \<and>
    ps_autoCreate c = (if ps_autoCreateSpecified c0 then ps_autoCreate c0 else ps_emulatorHost c \<noteq> [])"
proof -
  have v: "ValidateCommon c ''client'' = Inr ()" "IsValidResourceId (ps_requestTopic c)"
    "\<not> ps_oneWay c \<longrightarrow> IsValidResourceId (ps_replyTopic c) \<and> IsValidResourceId (ps_replySubscription c)"
    using assms(3)
    by (auto simp: pubsub_ValidateClientConfig_def ValidateResource_Inr
        elim!: rbind_Inr_E split: if_splits)
  moreover have "\<exists>host. EndpointBase c \<in> {''https://pubsub.googleapis.com'', ''http://'' @ host, ''https://'' @ host} \<and>
       CHR ''/'' \<notin> set host \<and> CHR '' '' \<notin> set host"
    using v(1) unfolding ValidateCommon_Inr
    by (intro exI [of _ "ps_emulatorHost c"]) (auto simp: EndpointBase_def)
  ultimately show ?thesis
    using ApplyRuntimeEnvironment_autoCreate [OF assms(2)] unfolding ValidateCommon_Inr by simp
qed

definition pubsub_example_env :: cpp_env where
  "pubsub_example_env =
    \<lparr>json_parse = (\<lambda>_. Inr (JObject [(''projectId'', JString ''p''),
       (''requestTopic'', JString ''req''), (''replyTopic'', JString ''rep'')])),
     file_exists = (\<lambda>_. False), read_file = (\<lambda>_. None),
     getenv = (\<lambda>n. if n = ''PUBSUB_EMULATOR_HOST'' then Some ''localhost:8085'' else None)\<rparr>"

definition pubsub_example_config :: pubsub_config where
  "pubsub_example_config = default_pubsub_config
    \<lparr>ps_projectId := ''p'', ps_requestTopic := ''req'', ps_requestSubscription := ''req-sub'',
     ps_replyTopic := ''rep'', ps_replySubscription := ''rep-sub''\<rparr>"

lemma pubsub_example_parse:
  "ParsePubSubConfigSource pubsub_example_env ''x'' = Inr pubsub_example_config"
  by (simp add: pubsub_example_env_def pubsub_example_config_def ParsePubSubConfigSource_def
      ParseJsonSource_def pubsub_select_def HasSpecificPubSubKeys_def jcontains_def
      read_pubsub_config_def read_pubsub_strings_def Let_def ReadString_def ReadPositiveUint_def
      ReadBool_def ReadBoolSpecified_def default_pubsub_config_def check_pubsub_config_def
      NormalizeEmulatorHost_def Trim_def strip_front_def DefaultSubscription_def)

lemma pubsub_example_env_applied:
  "ApplyRuntimeEnvironment pubsub_example_env pubsub_example_config =
    Inr (pubsub_example_config\<lparr>ps_emulatorHost := ''localhost:8085'', ps_autoCreate := True\<rparr>)"
  by (simp add: pubsub_example_env_def pubsub_example_config_def default_pubsub_config_def
      ApplyRuntimeEnvironment_def NormalizeEmulatorHost_def Trim_def strip_front_def
      strip_back_def is_space_def code_in_def starts_with_def is_slash_char_def Let_def)

lemma pubsub_client_config_sound_witness:
  "ps_autoCreate (pubsub_example_config\<lparr>ps_emulatorHost := ''localhost:8085'', ps_autoCreate := True\<rparr>) \<and>
   IsValidResourceId ''req''"
proof -
  let ?c = "pubsub_example_config\<lparr>ps_emulatorHost := ''localhost:8085'', ps_autoCreate := True\<rparr>"
  have "ValidateCommon ?c ''client'' = Inr ()"
    unfolding ValidateCommon_Inr
    by (simp add: pubsub_example_config_def default_pubsub_config_def IsValidProjectId_def
        char_class_defs)
  moreover have "IsValidResourceId ''req''" "IsValidResourceId ''rep''" "IsValidResourceId ''rep-sub''"
    by (simp_all add: IsValidResourceId_def char_class_defs)
  then have "ValidateResource ''req'' ''client'' ''requestTopic'' True = Inr ()"
    "ValidateResource ''rep'' ''client'' ''replyTopic'' True = Inr ()"
    "ValidateResource ''rep-sub'' ''client'' ''replySubscription'' True = Inr ()"
    by (simp_all add: ValidateResource_Inr)
  ultimately have "pubsub_ValidateClientConfig ?c = Inr ()"
    by (simp add: pubsub_ValidateClientConfig_def)
      (simp add: pubsub_example_config_def default_pubsub_config_def)
  from pubsub_client_config_sound [OF pubsub_example_parse pubsub_example_env_applied this]
  show ?thesis by (simp add: pubsub_example_config_def)
qed

end
