(* ===== verification/PubSubUtil.thy ===== *)
theory PubSubUtil
  imports PubSubConfig Base64
begin

text \<open>
  One HTTP session of the Pub/Sub plugin (\<^verbatim>\<open>PubSubUtil.h\<close>,
  \<^verbatim>\<open>PubSubUtil.cpp\<close>): the requests, the bearer token, and the calls of the REST API.

  curl, OpenSSL, the JSON printer and the clock are parameters, the fields of \<open>pubsub_world\<close>:
  what a transfer yields, the signature, the text of a JSON value, the readings of the clock at
  the three places that take one.
\<close>

definition CorrelationIdAttr :: string where "CorrelationIdAttr = ''correlationId''"
definition ReplyToAttr :: string where "ReplyToAttr = ''replyTo''"
definition MaxPayloadBytes :: nat where "MaxPayloadBytes = 10 * 1024 * 1024"
definition kMaxResponseBytes :: nat where "kMaxResponseBytes = 16 * 1024 * 1024"
definition kConnectTimeoutMs :: int where "kConnectTimeoutMs = 5000"
definition kRpcTimeoutMs :: int where "kRpcTimeoutMs = 15000"
definition kPullTimeoutMs :: int where "kPullTimeoutMs = 2000"
definition kMetadataTimeoutMs :: int where "kMetadataTimeoutMs = 2000"

definition kPubSubScope :: string where
  "kPubSubScope = ''https://www.googleapis.com/auth/pubsub''"
definition kDefaultTokenUri :: string where
  "kDefaultTokenUri = ''https://oauth2.googleapis.com/token''"
definition kMetadataTokenUrl :: string where
  "kMetadataTokenUrl = ''http://metadata.google.internal/computeMetadata/v1/'' @
     ''instance/service-accounts/default/token''"

section \<open>The outside world\<close>

record http_request =
  rq_url :: string
  rq_method :: string
  rq_body :: "string option"
  rq_headers :: "string list"
  rq_timeoutMs :: int
  rq_connectTimeoutMs :: int
  rq_followLocation :: bool
  rq_verifyPeer :: bool
  rq_verifyHost :: int

datatype curl_result =
    CurlTimedOut string string
  | CurlFailed string string
  | CurlOk int string

text \<open>
  \<open>w_dump\<close> is \<^verbatim>\<open>json::dump\<close>, which throws only for a string that is not UTF-8.  The
  strings of the values that the plugin writes are names that were checked to be letters, digits and
  a few signs, Base64, ids of its own, or strings of documents that the parser has accepted, which
  rejects what is not UTF-8; so it is total here.
\<close>

record pubsub_world =
  w_perform :: "http_request \<Rightarrow> curl_result"
  w_dump :: "json \<Rightarrow> string"
  w_parse :: "string \<Rightarrow> json result"
  w_trunc :: "string \<Rightarrow> int"
  w_sign :: "string \<Rightarrow> string \<Rightarrow> string result"
  w_read_file :: "string \<Rightarrow> string option"
  w_now :: int
  w_issuedAt :: int
  w_later :: int

record http_result =
  hr_status :: int
  hr_timedOut :: bool
  hr_body :: string
  hr_error :: string

record pubsub_session =
  se_config :: pubsub_config
  se_cachedToken :: string
  se_tokenExpiryEpoch :: int

text \<open>\<open>handle\<close> says whether \<^verbatim>\<open>curl_easy_init\<close> gave a handle.\<close>

definition new_session :: "bool \<Rightarrow> pubsub_config \<Rightarrow> pubsub_session result" where
  "new_session handle config =
     (if \<not> handle then Inl (RuntimeError ''Pub/Sub plugin: curl_easy_init failed'')
      else Inr \<lparr>se_config = config, se_cachedToken = [], se_tokenExpiryEpoch = 0\<rparr>)"

section \<open>Small helpers\<close>

text \<open>
  The write callback of curl: the number of bytes it took and the output.  A chunk that would
  exceed the limit is refused, which aborts the transfer.
\<close>

definition WriteToString :: "string \<Rightarrow> u64 \<Rightarrow> u64 \<Rightarrow> string \<Rightarrow> nat \<times> string" where
  "WriteToString contents sz count output =
     (let n = sz * count in
      if unat (word_of_nat (length output) + n) > kMaxResponseBytes then (0, output)
      else (unat n, output @ take (unat n) contents))"

definition Truncate :: "string \<Rightarrow> string" where
  "Truncate value = (if length value \<le> 512 then value else take 512 value @ ''...'')"

definition pubsub_NewCorrelationId :: "u64 \<Rightarrow> u64 \<Rightarrow> string" where
  "pubsub_NewCorrelationId first second = hex_setw 16 (unat first) @ hex_setw 16 (unat second)"

definition ReadFile :: "pubsub_world \<Rightarrow> string \<Rightarrow> string result" where
  "ReadFile w path =
     (case w_read_file w path of
        None \<Rightarrow> Inl (RuntimeError (''Pub/Sub plugin: cannot read credentials file '' @ quoted path))
      | Some contents \<Rightarrow> Inr contents)"

definition jint :: "int \<Rightarrow> json" where
  "jint i = (if i < 0 then JInteger (word_of_int i) else JUnsigned (word_of_int i))"

text \<open>The members of an object literal are sorted by key, as the library stores them.\<close>

definition BuildServiceAccountJwt ::
  "pubsub_world \<Rightarrow> string \<Rightarrow> string \<Rightarrow> string \<Rightarrow> int \<Rightarrow> string result" where
  "BuildServiceAccountJwt w clientEmail privateKeyPem tokenUri issuedAtEpochSeconds =
     (if clientEmail = [] \<or> privateKeyPem = []
      then Inl (RuntimeError
        ''Pub/Sub plugin: service account is missing client_email or private_key'')
      else
        let header = Base64Url (''{'' @ CHR 0x22 # ''alg'' @ CHR 0x22 # '':'' @ CHR 0x22 # ''RS256'' @
              CHR 0x22 # '','' @ CHR 0x22 # ''typ'' @ CHR 0x22 # '':'' @ CHR 0x22 # ''JWT'' @
              CHR 0x22 # ''}'');
            claims = JObject
              [(''aud'', JString (if tokenUri = [] then kDefaultTokenUri else tokenUri)),
               (''exp'', jint (issuedAtEpochSeconds + 3600)),
               (''iat'', jint issuedAtEpochSeconds),
               (''iss'', JString clientEmail),
               (''scope'', JString kPubSubScope)];
            payload = Base64Url (w_dump w claims);
            signingInput = header @ ''.'' @ payload
        in rbind (w_sign w signingInput privateKeyPem) (\<lambda>signature.
             Inr (signingInput @ ''.'' @ Base64Url signature)))"

section \<open>Requests\<close>

definition ResourceUrl :: "pubsub_config \<Rightarrow> string \<Rightarrow> string \<Rightarrow> string" where
  "ResourceUrl config collection rid =
     EndpointBase config @ ''/v1/projects/'' @ ps_projectId config @ ''/'' @ collection @ ''/'' @ rid"

definition build_request ::
  "pubsub_config \<Rightarrow> string \<Rightarrow> string \<Rightarrow> string \<Rightarrow> string list \<Rightarrow> int \<Rightarrow> string \<Rightarrow> http_request" where
  "build_request config method url body headers timeoutMs authorization =
     (let hasContentType = list_ex (starts_with ''Content-Type:'') headers in
      \<lparr>rq_url = c_str url, rq_method = method,
       rq_body = (if method \<noteq> ''GET'' then Some body else None),
       rq_headers = (if \<not> hasContentType then [''Content-Type: application/json''] else []) @
         (if authorization \<noteq> [] then [c_str authorization] else []) @ map c_str headers,
       rq_timeoutMs = timeoutMs, rq_connectTimeoutMs = kConnectTimeoutMs,
       rq_followLocation = False, rq_verifyPeer = ps_verifySsl config,
       rq_verifyHost = (if ps_verifySsl config then 2 else 0)\<rparr>)"

definition perform_request :: "pubsub_world \<Rightarrow> http_request \<Rightarrow> http_result" where
  "perform_request w rq =
     (case w_perform w rq of
        CurlTimedOut body err \<Rightarrow>
          \<lparr>hr_status = 0, hr_timedOut = True, hr_body = body, hr_error = err\<rparr>
      | CurlFailed body err \<Rightarrow>
          \<lparr>hr_status = 0, hr_timedOut = False, hr_body = body, hr_error = err\<rparr>
      | CurlOk status body \<Rightarrow>
          \<lparr>hr_status = status, hr_timedOut = False, hr_body = body, hr_error = []\<rparr>)"

definition ThrowIfHttpFailed :: "string \<Rightarrow> http_result \<Rightarrow> unit result" where
  "ThrowIfHttpFailed operation r =
     (if hr_status r \<ge> 200 \<and> hr_status r < 300 then Inr ()
      else if hr_timedOut r then Inl (HttpError 0 (''Pub/Sub '' @ operation @ '' timed out''))
      else if hr_status r = 0
      then Inl (HttpError 0 (''Pub/Sub '' @ operation @ '' failed: '' @
        (if hr_error r = [] then ''connection failed'' else hr_error r)))
      else Inl (HttpError (hr_status r) (''Pub/Sub '' @ operation @ '' failed: HTTP '' @
        to_string (hr_status r) @ '' '' @ Truncate (hr_body r))))"

section \<open>The bearer token\<close>

definition token_lifetime :: "int \<Rightarrow> int" where
  "token_lifetime expiresIn = (if expiresIn > 90 then expiresIn - 60 else expiresIn)"

definition access_token_of :: "json \<Rightarrow> string option" where
  "access_token_of parsed = jstring_at parsed ''access_token''"

definition RefreshFromServiceAccount ::
  "pubsub_world \<Rightarrow> pubsub_session \<Rightarrow> unit result \<times> pubsub_session" where
  "RefreshFromServiceAccount w se =
     (let config = se_config se;
          attempt =
            rbind (ReadFile w (ps_credentialsFile config)) (\<lambda>text.
            rbind (w_parse w text) (\<lambda>j.
              case (is_object j, jstring_at j ''client_email'', jstring_at j ''private_key'') of
                (True, Some email, Some key) \<Rightarrow>
                  rbind (value_string j ''token_uri'' kDefaultTokenUri) (\<lambda>tokenUri.
                  rbind (BuildServiceAccountJwt w email key tokenUri (w_issuedAt w)) (\<lambda>jwt.
                  let form = ''grant_type=urn%3Aietf%3Aparams%3Aoauth%3Agrant-type%3Ajwt-bearer'' @
                        ''&assertion='' @ jwt;
                      r = perform_request w (build_request config ''POST'' tokenUri form
                        [''Content-Type: application/x-www-form-urlencoded''] kRpcTimeoutMs [])
                  in rbind (ThrowIfHttpFailed ''token exchange'' r) (\<lambda>_.
                     rbind (w_parse w (hr_body r)) (\<lambda>parsed.
                       case access_token_of parsed of
                         None \<Rightarrow> Inl (RuntimeError
                           ''Pub/Sub plugin: token endpoint did not return access_token'')
                       | Some token \<Rightarrow> Inr (token, value_int (w_trunc w) parsed ''expires_in'' 3600)))))
              | _ \<Rightarrow> Inl (RuntimeError (''Pub/Sub plugin: credentials file must contain '' @
                  ''client_email and private_key''))))
      in case attempt of
           Inl e \<Rightarrow> (Inl e, se)
         | Inr (token, Inl e) \<Rightarrow> (Inl e, se\<lparr>se_cachedToken := token\<rparr>)
         | Inr (token, Inr expiresIn) \<Rightarrow>
             (Inr (), se\<lparr>se_cachedToken := token,
                         se_tokenExpiryEpoch := w_issuedAt w + token_lifetime expiresIn\<rparr>))"

definition TryMetadataToken ::
  "pubsub_world \<Rightarrow> pubsub_session \<Rightarrow> bool result \<times> pubsub_session" where
  "TryMetadataToken w se =
     (let r = perform_request w (build_request (se_config se) ''GET'' kMetadataTokenUrl []
            [''Metadata-Flavor: Google''] kMetadataTimeoutMs [])
      in if hr_status r \<noteq> 200 then (Inr False, se)
         else case w_parse w (hr_body r) of
           Inl _ \<Rightarrow> (Inr False, se)
         | Inr parsed \<Rightarrow>
             (case access_token_of parsed of
                None \<Rightarrow> (Inr False, se)
              | Some token \<Rightarrow>
                  (let se = se\<lparr>se_cachedToken := token\<rparr> in
                   case value_int (w_trunc w) parsed ''expires_in'' 3600 of
                     Inl e \<Rightarrow> (Inl e, se)
                   | Inr expiresIn \<Rightarrow>
                       (Inr True,
                        se\<lparr>se_tokenExpiryEpoch := w_later w + token_lifetime expiresIn\<rparr>))))"

definition no_credentials :: exn where
  "no_credentials = RuntimeError (''Pub/Sub plugin: no credentials. Set accessToken, '' @
     ''credentialsFile, GOOGLE_APPLICATION_CREDENTIALS, or emulatorHost / PUBSUB_EMULATOR_HOST'')"

definition BearerToken :: "pubsub_world \<Rightarrow> pubsub_session \<Rightarrow> string result \<times> pubsub_session" where
  "BearerToken w se =
     (let config = se_config se in
      if ps_emulatorHost config \<noteq> [] then (Inr [], se)
      else if ps_accessToken config \<noteq> [] then (Inr (ps_accessToken config), se)
      else if se_cachedToken se \<noteq> [] \<and> w_now w < se_tokenExpiryEpoch se
      then (Inr (se_cachedToken se), se)
      else if ps_credentialsFile config \<noteq> []
      then (case RefreshFromServiceAccount w se of
              (Inl e, se) \<Rightarrow> (Inl e, se)
            | (Inr _, se) \<Rightarrow> (Inr (se_cachedToken se), se))
      else (case TryMetadataToken w se of
              (Inl e, se) \<Rightarrow> (Inl e, se)
            | (Inr True, se) \<Rightarrow> (Inr (se_cachedToken se), se)
            | (Inr False, se) \<Rightarrow> (Inl no_credentials, se)))"

text \<open>The token is resolved first, because it may need a request of its own.\<close>

definition Request ::
  "pubsub_world \<Rightarrow> string \<Rightarrow> string \<Rightarrow> string \<Rightarrow> string list \<Rightarrow> int \<Rightarrow> bool \<Rightarrow> pubsub_session \<Rightarrow>
     http_result result \<times> pubsub_session" where
  "Request w method url body headers timeoutMs authenticate se =
     (if authenticate
      then (case BearerToken w se of
              (Inl e, se) \<Rightarrow> (Inl e, se)
            | (Inr token, se) \<Rightarrow>
                (Inr (perform_request w (build_request (se_config se) method url body headers
                   timeoutMs (''Authorization: Bearer '' @ token))), se))
      else (Inr (perform_request w (build_request (se_config se) method url body headers
              timeoutMs [])), se))"

section \<open>The calls of the API\<close>

text \<open>A request with authentication unless an emulator is used, then a check of its result.\<close>

definition api_call ::
  "pubsub_world \<Rightarrow> string \<Rightarrow> string \<Rightarrow> json \<Rightarrow> int \<Rightarrow> (http_result \<Rightarrow> 'a result) \<Rightarrow>
     pubsub_session \<Rightarrow> 'a result \<times> pubsub_session" where
  "api_call w method url body timeoutMs finish se =
     (case Request w method url (w_dump w body) [] timeoutMs
        (ps_emulatorHost (se_config se) = []) se of
        (Inl e, se) \<Rightarrow> (Inl e, se)
      | (Inr r, se) \<Rightarrow> (finish r, se))"

definition already_exists :: "http_result \<Rightarrow> bool" where
  "already_exists r \<longleftrightarrow>
     hr_status r = 409 \<or> (hr_status r \<ge> 400 \<and> contains_sub ''ALREADY_EXISTS'' (hr_body r))"

definition EnsureTopic :: "pubsub_world \<Rightarrow> string \<Rightarrow> pubsub_session \<Rightarrow> unit result \<times> pubsub_session" where
  "EnsureTopic w topic se =
     (let config = se_config se;
          body = JObject [(''name'',
            JString (''projects/'' @ ps_projectId config @ ''/topics/'' @ topic))]
      in api_call w ''PUT'' (ResourceUrl config ''topics'' topic) body kRpcTimeoutMs
           (\<lambda>r. if already_exists r then Inr () else ThrowIfHttpFailed ''CreateTopic'' r) se)"

definition EnsureSubscription ::
  "pubsub_world \<Rightarrow> string \<Rightarrow> string \<Rightarrow> pubsub_session \<Rightarrow> unit result \<times> pubsub_session" where
  "EnsureSubscription w subscription topic se =
     (let config = se_config se;
          body = JObject
            [(''ackDeadlineSeconds'', JUnsigned (ucast (ps_ackDeadlineSeconds config))),
             (''name'', JString (''projects/'' @ ps_projectId config @ ''/subscriptions/'' @ subscription)),
             (''topic'', JString (''projects/'' @ ps_projectId config @ ''/topics/'' @ topic))]
      in api_call w ''PUT'' (ResourceUrl config ''subscriptions'' subscription) body kRpcTimeoutMs
           (\<lambda>r. if already_exists r then Inr () else ThrowIfHttpFailed ''CreateSubscription'' r) se)"

definition publish_body :: "string \<Rightarrow> (string \<times> string) list \<Rightarrow> json" where
  "publish_body encoded attributes =
     JObject [(''messages'', JArray [JObject
       [(''attributes'', JObject (map (\<lambda>(k, v). (k, JString v)) attributes)),
        (''data'', JString encoded)]])]"

definition Publish ::
  "pubsub_world \<Rightarrow> string \<Rightarrow> buf \<Rightarrow> (string \<times> string) list \<Rightarrow> pubsub_session \<Rightarrow>
     unit result \<times> pubsub_session" where
  "Publish w topic d attributes se =
     (if buf_size d > MaxPayloadBytes
      then (Inl (RuntimeError ''Pub/Sub plugin: payload exceeds the 10 MiB Pub/Sub limit''), se)
      else case Base64Encode d of
        Inl e \<Rightarrow> (Inl e, se)
      | Inr encoded \<Rightarrow>
          api_call w ''POST'' (ResourceUrl (se_config se) ''topics'' topic @ '':publish'')
            (publish_body encoded attributes) kRpcTimeoutMs
            (ThrowIfHttpFailed (c_str (''Publish '' @ topic))) se)"

record pulled_message =
  pm_ackId :: string
  pm_data :: bytes
  pm_attributes :: "string \<rightharpoonup> string"

definition string_members :: "(string \<times> json) list \<Rightarrow> (string \<rightharpoonup> string)" where
  "string_members kvs =
     fold (\<lambda>(k, v) m. case v of JString s \<Rightarrow> m(k \<mapsto> s) | _ \<Rightarrow> m) kvs Map.empty"

text \<open>One element of \<^verbatim>\<open>receivedMessages\<close>; \<open>None\<close> is an element that is skipped.\<close>

definition parse_received :: "json \<Rightarrow> pulled_message option result" where
  "parse_received item =
     (if \<not> is_object item then Inr None
      else
        let ackId = (case jstring_at item ''ackId'' of Some s \<Rightarrow> s | None \<Rightarrow> []) in
        case jfind item ''message'' of
          Some (JObject payload) \<Rightarrow>
            rbind (case jstring_at (JObject payload) ''data'' of
                     Some encoded \<Rightarrow> Base64Decode encoded
                   | None \<Rightarrow> Inr []) (\<lambda>d.
              Inr (Some \<lparr>pm_ackId = ackId, pm_data = d,
                pm_attributes = (case jfind (JObject payload) ''attributes'' of
                  Some (JObject kvs) \<Rightarrow> string_members kvs | _ \<Rightarrow> Map.empty)\<rparr>))
        | _ \<Rightarrow> Inr (Some \<lparr>pm_ackId = ackId, pm_data = [], pm_attributes = Map.empty\<rparr>))"

fun parse_all :: "json list \<Rightarrow> pulled_message list result" where
  "parse_all [] = Inr []"
| "parse_all (item # items) =
     rbind (parse_received item) (\<lambda>m.
     rbind (parse_all items) (\<lambda>ms.
       Inr (case m of None \<Rightarrow> ms | Some x \<Rightarrow> x # ms)))"

definition pull_response :: "pubsub_world \<Rightarrow> string \<Rightarrow> http_result \<Rightarrow> pulled_message list result" where
  "pull_response w subscription r =
     (if hr_timedOut r then Inr []
      else rbind (ThrowIfHttpFailed (c_str (''Pull '' @ subscription)) r) (\<lambda>_.
        case w_parse w (hr_body r) of
          Inl _ \<Rightarrow> Inr []
        | Inr parsed \<Rightarrow>
            (case jfind parsed ''receivedMessages'' of
               Some (JArray received) \<Rightarrow> parse_all received
             | _ \<Rightarrow> Inr [])))"

definition Pull ::
  "pubsub_world \<Rightarrow> string \<Rightarrow> u32 \<Rightarrow> pubsub_session \<Rightarrow> pulled_message list result \<times> pubsub_session" where
  "Pull w subscription maxMessages se =
     api_call w ''POST'' (ResourceUrl (se_config se) ''subscriptions'' subscription @ '':pull'')
       (JObject [(''maxMessages'', JUnsigned (ucast maxMessages)), (''returnImmediately'', JBool True)])
       kPullTimeoutMs (pull_response w subscription) se"

definition Acknowledge ::
  "pubsub_world \<Rightarrow> string \<Rightarrow> string list \<Rightarrow> pubsub_session \<Rightarrow> unit result \<times> pubsub_session" where
  "Acknowledge w subscription ackIds se =
     (if ackIds = [] then (Inr (), se)
      else api_call w ''POST''
        (ResourceUrl (se_config se) ''subscriptions'' subscription @ '':acknowledge'')
        (JObject [(''ackIds'', JArray (map JString ackIds))]) kRpcTimeoutMs
        (ThrowIfHttpFailed (c_str (''Acknowledge '' @ subscription))) se)"

end
