(* ===== verification/PubSubServer.thy ===== *)
theory PubSubServer
  imports PubSubUtil AckServer Lifecycle
begin

text \<open>
  The server of the Pub/Sub plugin (\<^verbatim>\<open>PubSubServer.cpp\<close>): the handling of one
  message, the receive loop, and the life cycle of \<^verbatim>\<open>start\<close> and \<^verbatim>\<open>stop\<close>.
\<close>

section \<open>One message\<close>

type_synonym ps_process = "bytes \<Rightarrow> (buf list \<times> bool) result"

definition ps_writeResponse :: "buf \<Rightarrow> bytes \<Rightarrow> bytes" where
  "ps_writeResponse d output = (if buf_is_null d \<or> buf_size d = 0 then [] else buf_bytes d)"

definition Attribute :: "(string \<rightharpoonup> string) \<Rightarrow> string \<Rightarrow> string" where
  "Attribute attributes name = (case attributes name of None \<Rightarrow> [] | Some value \<Rightarrow> value)"

datatype ps_action =
    PsProcess bytes
  | PsReply string bytes "(string \<times> string) list"
  | PsAck string string
  | PsWarn string

text \<open>
  A handler for exceptions of one step: a \<^verbatim>\<open>std::exception\<close> becomes a warning and ends
  the handling, anything else leaves it.
\<close>

definition ps_caught ::
  "string \<Rightarrow> exn \<Rightarrow> ps_action list \<Rightarrow> pubsub_session \<Rightarrow> ps_action list \<times> unit result \<times> pubsub_session"
where
  "ps_caught text e acts se =
     (if is_std e then (acts @ [PsWarn (text @ what e)], Inr (), se) else (acts, Inl e, se))"

definition ps_acknowledge ::
  "pubsub_world \<Rightarrow> pubsub_config \<Rightarrow> pulled_message \<Rightarrow> ps_action list \<Rightarrow> pubsub_session \<Rightarrow>
     ps_action list \<times> unit result \<times> pubsub_session" where
  "ps_acknowledge w config m acts se =
     (if pm_ackId m = []
      then (acts @ [PsWarn ''request has no ackId; cannot acknowledge''], Inr (), se)
      else case Acknowledge w (ps_requestSubscription config) [pm_ackId m] se of
        (Inl e, se) \<Rightarrow> ps_caught ''acknowledge failed: '' e
          (acts @ [PsAck (ps_requestSubscription config) (pm_ackId m)]) se
      | (Inr _, se) \<Rightarrow> (acts @ [PsAck (ps_requestSubscription config) (pm_ackId m)], Inr (), se))"

definition HandleMessage ::
  "pubsub_config \<Rightarrow> ps_process \<Rightarrow> pubsub_session \<Rightarrow> pubsub_world \<times> pulled_message \<Rightarrow>
     ps_action list \<times> unit result \<times> pubsub_session" where
  "HandleMessage config process se x =
     (let (w, m) = x;
          correlationId = Attribute (pm_attributes m) CorrelationIdAttr;
          replyTo = (if ps_oneWay config then [] else Attribute (pm_attributes m) ReplyToAttr)
      in if \<not> ps_oneWay config \<and> (correlationId = [] \<or> \<not> IsValidResourceId replyTo)
         then ([PsWarn (''RPC request is missing correlationId or a valid replyTo '' @
                 ''topic; message left unacked for redelivery'')], Inr (), se)
         else case process (pm_data m) of
           Inl e \<Rightarrow> ps_caught ''processMessage threw: '' e [PsProcess (pm_data m)] se
         | Inr (writes, ok) \<Rightarrow>
             let response = fold ps_writeResponse writes [] in
             if \<not> ok
             then ([PsProcess (pm_data m),
                    PsWarn (''processMessage returned false; message left unacked for '' @
                      ''redelivery'')], Inr (), se)
             else if replyTo \<noteq> []
             then (let acts = [PsProcess (pm_data m),
                         PsReply replyTo response [(CorrelationIdAttr, correlationId)]] in
                   case Publish w replyTo (Buf response) [(CorrelationIdAttr, correlationId)] se of
                     (Inl e, se) \<Rightarrow> ps_caught ''reply publish failed: '' e acts se
                   | (Inr _, se) \<Rightarrow> ps_acknowledge w config m acts se)
             else ps_acknowledge w config m [PsProcess (pm_data m)] se)"

section \<open>The loop\<close>

text \<open>
  A turn of the receive loop: the world of the pull, for each message of the batch the reading of
  the stop flag before it and its world, and the reading of the flag in the handler of an exception.
\<close>

datatype ps_turn = PsStopSeen | PsPull pubsub_world "nat \<Rightarrow> bool \<times> pubsub_world" bool

definition annotate ::
  "(nat \<Rightarrow> bool \<times> pubsub_world) \<Rightarrow> pulled_message list \<Rightarrow> (bool \<times> pubsub_world \<times> pulled_message) list"
where
  "annotate env ms = map (\<lambda>(i, m). (fst (env i), snd (env i), m)) (enumerate 0 ms)"

fun ps_serve_loop ::
  "pubsub_config \<Rightarrow> ps_process \<Rightarrow> pubsub_session \<Rightarrow> ps_turn list \<Rightarrow>
     ps_action list \<times> unit result option" where
  "ps_serve_loop config process se [] = ([], None)"
| "ps_serve_loop config process se (PsStopSeen # _) = ([], Some (Inr ()))"
| "ps_serve_loop config process se (PsPull w env stop_later # rest) =
     (case Pull w (ps_requestSubscription config) 1 se of
        (Inl e, se) \<Rightarrow>
          if is_std e
          then (case ps_serve_loop config process se rest of
                  (acts, r) \<Rightarrow> ((if stop_later then [] else [PsWarn (what e)]) @ acts, r))
          else ([PsWarn ''server stopped after unknown error''], Some (Inl e))
      | (Inr batch, se) \<Rightarrow>
          (case run_batch (HandleMessage config process) se (annotate env batch) of
             (acts, Inl e, se) \<Rightarrow>
               (acts @ [PsWarn ''server stopped after unknown error''], Some (Inl e))
           | (acts, Inr _, se) \<Rightarrow>
               (case ps_serve_loop config process se rest of (acts', r) \<Rightarrow> (acts @ acts', r))))"

section \<open>Acknowledgements\<close>

definition ps_settled ::
  "pubsub_config \<Rightarrow> ps_process \<Rightarrow> pubsub_session \<Rightarrow> pubsub_world \<times> pulled_message \<Rightarrow> bool" where
  "ps_settled config process se x \<longleftrightarrow>
     (\<exists>writes. process (pm_data (snd x)) = Inr (writes, True) \<and>
        (\<not> ps_oneWay config \<longrightarrow>
           Attribute (pm_attributes (snd x)) CorrelationIdAttr \<noteq> [] \<and>
           IsValidResourceId (Attribute (pm_attributes (snd x)) ReplyToAttr) \<and>
           fst (Publish (fst x) (Attribute (pm_attributes (snd x)) ReplyToAttr)
             (Buf (fold ps_writeResponse writes []))
             [(CorrelationIdAttr, Attribute (pm_attributes (snd x)) CorrelationIdAttr)] se) = Inr ()))"

fun is_ps_ack :: "ps_action \<Rightarrow> bool" where
  "is_ps_ack (PsAck s i) = True"
| "is_ps_ack _ = False"

definition ps_ack_of :: "pubsub_config \<Rightarrow> pubsub_world \<times> pulled_message \<Rightarrow> ps_action \<Rightarrow> bool" where
  "ps_ack_of config x a \<longleftrightarrow>
     pm_ackId (snd x) \<noteq> [] \<and> a = PsAck (ps_requestSubscription config) (pm_ackId (snd x))"

lemma ps_acknowledge_acks:
  "PsAck s i \<in> set (fst (ps_acknowledge w config m acts se)) \<longleftrightarrow>
     PsAck s i \<in> set acts \<or> (pm_ackId m \<noteq> [] \<and> s = ps_requestSubscription config \<and> i = pm_ackId m)"
  by (auto simp: ps_acknowledge_def ps_caught_def split: sum.split prod.split)

lemma not_valid_Nil: "\<not> IsValidResourceId []"
  by (simp add: IsValidResourceId_def)

lemma HandleMessage_acks_iff:
  "PsAck s i \<in> set (fst (HandleMessage config process se (w, m))) \<longleftrightarrow>
     pm_ackId m \<noteq> [] \<and> s = ps_requestSubscription config \<and> i = pm_ackId m \<and>
     ps_settled config process se (w, m)"
  by (auto simp: HandleMessage_def Let_def ps_settled_def ps_acknowledge_acks not_valid_Nil
      ps_caught_def split: sum.splits prod.splits)

lemma is_ps_ack_iff: "is_ps_ack a \<longleftrightarrow> (\<exists>s i. a = PsAck s i)"
  by (cases a) auto

lemma ps_acknowledge_once:
  "filter is_ps_ack acts = [] \<Longrightarrow>
    length (filter is_ps_ack (fst (ps_acknowledge w config m acts se))) \<le> 1"
  by (auto simp: ps_acknowledge_def ps_caught_def split: sum.split prod.split)

lemma HandleMessage_once:
  "length (filter is_ps_ack (fst (HandleMessage config process se x))) \<le> 1"
proof -
  obtain w m where x: "x = (w, m)" by (cases x)
  show ?thesis
    using ps_acknowledge_once
    by (auto simp: x HandleMessage_def Let_def ps_caught_def split: sum.splits prod.splits)
qed

interpretation pubsub_ack: ack_server "HandleMessage config process" is_ps_ack "ps_ack_of config"
  "ps_settled config process" for config process
proof unfold_locales
  fix a s m
  assume "a \<in> set (fst (HandleMessage config process s m))" "is_ps_ack a"
  then show "ps_ack_of config m a \<and> ps_settled config process s m"
    by (cases m) (auto simp: is_ps_ack_iff HandleMessage_acks_iff ps_ack_of_def)
qed (rule HandleMessage_once)

lemma snd_annotate: "x \<in> snd ` set (annotate env ms) \<Longrightarrow> snd x \<in> set ms"
  by (force simp: annotate_def in_set_enumerate_eq)

text \<open>
  C16. The Pub/Sub server acknowledges a message exactly when it is settled: the callback
  accepted it and, for an RPC request with a correlation id and a valid reply topic, the reply
  was published.  Every other message stays unacknowledged and is delivered again; over a whole
  batch there is at most one acknowledgement per message, and each belongs to a settled one.
\<close>
theorem pubsub_ack_iff_settled:
  "(PsAck s i \<in> set (fst (HandleMessage config process se (w, m))) \<longleftrightarrow>
     pm_ackId m \<noteq> [] \<and> s = ps_requestSubscription config \<and> i = pm_ackId m \<and>
     ps_settled config process se (w, m)) \<and>
   length (filter is_ps_ack (fst (run_batch (HandleMessage config process) se
     (annotate env batch)))) \<le> length batch \<and>
   (PsAck s i \<in> set (fst (run_batch (HandleMessage config process) se (annotate env batch))) \<longrightarrow>
     (\<exists>w' m' se'. m' \<in> set batch \<and> i = pm_ackId m' \<and> ps_settled config process se' (w', m')))"
proof -
  have count: "length (filter is_ps_ack (fst (run_batch (HandleMessage config process) se
      (annotate env batch)))) \<le> length batch"
    using pubsub_ack.batch_ack_count [of config process se "annotate env batch"]
    by (simp add: annotate_def)
  have batch: "\<exists>w' m' se'. m' \<in> set batch \<and> i = pm_ackId m' \<and> ps_settled config process se' (w', m')"
    if "PsAck s i \<in> set (fst (run_batch (HandleMessage config process) se (annotate env batch)))"
  proof -
    have "\<exists>x \<in> snd ` set (annotate env batch). \<exists>se'. ps_ack_of config x (PsAck s i) \<and>
        ps_settled config process se' x"
      using pubsub_ack.batch_acks_settled [OF that] by simp
    then obtain x se' where x: "x \<in> snd ` set (annotate env batch)" "ps_ack_of config x (PsAck s i)"
      "ps_settled config process se' x"
      by blast
    then show ?thesis
      using snd_annotate [OF x(1)]
      by (intro exI [of _ "fst x"] exI [of _ "snd x"] exI [of _ se']) (auto simp: ps_ack_of_def)
  qed
  show ?thesis using HandleMessage_acks_iff count batch by blast
qed

definition example_ps_message :: pulled_message where
  "example_ps_message = \<lparr>pm_ackId = ''a'', pm_data = [1], pm_attributes = Map.empty\<rparr>"

lemma pubsub_ack_iff_settled_witness:
  "\<forall>se w. PsAck [] ''a'' \<in> set (fst (run_batch
       (HandleMessage (default_pubsub_config\<lparr>ps_oneWay := True\<rparr>) (\<lambda>_. Inr ([], True))) se
       (annotate (\<lambda>_. (False, w)) [example_ps_message]))) \<and>
     (\<exists>w' m se'. m \<in> {example_ps_message} \<and>
       ps_settled (default_pubsub_config\<lparr>ps_oneWay := True\<rparr>) (\<lambda>_. Inr ([], True)) se' (w', m))"
proof (intro allI)
  fix se w
  let ?c = "default_pubsub_config\<lparr>ps_oneWay := True\<rparr>"
  let ?p = "\<lambda>_. Inr ([], True)"
  let ?run = "fst (run_batch (HandleMessage ?c ?p) se
    (annotate (\<lambda>_. (False, w)) [example_ps_message]))"
  have step: "ps_settled ?c ?p se (w, example_ps_message)"
    by (simp add: ps_settled_def)
  note claim = pubsub_ack_iff_settled [of "[]" "''a''" ?c ?p se w example_ps_message
      "\<lambda>_. (False, w)" "[example_ps_message]"]
  have "PsAck [] ''a'' \<in> set (fst (HandleMessage ?c ?p se (w, example_ps_message)))"
    using claim step by (simp add: example_ps_message_def default_pubsub_config_def)
  then have "PsAck [] ''a'' \<in> set ?run"
    by (cases "HandleMessage ?c ?p se (w, example_ps_message)")
      (auto simp: annotate_def split: sum.split)
  then show "PsAck [] ''a'' \<in> set ?run \<and>
      (\<exists>w' m se'. m \<in> {example_ps_message} \<and> ps_settled ?c ?p se' (w', m))"
    using claim by auto
qed

section \<open>Start and stop\<close>

datatype ps_phase = PsIdle | PsPublished | PsSetup | PsLoop | PsTurn | PsFinish

record pubsub_server =
  pv_config :: pubsub_config
  pv_process :: bool
  pv_running :: bool
  pv_stopRequested :: bool
  pv_phase :: ps_phase
  pv_run :: "pubsub_config \<times> bool"
  pv_session :: "pubsub_session option"

definition new_PubSubServer :: pubsub_server where
  "new_PubSubServer =
    \<lparr>pv_config = default_pubsub_config, pv_process = False, pv_running = False,
     pv_stopRequested = False, pv_phase = PsIdle, pv_run = (default_pubsub_config, False),
     pv_session = None\<rparr>"

definition ps_configure :: "cpp_env \<Rightarrow> string \<Rightarrow> bool \<Rightarrow> pubsub_server \<Rightarrow> unit result \<times> pubsub_server" where
  "ps_configure env jsonConfig hasProcess s =
     (if \<not> hasProcess
      then (Inl (RuntimeError ''Pub/Sub server: processMessage callback is required''), s)
      else case rbind (ParsePubSubConfigSource env jsonConfig) (\<lambda>c.
          rbind (ApplyRuntimeEnvironment env c) (\<lambda>c.
          rbind (pubsub_ValidateServerConfig c) (\<lambda>_. Inr c))) of
        Inl e \<Rightarrow> (Inl e, s)
      | Inr config \<Rightarrow>
          if pv_running s
          then (Inl (RuntimeError ''Pub/Sub server: cannot configure while running''), s)
          else (Inr (), s\<lparr>pv_config := config, pv_process := True\<rparr>))"

definition ps_start_publish :: "pubsub_server \<Rightarrow> pubsub_server" where
  "ps_start_publish s =
     (if pv_running s then s
      else s\<lparr>pv_stopRequested := False, pv_running := True, pv_phase := PsPublished\<rparr>)"

text \<open>The copy of the configuration and its checks; an error ends the run.\<close>

definition ps_start_check :: "pubsub_server \<Rightarrow> pubsub_server" where
  "ps_start_check s =
     (let s = s\<lparr>pv_run := (pv_config s, pv_process s), pv_session := None\<rparr> in
      case rbind (pubsub_ValidateServerConfig (fst (pv_run s))) (\<lambda>_.
        if \<not> snd (pv_run s)
        then Inl (RuntimeError ''Pub/Sub server: processMessage callback is not configured'')
        else Inr ()) of
        Inl e \<Rightarrow> s\<lparr>pv_phase := PsFinish\<rparr>
      | Inr _ \<Rightarrow> s\<lparr>pv_phase := PsSetup\<rparr>)"

text \<open>
  One test and turn of the setup loop; \<open>handle\<close> says whether \<^verbatim>\<open>curl_easy_init\<close>
  gave a handle, and the two worlds are those of the two requests.
\<close>

definition ps_setup_turn ::
  "bool \<Rightarrow> pubsub_world \<Rightarrow> pubsub_world \<Rightarrow> pubsub_server \<Rightarrow> pubsub_server" where
  "ps_setup_turn handle w1 w2 s =
     (if pv_session s \<noteq> None \<or> pv_stopRequested s then s\<lparr>pv_phase := PsLoop\<rparr>
      else
        let config = fst (pv_run s) in
        case new_session handle config of
          Inl e \<Rightarrow> s
        | Inr candidate \<Rightarrow>
            if ps_autoCreate config
            then (case EnsureTopic w1 (ps_requestTopic config) candidate of
                    (Inl e, _) \<Rightarrow> s
                  | (Inr _, candidate) \<Rightarrow>
                      (case EnsureSubscription w2 (ps_requestSubscription config)
                         (ps_requestTopic config) candidate of
                         (Inl e, _) \<Rightarrow> s
                       | (Inr _, candidate) \<Rightarrow> s\<lparr>pv_session := Some candidate\<rparr>))
            else s\<lparr>pv_session := Some candidate\<rparr>)"

text \<open>The test of the receive loop and the end of a turn, which may crash.\<close>

definition ps_loop_test :: "pubsub_server \<Rightarrow> pubsub_server" where
  "ps_loop_test s = s\<lparr>pv_phase := (if pv_stopRequested s then PsFinish else PsTurn)\<rparr>"

definition ps_loop_turn :: "bool \<Rightarrow> pubsub_session \<Rightarrow> pubsub_server \<Rightarrow> pubsub_server" where
  "ps_loop_turn crash se s =
     s\<lparr>pv_session := Some se, pv_phase := (if crash then PsFinish else PsLoop)\<rparr>"

definition ps_start_finish :: "pubsub_server \<Rightarrow> pubsub_server" where
  "ps_start_finish s = s\<lparr>pv_running := False, pv_session := None, pv_phase := PsIdle\<rparr>"

definition ps_stop_signal :: "pubsub_server \<Rightarrow> pubsub_server" where
  "ps_stop_signal s = s\<lparr>pv_stopRequested := True\<rparr>"

inductive pv_own :: "pubsub_server \<Rightarrow> pubsub_server \<Rightarrow> bool" where
  pv_check: "pv_phase s = PsPublished \<Longrightarrow> pv_own s (ps_start_check s)"
| pv_setup: "pv_phase s = PsSetup \<Longrightarrow> pv_own s (ps_setup_turn handle w1 w2 s)"
| pv_test: "pv_phase s = PsLoop \<Longrightarrow> pv_own s (ps_loop_test s)"
| pv_turn: "pv_phase s = PsTurn \<Longrightarrow> pv_session s = Some se \<Longrightarrow> pv_own s (ps_loop_turn crash se' s)"
| pv_finish: "pv_phase s = PsFinish \<Longrightarrow> pv_own s (ps_start_finish s)"

inductive pv_step :: "pubsub_server \<Rightarrow> pubsub_server \<Rightarrow> bool" where
  pv_own_step: "pv_own s t \<Longrightarrow> pv_step s t"
| pv_configure: "pv_step s (snd (ps_configure env source hasProcess s))"
| pv_start: "pv_step s (ps_start_publish s)"
| pv_signal: "pv_step s (ps_stop_signal s)"

inductive_cases pv_own_E: "pv_own s t"
inductive_cases pv_step_E: "pv_step s t"

lemmas pv_ops =
  ps_start_publish_def ps_start_check_def ps_setup_turn_def ps_loop_test_def ps_loop_turn_def
  ps_start_finish_def ps_stop_signal_def

text \<open>The receive loop is entered without a session only when a stop was requested.\<close>

definition pv_inv :: "pubsub_server \<Rightarrow> bool" where
  "pv_inv s \<longleftrightarrow>
     (pv_running s \<longleftrightarrow> pv_phase s \<noteq> PsIdle) \<and>
     (pv_phase s = PsLoop \<longrightarrow> pv_session s \<noteq> None \<or> pv_stopRequested s) \<and>
     (pv_phase s = PsTurn \<longrightarrow> pv_session s \<noteq> None)"

lemma pv_inv_new: "pv_inv new_PubSubServer"
  by (simp add: pv_inv_def new_PubSubServer_def)

lemma pv_inv_own: "pv_own s t \<Longrightarrow> pv_inv s \<Longrightarrow> pv_inv t"
  by (erule pv_own_E) (auto simp: pv_inv_def pv_ops Let_def split: sum.splits if_splits prod.splits)

lemma ps_configure_fields:
  "pv_running (snd (ps_configure env source hasProcess s)) = pv_running s"
  "pv_phase (snd (ps_configure env source hasProcess s)) = pv_phase s"
  "pv_session (snd (ps_configure env source hasProcess s)) = pv_session s"
  "pv_stopRequested (snd (ps_configure env source hasProcess s)) = pv_stopRequested s"
  "pv_running s \<Longrightarrow> snd (ps_configure env source hasProcess s) = s"
  by (auto simp: ps_configure_def split: sum.splits)

lemma pv_inv_step: "pv_step s t \<Longrightarrow> pv_inv s \<Longrightarrow> pv_inv t"
  by (erule pv_step_E)
    (auto simp: pv_inv_def ps_configure_fields ps_start_publish_def ps_stop_signal_def
      dest: pv_inv_own [unfolded pv_inv_def])

fun pv_rank :: "ps_phase \<Rightarrow> nat" where
  "pv_rank PsIdle = 0"
| "pv_rank PsFinish = 1"
| "pv_rank PsLoop = 2"
| "pv_rank PsTurn = 3"
| "pv_rank PsSetup = 3"
| "pv_rank PsPublished = 4"

definition pv_busy :: "pubsub_server \<Rightarrow> bool" where
  "pv_busy s \<longleftrightarrow> pv_running s \<and> pv_inv s"

lemma pv_stop_kept:
  assumes "pv_step s t" "pv_running s" "pv_stopRequested s"
  shows "pv_stopRequested t"
  using assms(1)
proof (rule pv_step_E)
  assume "pv_own s t"
  then show ?thesis
    by (rule pv_own_E)
      (use assms in \<open>auto simp: pv_ops Let_def split: sum.splits prod.splits\<close>)
qed (use assms in \<open>auto simp: pv_ops ps_configure_fields\<close>)

lemma pv_wind_down:
  "pv_own s t \<Longrightarrow> pv_stopRequested s \<Longrightarrow> pv_rank (pv_phase t) < pv_rank (pv_phase s)"
  by (elim pv_own_E) (auto simp: pv_ops Let_def split: sum.splits)

interpretation pubsub_stop: stoppable_among pv_step pv_own pv_busy pv_stopRequested
  "\<lambda>s. pv_rank (pv_phase s)"
proof unfold_locales
  fix s t
  assume "pv_step s t" "pv_busy s" "pv_stopRequested s"
  then show "pv_stopRequested t" using pv_stop_kept by (simp add: pv_busy_def)
next
  fix s
  assume "pv_busy s"
  then show "\<exists>t. pv_own s t"
    by (cases "pv_phase s") (auto simp: pv_busy_def pv_inv_def intro: pv_own.intros)
next
  fix s t
  assume "pv_own s t" "pv_stopRequested s"
  then show "pv_rank (pv_phase t) < pv_rank (pv_phase s)" by (rule pv_wind_down)
next
  fix s t
  assume "pv_step s t" "pv_busy s" "pv_stopRequested s"
  then show "pv_rank (pv_phase t) \<le> pv_rank (pv_phase s)"
    by (elim pv_step_E)
      (auto simp: ps_configure_fields ps_start_publish_def ps_stop_signal_def pv_busy_def less_imp_le pv_wind_down)
qed (rule pv_own_step)

lemma pubsub_stop_ends:
  assumes "reaches pv_step new_PubSubServer s"
  shows "pv_inv s"
    "pv_running s \<Longrightarrow> pv_stopRequested s \<Longrightarrow> serves pv_step pv_own pv_running n s t \<Longrightarrow>
      pv_stopRequested t \<and> n \<le> 3 \<and> (\<exists>u. pv_own t u)"
    "pv_running s \<Longrightarrow> pv_stopRequested s \<Longrightarrow> \<exists>t. reaches pv_own s t \<and> \<not> pv_running t"
proof -
  show inv: "pv_inv s"
    using assms by (rule reaches_invariant) (auto intro: pv_inv_new pv_inv_step)
  {
    assume run: "pv_running s" "pv_stopRequested s" and serves: "serves pv_step pv_own pv_running n s t"
    then have busy: "pv_busy s" using inv by (simp add: pv_busy_def)
    have "serves pv_step pv_own pv_busy n s t"
      by (rule conjunct2 [OF serves_mono [OF serves, of pv_inv]])
        (use inv pv_own_step pv_inv_step in \<open>simp_all add: pv_busy_def\<close>)
    from pubsub_stop.serves_bounded [OF this busy run(2)]
    have "pv_busy t" "pv_stopRequested t" "n + pv_rank (pv_phase t) \<le> pv_rank (pv_phase s)" "\<exists>u. pv_own t u"
      by auto
    moreover have "pv_rank (pv_phase s) \<le> 4" by (cases "pv_phase s") simp_all
    moreover have "1 \<le> pv_rank (pv_phase t)"
      using \<open>pv_busy t\<close> by (cases "pv_phase t") (simp_all add: pv_busy_def pv_inv_def)
    ultimately show "pv_stopRequested t \<and> n \<le> 3 \<and> (\<exists>u. pv_own t u)" by simp
  }
  assume run: "pv_running s" "pv_stopRequested s"
  then have "pv_busy s" using inv by (simp add: pv_busy_def)
  from pubsub_stop.stops [OF this run(2)] obtain t where t: "reaches pv_own s t" "\<not> pv_busy t"
    by blast
  have "pv_inv t" using t(1) inv by (rule reaches_invariant) (rule pv_inv_own)
  with t show "\<exists>t. reaches pv_own s t \<and> \<not> pv_running t" by (auto simp: pv_busy_def)
qed

text \<open>
  C29. The life cycle of the Pub/Sub server is safe: in every reachable state a turn of the
  receive loop has a session (the setup loop can end without one, but only by a stop, which is
  never cleared while the server runs).  After a requested stop, in every interleaving with the
  other threads and whatever curl and the service answer, the serving thread makes at most three
  more steps before the one that ends the run, and until then it always has a step to make, so that
  every fair run ends, also one whose setup keeps failing; and it can get there alone.
\<close>
theorem pubsub_lifecycle_safe:
  assumes "reaches pv_step new_PubSubServer s"
  shows "(pv_phase s = PsTurn \<longrightarrow> pv_session s \<noteq> None) \<and>
    (pv_running s \<and> pv_stopRequested s \<longrightarrow>
       (\<forall>t. pv_step s t \<longrightarrow> pv_stopRequested t) \<and>
       (\<forall>n t. serves pv_step pv_own pv_running n s t \<longrightarrow>
          pv_stopRequested t \<and> n \<le> 3 \<and> (\<exists>u. pv_own t u)) \<and>
       (\<exists>t. reaches pv_own s t \<and> \<not> pv_running t))"
  using pubsub_stop_ends [OF assms] pv_stop_kept unfolding pv_inv_def by blast

lemma pubsub_lifecycle_safe_witness:
  "\<exists>s t. reaches pv_step new_PubSubServer s \<and> pv_running s \<and> pv_stopRequested s \<and>
    reaches pv_own s t \<and> \<not> pv_running t"
proof -
  define s where "s = ps_stop_signal (ps_start_publish new_PubSubServer)"
  have reach: "reaches pv_step new_PubSubServer s"
    unfolding s_def
    using pv_start [of new_PubSubServer] pv_signal [of "ps_start_publish new_PubSubServer"]
    by (blast intro: reaches_step reaches_refl)
  have "pv_running s" "pv_stopRequested s"
    by (simp_all add: s_def ps_stop_signal_def ps_start_publish_def new_PubSubServer_def)
  with pubsub_lifecycle_safe [OF reach] reach show ?thesis by blast
qed

end
