(* ===== verification/PubSubClient.thy ===== *)
theory PubSubClient
  imports PubSubServer Tickets TransportAbi
begin

text \<open>
  The client of the Pub/Sub plugin (\<^verbatim>\<open>PubSubClient.cpp\<close>,
  \<^verbatim>\<open>TransportPubSub.cpp\<close>): the pool of sessions, the start with the creation of
  topics, the dispatcher, and the call with its retry while a topic does not exist yet.
\<close>

section \<open>The client object\<close>

record pubsub_client =
  pc_config :: pubsub_config
  pc_pending :: pending
  pc_started :: bool
  pc_stopping :: bool
  pc_idleSessions :: "pubsub_session list"
  pc_replySession :: "pubsub_session option"

definition new_PubSubClient :: "cpp_env \<Rightarrow> pubsub_config \<Rightarrow> pubsub_client result" where
  "new_PubSubClient env config =
     rbind (ApplyRuntimeEnvironment env config) (\<lambda>config.
     rbind (pubsub_ValidateClientConfig config) (\<lambda>_.
       Inr \<lparr>pc_config = config, pc_pending = new_pending, pc_started = False,
            pc_stopping = False, pc_idleSessions = [], pc_replySession = None\<rparr>))"

definition destroy_PubSubClient :: "pubsub_client \<Rightarrow> pubsub_client" where
  "destroy_PubSubClient c =
     c\<lparr>pc_stopping := True,
       pc_pending := Close ''Pub/Sub client is shutting down'' (pc_pending c)\<rparr>"

text \<open>Sessions are taken from and put at the back.\<close>

definition AcquireSession :: "bool \<Rightarrow> pubsub_client \<Rightarrow> pubsub_session result \<times> pubsub_client" where
  "AcquireSession handle c =
     (if pc_idleSessions c \<noteq> []
      then (Inr (last (pc_idleSessions c)), c\<lparr>pc_idleSessions := butlast (pc_idleSessions c)\<rparr>)
      else (new_session handle (pc_config c), c))"

definition ReleaseSession :: "pubsub_session \<Rightarrow> pubsub_client \<Rightarrow> pubsub_client" where
  "ReleaseSession se c = c\<lparr>pc_idleSessions := pc_idleSessions c @ [se]\<rparr>"

text \<open>The three requests that create what a client needs, each in its world.\<close>

definition create_resources ::
  "pubsub_world \<Rightarrow> pubsub_world \<Rightarrow> pubsub_world \<Rightarrow> pubsub_config \<Rightarrow> pubsub_session \<Rightarrow>
     unit result \<times> pubsub_session" where
  "create_resources w1 w2 w3 config se =
     (if \<not> ps_autoCreate config then (Inr (), se)
      else case EnsureTopic w1 (ps_requestTopic config) se of
        (Inl e, se) \<Rightarrow> (Inl e, se)
      | (Inr _, se) \<Rightarrow>
          if ps_oneWay config then (Inr (), se)
          else (case EnsureTopic w2 (ps_replyTopic config) se of
                  (Inl e, se) \<Rightarrow> (Inl e, se)
                | (Inr _, se) \<Rightarrow>
                    EnsureSubscription w3 (ps_replySubscription config) (ps_replyTopic config) se))"

text \<open>\<open>h1\<close> and \<open>h2\<close> say whether curl gives the two handles that may be needed.\<close>

definition EnsureStarted ::
  "bool \<Rightarrow> bool \<Rightarrow> pubsub_world \<Rightarrow> pubsub_world \<Rightarrow> pubsub_world \<Rightarrow> pubsub_client \<Rightarrow>
     unit result \<times> pubsub_client" where
  "EnsureStarted h1 h2 w1 w2 w3 c =
     (if pc_started c then (Inr (), c)
      else case AcquireSession h1 c of
        (Inl e, c) \<Rightarrow> (Inl e, c)
      | (Inr se, c) \<Rightarrow>
          (case create_resources w1 w2 w3 (pc_config c) se of
             (Inl e, _) \<Rightarrow> (Inl e, c)
           | (Inr _, se) \<Rightarrow>
               (let c = ReleaseSession se c in
                if \<not> ps_oneWay (pc_config c)
                then (case new_session h2 (pc_config c) of
                        Inl e \<Rightarrow> (Inl e, c)
                      | Inr reply \<Rightarrow>
                          (Inr (), c\<lparr>pc_replySession := Some reply, pc_started := True\<rparr>))
                else (Inr (), c\<lparr>pc_started := True\<rparr>))))"

section \<open>The dispatcher\<close>

text \<open>Which failures of a pull fail the waiting calls: not the transient ones.\<close>

definition pull_failure_events :: "exn \<Rightarrow> pr_event list" where
  "pull_failure_events e =
     (case e of
        HttpError status m \<Rightarrow>
          if status \<noteq> 429 \<and> status < 500 \<and> status \<noteq> 0 then [EFailAll (what e)] else []
      | _ \<Rightarrow> [EFailAll (what e)])"

definition completions :: "pulled_message list \<Rightarrow> pr_event list" where
  "completions batch =
     concat (map (\<lambda>m. case pm_attributes m CorrelationIdAttr of
       None \<Rightarrow> [] | Some i \<Rightarrow> [EComplete i (pm_data m)]) batch)"

text \<open>
  One turn of \<^verbatim>\<open>DispatchReplies\<close>: the events on the table, the ids it acknowledged, and
  the session.  An error of the acknowledgement is ignored.
\<close>

definition pubsub_dispatch_turn ::
  "pubsub_world \<Rightarrow> pubsub_world \<Rightarrow> pubsub_client \<Rightarrow> pubsub_session \<Rightarrow>
     pr_event list \<times> string list \<times> pubsub_session" where
  "pubsub_dispatch_turn w1 w2 c se =
     (if pc_stopping c \<or> \<not> WaitForPending (pc_pending c) then ([], [], se)
      else case Pull w1 (ps_replySubscription (pc_config c)) (ps_maxMessages (pc_config c)) se of
        (Inl e, se) \<Rightarrow> (pull_failure_events e, [], se)
      | (Inr batch, se) \<Rightarrow>
          let ackIds = filter (\<lambda>i. i \<noteq> []) (map pm_ackId batch);
              se = (if ackIds \<noteq> []
                    then snd (Acknowledge w2 (ps_replySubscription (pc_config c)) ackIds se) else se)
          in (completions batch, ackIds, se))"

section \<open>A call\<close>

text \<open>
  The publish loop: each attempt has its world and, for a failed one, the reading of the clock
  against the deadline.  \<open>None\<close>: the observed attempts do not end the loop.
\<close>

fun publish_retry ::
  "string \<Rightarrow> buf \<Rightarrow> (string \<times> string) list \<Rightarrow> (pubsub_world \<times> bool) list \<Rightarrow> pubsub_session \<Rightarrow>
     (unit result \<times> pubsub_session) option" where
  "publish_retry topic d attributes [] se = None"
| "publish_retry topic d attributes ((w, before_deadline) # attempts) se =
     (case Publish w topic d attributes se of
        (Inr u, se) \<Rightarrow> Some (Inr u, se)
      | (Inl e, se) \<Rightarrow>
          (case e of
             HttpError status m \<Rightarrow>
               if status = 404 \<and> before_deadline then publish_retry topic d attributes attempts se
               else Some (Inl e, se)
           | _ \<Rightarrow> Some (Inl e, se)))"

definition call_attributes :: "pubsub_config \<Rightarrow> string \<Rightarrow> (string \<times> string) list" where
  "call_attributes config correlationId =
     (CorrelationIdAttr, correlationId) #
     (if \<not> ps_oneWay config then [(ReplyToAttr, ps_replyTopic config)] else [])"

definition pubsub_timeout :: "pubsub_config \<Rightarrow> string \<Rightarrow> exn" where
  "pubsub_timeout config correlationId =
     RuntimeError (''Pub/Sub RPC timed out after '' @ to_string (uint (ps_rpcTimeoutMs config)) @
       '' ms waiting for correlation id '' @ correlationId)"

text \<open>
  \<^verbatim>\<open>Call\<close> after the start: \<open>during\<close> are the events of the other threads between the
  registration and the end of the wait.
\<close>

definition call_publish ::
  "bool \<Rightarrow> string \<Rightarrow> (pubsub_world \<times> bool) list \<Rightarrow> buf \<Rightarrow> pubsub_client \<Rightarrow>
     (unit result \<times> pubsub_client) option" where
  "call_publish handle correlationId attempts d c =
     (case AcquireSession handle c of
        (Inl e, c) \<Rightarrow> Some (Inl e, c)
      | (Inr se, c) \<Rightarrow>
          (case publish_retry (ps_requestTopic (pc_config c)) d
             (call_attributes (pc_config c) correlationId) attempts se of
             None \<Rightarrow> None
           | Some (Inl e, _) \<Rightarrow> Some (Inl e, c)
           | Some (Inr _, se) \<Rightarrow> Some (Inr (), ReleaseSession se c)))"

definition call_started ::
  "bool \<Rightarrow> string \<Rightarrow> pr_event list \<Rightarrow> (pubsub_world \<times> bool) list \<Rightarrow> buf \<Rightarrow> pubsub_client \<Rightarrow>
     (bytes result \<times> pubsub_client) option" where
  "call_started handle correlationId during attempts d c =
     (if ps_oneWay (pc_config c)
      then (case call_publish handle correlationId attempts d c of
              None \<Rightarrow> None
            | Some (Inl e, c) \<Rightarrow> Some (Inl e, c)
            | Some (Inr _, c) \<Rightarrow> Some (Inr [], c))
      else (case Register correlationId (pc_pending c) of
              Inl e \<Rightarrow> Some (Inl e, c)
            | Inr (ticket, p) \<Rightarrow>
                (let p = fold pr_apply during p in
                 case call_publish handle correlationId attempts d c of
                   None \<Rightarrow> None
                 | Some (Inl e, c) \<Rightarrow> Some (Inl e, c\<lparr>pc_pending := ticket_destroy ticket p\<rparr>)
                 | Some (Inr _, c) \<Rightarrow>
                     let (r, p) = Wait ticket p in
                     Some (case r of
                         Inl e \<Rightarrow> Inl e
                       | Inr None \<Rightarrow> Inl (pubsub_timeout (pc_config c) correlationId)
                       | Inr (Some response) \<Rightarrow> Inr response,
                       c\<lparr>pc_pending := ticket_destroy ticket p\<rparr>))))"

definition PubSubCall ::
  "bool \<times> bool \<times> bool \<Rightarrow> pubsub_world \<Rightarrow> pubsub_world \<Rightarrow> pubsub_world \<Rightarrow> string \<Rightarrow>
     pr_event list \<Rightarrow> (pubsub_world \<times> bool) list \<Rightarrow> buf \<Rightarrow> pubsub_client \<Rightarrow>
     (bytes result \<times> pubsub_client) option" where
  "PubSubCall handles w1 w2 w3 correlationId during attempts d c =
     (if buf_size d > MaxPayloadBytes
      then Some (Inl (RuntimeError ''Pub/Sub plugin: payload exceeds the 10 MiB Pub/Sub limit''), c)
      else if buf_size d > 0 \<and> buf_is_null d
      then Some (Inl (InvalidArgument ''Pub/Sub client: null payload with non-zero length''), c)
      else let (h1, h2, h3) = handles in
        (case EnsureStarted h1 h2 w1 w2 w3 c of
           (Inl e, c) \<Rightarrow> Some (Inl e, c)
         | (Inr _, c) \<Rightarrow> call_started h3 correlationId during attempts d c))"

definition pubsub_transport :: "(buf \<Rightarrow> bytes result) \<Rightarrow> transport" where
  "pubsub_transport call messageByteArray messageByteArrayLen =
     (if sint messageByteArrayLen < 0 \<or> (sint messageByteArrayLen > 0 \<and> messageByteArray = None)
      then Some (Inl (InvalidArgument ''Pub/Sub transport: invalid request payload''))
      else case read_ptr messageByteArray (size_of_int32 messageByteArrayLen) of
        None \<Rightarrow> None
      | Some d \<Rightarrow> Some (rbind (call d) reject_error_reply))"

text \<open>The transport passes messages and replies as the ABI expects.\<close>

interpretation pubsub_plugin: plugin_transport pubsub_transport
  by unfold_locales (simp add: pubsub_transport_def read_ptr_positive)

section \<open>Facts\<close>

lemma publish_retry_ends:
  assumes "\<exists>x \<in> set attempts. \<not> snd x"
  shows "publish_retry topic d attributes attempts se \<noteq> None"
  using assms
proof (induction attempts arbitrary: se)
  case (Cons x xs)
  obtain w b where x: "x = (w, b)" by (cases x)
  with Cons show ?case
    by (auto split: prod.split sum.split exn.split)
qed simp

lemma call_publish_keeps:
  "call_publish handle cid attempts d c = Some (r, c') \<Longrightarrow>
     pc_pending c' = pc_pending c \<and> pc_config c' = pc_config c"
  by (auto simp: call_publish_def AcquireSession_def ReleaseSession_def
      split: if_splits sum.splits prod.splits option.splits)

lemma call_publish_ends:
  assumes "\<exists>x \<in> set attempts. \<not> snd x"
  shows "call_publish handle cid attempts d c \<noteq> None"
proof -
  obtain a c1 where acq: "AcquireSession handle c = (a, c1)" by (cases "AcquireSession handle c")
  then show ?thesis
    using publish_retry_ends [OF assms, of "ps_requestTopic (pc_config c1)" d
        "call_attributes (pc_config c1) cid" "projr a"]
    by (auto simp: call_publish_def split: sum.splits)
qed

section \<open>Properties\<close>

text \<open>
  The outcome of a Pub/Sub RPC call.  The publish loop ends as soon as the deadline has
  passed at a failed attempt; a call that gets through ends with the publishing error, or with
  what the first event for its own id says, or with a timeout; and in every case the table is
  left well-formed without an entry of the call.
\<close>
theorem pubsub_call_outcome:
  assumes "pending_wf (pc_pending c)" and "\<not> closed (pc_pending c)"
    and "map_of (slots (pc_pending c)) cid = None"
    and "\<not> ps_oneWay (pc_config c)" and "leaves cid during"
    and "\<exists>x \<in> set attempts. \<not> snd x"
  shows "\<exists>r c1 c'. call_publish handle cid attempts d c = Some (r, c1) \<and>
    call_started handle cid during attempts d c = Some
      ((case r of
          Inl e \<Rightarrow> Inl e
        | Inr _ \<Rightarrow>
            (case first_settle cid during of
               Waiting \<Rightarrow> Inl (pubsub_timeout (pc_config c) cid)
             | Failed e \<Rightarrow> Inl (RuntimeError e)
             | Done pl \<Rightarrow> Inr pl)), c') \<and>
    map_of (slots (pc_pending c')) cid = None \<and> pending_wf (pc_pending c')"
proof -
  obtain t p where reg: "Register cid (pc_pending c) = Inr (t, p)"
    by (rule Register_succeeds [OF assms(2,3)])
  obtain r c1 where pub: "call_publish handle cid attempts d c = Some (r, c1)"
    using call_publish_ends [OF assms(6)] by (metis not_Some_eq surj_pair)
  have c1: "pc_config c1 = pc_config c" using call_publish_keeps [OF pub] by simp
  obtain v q where w: "Wait t (fold pr_apply during p) = (v, q)"
    by (cases "Wait t (fold pr_apply during p)")
  note after = wait_after_run [OF assms(1) reg assms(5)] wait_entry_gone [OF assms(1) reg, of q]
    abandon_after_run [OF assms(1) reg]
  have "\<exists>c'. call_started handle cid during attempts d c = Some
      ((case r of
          Inl e \<Rightarrow> Inl e
        | Inr _ \<Rightarrow>
            (case first_settle cid during of
               Waiting \<Rightarrow> Inl (pubsub_timeout (pc_config c) cid)
             | Failed e \<Rightarrow> Inl (RuntimeError e)
             | Done pl \<Rightarrow> Inr pl)), c') \<and>
    map_of (slots (pc_pending c')) cid = None \<and> pending_wf (pc_pending c')"
  proof (cases r)
    case (Inl e)
    then show ?thesis
      using assms(4) after(5,6) by (simp add: call_started_def Let_def reg pub)
  next
    case (Inr u)
    then show ?thesis
      using assms(4) after(1,3,4) w
      by (auto simp: call_started_def Let_def reg pub c1 split: outcome.split)
  qed
  with pub show ?thesis by blast
qed

definition example_world :: pubsub_world where
  "example_world =
    \<lparr>w_perform = (\<lambda>_. CurlOk 200 []), w_dump = (\<lambda>_. []), w_parse = (\<lambda>_. Inl type_error),
     w_trunc = (\<lambda>_. 0), w_sign = (\<lambda>_ _. Inr []), w_read_file = (\<lambda>_. None),
     w_now = 0, w_issuedAt = 0, w_later = 0\<rparr>"

definition example_pubsub_client :: pubsub_client where
  "example_pubsub_client =
    \<lparr>pc_config = default_pubsub_config\<lparr>ps_emulatorHost := ''h''\<rparr>, pc_pending = new_pending,
     pc_started = True, pc_stopping = False, pc_idleSessions = [], pc_replySession = None\<rparr>"

lemma pubsub_call_outcome_witness:
  "\<exists>r c'. call_started True ''id'' [EComplete ''x'' [1], EComplete ''id'' [2]] [(example_world, False)]
     (Buf [7]) example_pubsub_client = Some (r, c') \<and>
   map_of (slots (pc_pending c')) ''id'' = None"
proof -
  have "pc_pending example_pubsub_client = new_pending"
    "ps_oneWay (pc_config example_pubsub_client) = False"
    "slots new_pending = []" "closed new_pending = False"
    by (simp_all add: example_pubsub_client_def default_pubsub_config_def new_pending_def)
  then show ?thesis
    using pubsub_call_outcome [of example_pubsub_client "''id''"
        "[EComplete ''x'' [1], EComplete ''id'' [2]]" "[(example_world, False)]" True "Buf [7]"]
    by auto
qed

definition payload_error :: "json \<Rightarrow> bool" where
  "payload_error item \<longleftrightarrow> (\<exists>e. parse_received item = Inl e)"

lemma parse_received_error: "parse_received item = Inl e \<Longrightarrow> e = not_base64"
  using Base64Decode_error
  by (auto simp: parse_received_def Let_def rbind_def split: if_splits option.splits json.splits sum.splits)

lemma parse_all_cases:
  "parse_all items =
     (if list_ex payload_error items then Inl not_base64
      else Inr (List.map_filter (\<lambda>item. projr (parse_received item)) items))"
proof (induction items)
  case (Cons item items)
  show ?case
  proof (cases "parse_received item")
    case (Inl e)
    then show ?thesis using parse_received_error [OF Inl] by (simp add: payload_error_def)
  next
    case (Inr m)
    then show ?thesis
      using Cons by (simp add: payload_error_def List.map_filter_simps split: option.split)
  qed
qed (simp add: List.map_filter_simps)

text \<open>
  Messages of a subscription are all or nothing.  A pull hands over every message of the
  response when all of their payloads are valid Base64, in order; a single message that is not
  makes the whole pull fail, so that none of them is handed over, none is acknowledged, and the
  dispatcher fails every waiting call.
\<close>
theorem pubsub_pull_all_or_nothing:
  assumes "hr_status r \<ge> 200" "hr_status r < 300" "\<not> hr_timedOut r"
    and "w_parse w (hr_body r) = Inr parsed"
    and "jfind parsed ''receivedMessages'' = Some (JArray items)"
  shows "pull_response w subscription r =
      (if list_ex payload_error items then Inl not_base64
       else Inr (List.map_filter (\<lambda>item. projr (parse_received item)) items)) \<and>
    pull_failure_events not_base64 =
      [EFailAll ''Pub/Sub plugin: message data is not valid base64'']"
  using assms by (simp add: pull_response_def ThrowIfHttpFailed_def parse_all_cases
      pull_failure_events_def not_base64_def c_str_Cons)

definition poison_item :: json where
  "poison_item = JObject [(''message'', JObject [(''data'', JString ''A!'')])]"

lemma poison_item_error: "payload_error poison_item"
proof -
  have "Base64Decode ''A!'' = Inl not_base64" by code_simp
  then show ?thesis
    by (simp add: payload_error_def poison_item_def parse_received_def jstring_at_def)
qed

lemma pubsub_pull_all_or_nothing_witness:
  "\<exists>w r. pull_response w ''s'' r = Inl not_base64 \<and> hr_status r = 200"
proof -
  let ?w = "example_world\<lparr>w_parse := \<lambda>_. Inr (JObject [(''receivedMessages'', JArray [poison_item])])\<rparr>"
  let ?r = "\<lparr>hr_status = 200, hr_timedOut = False, hr_body = [], hr_error = []\<rparr>"
  have "pull_response ?w ''s'' ?r = Inl not_base64"
    using pubsub_pull_all_or_nothing [of ?r ?w _ "[poison_item]" "''s''"]
    by (simp add: poison_item_error)
  then show ?thesis by (intro exI [of _ ?w] exI [of _ ?r]) simp
qed

definition message_of :: "json \<Rightarrow> json" where
  "message_of body =
     (case jfind body ''messages'' of Some (JArray (m # _)) \<Rightarrow> m | _ \<Rightarrow> JNull)"

lemma string_members_fold:
  "distinct (map fst attrs) \<Longrightarrow>
    fold (\<lambda>(k, v) m. case v of JString s \<Rightarrow> m(k \<mapsto> s) | _ \<Rightarrow> m)
      (map (\<lambda>(k, v). (k, JString v)) attrs) m = m ++ map_of attrs"
proof (induction attrs arbitrary: m)
  case (Cons x attrs)
  obtain k v where x: "x = (k, v)" by (cases x)
  with Cons.prems have "map_of attrs k = None" by (auto simp: map_of_eq_None_iff)
  then have "m(k \<mapsto> v) ++ map_of attrs = m ++ map_of ((k, v) # attrs)"
    by (auto simp: map_add_def fun_eq_iff split: option.split)
  moreover have "distinct (map fst attrs)" using Cons.prems by simp
  note Cons.IH [OF this, of "m(k \<mapsto> v)"]
  ultimately show ?case
    by (simp only: x list.map prod.case fold_simps json.case)
qed simp

lemma parse_received_published:
  assumes "Base64Encode d = Inr encoded" and "distinct (map fst attributes)"
  shows "parse_received (JObject [(''ackId'', JString ackId),
      (''message'', message_of (publish_body encoded attributes))]) =
    Inr (Some \<lparr>pm_ackId = ackId, pm_data = buf_bytes d, pm_attributes = map_of attributes\<rparr>)"
proof -
  have "Base64Decode encoded = Inr (buf_bytes d)"
    using assms(1) Base64Decode_Base64Encode by blast
  moreover have "string_members (map (\<lambda>(k, v). (k, JString v)) attributes) = map_of attributes"
    using string_members_fold [OF assms(2), of Map.empty] by (simp add: string_members_def)
  ultimately show ?thesis
    by (simp add: parse_received_def message_of_def publish_body_def jstring_at_def)
qed

text \<open>
  A published message is pulled unchanged.  When the service delivers the message object of
  a publish request in a pull, the pulled message has the bytes that were published and exactly
  the attributes, for every payload and every set of distinct attribute names.
\<close>
theorem pubsub_message_round_trip:
  assumes "Base64Encode d = Inr encoded" and "distinct (map fst attributes)"
  shows "parse_received (JObject [(''ackId'', JString ackId),
      (''message'', message_of (publish_body encoded attributes))]) =
    Inr (Some \<lparr>pm_ackId = ackId, pm_data = buf_bytes d, pm_attributes = map_of attributes\<rparr>)"
  using assms by (rule parse_received_published)

lemma pubsub_message_round_trip_witness:
  "parse_received (JObject [(''ackId'', JString ''a''),
      (''message'', message_of (publish_body ''AP8='' [(''correlationId'', ''7'')]))]) =
    Inr (Some \<lparr>pm_ackId = ''a'', pm_data = [0, 255], pm_attributes = [''correlationId'' \<mapsto> ''7'']\<rparr>)"
proof -
  have "Base64Encode (Buf [0, 255]) = Inr ''AP8=''" by code_simp
  from pubsub_message_round_trip [OF this, of "[(''correlationId'', ''7'')]" "''a''"]
  show ?thesis by simp
qed

text \<open>
  C34. No credentials reach an emulator.  With an emulator host configured, a request of the API
  is sent without any authorization header and without asking for a token, whatever tokens are
  configured or cached; without one, the authorization header carries exactly the token that
  \<^verbatim>\<open>BearerToken\<close> yields, and a request without a token is not sent at all.
\<close>
theorem pubsub_authorization:
  "if ps_emulatorHost (se_config se) \<noteq> []
   then api_call w method url body timeoutMs finish se =
       (finish (perform_request w (build_request (se_config se) method url (w_dump w body) []
          timeoutMs [])), se) \<and>
     (\<forall>h \<in> set (rq_headers (build_request (se_config se) method url (w_dump w body) [] timeoutMs [])).
        \<not> starts_with ''Authorization:'' h)
   else (case BearerToken w se of
       (Inl e, se') \<Rightarrow> api_call w method url body timeoutMs finish se = (Inl e, se')
     | (Inr token, se') \<Rightarrow>
         (\<exists>rq. api_call w method url body timeoutMs finish se = (finish (perform_request w rq), se') \<and>
            rq_headers rq = [''Content-Type: application/json'', c_str (''Authorization: Bearer '' @ token)]))"
proof (cases "ps_emulatorHost (se_config se) = []")
  case True
  obtain r se' where b: "BearerToken w se = (r, se')" by (cases "BearerToken w se")
  show ?thesis
  proof (cases r)
    case (Inl e)
    then show ?thesis using True by (simp add: api_call_def Request_def b)
  next
    case (Inr token)
    then have "\<exists>rq. api_call w method url body timeoutMs finish se = (finish (perform_request w rq), se') \<and>
        rq_headers rq = [''Content-Type: application/json'', c_str (''Authorization: Bearer '' @ token)]"
      using True
      by (intro exI [of _ "build_request (se_config se') method url (w_dump w body) [] timeoutMs
            (''Authorization: Bearer '' @ token)"])
        (simp add: api_call_def Request_def b build_request_def Let_def)
    then show ?thesis using True Inr by (simp add: b)
  qed
next
  case False
  then show ?thesis
    by (simp add: api_call_def Request_def build_request_def Let_def starts_with_def)
qed

lemma pubsub_authorization_witness:
  "api_call example_world ''GET'' ''u'' JNull 5 (\<lambda>r. Inr (hr_status r))
     \<lparr>se_config = default_pubsub_config\<lparr>ps_emulatorHost := ''h'', ps_accessToken := ''t''\<rparr>,
      se_cachedToken = [], se_tokenExpiryEpoch = 0\<rparr> =
   (Inr 200, \<lparr>se_config = default_pubsub_config\<lparr>ps_emulatorHost := ''h'', ps_accessToken := ''t''\<rparr>,
      se_cachedToken = [], se_tokenExpiryEpoch = 0\<rparr>)"
  using pubsub_authorization [of "\<lparr>se_config = default_pubsub_config\<lparr>ps_emulatorHost := ''h'',
      ps_accessToken := ''t''\<rparr>, se_cachedToken = [], se_tokenExpiryEpoch = 0\<rparr>" example_world
      "''GET''" "''u''" JNull 5 "\<lambda>r. Inr (hr_status r)"]
  by (simp add: perform_request_def example_world_def)

end
