(* ===== verification/KafkaUtil.thy ===== *)
theory KafkaUtil
  imports Json
begin

unbundle bit_operations_syntax

text \<open>
  Helpers and configuration of the Kafka plugin (\<^verbatim>\<open>KafkaUtil.h\<close>, the configuration of
  \<^verbatim>\<open>TransportKafka.cpp\<close>, \<^verbatim>\<open>KafkaServer.cpp\<close>).  librdkafka is a parameter:
  what it answers to a setting, a creation, a subscription or a produce.
\<close>

section \<open>Identifiers\<close>

text \<open>The two 64-bit numbers come from the random engine.\<close>

definition makeUuidV4 :: "u64 \<Rightarrow> u64 \<Rightarrow> string" where
  "makeUuidV4 a b =
     (let time_low = a AND 0xFFFFFFFF;
          time_mid = drop_bit 32 a AND 0xFFFF;
          time_hi = (drop_bit 48 a AND 0x0FFF) OR 0x4000;
          clock_seq = (drop_bit 48 b AND 0x3FFF) OR 0x8000;
          node = b AND 0xFFFFFFFFFFFF
      in hex_setw 8 (unat time_low) @ ''-'' @ hex_setw 4 (unat time_mid) @ ''-'' @
         hex_setw 4 (unat time_hi) @ ''-'' @ hex_setw 4 (unat clock_seq) @ ''-'' @
         hex_setw 12 (unat node))"

section \<open>Headers\<close>

text \<open>A header has a key and a value, which may be a null pointer.\<close>

type_synonym kafka_headers = "(string \<times> string option) list"

definition headerValue :: "kafka_headers option \<Rightarrow> string \<Rightarrow> string" where
  "headerValue headers key =
     (case headers of
        None \<Rightarrow> []
      | Some hs \<Rightarrow>
          (case map snd (filter (\<lambda>h. fst h = key) hs) of
             [] \<Rightarrow> []
           | None # _ \<Rightarrow> []
           | Some v # _ \<Rightarrow> v))"

definition makeRpcHeaders :: "string \<Rightarrow> string \<Rightarrow> kafka_headers" where
  "makeRpcHeaders correlationId replyTo =
     (''correlation-id'', Some correlationId) #
     (if replyTo \<noteq> [] then [(''reply-to'', Some replyTo)] else [])"

section \<open>Settings of librdkafka\<close>

type_synonym settings = "(string \<times> string) list"

definition setConfOrThrow ::
  "(string \<Rightarrow> string \<Rightarrow> string option) \<Rightarrow> string \<Rightarrow> string \<Rightarrow> settings \<Rightarrow> settings result" where
  "setConfOrThrow api key value conf =
     (case api key value of
        Some errstr \<Rightarrow> Inl (RuntimeError (''librdkafka conf set '' @ quoted key @ '' failed: '' @ errstr))
      | None \<Rightarrow> Inr (conf @ [(key, value)]))"

fun set_all ::
  "(string \<Rightarrow> string \<Rightarrow> string option) \<Rightarrow> settings \<Rightarrow> settings \<Rightarrow> settings result" where
  "set_all api [] conf = Inr conf"
| "set_all api ((k, v) # rest) conf =
     rbind (setConfOrThrow api k v conf) (\<lambda>conf. set_all api rest conf)"

record kafka_security =
  ks_securityProtocol :: string
  ks_saslMechanism :: string
  ks_saslUsername :: string
  ks_saslPassword :: string
  ks_sslCaLocation :: string

definition applySecurity :: "kafka_security \<Rightarrow> settings" where
  "applySecurity s =
     (if ks_securityProtocol s \<noteq> [] then [(''security.protocol'', ks_securityProtocol s)] else []) @
     (if ks_saslMechanism s \<noteq> [] then [(''sasl.mechanism'', ks_saslMechanism s)] else []) @
     (if ks_saslUsername s \<noteq> [] then [(''sasl.username'', ks_saslUsername s)] else []) @
     (if ks_saslPassword s \<noteq> [] then [(''sasl.password'', ks_saslPassword s)] else []) @
     (if ks_sslCaLocation s \<noteq> [] then [(''ssl.ca.location'', ks_sslCaLocation s)] else [])"

section \<open>Configuration\<close>

record kafka_config =
  kf_brokers :: string
  kf_requestTopic :: string
  kf_replyTopic :: string
  kf_groupId :: string
  kf_rpcTimeoutMs :: int
  kf_security :: kafka_security

definition no_security :: kafka_security where
  "no_security = \<lparr>ks_securityProtocol = [], ks_saslMechanism = [], ks_saslUsername = [],
     ks_saslPassword = [], ks_sslCaLocation = []\<rparr>"

definition default_kafka_client :: kafka_config where
  "default_kafka_client =
    \<lparr>kf_brokers = ''localhost:9092'', kf_requestTopic = ''graft.requests'',
     kf_replyTopic = ''graft.replies'', kf_groupId = ''graft-client'', kf_rpcTimeoutMs = 30000,
     kf_security = no_security\<rparr>"

definition default_kafka_server :: kafka_config where
  "default_kafka_server = default_kafka_client\<lparr>kf_groupId := ''graft-gateway''\<rparr>"

text \<open>The value under the first of two keys that is a string.\<close>

definition read_either :: "json \<Rightarrow> string \<Rightarrow> string \<Rightarrow> string \<Rightarrow> string" where
  "read_either j k1 k2 target =
     (case jstring_at j k1 of Some s \<Rightarrow> s | None \<Rightarrow> ReadString j k2 target)"

definition read_security :: "json \<Rightarrow> kafka_security \<Rightarrow> kafka_security" where
  "read_security j s =
    \<lparr>ks_securityProtocol = ReadString j ''securityProtocol'' (ks_securityProtocol s),
     ks_saslMechanism = ReadString j ''saslMechanism'' (ks_saslMechanism s),
     ks_saslUsername = ReadString j ''saslUsername'' (ks_saslUsername s),
     ks_saslPassword = ReadString j ''saslPassword'' (ks_saslPassword s),
     ks_sslCaLocation = ReadString j ''sslCaLocation'' (ks_sslCaLocation s)\<rparr>"

definition read_kafka_fields :: "json \<Rightarrow> kafka_config \<Rightarrow> kafka_config" where
  "read_kafka_fields j c =
     c\<lparr>kf_brokers := read_either j ''brokers'' ''host'' (kf_brokers c),
       kf_requestTopic := read_either j ''requestTopic'' ''queue'' (kf_requestTopic c),
       kf_replyTopic := read_either j ''replyTopic'' ''replyQueue'' (kf_replyTopic c),
       kf_groupId := ReadString j ''groupId'' (kf_groupId c),
       kf_security := read_security j (kf_security c)\<rparr>"

text \<open>The timeout is cast to a 32-bit int without a check.\<close>

definition read_kafka_timeout :: "json \<Rightarrow> int \<Rightarrow> int" where
  "read_kafka_timeout j target =
     (case jfind j ''rpcTimeoutMs'' of
        Some v \<Rightarrow> if is_number_integer v
                  then (case get_int32 (\<lambda>_. 0) v of Inr i \<Rightarrow> i | Inl _ \<Rightarrow> target) else target
      | None \<Rightarrow> target)"

definition parseClientConfig :: "cpp_env \<Rightarrow> string option \<Rightarrow> kafka_config" where
  "parseClientConfig env configJson =
     (case configJson of
        None \<Rightarrow> default_kafka_client
      | Some text \<Rightarrow>
          (case json_parse env text of
             Inl _ \<Rightarrow> default_kafka_client
           | Inr j \<Rightarrow>
               if \<not> is_object j then default_kafka_client
               else let c = read_kafka_fields j default_kafka_client
                    in c\<lparr>kf_rpcTimeoutMs := read_kafka_timeout j (kf_rpcTimeoutMs c)\<rparr>))"

section \<open>Facts\<close>

lemma set_all_app: "set_all api xs conf = Inr conf' \<Longrightarrow> conf' = conf @ xs"
  by (induction api xs conf arbitrary: conf' rule: set_all.induct)
    (simp, fastforce simp: setConfOrThrow_def rbind_Inr_iff split: option.splits)

lemma header_correlation:
  "headerValue (Some (makeRpcHeaders c r)) ''correlation-id'' = c"
  "headerValue (Some (makeRpcHeaders c r)) ''reply-to'' = r"
  by (simp_all add: headerValue_def makeRpcHeaders_def)

section \<open>The format of an identifier\<close>

lemma hex_setw_4:
  assumes "4096 \<le> n" "n < 65536"
  shows "hex_setw 4 n = hex_digit (n div 4096) # map hex_digit [n div 256 mod 16, n div 16 mod 16, n mod 16]"
proof -
  have step: "hex_digits m = hex_digits (m div 16) @ [hex_digit (m mod 16)]" if "16 \<le> m" for m
    using that by (subst hex_digits.simps) simp
  have divs: "n div 16 div 16 = n div 256" "n div 256 div 16 = n div 4096"
    by (simp_all flip: div_mult2_eq)
  have ge: "16 \<le> n" "16 \<le> n div 16" "16 \<le> n div 256" "n div 4096 < 16"
    using assms by linarith+
  have "hex_digits (n div 4096) = [hex_digit (n div 4096)]"
    using ge(4) by (subst hex_digits.simps) simp
  then have "hex_digits n = hex_digit (n div 4096) # map hex_digit [n div 256 mod 16, n div 16 mod 16, n mod 16]"
    using step [OF ge(1)] step [OF ge(2)] step [OF ge(3)] by (simp only: divs) simp
  then show ?thesis by (simp add: hex_setw_def)
qed

lemma unat_and_mask_less: "unat (w AND mask k :: u64) < 2 ^ k"
proof -
  have "w AND mask k = take_bit k w" by (simp add: take_bit_eq_mask)
  then show ?thesis by (simp add: unsigned_take_bit_eq)
qed

text \<open>Setting one bit above a masked field adds its value.\<close>

lemma unat_masked_or_bit:
  assumes "k \<le> n" "n < 64"
  shows "unat ((w AND mask k) OR 2 ^ n :: u64) = unat (w AND mask k) + 2 ^ n"
proof -
  have eq: "(w AND mask k) OR 2 ^ n = (w AND mask k) + 2 ^ n"
    by (rule disjunctive_add [symmetric]) (use assms in \<open>auto simp: bit_simps\<close>)
  have "unat (w AND mask k) < 2 ^ k" by (rule unat_and_mask_less)
  also have "(2 :: nat) ^ k \<le> 2 ^ n" using assms by (intro power_increasing) simp_all
  finally have "unat (w AND mask k) + 2 ^ n < 2 ^ n + 2 ^ n" by simp
  also have "(2 :: nat) ^ n + 2 ^ n = 2 ^ Suc n" by simp
  also have "(2 :: nat) ^ Suc n \<le> 2 ^ 64" using assms by (intro power_increasing) simp_all
  finally have less: "unat (w AND mask k) + 2 ^ n < 2 ^ 64" .
  have "(2 :: nat) ^ n < 2 ^ 64" using assms by (intro power_strict_increasing) simp_all
  then have "unat (word_of_nat (2 ^ n) :: u64) = 2 ^ n"
    by (simp only: unat_of_nat) (simp add: take_bit_nat_eq_self)
  then have pow: "unat (2 ^ n :: u64) = 2 ^ n" by simp
  have "unat ((w AND mask k) + 2 ^ n) = (unat (w AND mask k) + unat (2 ^ n :: u64)) mod 2 ^ 64"
    by (simp only: unat_word_ariths) simp
  also have "\<dots> = unat (w AND mask k) + 2 ^ n"
    unfolding pow by (rule mod_less [OF less])
  finally show ?thesis by (simp only: eq)
qed

text \<open>
  The identifiers are version-4, variant-1 UUIDs: 36 characters, hyphens at the four places,
  the digit of the version is 4, the digit of the variant is one of 8, 9, a, b, and every other
  character is a lower-case hexadecimal digit.
\<close>
theorem makeUuidV4_format:
  "length (makeUuidV4 a b) = 36 \<and>
   (\<forall>i < 36. if i \<in> {8, 13, 18, 23} then makeUuidV4 a b ! i = CHR ''-''
             else is_hex_lower (makeUuidV4 a b ! i)) \<and>
   makeUuidV4 a b ! 14 = CHR ''4'' \<and> makeUuidV4 a b ! 19 \<in> set ''89ab''"
proof -
  define p1 where "p1 = hex_setw 8 (unat (a AND 0xFFFFFFFF))"
  define p2 where "p2 = hex_setw 4 (unat (drop_bit 32 a AND 0xFFFF))"
  define hi where "hi = unat ((drop_bit 48 a AND 0x0FFF) OR 0x4000)"
  define seq where "seq = unat ((drop_bit 48 b AND 0x3FFF) OR 0x8000)"
  define p5 where "p5 = hex_setw 12 (unat (b AND 0xFFFFFFFFFFFF))"
  have uuid: "makeUuidV4 a b = p1 @ CHR ''-'' # p2 @ CHR ''-'' # hex_setw 4 hi @ CHR ''-'' #
      hex_setw 4 seq @ CHR ''-'' # p5"
    by (simp add: makeUuidV4_def p1_def p2_def hi_def seq_def p5_def Let_def)
  have masks: "(0xFFFFFFFF :: u64) = mask 32" "(0xFFFF :: u64) = mask 16" "(0x0FFF :: u64) = mask 12"
    "(0x3FFF :: u64) = mask 14" "(0xFFFFFFFFFFFF :: u64) = mask 48"
    "(0x4000 :: u64) = 2 ^ 14" "(0x8000 :: u64) = 2 ^ 15"
    by (simp_all add: mask_eq_exp_minus_1)
  have hi: "hi = unat (drop_bit 48 a AND mask 12) + 2 ^ 14"
    unfolding hi_def masks by (rule unat_masked_or_bit) simp_all
  have seq: "seq = unat (drop_bit 48 b AND mask 14) + 2 ^ 15"
    unfolding seq_def masks by (rule unat_masked_or_bit) simp_all
  have hi_range: "16384 \<le> hi" "hi < 20480"
    using unat_and_mask_less [of "drop_bit 48 a" 12] by (simp_all add: hi)
  have seq_range: "32768 \<le> seq" "seq < 49152"
    using unat_and_mask_less [of "drop_bit 48 b" 14] by (simp_all add: seq)
  have len: "length p1 = 8" "length p2 = 4" "length p5 = 12"
      "length (hex_setw 4 hi) = 4" "length (hex_setw 4 seq) = 4"
    using unat_and_mask_less [of a 32] unat_and_mask_less [of "drop_bit 32 a" 16]
      unat_and_mask_less [of b 48] hi_range seq_range
    by (simp_all add: p1_def p2_def p5_def masks length_hex_setw)
  have hexs: "list_all is_hex_lower p1" "list_all is_hex_lower p2" "list_all is_hex_lower p5"
      "list_all is_hex_lower (hex_setw 4 hi)" "list_all is_hex_lower (hex_setw 4 seq)"
    by (simp_all add: p1_def p2_def p5_def hex_setw_class)
  have chars: "char_of (52 :: nat) = CHR ''4''" "char_of (56 :: nat) = CHR ''8''"
    "char_of (57 :: nat) = CHR ''9''" "char_of (97 :: nat) = CHR ''a''" "char_of (98 :: nat) = CHR ''b''"
    by code_simp+
  have digits: "hex_setw 4 hi ! 0 = CHR ''4''" "hex_setw 4 seq ! 0 \<in> set ''89ab''"
  proof -
    have "hi div 4096 = 4" using hi_range by simp
    then show "hex_setw 4 hi ! 0 = CHR ''4''"
      using hi_range by (simp add: hex_setw_4 hex_digit_def chars)
    have "seq div 4096 \<in> {8, 9, 10, 11}" using seq_range by auto
    then show "hex_setw 4 seq ! 0 \<in> set ''89ab''"
      using seq_range by (auto simp: hex_setw_4 hex_digit_def chars)
  qed
  have cls: "is_hex_lower (xs ! j)" if "list_all is_hex_lower xs" "j < length xs" for xs j
    using that by (simp add: list_all_length)
  have "if i \<in> {8, 13, 18, 23} then makeUuidV4 a b ! i = CHR ''-''
             else is_hex_lower (makeUuidV4 a b ! i)" if "i < 36" for i
    using that len cls [OF hexs(1), of i] cls [OF hexs(2), of "i - 9"]
      cls [OF hexs(4), of "i - 14"] cls [OF hexs(5), of "i - 19"] cls [OF hexs(3), of "i - 24"]
    by (auto simp: uuid nth_append nth_Cons')
  moreover have "makeUuidV4 a b ! 14 = CHR ''4''" "makeUuidV4 a b ! 19 \<in> set ''89ab''"
    using digits len by (simp_all add: uuid nth_append)
  moreover have "length (makeUuidV4 a b) = 36" using len by (simp add: uuid)
  ultimately show ?thesis by blast
qed

lemma makeUuidV4_format_witness:
  "makeUuidV4 0 0 ! 23 = CHR ''-'' \<and> is_hex_lower (makeUuidV4 0 0 ! 7)"
  using makeUuidV4_format [of 0 0] by simp

end
