(* ===== verification/KafkaServer.thy ===== *)
theory KafkaServer
  imports KafkaUtil AckServer Lifecycle
begin

text \<open>
  The server of the Kafka plugin (\<^verbatim>\<open>KafkaServer.cpp\<close>): its configuration, the handling
  of what a poll consumes, the loop with its reconnects, and \<^verbatim>\<open>start\<close> and
  \<^verbatim>\<open>stop\<close>.
\<close>

section \<open>Configuration\<close>

type_synonym kafka_process = "bytes \<Rightarrow> (buf list \<times> bool) result"

definition kafka_configure ::
  "cpp_env \<Rightarrow> string option \<Rightarrow> kafka_process option \<Rightarrow> kafka_config \<times> kafka_process option \<Rightarrow>
     kafka_config \<times> kafka_process option" where
  "kafka_configure env jsonConfig processMessage s =
     (let c = fst s in
      case jsonConfig of
        None \<Rightarrow> (c, processMessage)
      | Some text \<Rightarrow>
          (case json_parse env text of
             Inl _ \<Rightarrow> (c, processMessage)
           | Inr j \<Rightarrow> (if is_object j then read_kafka_fields j c else c, processMessage)))"

section \<open>What a poll consumes\<close>

record kafka_message =
  km_headers :: "kafka_headers option"
  km_payload :: "bytes option"

datatype consumed = Nothing | TimedOut | ConsumeError string | Message kafka_message

definition kafka_payload :: "kafka_message \<Rightarrow> bytes" where
  "kafka_payload m = (case km_payload m of None \<Rightarrow> [] | Some d \<Rightarrow> d)"

datatype kafka_action =
    KPoll
  | KProcess bytes
  | KProduce string kafka_headers bytes
  | KFlush int
  | KCommit kafka_message
  | KWarn string

text \<open>The producer: the error of a produce and of a flush, if any.\<close>

record kafka_producer =
  kp_produce :: "string \<Rightarrow> kafka_headers \<Rightarrow> bytes \<Rightarrow> string option"
  kp_flush :: "int \<Rightarrow> string option"

definition k_writeResponse :: "buf \<Rightarrow> bytes \<Rightarrow> bytes" where
  "k_writeResponse d output = (if buf_is_null d \<or> buf_size d = 0 then [] else buf_bytes d)"

definition reply_headers :: "string \<Rightarrow> kafka_headers" where
  "reply_headers correlationId =
     (if correlationId \<noteq> [] then [(''correlation-id'', Some correlationId)] else [])"

definition publishReply ::
  "kafka_producer \<Rightarrow> string \<Rightarrow> string \<Rightarrow> bytes \<Rightarrow> kafka_action list \<times> unit result" where
  "publishReply p replyTopic correlationId response =
     (let headers = reply_headers correlationId in
      case kp_produce p replyTopic headers response of
        Some err \<Rightarrow>
          ([KProduce replyTopic headers response],
           Inl (RuntimeError (''Failed to publish reply to '' @ quoted replyTopic @ '': '' @ err)))
      | None \<Rightarrow> ([KProduce replyTopic headers response, KPoll], Inr ()))"

definition kafka_reply_topic :: "kafka_config \<Rightarrow> kafka_message \<Rightarrow> string" where
  "kafka_reply_topic c m =
     (let replyTo = headerValue (km_headers m) ''reply-to'' in
      if replyTo = [] then kf_replyTopic c else replyTo)"

text \<open>
  One message.  \<open>Inl\<close> is an exception of the callback or of the producer: it leaves the
  inner loop, whatever its type.
\<close>

definition kafka_handle_message ::
  "kafka_producer \<Rightarrow> kafka_process option \<Rightarrow> kafka_config \<Rightarrow> kafka_message \<Rightarrow>
     kafka_action list \<times> unit result" where
  "kafka_handle_message p process c m =
     (case process of
        None \<Rightarrow>
          ([KWarn ''processMessage callback is not configured; skipping message'', KCommit m], Inr ())
      | Some f \<Rightarrow>
          let correlationId = headerValue (km_headers m) ''correlation-id'';
              replyTo = kafka_reply_topic c m;
              request = kafka_payload m
          in case f request of
               Inl e \<Rightarrow> ([KProcess request], Inl e)
             | Inr (writes, ok) \<Rightarrow>
                 let response = fold k_writeResponse writes [] in
                 if \<not> ok
                 then ([KProcess request, KWarn ''processMessage returned false; not publishing reply'',
                        KCommit m], Inr ())
                 else if replyTo \<noteq> []
                 then (case publishReply p replyTo correlationId response of
                         (acts, Inl e) \<Rightarrow> (KProcess request # acts, Inl e)
                       | (acts, Inr _) \<Rightarrow>
                           (KProcess request # acts @ [KFlush 10000] @
                            (case kp_flush p 10000 of
                               Some err \<Rightarrow> [KWarn (''reply flush incomplete: '' @ err)]
                             | None \<Rightarrow> []) @ [KCommit m], Inr ()))
                 else ([KProcess request,
                        KWarn ''no reply-to / replyTopic configured; dropping response'',
                        KCommit m], Inr ()))"

definition kafka_handle ::
  "kafka_producer \<Rightarrow> kafka_config \<Rightarrow> unit \<Rightarrow> kafka_process option \<times> consumed \<Rightarrow>
     kafka_action list \<times> unit result \<times> unit" where
  "kafka_handle p c s x =
     (case snd x of
        Nothing \<Rightarrow> ([], Inr (), s)
      | TimedOut \<Rightarrow> ([KPoll], Inr (), s)
      | ConsumeError err \<Rightarrow> ([KWarn (''consume error: '' @ err)], Inr (), s)
      | Message m \<Rightarrow> (case kafka_handle_message p (fst x) c m of (acts, r) \<Rightarrow> (acts, r, s)))"

section \<open>Connecting\<close>

record kafka_api =
  ka_set :: "string \<Rightarrow> string \<Rightarrow> string option"
  ka_producer :: "settings \<Rightarrow> string + kafka_producer"
  ka_consumer :: "settings \<Rightarrow> string option"
  ka_subscribe :: "string \<Rightarrow> string option"

definition server_producer_settings :: "kafka_config \<Rightarrow> settings" where
  "server_producer_settings c =
     [(''bootstrap.servers'', kf_brokers c), (''client.id'', ''graft-kafka-server-producer'')] @
     applySecurity (kf_security c)"

definition server_consumer_settings :: "kafka_config \<Rightarrow> settings" where
  "server_consumer_settings c =
     [(''bootstrap.servers'', kf_brokers c), (''group.id'', kf_groupId c),
      (''client.id'', ''graft-kafka-server-consumer''), (''enable.auto.commit'', ''false''),
      (''auto.offset.reset'', ''earliest''), (''allow.auto.create.topics'', ''true'')] @
     applySecurity (kf_security c)"

text \<open>The producer, if it was created, and the result of the whole set-up.\<close>

definition kafka_connect_consumer :: "kafka_api \<Rightarrow> kafka_config \<Rightarrow> unit result" where
  "kafka_connect_consumer api c =
     rbind (set_all (ka_set api) (server_consumer_settings c) []) (\<lambda>cconf.
     case ka_consumer api cconf of
       Some errstr \<Rightarrow> Inl (RuntimeError (''Failed to create request consumer: '' @ errstr))
     | None \<Rightarrow>
         (case ka_subscribe api (kf_requestTopic c) of
            Some err \<Rightarrow> Inl (RuntimeError (''Failed to subscribe to '' @
              quoted (kf_requestTopic c) @ '': '' @ err))
          | None \<Rightarrow> Inr ()))"

definition kafka_connect :: "kafka_api \<Rightarrow> kafka_config \<Rightarrow> kafka_producer option \<times> unit result" where
  "kafka_connect api c =
     (case set_all (ka_set api) (server_producer_settings c) [] of
        Inl e \<Rightarrow> (None, Inl e)
      | Inr pconf \<Rightarrow>
          (case ka_producer api pconf of
             Inl errstr \<Rightarrow>
               (None, Inl (RuntimeError (''Failed to create reply producer: '' @ errstr)))
           | Inr p \<Rightarrow> (Some p, kafka_connect_consumer api c)))"

text \<open>
  The outer loop: one entry per connection, with the answers of librdkafka, the reading of
  \<^verbatim>\<open>running_\<close> before it and after it, and what its polls consume, each with the reading
  of the flag before it (negated: stop) and the callback that is read under the mutex.
\<close>

record kafka_connection =
  kx_running :: bool
  kx_api :: kafka_api
  kx_consumed :: "(bool \<times> kafka_process option \<times> consumed) list"
  kx_running_after :: bool

definition loop_error :: "exn \<Rightarrow> kafka_action list" where
  "loop_error e = [KWarn (if is_std e then ''loop error: '' @ what e else ''loop error: unknown'')]"

definition kafka_serve_connection :: "kafka_config \<Rightarrow> kafka_connection \<Rightarrow> kafka_action list" where
  "kafka_serve_connection c x =
     (case kafka_connect (kx_api x) c of
        (None, Inl e) \<Rightarrow> loop_error e
      | (None, Inr _) \<Rightarrow> []
      | (Some p, Inl e) \<Rightarrow> loop_error e @ [KFlush 2000]
      | (Some p, Inr _) \<Rightarrow>
          (case run_batch (kafka_handle p c) () (kx_consumed x) of
             (acts, r, _) \<Rightarrow>
               acts @ (case r of Inl e \<Rightarrow> loop_error e | Inr _ \<Rightarrow> []) @ [KFlush 2000])) @
     (if kx_running_after x then [KWarn ''reconnecting in 2s...''] else [])"

fun kafka_loop :: "kafka_config \<Rightarrow> kafka_connection list \<Rightarrow> kafka_action list" where
  "kafka_loop c [] = []"
| "kafka_loop c (x # xs) =
     (if kx_running x then kafka_serve_connection c x @ kafka_loop c xs else [])"

section \<open>Commits\<close>

fun is_commit :: "kafka_action \<Rightarrow> bool" where
  "is_commit (KCommit m) = True"
| "is_commit _ = False"

text \<open>
  When a message is committed: no callback is configured, the callback refused it, or its
  reply was accepted by the producer or has no destination.
\<close>

definition kafka_settled ::
  "kafka_producer \<Rightarrow> kafka_process option \<Rightarrow> kafka_config \<Rightarrow> kafka_message \<Rightarrow> bool" where
  "kafka_settled p process c m \<longleftrightarrow>
     (case process of
        None \<Rightarrow> True
      | Some f \<Rightarrow>
          (case f (kafka_payload m) of
             Inl e \<Rightarrow> False
           | Inr (writes, ok) \<Rightarrow>
               \<not> ok \<or> kafka_reply_topic c m = [] \<or>
               kp_produce p (kafka_reply_topic c m)
                 (reply_headers (headerValue (km_headers m) ''correlation-id''))
                 (fold k_writeResponse writes []) = None))"

lemma kafka_commit_iff:
  "KCommit m' \<in> set (fst (kafka_handle_message p process c m)) \<longleftrightarrow>
     m' = m \<and> kafka_settled p process c m"
  "snd (kafka_handle_message p process c m) = Inr () \<longleftrightarrow> kafka_settled p process c m"
  by (auto simp: kafka_handle_message_def kafka_settled_def publishReply_def Let_def
      split: option.splits sum.splits prod.splits if_splits)

lemma kafka_commit_once:
  "length (filter is_commit (fst (kafka_handle_message p process c m))) \<le> 1"
  by (auto simp: kafka_handle_message_def publishReply_def Let_def
      split: option.splits sum.splits prod.splits)

definition kafka_acks :: "kafka_process option \<times> consumed \<Rightarrow> kafka_action \<Rightarrow> bool" where
  "kafka_acks x a \<longleftrightarrow> (\<exists>m. snd x = Message m \<and> a = KCommit m)"

definition kafka_settled_step ::
  "kafka_producer \<Rightarrow> kafka_config \<Rightarrow> unit \<Rightarrow> kafka_process option \<times> consumed \<Rightarrow> bool" where
  "kafka_settled_step p c s x \<longleftrightarrow> (\<exists>m. snd x = Message m \<and> kafka_settled p (fst x) c m)"

lemma is_commit_iff: "is_commit a \<longleftrightarrow> (\<exists>m. a = KCommit m)"
  by (cases a) auto

lemma fst_kafka_handle:
  "fst (kafka_handle p c s x) =
     (case snd x of
        Nothing \<Rightarrow> []
      | TimedOut \<Rightarrow> [KPoll]
      | ConsumeError err \<Rightarrow> [KWarn (''consume error: '' @ err)]
      | Message m \<Rightarrow> fst (kafka_handle_message p (fst x) c m))"
  by (simp add: kafka_handle_def split: consumed.split prod.split)

interpretation kafka_ack: ack_server "kafka_handle p c" is_commit kafka_acks
  "kafka_settled_step p c" for p c
proof unfold_locales
  fix a s x
  assume "a \<in> set (fst (kafka_handle p c s x))" "is_commit a"
  then show "kafka_acks x a \<and> kafka_settled_step p c s x"
    by (cases "snd x")
      (auto simp: fst_kafka_handle is_commit_iff kafka_acks_def kafka_settled_step_def
        kafka_commit_iff(1))
next
  fix s x
  show "length (filter is_commit (fst (kafka_handle p c s x))) \<le> 1"
    using kafka_commit_once [of p "fst x" c] by (cases "snd x") (auto simp: fst_kafka_handle)
qed

lemma kafka_connection_commits:
  assumes "KCommit m \<in> set (kafka_serve_connection c x)"
  shows "\<exists>p process. (process, Message m) \<in> snd ` set (kx_consumed x) \<and> kafka_settled p process c m"
proof -
  obtain po r where con: "kafka_connect (kx_api x) c = (po, r)" by (cases "kafka_connect (kx_api x) c")
  have "\<exists>p. KCommit m \<in> set (fst (run_batch (kafka_handle p c) () (kx_consumed x)))"
  proof (cases po)
    case None
    then show ?thesis
      using assms by (cases r) (auto simp: kafka_serve_connection_def loop_error_def con split: if_splits)
  next
    case (Some p)
    obtain acts r' u where b: "run_batch (kafka_handle p c) () (kx_consumed x) = (acts, r', u)"
      by (cases "run_batch (kafka_handle p c) () (kx_consumed x)")
    have "KCommit m \<in> set acts"
      using assms Some by (cases r; cases r')
        (auto simp: kafka_serve_connection_def loop_error_def con b split: if_splits)
    then show ?thesis by (intro exI [of _ p]) (simp add: b)
  qed
  then obtain p where run: "KCommit m \<in> set (fst (run_batch (kafka_handle p c) () (kx_consumed x)))" ..
  have "\<exists>y \<in> snd ` set (kx_consumed x). \<exists>s'. kafka_acks y (KCommit m) \<and> kafka_settled_step p c s' y"
    by (rule kafka_ack.batch_acks_settled [OF run]) simp
  then obtain y s' where y: "y \<in> snd ` set (kx_consumed x)"
    "kafka_acks y (KCommit m)" "kafka_settled_step p c s' y"
    by blast
  then have y: "y \<in> snd ` set (kx_consumed x)" "snd y = Message m" "kafka_settled p (fst y) c m"
    by (auto simp: kafka_acks_def kafka_settled_step_def)
  then have "(fst y, Message m) \<in> snd ` set (kx_consumed x)" by (metis prod.collapse)
  with y(3) show ?thesis by blast
qed

section \<open>Properties\<close>

text \<open>
  C17. What the Kafka server commits.  A message is committed exactly when no callback is
  configured, the callback refused it, or it was accepted and its reply was taken by the producer
  or has no destination; an exception of the callback or of the producer is exactly the other
  case: it leaves the message uncommitted and the connection.  Over a whole run, with any
  reconnects, only such messages are committed.
\<close>
theorem kafka_commit_rule:
  "(KCommit m' \<in> set (fst (kafka_handle_message p process c m)) \<longleftrightarrow>
      m' = m \<and> kafka_settled p process c m) \<and>
   ((\<exists>e. snd (kafka_handle_message p process c m) = Inl e) \<longleftrightarrow> \<not> kafka_settled p process c m) \<and>
   (KCommit m \<in> set (kafka_loop c xs) \<longrightarrow>
     (\<exists>x \<in> set xs. \<exists>p process. (process, Message m) \<in> snd ` set (kx_consumed x) \<and>
        kafka_settled p process c m))"
proof -
  have "(\<exists>e. snd (kafka_handle_message p process c m) = Inl e) \<longleftrightarrow> \<not> kafka_settled p process c m"
    using kafka_commit_iff(2) [of p process c m]
    by (cases "snd (kafka_handle_message p process c m)") auto
  moreover have "\<exists>x \<in> set xs. \<exists>p process. (process, Message m) \<in> snd ` set (kx_consumed x) \<and>
        kafka_settled p process c m" if "KCommit m \<in> set (kafka_loop c xs)"
    using that
  proof (induction xs)
    case (Cons x xs)
    then have "KCommit m \<in> set (kafka_serve_connection c x) \<or> KCommit m \<in> set (kafka_loop c xs)"
      by (auto split: if_splits)
    then show ?case
      using kafka_connection_commits [of m c x] Cons.IH by auto
  qed simp
  ultimately show ?thesis using kafka_commit_iff(1) by blast
qed

lemma kafka_commit_rule_witness:
  "\<exists>x m p process. KCommit m \<in> set (kafka_loop default_kafka_server [x]) \<and>
     kafka_settled p process default_kafka_server m \<and>
     (process, Message m) \<in> snd ` set (kx_consumed x)"
proof -
  define m :: kafka_message where "m = \<lparr>km_headers = None, km_payload = Some [1]\<rparr>"
  define f :: "kafka_process option" where "f = Some (\<lambda>_. Inr ([], False))"
  define p :: kafka_producer where "p = \<lparr>kp_produce = (\<lambda>_ _ _. None), kp_flush = (\<lambda>_. None)\<rparr>"
  define api where "api = \<lparr>ka_set = (\<lambda>_ _. None), ka_producer = (\<lambda>_. Inr p),
    ka_consumer = (\<lambda>_. None), ka_subscribe = (\<lambda>_. None)\<rparr>"
  define x where "x = \<lparr>kx_running = True, kx_api = api, kx_consumed = [(False, f, Message m)],
    kx_running_after = False\<rparr>"
  have all: "\<exists>conf'. set_all (\<lambda>_ _. None) xs conf = Inr conf'" for xs conf
    by (induction xs arbitrary: conf) (auto simp: setConfOrThrow_def rbind_def)
  have "kafka_connect api default_kafka_server = (Some p, Inr ())"
    using all [of "server_producer_settings default_kafka_server" "[]"]
      all [of "server_consumer_settings default_kafka_server" "[]"]
    by (auto simp: kafka_connect_def kafka_connect_consumer_def api_def rbind_def)
  moreover have "KCommit m \<in> set (fst (kafka_handle_message p f default_kafka_server m))"
    "snd (kafka_handle_message p f default_kafka_server m) = Inr ()"
    by (simp_all add: kafka_handle_message_def f_def)
  ultimately have "KCommit m \<in> set (kafka_loop default_kafka_server [x])"
    by (cases "kafka_handle_message p f default_kafka_server m")
      (auto simp: kafka_serve_connection_def x_def kafka_handle_def)
  moreover from this have "\<exists>p process. kafka_settled p process default_kafka_server m \<and>
      (process, Message m) \<in> snd ` set (kx_consumed x)"
    using kafka_commit_rule [of m p f default_kafka_server m "[x]"] by (simp only: list.set) blast
  ultimately show ?thesis by blast
qed

section \<open>Start and stop\<close>

text \<open>
  The running flag and the thread object.  \<open>kv_starters\<close> and \<open>kv_stoppers\<close> count the
  threads that are between the exchange of the flag and their access to the thread object;
  \<open>kv_terminated\<close> is \<^verbatim>\<open>std::terminate\<close>, called when a joinable thread object is
  assigned.
\<close>

record kafka_server =
  kv_running :: bool
  kv_joinable :: bool
  kv_alive :: bool
  kv_starters :: nat
  kv_stoppers :: nat
  kv_terminated :: bool

definition new_KafkaServer :: kafka_server where
  "new_KafkaServer = \<lparr>kv_running = False, kv_joinable = False, kv_alive = False,
     kv_starters = 0, kv_stoppers = 0, kv_terminated = False\<rparr>"

definition start_exchange :: "kafka_server \<Rightarrow> kafka_server" where
  "start_exchange s =
     (if kv_running s then s else s\<lparr>kv_running := True, kv_starters := kv_starters s + 1\<rparr>)"

definition start_thread :: "kafka_server \<Rightarrow> kafka_server" where
  "start_thread s =
     (if kv_joinable s then s\<lparr>kv_terminated := True, kv_starters := kv_starters s - 1\<rparr>
      else s\<lparr>kv_joinable := True, kv_alive := True, kv_starters := kv_starters s - 1\<rparr>)"

definition stop_exchange :: "kafka_server \<Rightarrow> kafka_server" where
  "stop_exchange s = s\<lparr>kv_running := False, kv_stoppers := kv_stoppers s + 1\<rparr>"

text \<open>The loop of the worker ends when it reads a cleared flag; a join waits for that.\<close>

definition worker_exit :: "kafka_server \<Rightarrow> kafka_server" where
  "worker_exit s = s\<lparr>kv_alive := False\<rparr>"

definition stop_join :: "kafka_server \<Rightarrow> kafka_server" where
  "stop_join s = s\<lparr>kv_joinable := False, kv_stoppers := kv_stoppers s - 1\<rparr>"

inductive kv_step :: "kafka_server \<Rightarrow> kafka_server \<Rightarrow> bool" where
  kv_start: "kv_step s (start_exchange s)"
| kv_thread: "0 < kv_starters s \<Longrightarrow> kv_step s (start_thread s)"
| kv_stop: "kv_step s (stop_exchange s)"
| kv_exit: "kv_alive s \<Longrightarrow> \<not> kv_running s \<Longrightarrow> kv_step s (worker_exit s)"
| kv_join: "0 < kv_stoppers s \<Longrightarrow> \<not> (kv_joinable s \<and> kv_alive s) \<Longrightarrow> kv_step s (stop_join s)"

text \<open>Completed calls, one after the other.\<close>

definition kafka_start :: "kafka_server \<Rightarrow> kafka_server" where
  "kafka_start s = (if kv_running s then start_exchange s else start_thread (start_exchange s))"

definition kafka_stop :: "kafka_server \<Rightarrow> kafka_server" where
  "kafka_stop s =
     (let s = stop_exchange s in stop_join (if kv_joinable s then worker_exit s else s))"

definition kafka_calls :: "bool list \<Rightarrow> kafka_server \<Rightarrow> kafka_server" where
  "kafka_calls = fold (\<lambda>start. if start then kafka_start else kafka_stop)"

lemmas kv_ops =
  start_exchange_def start_thread_def stop_exchange_def worker_exit_def stop_join_def
  kafka_start_def kafka_stop_def

lemma kafka_calls_inv:
  "kv_running s = kv_joinable s \<Longrightarrow> kv_alive s = kv_joinable s \<Longrightarrow> \<not> kv_terminated s \<Longrightarrow>
    kv_running (kafka_calls cs s) = kv_joinable (kafka_calls cs s) \<and>
    kv_alive (kafka_calls cs s) = kv_joinable (kafka_calls cs s) \<and>
    \<not> kv_terminated (kafka_calls cs s)"
  by (induction cs arbitrary: s) (simp_all add: kafka_calls_def kv_ops Let_def)

text \<open>
  Start and stop of the Kafka server.  Calls that do not overlap are safe: after any
  sequence of them the worker exists exactly when the server runs, and the process is never
  terminated.  Calls that overlap are not: a stop between the two steps of a start leaves a
  joinable thread object behind a cleared flag, and the next start terminates the process.
\<close>
theorem kafka_start_stop:
  "\<not> kv_terminated (kafka_calls cs new_KafkaServer) \<and>
   kv_running (kafka_calls cs new_KafkaServer) = kv_joinable (kafka_calls cs new_KafkaServer) \<and>
   (\<exists>s. reaches kv_step new_KafkaServer s \<and> kv_terminated s)"
proof -
  define s1 where "s1 = start_exchange new_KafkaServer"
  define s2 where "s2 = stop_join (stop_exchange s1)"
  define s3 where "s3 = start_thread s2"
  define s4 where "s4 = start_thread (start_exchange s3)"
  have s2: "kv_starters s2 = 1" "\<not> kv_joinable s2" "\<not> kv_running s2" "\<not> kv_terminated s2"
    by (simp_all add: s2_def s1_def kv_ops new_KafkaServer_def)
  have s3: "kv_joinable s3" "\<not> kv_running s3" "kv_starters s3 = 0"
    using s2 by (simp_all add: s3_def kv_ops)
  have "reaches kv_step new_KafkaServer s1"
    unfolding s1_def by (rule reaches_step [OF reaches_refl]) (rule kv_start)
  then have "reaches kv_step new_KafkaServer (stop_exchange s1)"
    by (rule reaches_step) (rule kv_stop)
  then have "reaches kv_step new_KafkaServer s2"
    unfolding s2_def
    by (rule reaches_step) (rule kv_join, simp_all add: s1_def kv_ops new_KafkaServer_def)
  then have "reaches kv_step new_KafkaServer s3"
    unfolding s3_def by (rule reaches_step) (rule kv_thread, simp add: s2)
  then have "reaches kv_step new_KafkaServer (start_exchange s3)"
    by (rule reaches_step) (rule kv_start)
  then have "reaches kv_step new_KafkaServer s4"
    unfolding s4_def by (rule reaches_step) (rule kv_thread, simp add: s3 start_exchange_def)
  moreover have "kv_terminated s4"
    using s3 by (simp add: s4_def kv_ops)
  ultimately show ?thesis
    using kafka_calls_inv [of new_KafkaServer cs] by (auto simp: new_KafkaServer_def)
qed

end
