(* ===== verification/KafkaClient.thy ===== *)
theory KafkaClient
  imports KafkaServer Tickets TransportAbi
begin

text \<open>
  The client of the Kafka plugin (\<^verbatim>\<open>KafkaClient.h\<close>, \<^verbatim>\<open>KafkaClient.cpp\<close>,
  \<^verbatim>\<open>TransportKafka.cpp\<close>): the start with its settings, the delivery reports, the
  dispatcher of replies, and the call.
\<close>

section \<open>The client object\<close>

record kafka_client =
  kc_config :: kafka_config
  kc_instanceId :: string
  kc_consumerGroupId :: string
  kc_pending :: pending
  kc_producer :: "settings option"
  kc_consumer :: "settings option"
  kc_started :: bool
  kc_stopping :: bool

definition new_KafkaClient :: "kafka_config \<Rightarrow> u64 \<Rightarrow> u64 \<Rightarrow> kafka_client" where
  "new_KafkaClient cfg a b =
     (let instanceId = makeUuidV4 a b in
      \<lparr>kc_config = cfg, kc_instanceId = instanceId,
       kc_consumerGroupId = (if kf_groupId cfg = [] then ''graft-client-'' @ instanceId
                             else kf_groupId cfg @ ''-'' @ instanceId),
       kc_pending = new_pending, kc_producer = None, kc_consumer = None,
       kc_started = False, kc_stopping = False\<rparr>)"

definition destroy_KafkaClient :: "kafka_client \<Rightarrow> kafka_client" where
  "destroy_KafkaClient c =
     c\<lparr>kc_stopping := True, kc_pending := Close ''Kafka client is shutting down'' (kc_pending c),
       kc_consumer := None, kc_producer := None\<rparr>"

definition client_producer_settings :: "kafka_client \<Rightarrow> settings" where
  "client_producer_settings c =
     [(''bootstrap.servers'', kf_brokers (kc_config c)),
      (''client.id'', ''graft-kafka-client-producer-'' @ kc_instanceId c),
      (''message.timeout.ms'', to_string (kf_rpcTimeoutMs (kc_config c)))] @
     applySecurity (kf_security (kc_config c))"

definition client_consumer_settings :: "kafka_client \<Rightarrow> settings" where
  "client_consumer_settings c =
     [(''bootstrap.servers'', kf_brokers (kc_config c)),
      (''group.id'', kc_consumerGroupId c),
      (''client.id'', ''graft-kafka-client-consumer-'' @ kc_instanceId c),
      (''enable.auto.commit'', ''true''), (''auto.offset.reset'', ''latest''),
      (''allow.auto.create.topics'', ''true'')] @
     applySecurity (kf_security (kc_config c))"

text \<open>What librdkafka answers to the client's set-up: an error text, if any.\<close>

record kafka_client_api =
  kca_set :: "string \<Rightarrow> string \<Rightarrow> string option"
  kca_set_dr :: "string option"
  kca_producer :: "settings \<Rightarrow> string option"
  kca_consumer :: "settings \<Rightarrow> string option"
  kca_subscribe :: "string \<Rightarrow> string option"

definition start_producer :: "kafka_client_api \<Rightarrow> kafka_client \<Rightarrow> settings result" where
  "start_producer api c =
     rbind (set_all (kca_set api) (client_producer_settings c) []) (\<lambda>pconf.
     case kca_set_dr api of
       Some errstr \<Rightarrow> Inl (RuntimeError (''Failed to set Kafka delivery report callback: '' @ errstr))
     | None \<Rightarrow>
         (case kca_producer api pconf of
            Some errstr \<Rightarrow> Inl (RuntimeError (''Failed to create Kafka producer: '' @ errstr))
          | None \<Rightarrow> Inr pconf))"

definition start_consumer :: "kafka_client_api \<Rightarrow> kafka_client \<Rightarrow> settings result" where
  "start_consumer api c =
     rbind (set_all (kca_set api) (client_consumer_settings c) []) (\<lambda>cconf.
     case kca_consumer api cconf of
       Some errstr \<Rightarrow> Inl (RuntimeError (''Failed to create Kafka consumer: '' @ errstr))
     | None \<Rightarrow> Inr cconf)"

text \<open>
  A failure leaves what was created before it in the object, but not started, so that the next
  call tries again.
\<close>

definition ensureStarted :: "kafka_client_api \<Rightarrow> kafka_client \<Rightarrow> unit result \<times> kafka_client" where
  "ensureStarted api c =
     (if kc_started c then (Inr (), c)
      else case start_producer api c of
        Inl e \<Rightarrow> (Inl e, c)
      | Inr pconf \<Rightarrow>
          (let c = c\<lparr>kc_producer := Some pconf\<rparr> in
           case start_consumer api c of
             Inl e \<Rightarrow> (Inl e, c)
           | Inr cconf \<Rightarrow>
               (let c = c\<lparr>kc_consumer := Some cconf\<rparr> in
                case kca_subscribe api (kf_replyTopic (kc_config c)) of
                  Some err \<Rightarrow> (Inl (RuntimeError (''Failed to subscribe to reply topic '' @
                    quoted (kf_replyTopic (kc_config c)) @ '': '' @ err)), c)
                | None \<Rightarrow> (Inr (), c\<lparr>kc_started := True\<rparr>))))"

section \<open>Delivery reports and replies\<close>

text \<open>A delivery report: the correlation id it was tagged with and the error text, if any.\<close>

definition dr_cb :: "string option \<Rightarrow> string option \<Rightarrow> pr_event list" where
  "dr_cb tag err =
     (case (tag, err) of
        (Some cid, Some errstr) \<Rightarrow>
          [EFail cid (''Kafka delivery failed for correlation-id='' @ cid @ '': '' @ errstr)]
      | _ \<Rightarrow> [])"

definition dispatch_reply :: "consumed \<Rightarrow> pr_event list" where
  "dispatch_reply x =
     (case x of
        Message m \<Rightarrow>
          (let cid = headerValue (km_headers m) ''correlation-id'' in
           if cid = [] then [] else [EComplete cid (kafka_payload m)])
      | _ \<Rightarrow> [])"

text \<open>A run of \<^verbatim>\<open>dispatchReplies\<close>: each turn polls the producer, then consumes.\<close>

definition kafka_dispatch ::
  "((string option \<times> string option) list \<times> consumed) list \<Rightarrow> pr_event list" where
  "kafka_dispatch turns =
     concat (map (\<lambda>(reports, x).
       concat (map (\<lambda>(tag, err). dr_cb tag err) reports) @ dispatch_reply x) turns)"

section \<open>A call\<close>

record kafka_request =
  kq_topic :: string
  kq_headers :: kafka_headers
  kq_payload :: bytes

definition kafka_timeout :: "kafka_config \<Rightarrow> string \<Rightarrow> exn" where
  "kafka_timeout cfg cid =
     RuntimeError (''Kafka RPC timed out after '' @ to_string (kf_rpcTimeoutMs cfg) @
       '' ms waiting for correlation-id='' @ cid)"

definition kafka_call ::
  "kafka_client_api \<Rightarrow> (kafka_request \<Rightarrow> string option) \<Rightarrow> string \<Rightarrow> pr_event list \<Rightarrow> buf \<Rightarrow>
     kafka_client \<Rightarrow> bytes result \<times> kafka_client \<times> kafka_request list" where
  "kafka_call api produce cid during d c =
     (if buf_is_null d \<and> buf_size d > 0
      then (Inl (InvalidArgument ''KafkaClient::call: null data with non-zero length''), c, [])
      else case ensureStarted api c of
        (Inl e, c) \<Rightarrow> (Inl e, c, [])
      | (Inr _, c) \<Rightarrow>
          (case Register cid (kc_pending c) of
             Inl e \<Rightarrow> (Inl e, c, [])
           | Inr (ticket, p) \<Rightarrow>
               let p = fold pr_apply during p;
                   request = \<lparr>kq_topic = kf_requestTopic (kc_config c),
                     kq_headers = makeRpcHeaders cid (kf_replyTopic (kc_config c)),
                     kq_payload = buf_bytes d\<rparr>
               in (case produce request of
                     Some err \<Rightarrow>
                       (Inl (RuntimeError (''Kafka produce to '' @
                          quoted (kf_requestTopic (kc_config c)) @ '' failed: '' @ err)),
                        c\<lparr>kc_pending := ticket_destroy ticket p\<rparr>, [request])
                   | None \<Rightarrow>
                       let (r, p) = Wait ticket p in
                       (case r of
                          Inl e \<Rightarrow> Inl e
                        | Inr None \<Rightarrow> Inl (kafka_timeout (kc_config c) cid)
                        | Inr (Some response) \<Rightarrow> Inr response,
                        c\<lparr>kc_pending := ticket_destroy ticket p\<rparr>, [request]))))"

text \<open>The length is cast to \<^verbatim>\<open>size_t\<close> without a check.\<close>

definition kafka_transport :: "(buf \<Rightarrow> bytes result) \<Rightarrow> transport" where
  "kafka_transport call messageByteArray messageByteArrayLen =
     (case read_ptr messageByteArray (size_of_int32 messageByteArrayLen) of
        None \<Rightarrow> None
      | Some d \<Rightarrow> Some (rbind (call d) reject_error_reply))"

text \<open>The transport passes messages and replies as the ABI expects.\<close>

interpretation kafka_plugin: plugin_transport kafka_transport
  by unfold_locales (simp add: kafka_transport_def read_ptr_positive)

section \<open>Properties\<close>

lemma ensureStarted_keeps:
  assumes "ensureStarted api c = (r, c')"
  shows "kc_pending c' = kc_pending c \<and> kc_config c' = kc_config c \<and>
    (r = Inr () \<longleftrightarrow> kc_started c')"
  using assms
  by (auto simp: ensureStarted_def Let_def split: if_splits sum.splits option.splits)

lemma leaves_kafka_dispatch: "leaves cid (kafka_dispatch turns)"
proof -
  have "leaves cid (concat (map (\<lambda>(tag, err). dr_cb tag err) reports))" for reports
    by (induction reports) (auto simp: dr_cb_def split: option.split)
  moreover have "leaves cid (dispatch_reply x)" for x
    by (simp add: dispatch_reply_def Let_def split: consumed.split)
  ultimately show ?thesis
    by (induction turns) (auto simp: kafka_dispatch_def)
qed

lemma kafka_call_general:
  assumes "pending_wf (kc_pending c)" and "\<not> closed (kc_pending c)"
    and "map_of (slots (kc_pending c)) cid = None" and "kc_started c"
    and "\<not> (buf_is_null d \<and> buf_size d > 0)"
  shows "\<exists>c' request. kafka_call api produce cid (kafka_dispatch turns) d c =
      (case produce request of
         Some err \<Rightarrow> Inl (RuntimeError (''Kafka produce to '' @
           quoted (kf_requestTopic (kc_config c)) @ '' failed: '' @ err))
       | None \<Rightarrow>
           (case first_settle cid (kafka_dispatch turns) of
              Waiting \<Rightarrow> Inl (kafka_timeout (kc_config c) cid)
            | Failed e \<Rightarrow> Inl (RuntimeError e)
            | Done pl \<Rightarrow> Inr pl), c', [request]) \<and>
    headerValue (Some (kq_headers request)) ''correlation-id'' = cid \<and>
    headerValue (Some (kq_headers request)) ''reply-to'' = kf_replyTopic (kc_config c) \<and>
    kq_payload request = buf_bytes d \<and>
    map_of (slots (kc_pending c')) cid = None \<and> pending_wf (kc_pending c')"
proof -
  define es where "es = kafka_dispatch turns"
  have leaves: "leaves cid es" unfolding es_def by (rule leaves_kafka_dispatch)
  obtain t p where reg: "Register cid (kc_pending c) = Inr (t, p)"
    by (rule Register_succeeds [OF assms(2,3)])
  define request where "request = \<lparr>kq_topic = kf_requestTopic (kc_config c),
    kq_headers = makeRpcHeaders cid (kf_replyTopic (kc_config c)), kq_payload = buf_bytes d\<rparr>"
  obtain v q where w: "Wait t (fold pr_apply es p) = (v, q)"
    by (cases "Wait t (fold pr_apply es p)")
  note after = wait_after_run [OF assms(1) reg leaves] wait_entry_gone [OF assms(1) reg, of q]
    abandon_after_run [OF assms(1) reg]
  have start: "ensureStarted api c = (Inr (), c)"
    using assms(4) by (simp add: ensureStarted_def)
  have "\<exists>c'. kafka_call api produce cid es d c =
      (case produce request of
         Some err \<Rightarrow> Inl (RuntimeError (''Kafka produce to '' @
           quoted (kf_requestTopic (kc_config c)) @ '' failed: '' @ err))
       | None \<Rightarrow>
           (case first_settle cid es of
              Waiting \<Rightarrow> Inl (kafka_timeout (kc_config c) cid)
            | Failed e \<Rightarrow> Inl (RuntimeError e)
            | Done pl \<Rightarrow> Inr pl), c', [request]) \<and>
    map_of (slots (kc_pending c')) cid = None \<and> pending_wf (kc_pending c')"
  proof (cases "produce request")
    case (Some err)
    then show ?thesis
      using assms(5) after(5,6)
      by (simp add: kafka_call_def Let_def start reg flip: request_def)
  next
    case None
    then show ?thesis
      using assms(5) after(1,3,4) w
      by (auto simp: kafka_call_def Let_def start reg simp flip: request_def split: outcome.split)
  qed
  then show ?thesis
    unfolding es_def
    by (auto simp: request_def header_correlation)
qed

text \<open>
  The outcome of a Kafka call.  While the dispatcher runs, with any delivery reports and
  consumed messages, a call of a started client ends with the produce error, or with the first
  settlement of its own id (a reply with that id, or a failed delivery tagged with it), or with
  a timeout; the request carries its id and the reply topic, and no entry is left behind.
\<close>
theorem kafka_call_outcome:
  assumes "pending_wf (kc_pending c)" and "\<not> closed (kc_pending c)"
    and "map_of (slots (kc_pending c)) cid = None" and "kc_started c"
    and "\<not> (buf_is_null d \<and> buf_size d > 0)"
  shows "\<exists>c' request. kafka_call api produce cid (kafka_dispatch turns) d c =
      (case produce request of
         Some err \<Rightarrow> Inl (RuntimeError (''Kafka produce to '' @
           quoted (kf_requestTopic (kc_config c)) @ '' failed: '' @ err))
       | None \<Rightarrow>
           (case first_settle cid (kafka_dispatch turns) of
              Waiting \<Rightarrow> Inl (kafka_timeout (kc_config c) cid)
            | Failed e \<Rightarrow> Inl (RuntimeError e)
            | Done pl \<Rightarrow> Inr pl), c', [request]) \<and>
    headerValue (Some (kq_headers request)) ''correlation-id'' = cid \<and>
    headerValue (Some (kq_headers request)) ''reply-to'' = kf_replyTopic (kc_config c) \<and>
    kq_payload request = buf_bytes d \<and>
    map_of (slots (kc_pending c')) cid = None \<and> pending_wf (kc_pending c')"
  using assms by (rule kafka_call_general)

definition kafka_example_client :: kafka_client where
  "kafka_example_client = (new_KafkaClient default_kafka_client 1 2)\<lparr>kc_started := True\<rparr>"

lemma kafka_call_outcome_witness:
  "\<forall>api. \<exists>c' request. kafka_call api (\<lambda>_. None) ''id''
      (kafka_dispatch [([(Some ''id'', None)],
         Message \<lparr>km_headers = Some (makeRpcHeaders ''id'' []), km_payload = Some [7]\<rparr>)])
      (Buf [1]) kafka_example_client = (Inr [7], c', [request])"
proof
  fix api
  let ?turns = "[([(Some ''id'', None)],
      Message \<lparr>km_headers = Some (makeRpcHeaders ''id'' []), km_payload = Some [7]\<rparr>)]"
  have "first_settle ''id'' (kafka_dispatch ?turns) = Done [7]"
    by (simp add: kafka_dispatch_def dr_cb_def dispatch_reply_def header_correlation
        kafka_payload_def)
  moreover have "kc_pending kafka_example_client = new_pending" "kc_started kafka_example_client"
    "slots new_pending = []" "closed new_pending = False"
    by (simp_all add: kafka_example_client_def new_KafkaClient_def new_pending_def Let_def)
  ultimately show "\<exists>c' request. kafka_call api (\<lambda>_. None) ''id'' (kafka_dispatch ?turns)
      (Buf [1]) kafka_example_client = (Inr [7], c', [request])"
    using kafka_call_outcome [of kafka_example_client "''id''" "Buf [1]" api "\<lambda>_. None" ?turns]
    by auto
qed

text \<open>
  A negative length is not rejected by the Kafka transport.  A null message with a negative
  length gives an error, but for any message in memory the plugin would read far beyond its end:
  the behaviour is undefined.  With a length from zero to the size of the message the call gets
  exactly the leading bytes.
\<close>
theorem kafka_transport_lengths:
  assumes "length region < 2 ^ 63"
  shows "kafka_transport call (Some region) n =
    (if 0 \<le> sint n \<and> nat (sint n) \<le> length region
     then Some (rbind (call (Buf (take (nat (sint n)) region))) reject_error_reply) else None)"
proof (cases "0 \<le> sint n")
  case True
  then show ?thesis
    by (simp add: kafka_transport_def read_ptr_def size_of_int32_nonneg)
next
  case False
  have "2 ^ 63 \<le> size_of_int32 n"
  proof -
    have "- (2 ^ 31) \<le> sint n" using sint_ge [of n] by simp
    have "uint (scast n :: u64) = sint n mod 2 ^ 64"
      using uint_word_of_int [where 'a = 64, of "sint n"] by simp
    also have "\<dots> = (sint n + 2 ^ 64) mod 2 ^ 64" by simp
    also have "\<dots> = sint n + 2 ^ 64"
      using False \<open>- (2 ^ 31) \<le> sint n\<close> by (intro mod_pos_pos_trivial) simp_all
    finally have "uint (scast n :: u64) = sint n + 2 ^ 64" .
    then show ?thesis
      using \<open>- (2 ^ 31) \<le> sint n\<close>
      by (simp add: size_of_int32_def flip: nat_uint_eq)
  qed
  with assms False show ?thesis
    by (simp add: kafka_transport_def read_ptr_def)
qed

lemma kafka_transport_lengths_witness:
  "kafka_transport (\<lambda>d. Inr (buf_bytes d)) (Some [1, 2, 3]) 2 = Some (Inr [1, 2]) \<and>
   kafka_transport (\<lambda>d. Inr (buf_bytes d)) (Some [1, 2, 3]) (- 1) = None"
  using kafka_transport_lengths [of "[1, 2, 3]" "\<lambda>d. Inr (buf_bytes d)" 2]
    kafka_transport_lengths [of "[1, 2, 3]" "\<lambda>d. Inr (buf_bytes d)" "- 1"]
  by (simp add: reject_error_reply_def RejectGatewayErrorPayload_def)

lemma first_settle_kafka_reply:
  assumes "\<forall>(reports, x) \<in> set before. dispatch_reply x = [] \<or>
      (\<exists>j pl. dispatch_reply x = [EComplete j pl] \<and> j \<noteq> cid)"
    and "\<forall>(reports, x) \<in> set before. \<forall>(tag, err) \<in> set reports. tag = Some cid \<longrightarrow> err = None"
    and "\<forall>(tag, err) \<in> set reports. tag = Some cid \<longrightarrow> err = None"
    and "dispatch_reply x = [EComplete cid pl]"
  shows "first_settle cid (kafka_dispatch (before @ (reports, x) # after)) = Done pl"
proof -
  have dr: "first_settle cid (concat (map (\<lambda>(tag, err). dr_cb tag err) rs)) = Waiting"
    if "\<forall>(tag, err) \<in> set rs. tag = Some cid \<longrightarrow> err = None" for rs
    using that by (induction rs) (auto simp: dr_cb_def split: option.splits)
  have "first_settle cid (kafka_dispatch before) = Waiting"
    using assms(1,2)
    by (induction before) (auto simp: kafka_dispatch_def first_settle_append dr)
  then show ?thesis
    using dr [OF assms(3)] assms(4)
    by (simp add: kafka_dispatch_def first_settle_append)
qed

text \<open>
  C13. A Kafka request makes the round trip.  The server reads from the request of a call exactly
  the caller's bytes; when its callback accepts them and the producer takes the reply, the reply
  goes to the client's reply topic with the client's id, and once the dispatcher consumes it
  (after any messages of other ids and any successful delivery reports) the call returns exactly
  the bytes the callback wrote last.
\<close>
theorem kafka_rpc_round_trip:
  assumes client: "pending_wf (kc_pending c)" "\<not> closed (kc_pending c)"
      "map_of (slots (kc_pending c)) cid = None" "kc_started c"
    and ids: "cid \<noteq> []" "kf_replyTopic (kc_config c) \<noteq> []"
    and ok: "\<And>q. produce q = None" "\<And>t h d. kp_produce p t h d = None"
    and callback: "process d = Inr (writes, True)"
    and before: "\<forall>(reports, x) \<in> set before. dispatch_reply x = [] \<or>
        (\<exists>j pl. dispatch_reply x = [EComplete j pl] \<and> j \<noteq> cid)"
      "\<forall>(reports, x) \<in> set before. \<forall>(tag, err) \<in> set reports. tag = Some cid \<longrightarrow> err = None"
  shows "\<exists>request c'.
    KProduce (kf_replyTopic (kc_config c)) (reply_headers cid) (fold k_writeResponse writes []) \<in>
      set (fst (kafka_handle_message p (Some process) server
        \<lparr>km_headers = Some (kq_headers request), km_payload = Some (kq_payload request)\<rparr>)) \<and>
    kafka_call api produce cid (kafka_dispatch (before @ ([(Some cid, None)],
        Message \<lparr>km_headers = Some (reply_headers cid),
                 km_payload = Some (fold k_writeResponse writes [])\<rparr>) # after)) (Buf d) c =
      (Inr (fold k_writeResponse writes []), c', [request])"
proof -
  let ?turns = "before @ ([(Some cid, None)], Message \<lparr>km_headers = Some (reply_headers cid),
      km_payload = Some (fold k_writeResponse writes [])\<rparr>) # after"
  obtain c' request where call: "kafka_call api produce cid (kafka_dispatch ?turns) (Buf d) c =
      (case produce request of
         Some err \<Rightarrow> Inl (RuntimeError (''Kafka produce to '' @
           quoted (kf_requestTopic (kc_config c)) @ '' failed: '' @ err))
       | None \<Rightarrow>
           (case first_settle cid (kafka_dispatch ?turns) of
              Waiting \<Rightarrow> Inl (kafka_timeout (kc_config c) cid)
            | Failed e \<Rightarrow> Inl (RuntimeError e)
            | Done pl \<Rightarrow> Inr pl), c', [request])"
    and request: "headerValue (Some (kq_headers request)) ''correlation-id'' = cid"
      "headerValue (Some (kq_headers request)) ''reply-to'' = kf_replyTopic (kc_config c)"
      "kq_payload request = d"
    using kafka_call_general [OF client, of "Buf d" api produce ?turns] by auto
  have "dispatch_reply (Message \<lparr>km_headers = Some (reply_headers cid),
      km_payload = Some (fold k_writeResponse writes [])\<rparr>) =
      [EComplete cid (fold k_writeResponse writes [])]"
    using ids by (simp add: dispatch_reply_def reply_headers_def headerValue_def kafka_payload_def)
  then have "first_settle cid (kafka_dispatch ?turns) = Done (fold k_writeResponse writes [])"
    by (intro first_settle_kafka_reply before) simp_all
  then have "kafka_call api produce cid (kafka_dispatch ?turns) (Buf d) c =
      (Inr (fold k_writeResponse writes []), c', [request])"
    using call ok(1) by simp
  moreover have "KProduce (kf_replyTopic (kc_config c)) (reply_headers cid) (fold k_writeResponse writes []) \<in>
      set (fst (kafka_handle_message p (Some process) server
        \<lparr>km_headers = Some (kq_headers request), km_payload = Some (kq_payload request)\<rparr>))"
    using request callback ok(2) ids
    by (simp add: kafka_handle_message_def kafka_reply_topic_def kafka_payload_def publishReply_def
        Let_def)
  ultimately show ?thesis by blast
qed

lemma kafka_rpc_round_trip_witness:
  "\<forall>api. \<exists>request c'. kafka_call api (\<lambda>_. None) ''id'' (kafka_dispatch [([(Some ''id'', None)],
        Message \<lparr>km_headers = Some (reply_headers ''id''), km_payload = Some [2, 1]\<rparr>)])
      (Buf [1, 2]) kafka_example_client = (Inr [2, 1], c', [request])"
proof
  fix api
  have "kc_pending kafka_example_client = new_pending" "kc_started kafka_example_client"
    "slots new_pending = []" "closed new_pending = False"
    "kf_replyTopic (kc_config kafka_example_client) \<noteq> []"
    by (simp_all add: kafka_example_client_def new_KafkaClient_def new_pending_def Let_def
        default_kafka_client_def)
  with kafka_rpc_round_trip [of kafka_example_client "''id''" "\<lambda>_. None"
      "\<lparr>kp_produce = \<lambda>_ _ _. None, kp_flush = \<lambda>_. None\<rparr>" "\<lambda>d. Inr ([Buf (rev d)], True)" "[1, 2]"
      "[Buf [2, 1]]" "[]" default_kafka_server api "[]"]
  show "\<exists>request c'. kafka_call api (\<lambda>_. None) ''id'' (kafka_dispatch [([(Some ''id'', None)],
        Message \<lparr>km_headers = Some (reply_headers ''id''), km_payload = Some [2, 1]\<rparr>)])
      (Buf [1, 2]) kafka_example_client = (Inr [2, 1], c', [request])" by (auto simp: k_writeResponse_def)
qed

end
