(* ===== verification/PluginExchange.thy ===== *)
theory PluginExchange
  imports RpcExchange RabbitMqServer ServiceBusServer SqsServer PubSubServer PubSubClient KafkaClient
begin

text \<open>
  The five plugins as instances of the system of clients, servers and broker.  In each the
  requests are what the client's call sends, a turn of a server is its handler run on the request
  as the broker delivers it, with any callback and any answers of the library, and a reply is
  dispatched by the client's own dispatcher.
\<close>

section \<open>RabbitMQ\<close>

text \<open>A reply queue is exclusive to a link, so the address of a reply is its routing key.\<close>

definition rabbit_requests ::
  "(rabbit_envelope \<Rightarrow> bool) \<times> rabbit_link \<Rightarrow> string \<Rightarrow> buf \<Rightarrow> rabbit_envelope list" where
  "rabbit_requests l cid d = snd (rabbit_Publish (fst l) (snd l) cid d)"

type_synonym rabbit_serving = "(rabbit_reply \<Rightarrow> bool) \<times> rabbit_process option \<times> nat"

definition rabbit_replies :: "rabbit_serving \<Rightarrow> rabbit_envelope \<Rightarrow> rabbit_reply list" where
  "rabbit_replies x q =
     (case x of (publish, process, tag) \<Rightarrow>
        concat (map (\<lambda>a. case a of RPublish r \<Rightarrow> [r] | _ \<Rightarrow> [])
          (fst (rabbit_onReceived publish process (rabbit_delivered q tag)))))"

definition rabbit_deliver :: "nat \<times> rabbit_link \<Rightarrow> rabbit_reply \<Rightarrow> pr_event list" where
  "rabbit_deliver y r =
     snd (on_event (amqp_event.Received (fst y) (rr_correlationId r) (rr_body r)) (snd y))"

definition rabbit_exchange ::
  "(string, rabbit_envelope, rabbit_serving, rabbit_reply) exchange \<Rightarrow>
   (string, rabbit_envelope, rabbit_serving, rabbit_reply) exchange \<Rightarrow> bool" where
  "rabbit_exchange =
     xc_step (\<lambda>_. True) (\<lambda>l. rl_replyQueue (snd l)) rabbit_requests rabbit_replies rr_routingKey
       rabbit_deliver"

lemma RPublish_onReceived:
  assumes "RPublish r \<in> set (fst (rabbit_onReceived publish process m))"
  shows "\<exists>response. callback_answer rabbit_writeResponse process (rm_body m) = Some response \<and>
    reply_requested m \<and> r = rabbit_reply_of m (the (rm_replyTo m)) response"
  using assms
  by (auto simp: rabbit_onReceived_def rabbit_try_def publishResponse_cases callback_answer_def Let_def
      split: if_splits option.splits sum.splits prod.splits bool.splits)

interpretation rabbit_xc: rpc_exchange "\<lambda>_. True" "\<lambda>l. rl_replyQueue (snd l)" rabbit_requests
    rabbit_replies rr_routingKey rabbit_deliver
    "\<lambda>x. callback_answer rabbit_writeResponse (fst (snd x))"
proof
  fix i q and l :: "(rabbit_envelope \<Rightarrow> bool) \<times> rabbit_link" and d r x j p and y :: "nat \<times> rabbit_link"
  assume q: "q \<in> set (rabbit_requests l i d)" and r: "r \<in> set (rabbit_replies x q)"
    and p: "EComplete j p \<in> set (rabbit_deliver y r)"
  obtain publish process tag where x: "x = (publish, process, tag)" by (cases x)
  have "buf_size d = 0 \<Longrightarrow> buf_bytes d = []" by (cases d) auto
  with q have fields: "re_body q = buf_bytes d" "re_correlationId q = i"
      "re_replyTo q = rl_replyQueue (snd l)"
    by (auto simp: rabbit_requests_def rabbit_Publish_def request_envelope_def Let_def split: if_splits)
  from r have "RPublish r \<in> set (fst (rabbit_onReceived publish process (rabbit_delivered q tag)))"
    by (auto simp: rabbit_replies_def x split: rabbit_action.splits)
  from RPublish_onReceived [OF this] obtain response where
    "callback_answer rabbit_writeResponse process (re_body q) = Some response"
    "r = rabbit_reply_of (rabbit_delivered q tag) (re_replyTo q) response"
    by (auto simp: rabbit_delivered_def)
  with p fields show "rr_routingKey r = rl_replyQueue (snd l) \<and> j = i \<and>
      callback_answer rabbit_writeResponse (fst (snd x)) (buf_bytes d) = Some p"
    by (simp add: x rabbit_deliver_def rabbit_reply_of_def rabbit_delivered_def)
qed

lemma await_reply_settled:
  assumes "pending_wf p" "leaves cid during" "fst (await_reply timeout cid during sent p) = Inr r"
  shows "first_settle cid during = Done r"
proof (cases "Register cid p")
  case (Inl e)
  with assms(3) show ?thesis by (simp add: await_reply_def)
next
  case (Inr tq)
  obtain t q where tq: "tq = (t, q)" by (cases tq)
  have "fst (Wait t (fold pr_apply during q)) = Inr (Some r)"
    using assms(3) Inr
    by (auto simp: await_reply_def tq Let_def split: sum.splits option.splits prod.splits)
  with Inr tq show ?thesis by (intro wait_reply_settled [OF assms(1) _ assms(2)]) auto
qed

lemma rabbit_CurrentLink_wf:
  "pending_wf (rk_pending c) \<Longrightarrow> rabbit_CurrentLink open_link c = (r, c') \<Longrightarrow>
     pending_wf (rk_pending c') \<and> rk_config c' = rk_config c"
  by (auto simp: rabbit_CurrentLink_def rabbit_relink_def intro: prt.invar_run
      split: option.splits if_splits prod.splits)

lemma rabbit_Call_settled:
  assumes "pending_wf (rk_pending c)" "leaves cid during"
    and "fst (rabbit_Call open_link later published cid during d c) = Inr r"
  shows "first_settle cid during = Done r"
proof -
  obtain lr c1 where link: "rabbit_CurrentLink open_link c = (lr, c1)"
    by (cases "rabbit_CurrentLink open_link c")
  then have wf: "pending_wf (rk_pending c1)" using rabbit_CurrentLink_wf [OF assms(1)] by blast
  obtain l where l: "lr = Inr l" using assms(3) link by (cases lr) (auto simp: rabbit_Call_def split: if_splits)
  obtain sent envelopes where pub: "rabbit_Publish published (later l) cid d = (sent, envelopes)"
    by (cases "rabbit_Publish published (later l) cid d")
  have "fst (await_reply (rabbit_timeout (rk_config c1) cid) cid during sent (rk_pending c1)) = Inr r"
    using assms(3) link l pub by (auto simp: rabbit_Call_def split: if_splits prod.splits)
  then show ?thesis by (rule await_reply_settled [OF wf assms(2)])
qed

text \<open>
  C2. Replies never cross on RabbitMQ.  Whatever the broker loses, repeats, delays or hands to
  another server, and whatever else happens to the tables: when a call with an id of its own
  returns a reply, some server's callback was given exactly the bytes of this call, in one of its
  own messages, accepted them, and wrote exactly the bytes that the call returns.
\<close>
theorem rabbit_replies_never_cross:
  assumes "reaches rabbit_exchange xc_init s"
    and "(a, cid, buf_bytes d, q) \<in> set (xc_calls s)" "set during \<subseteq> set (xc_events s a)"
    and "pending_wf (rk_pending c)" "leaves cid during"
    and "fst (rabbit_Call open_link later published cid during d c) = Inr r"
  shows "\<exists>q publish process tag writes. (a, cid, buf_bytes d, q) \<in> set (xc_calls s) \<and>
    (q, publish, Some process, tag) \<in> set (xc_turns s) \<and>
    process (buf_bytes d) = Inr (writes, True) \<and> r = fold rabbit_writeResponse writes []"
proof -
  have "first_settle cid during = Done r" by (rule rabbit_Call_settled [OF assms(4-6)])
  from rabbit_xc.replies_never_cross [OF assms(1) [unfolded rabbit_exchange_def] assms(2,3) this]
  show ?thesis by (force simp: callback_answer_iff)
qed

lemma rabbit_example_call:
  "fst (rabbit_Call open_link (\<lambda>l. l) (\<lambda>_. True) ''id'' [EComplete ''id'' [7]] (Buf [7])
     rabbit_example_client) = Inr [7]"
proof -
  define l where "l = the (rk_link rabbit_example_client)"
  have l: "rk_link rabbit_example_client = Some l" "\<not> rl_broken l"
    by (simp_all add: l_def rabbit_example_client_def new_link_state_def)
  have fields: "pending_wf (rk_pending rabbit_example_client)" "\<not> closed (rk_pending rabbit_example_client)"
    "map_of (slots (rk_pending rabbit_example_client)) ''id'' = None"
    "rc_queue (rk_config rabbit_example_client) \<noteq> []"
    by (simp add: rabbit_example_client_def new_RabbitMqRpcClient_def)
      (simp_all add: rabbit_example_client_def new_RabbitMqRpcClient_def new_pending_def)
  show ?thesis
    using rabbit_call_general [OF fields(1-3) _ l fields(4), of "[EComplete ''id'' [7]]" "Buf [7]"
        open_link "\<lambda>l. l" "\<lambda>_. True"] l(2)
    by (auto simp: rabbit_Publish_def)
qed

lemma rabbit_example_exchange:
  "\<exists>s q. reaches rabbit_exchange xc_init s \<and> (''r'', ''id'', [7], q) \<in> set (xc_calls s) \<and>
     EComplete ''id'' [7] \<in> set (xc_events s ''r'')"
proof -
  define l where "l = (new_link_state default_rabbit_client)\<lparr>rl_replyQueue := ''r''\<rparr>"
  define x :: rabbit_serving where "x = (\<lambda>_. True, Some (\<lambda>d. Inr ([Buf (rev d)], True)), 1)"
  define q where "q = request_envelope l ''id'' (Buf [7])"
  define reply where "reply = rabbit_reply_of (rabbit_delivered q 1) ''r'' [7]"
  have fields: "re_body q = [7]" "re_correlationId q = ''id''" "re_replyTo q = ''r''" "\<not> rl_broken l"
    by (simp_all add: q_def request_envelope_def l_def new_link_state_def)
  have "q \<in> set (rabbit_requests (\<lambda>_. True, l) ''id'' (Buf [7]))"
    by (simp add: rabbit_requests_def rabbit_Publish_def fields q_def)
  moreover have "reply \<in> set (rabbit_replies x q)"
    by (simp add: rabbit_replies_def x_def rabbit_onReceived_def rabbit_try_def
        publishResponseIfRequested_def rabbit_delivered_def fields rabbit_writeResponse_def reply_def Let_def)
  ultimately obtain s where s: "reaches rabbit_exchange xc_init s"
      "(''r'', ''id'', [7], q) \<in> set (xc_calls s)"
      "set (rabbit_deliver (2, l) reply) \<subseteq> set (xc_events s ''r'')"
    using xc_one_call [of "\<lambda>_. True" "''id''" q rabbit_requests "(\<lambda>_. True, l)" "Buf [7]" reply
        rabbit_replies x "\<lambda>l. rl_replyQueue (snd l)" rr_routingKey rabbit_deliver "(2, l)"]
    by (auto simp: rabbit_exchange_def l_def reply_def rabbit_reply_of_def)
  have "rabbit_deliver (2, l) reply = [EComplete ''id'' [7]]"
    by (simp add: rabbit_deliver_def reply_def rabbit_reply_of_def rabbit_delivered_def fields)
  with s show ?thesis by auto
qed

lemma rabbit_replies_never_cross_witness:
  "\<forall>open_link. \<exists>s a q during c r. reaches rabbit_exchange xc_init s \<and>
     (a, ''id'', [7], q) \<in> set (xc_calls s) \<and> set during \<subseteq> set (xc_events s a) \<and>
     fst (rabbit_Call open_link (\<lambda>l. l) (\<lambda>_. True) ''id'' during (Buf [7]) c) = Inr r \<and>
     (\<exists>q publish process tag writes. (q, publish, Some process, tag) \<in> set (xc_turns s) \<and>
        process [7] = Inr (writes, True) \<and> r = fold rabbit_writeResponse writes [])"
proof
  fix open_link
  obtain s q where s: "reaches rabbit_exchange xc_init s" "(''r'', ''id'', [7], q) \<in> set (xc_calls s)"
      "EComplete ''id'' [7] \<in> set (xc_events s ''r'')"
    using rabbit_example_exchange by blast
  have c: "pending_wf (rk_pending rabbit_example_client)"
    by (simp add: rabbit_example_client_def new_RabbitMqRpcClient_def)
  have ok: "fst (rabbit_Call open_link (\<lambda>l. l) (\<lambda>_. True) ''id'' [EComplete ''id'' [7]] (Buf [7])
      rabbit_example_client) = Inr [7]"
    by (rule rabbit_example_call)
  show "\<exists>s a q during c r. reaches rabbit_exchange xc_init s \<and>
     (a, ''id'', [7], q) \<in> set (xc_calls s) \<and> set during \<subseteq> set (xc_events s a) \<and>
     fst (rabbit_Call open_link (\<lambda>l. l) (\<lambda>_. True) ''id'' during (Buf [7]) c) = Inr r \<and>
     (\<exists>q publish process tag writes. (q, publish, Some process, tag) \<in> set (xc_turns s) \<and>
        process [7] = Inr (writes, True) \<and> r = fold rabbit_writeResponse writes [])"
    using rabbit_replies_never_cross [OF s(1), of "''r''" "''id''" "Buf [7]" q "[EComplete ''id'' [7]]"
        rabbit_example_client open_link "\<lambda>l. l" "\<lambda>_. True" "[7]"] s c ok
    by (intro exI [of _ s] exI [of _ "''r''"] exI [of _ q] exI [of _ "[EComplete ''id'' [7]]"]
        exI [of _ rabbit_example_client] exI [of _ "[7]"]) auto
qed

section \<open>Service Bus\<close>

text \<open>
  The address of a reply is the reply session of the client.  What a turn sends is in the log of
  the sender cache, which starts anywhere.
\<close>

definition sb_home :: "sb_client \<Rightarrow> string option" where
  "sb_home c = (if sk_replySessionId c = [] then None else Some (sk_replySessionId c))"

type_synonym sb_serving = "bool \<times> sb_process option \<times> (send_attempt \<times> send_attempt) \<times> sender_cache"

definition sb_replies :: "sb_serving \<Rightarrow> sb_message \<Rightarrow> sb_message list" where
  "sb_replies x q =
     (case x of (oneWay, process, as, c) \<Rightarrow>
        concat (map (\<lambda>e. case e of CSend s m ok t \<Rightarrow> [m] | _ \<Rightarrow> [])
          (sn_log (snd (snd (sb_handle oneWay process as q (c\<lparr>sn_log := []\<rparr>)))))))"

definition sb_exchange ::
  "(string option, sb_message, sb_serving, sb_message) exchange \<Rightarrow>
   (string option, sb_message, sb_serving, sb_message) exchange \<Rightarrow> bool" where
  "sb_exchange =
     xc_step (\<lambda>_. True) sb_home (\<lambda>c i d. [request_message c i d]) sb_replies sm_groupId
       (\<lambda>_ :: unit. reply_events)"

definition sends_only :: "sb_message \<Rightarrow> sender_cache \<Rightarrow> bool" where
  "sends_only m c \<longleftrightarrow> (\<forall>e \<in> set (filter is_send (sn_log c)). \<exists>s ok t. e = CSend s m ok t)"

lemma sends_only_acquire: "sends_only m c \<Longrightarrow> acquire a e c = (r, c') \<Longrightarrow> sends_only m c'"
  by (simp add: sends_only_def acquire_result(2) del: set_filter)

lemma sends_only_attempt:
  assumes "sends_only m c" "publish_attempt a e m c = (r, c')"
  shows "sends_only m c'"
proof -
  obtain ra ca where acq: "acquire a e c = (ra, ca)" by (cases "acquire a e c")
  from sends_only_acquire [OF assms(1) this] have "sends_only m ca" .
  then show ?thesis
    using assms(2) acq
    by (auto simp: publish_attempt_def Let_def sends_only_def evict_keeps simp del: set_filter
        split: sum.splits option.splits if_splits) blast+
qed

lemma sends_only_attempts: "sends_only m c \<Longrightarrow> sends_only m (snd (publish_attempts as e m c))"
  by (induction as arbitrary: c)
    (auto dest: sends_only_attempt split: prod.split sum.split option.split)

lemma sb_reply_cache:
  "snd (snd (sb_reply as m response c)) =
     (case tryGetReplyTo m of
        None \<Rightarrow> c
      | Some e \<Rightarrow> snd (sb_publish as e response (sm_messageId m) (tryGetReplySessionId m) c))"
  by (simp add: sb_reply_def Let_def split: option.split sum.split prod.split)

lemma sb_handle_sends:
  assumes "CSend s m ok t \<in> set (sn_log (snd (snd (sb_handle oneWay process as q (c\<lparr>sn_log := []\<rparr>)))))"
  shows "\<exists>response. accepted process q = Some response \<and>
    m = response_message response (sm_messageId q) (tryGetReplySessionId q)"
proof (cases "accepted process q")
  case None
  from assms show ?thesis by (simp add: sb_handle_not_accepted(2) [OF None])
next
  case (Some response)
  let ?m = "response_message response (sm_messageId q) (tryGetReplySessionId q)"
  have start: "sends_only ?m (c\<lparr>sn_log := []\<rparr>)" by (simp add: sends_only_def)
  then have "sends_only ?m (snd (snd (sb_reply as q response (c\<lparr>sn_log := []\<rparr>))))"
    using sends_only_attempts [OF start]
    by (simp add: sb_reply_cache sb_publish_def del: publish_attempts.simps split: option.split)
  with start have "sends_only ?m (snd (snd (sb_handle oneWay process as q (c\<lparr>sn_log := []\<rparr>))))"
    by (simp add: sb_handle_accepted [OF Some] case_prod_unfold)
  with assms Some show ?thesis by (force simp: sends_only_def)
qed

lemma accepted_callback:
  "accepted process m = Some r \<Longrightarrow>
     callback_answer sb_writeResponse process (extractMessageBody m) = Some r"
  by (auto simp: accepted_def callback_answer_def split: option.splits if_splits sum.splits bool.splits)

interpretation sb_xc: rpc_exchange "\<lambda>_. True" sb_home "\<lambda>c i d. [request_message c i d]" sb_replies
    sm_groupId "\<lambda>_ :: unit. reply_events" "\<lambda>x. callback_answer sb_writeResponse (fst (snd x))"
proof
  fix i q c d r x j p
  assume q: "q \<in> set [request_message c i d]" and r: "r \<in> set (sb_replies x q)"
    and p: "EComplete j p \<in> set (reply_events r)"
  obtain oneWay process as cache where x: "x = (oneWay, process, as, cache)" by (cases x)
  have "buf_size d = 0 \<Longrightarrow> buf_bytes d = []" by (cases d) auto
  with q have fields: "extractMessageBody q = buf_bytes d" "sm_messageId q = AmqpString i"
      "tryGetReplySessionId q = sb_home c"
    by (auto simp: extractMessageBody_def message_fields tryGetReplySessionId_def sb_home_def
        request_message_def oneway_message_def new_sb_message_def)
  from r obtain s ok t where
    "CSend s r ok t \<in> set (sn_log (snd (snd (sb_handle oneWay process as q (cache\<lparr>sn_log := []\<rparr>)))))"
    by (auto simp: sb_replies_def x split: sender_event.splits)
  from sb_handle_sends [OF this] fields obtain response where
    "accepted process q = Some response" "r = response_message response (AmqpString i) (sb_home c)"
    by auto
  with p accepted_callback [of process q response] fields(1)
  show "sm_groupId r = sb_home c \<and> j = i \<and>
      callback_answer sb_writeResponse (fst (snd x)) (buf_bytes d) = Some p"
    by (simp add: x reply_events_def response_message_def new_sb_message_def Let_def)
qed

lemma sb_CurrentLink_keeps:
  "sb_CurrentLink open_link c = (r, c') \<Longrightarrow> sk_pending c' = sk_pending c \<and> sk_config c' = sk_config c"
  by (auto simp: sb_CurrentLink_def sb_relink_def split: option.splits if_splits sum.splits)

lemma sb_Call_settled:
  assumes "pending_wf (sk_pending c)" "leaves cid during" "sb_topic (sk_config c) = []"
    and "fst (sb_Call open_link later send cid during d c) = Inr r"
  shows "first_settle cid during = Done r"
proof -
  obtain lr c1 where link: "sb_CurrentLink open_link c = (lr, c1)"
    by (cases "sb_CurrentLink open_link c")
  note keeps = sb_CurrentLink_keeps [OF link]
  obtain l where l: "lr = Inr l" using assms(4) link by (cases lr) (auto simp: sb_Call_def split: if_splits)
  obtain sent l' where sent: "sb_Send send (later l) (request_message c1 cid d) = (sent, l')"
    by (cases "sb_Send send (later l) (request_message c1 cid d)")
  have "fst (await_reply (sb_timeout (sk_config c1) cid) cid during sent (sk_pending c1)) = Inr r"
    using assms(3,4) link l sent keeps
    by (auto simp: sb_Call_def split: if_splits prod.splits sum.splits)
  then show ?thesis using assms(1,2) keeps by (intro await_reply_settled) simp_all
qed

text \<open>
  C3. Replies never cross on Service Bus.  Whatever the broker loses, repeats, delays or hands to
  another server, in whatever state the servers' sender caches are: when a call with an id of its
  own in its reply session returns a reply, some server's callback was given exactly the bytes of
  this call, accepted them, and wrote exactly the bytes that the call returns.
\<close>
theorem sb_replies_never_cross:
  assumes "reaches sb_exchange xc_init s"
    and "(a, cid, buf_bytes d, q) \<in> set (xc_calls s)" "set during \<subseteq> set (xc_events s a)"
    and "pending_wf (sk_pending c)" "leaves cid during" "sb_topic (sk_config c) = []"
    and "fst (sb_Call open_link later send cid during d c) = Inr r"
  shows "\<exists>q oneWay process as cache writes. (a, cid, buf_bytes d, q) \<in> set (xc_calls s) \<and>
    (q, oneWay, Some process, as, cache) \<in> set (xc_turns s) \<and>
    process (buf_bytes d) = Inr (writes, True) \<and> r = fold sb_writeResponse writes []"
proof -
  have "first_settle cid during = Done r" by (rule sb_Call_settled [OF assms(4-7)])
  from sb_xc.replies_never_cross [OF assms(1) [unfolded sb_exchange_def] assms(2,3) this]
  show ?thesis by (force simp: callback_answer_iff)
qed

lemma sb_replies_never_cross_witness:
  "\<forall>open_link. \<exists>s a q during c r. reaches sb_exchange xc_init s \<and>
     (a, ''id'', [7], q) \<in> set (xc_calls s) \<and> set during \<subseteq> set (xc_events s a) \<and>
     fst (sb_Call open_link (\<lambda>l. l) (\<lambda>_. Inr True) ''id'' during (Buf [7]) c) = Inr r \<and>
     (\<exists>q oneWay process as cache writes. (q, oneWay, Some process, as, cache) \<in> set (xc_turns s) \<and>
        process [7] = Inr (writes, True) \<and> r = fold sb_writeResponse writes [])"
proof
  fix open_link
  define c where "c = sb_example_client []"
  define as where "as = (example_attempt 0 True, example_attempt 1 True)"
  define x :: sb_serving where "x = (False, Some (\<lambda>d. Inr ([Buf (rev d)], True)), as, new_sender_cache)"
  define q where "q = request_message c ''id'' (Buf [7])"
  define reply where "reply = response_message [7] (AmqpString ''id'') (Some ''s'')"
  have fields: "extractMessageBody q = [7]" "tryGetReplyTo q = Some ''r''" "sm_messageId q = AmqpString ''id''"
    "tryGetReplySessionId q = Some ''s''" "sb_home c = Some ''s''"
    by (simp_all add: q_def c_def extractMessageBody_def tryGetReplyTo_def tryGetReplySessionId_def
        message_fields sb_example_fields sb_home_def)
  have "new_sender_cache\<lparr>sn_log := []\<rparr> = new_sender_cache" by (simp add: new_sender_cache_def)
  then have "reply \<in> set (sb_replies x q)"
    by (simp add: sb_replies_def x_def sb_handle_def sb_reply_def fields Let_def sb_writeResponse_def
        case_prod_unfold)
      (simp add: sb_publish_def publish_attempt_def acquire_def open_sender_def new_sender_cache_def
        as_def example_attempt_def reply_def Let_def, blast)
  moreover have "sm_groupId reply = Some ''s''"
    by (simp add: reply_def response_message_def new_sb_message_def)
  ultimately obtain s where s: "reaches sb_exchange xc_init s"
      "(Some ''s'', ''id'', [7], q) \<in> set (xc_calls s)"
      "set (reply_events reply) \<subseteq> set (xc_events s (Some ''s''))"
    using xc_one_call [of "\<lambda>_. True" "''id''" q "\<lambda>c i d. [request_message c i d]" c "Buf [7]" reply
        sb_replies x sb_home sm_groupId "\<lambda>_ :: unit. reply_events" "()"]
    by (auto simp: sb_exchange_def fields q_def)
  have during: "reply_events reply = [EComplete ''id'' [7]]"
    by (simp add: reply_def response_message_def new_sb_message_def reply_events_def Let_def)
  have ok: "fst (sb_Call open_link (\<lambda>l. l) (\<lambda>_. Inr True) ''id'' [EComplete ''id'' [7]] (Buf [7]) c) =
      Inr [7]"
    using sb_call_general [of c "''id''" "[EComplete ''id'' [7]]" "\<lparr>sl_receiver = True, sl_broken = False\<rparr>"
        "Buf [7]" open_link "\<lambda>l. l" "\<lambda>_. Inr True"]
    by (auto simp: c_def sb_example_fields sb_Send_def)
  have "\<exists>q' oneWay process as cache writes. (Some ''s'', ''id'', buf_bytes (Buf [7]), q') \<in> set (xc_calls s) \<and>
      (q', oneWay, Some process, as, cache) \<in> set (xc_turns s) \<and>
      process (buf_bytes (Buf [7])) = Inr (writes, True) \<and> [7] = fold sb_writeResponse writes []"
    by (rule sb_replies_never_cross [OF s(1) _ _ _ _ _ ok, where a = "Some ''s''" and q = q])
      (use s during sb_example_fields(1,5) [of "[]"] in \<open>simp_all add: c_def\<close>)
  with s(1,2) s(3) [unfolded during] ok
  show "\<exists>s a q during c r. reaches sb_exchange xc_init s \<and>
     (a, ''id'', [7], q) \<in> set (xc_calls s) \<and> set during \<subseteq> set (xc_events s a) \<and>
     fst (sb_Call open_link (\<lambda>l. l) (\<lambda>_. Inr True) ''id'' during (Buf [7]) c) = Inr r \<and>
     (\<exists>q oneWay process as cache writes. (q, oneWay, Some process, as, cache) \<in> set (xc_turns s) \<and>
        process [7] = Inr (writes, True) \<and> r = fold sb_writeResponse writes [])"
    unfolding buf_bytes.simps by blast
qed

section \<open>SQS\<close>

text \<open>
  Clients may share a reply queue, so there is one address: any client may receive any reply.
  The ids are free of zero bytes, as those of \<^verbatim>\<open>NewCorrelationId\<close> are.  The Base64 codec
  of the AWS library is any that keeps the laws of \<open>base64_codec\<close>.
\<close>

definition sqs_requests ::
  "(bytes \<Rightarrow> string) \<Rightarrow> sqs_service \<times> sqs_config \<Rightarrow> string \<Rightarrow> buf \<Rightarrow> sqs_send_request list" where
  "sqs_requests enc l cid d = snd (send_call enc (fst l) (snd l) cid d)"

type_synonym sqs_serving = "sqs_service \<times> process_fn \<times> sqs_config \<times> string \<times> string"

definition sqs_replies ::
  "(bytes \<Rightarrow> string) \<Rightarrow> (string \<Rightarrow> bytes) \<Rightarrow> sqs_serving \<Rightarrow> sqs_send_request \<Rightarrow> sqs_send_request list" where
  "sqs_replies enc dec x q =
     (case x of (svc, process, config, dedup, handle) \<Rightarrow>
        concat (map (\<lambda>a. case a of SendReply r \<Rightarrow> [r] | _ \<Rightarrow> [])
          (fst (handle_message enc dec svc process config dedup (delivered q handle)))))"

definition sqs_deliver ::
  "(string \<Rightarrow> bytes) \<Rightarrow> sqs_service \<times> sqs_config \<times> string \<Rightarrow> sqs_send_request \<Rightarrow> pr_event list" where
  "sqs_deliver dec y r =
     (case y of (svc, config, handle) \<Rightarrow> [dispatch_message dec svc config (delivered r handle)])"

definition sqs_exchange ::
  "(bytes \<Rightarrow> string) \<Rightarrow> (string \<Rightarrow> bytes) \<Rightarrow>
   (unit, sqs_send_request, sqs_serving, sqs_send_request) exchange \<Rightarrow>
   (unit, sqs_send_request, sqs_serving, sqs_send_request) exchange \<Rightarrow> bool" where
  "sqs_exchange enc dec =
     xc_step (\<lambda>i. c_str i = i) (\<lambda>_. ()) (sqs_requests enc) (sqs_replies enc dec) (\<lambda>_. ())
       (sqs_deliver dec)"

lemma SendReply_handle_message:
  assumes "SendReply r \<in> set (fst (handle_message enc dec svc process config dedup m))"
  shows "\<exists>d response body url. DecodePayload dec (sm_body m) = Inr d \<and>
    callback_answer writeResponse (Some process) d = Some response \<and>
    EncodePayload enc (Buf response) = Inr body \<and>
    r = server_reply config url (GetStringAttribute m CorrelationIdAttribute) dedup body"
  using assms
  by (auto simp: handle_message_def delete_request_def callback_answer_iff Let_def
      split: if_splits sum.splits prod.splits bool.splits)

lemma sqs_xc:
  assumes codec: "base64_codec enc dec"
  shows "rpc_exchange (\<lambda>i. c_str i = i) (\<lambda>_. ()) (sqs_requests enc) (sqs_replies enc dec) (\<lambda>_. ())
    (sqs_deliver dec) (\<lambda>x. callback_answer writeResponse (Some (fst (snd x))))"
proof
  fix i q and l :: "sqs_service \<times> sqs_config" and d r x j p and y :: "sqs_service \<times> sqs_config \<times> string"
  assume i: "c_str i = i" and q: "q \<in> set (sqs_requests enc l i d)"
    and r: "r \<in> set (sqs_replies enc dec x q)" and p: "EComplete j p \<in> set (sqs_deliver dec y r)"
  obtain svc process config dedup handle where x: "x = (svc, process, config, dedup, handle)"
    by (cases x)
  obtain svc' config' handle' where y: "y = (svc', config', handle')" by (cases y)
  note dec = base64_codec.DecodePayload_enc [OF codec]
  have ne: "CorrelationIdAttribute \<noteq> ReplyToAttribute"
    by (simp add: CorrelationIdAttribute_def ReplyToAttribute_def)
  from q obtain body where body: "EncodePayload enc d = Inr body" "q = call_request (snd l) i body"
    by (auto simp: sqs_requests_def send_call_def Let_def split: sum.splits)
  then have q_body: "sm_body (delivered q handle) = payload_prefix @ enc (buf_bytes d)"
    "GetStringAttribute (delivered q handle) CorrelationIdAttribute = i"
    using i ne by (simp_all add: EncodePayload_Inr_iff delivered_def call_request_def GetStringAttribute_def
        ConfigureFifoMessage_def StringAttribute_def Let_def)
  from r have "SendReply r \<in> set (fst (handle_message enc dec svc process config dedup (delivered q handle)))"
    by (auto simp: sqs_replies_def x split: sqs_action.splits)
  from SendReply_handle_message [OF this] obtain response url where
    a: "callback_answer writeResponse (Some process) (buf_bytes d) = Some response"
      "r = server_reply config url i dedup (payload_prefix @ enc response)"
    unfolding q_body dec EncodePayload_Inr_iff by auto
  with p i show "() = () \<and> j = i \<and>
      callback_answer writeResponse (Some (fst (snd x))) (buf_bytes d) = Some p"
    by (auto simp: x y sqs_deliver_def dispatch_message_def GetStringAttribute_def delivered_def
        server_reply_fields dec Let_def split: sum.splits)
qed

lemma SqsCall_settled:
  assumes "pending_wf (sc_pending c)" "leaves cid during" "\<not> sqs_oneWay (sc_config c)"
    and "fst (SqsCall enc svc cid during d c) = Inr r"
  shows "first_settle cid during = Done r"
proof (cases "Register cid (sc_pending c)")
  case (Inl e)
  with assms(3,4) show ?thesis by (simp add: SqsCall_def Let_def split: if_splits)
next
  case (Inr tq)
  obtain t q where tq: "tq = (t, q)" by (cases tq)
  have "fst (Wait t (fold pr_apply during q)) = Inr (Some r)"
    using assms(3,4) Inr
    by (auto simp: SqsCall_def tq Let_def split: if_splits sum.splits option.splits prod.splits)
  with Inr tq show ?thesis by (intro wait_reply_settled [OF assms(1) _ assms(2)]) auto
qed

text \<open>
  C4. Replies never cross on SQS, although clients may share a reply queue and every queue
  delivers at least once and in any order: when a call with an id of its own returns a reply, some
  server's callback was given exactly the bytes of this call, after Base64 and back, accepted
  them, and wrote exactly the bytes that the call returns.
\<close>
theorem sqs_replies_never_cross:
  assumes "base64_codec enc dec" and "reaches (sqs_exchange enc dec) xc_init s"
    and "((), cid, buf_bytes d, q) \<in> set (xc_calls s)" "set during \<subseteq> set (xc_events s ())"
    and "pending_wf (sc_pending c)" "leaves cid during" "\<not> sqs_oneWay (sc_config c)"
    and "fst (SqsCall enc svc cid during d c) = Inr r"
  shows "\<exists>q svc process config dedup handle writes. ((), cid, buf_bytes d, q) \<in> set (xc_calls s) \<and>
    (q, svc, process, config, dedup, handle) \<in> set (xc_turns s) \<and>
    process (buf_bytes d) = Inr (writes, True) \<and> r = fold writeResponse writes []"
proof -
  have "first_settle cid during = Done r" by (rule SqsCall_settled [OF assms(5-8)])
  from rpc_exchange.replies_never_cross [OF sqs_xc [OF assms(1)]
      assms(2) [unfolded sqs_exchange_def] assms(3,4) this]
  show ?thesis by (force simp: callback_answer_iff)
qed

lemma sqs_replies_never_cross_witness:
  "\<exists>s q during c r. reaches (sqs_exchange b64_encode b64_decode_total) xc_init s \<and>
     ((), ''id'', [7], q) \<in> set (xc_calls s) \<and> set during \<subseteq> set (xc_events s ()) \<and>
     fst (SqsCall b64_encode sqs_example_service ''id'' during (Buf [7]) c) = Inr r \<and>
     (\<exists>q svc process config dedup handle writes.
        (q, svc, process, config, dedup, handle) \<in> set (xc_turns s) \<and>
        process [7] = Inr (writes, True) \<and> r = fold writeResponse writes [])"
proof -
  note codec = pubsub_b64.base64_codec_axioms
  define config where "config = default_sqs_config\<lparr>sqs_replyQueueUrl := ''replies''\<rparr>"
  define c where "c = sqs_example_client\<lparr>sc_config := config\<rparr>"
  define x :: sqs_serving where
    "x = (sqs_example_service, \<lambda>d. Inr ([Buf (rev d)], True), config, ''dedup'', ''h'')"
  define e where "e = b64_encode [7]"
  have enc: "EncodePayload b64_encode (Buf [7]) = Inr (payload_prefix @ e)"
    unfolding EncodePayload_Inr_iff e_def by (simp add: MaxEncodedBodyBytes_def length_b64_encode)
  define q where "q = call_request config ''id'' (payload_prefix @ e)"
  define reply where "reply = server_reply config ''replies'' ''id'' ''dedup'' (payload_prefix @ e)"
  have cs: "c_str ''id'' = ''id''" "c_str ''replies'' = ''replies''" by (simp_all add: c_str_def)
  have ne: "CorrelationIdAttribute \<noteq> ReplyToAttribute"
    by (simp add: CorrelationIdAttribute_def ReplyToAttribute_def)
  have rpc: "\<not> sqs_oneWay config" "sqs_replyQueueUrl config = ''replies''"
    by (simp_all add: config_def default_sqs_config_def)
  have dec: "DecodePayload b64_decode_total (payload_prefix @ e) = Inr [7]"
    unfolding e_def by (rule base64_codec.DecodePayload_enc [OF codec])
  have attrs: "GetStringAttribute (delivered q h) CorrelationIdAttribute = ''id''"
      "GetStringAttribute (delivered q h) ReplyToAttribute = ''replies''"
      "sm_body (delivered q h) = payload_prefix @ e" for h
    using ne by (simp_all add: GetStringAttribute_def delivered_def q_def call_request_attributes rpc cs)
  have svc: "svc_send sqs_example_service r = Inr ()" "svc_delete sqs_example_service r' = Inr ()" for r r'
    by (simp_all add: sqs_example_service_def)
  have "q \<in> set (sqs_requests b64_encode (sqs_example_service, config) ''id'' (Buf [7]))"
    by (simp add: sqs_requests_def send_call_def enc svc q_def Let_def)
  moreover have "reply \<in> set (sqs_replies b64_encode b64_decode_total x q)"
    by (simp add: sqs_replies_def x_def handle_message_def attrs dec rpc enc svc writeResponse_def
        reply_def Let_def)
  ultimately obtain s where s: "reaches (sqs_exchange b64_encode b64_decode_total) xc_init s"
      "((), ''id'', [7], q) \<in> set (xc_calls s)"
      "set (sqs_deliver b64_decode_total (sqs_example_service, config, ''h2'') reply) \<subseteq> set (xc_events s ())"
    using xc_one_call [of "\<lambda>i. c_str i = i" "''id''" q "sqs_requests b64_encode"
        "(sqs_example_service, config)" "Buf [7]" reply "sqs_replies b64_encode b64_decode_total" x
        "\<lambda>_. ()" "\<lambda>_. ()" "sqs_deliver b64_decode_total" "(sqs_example_service, config, ''h2'')"] cs
    by (auto simp: sqs_exchange_def)
  have during: "sqs_deliver b64_decode_total (sqs_example_service, config, ''h2'') reply = [EComplete ''id'' [7]]"
    by (simp add: sqs_deliver_def dispatch_message_def svc reply_def GetStringAttribute_def delivered_def
        server_reply_fields dec cs Let_def)
  have c: "sc_config c = config" "sc_pending c = new_pending" by (simp_all add: c_def sqs_example_client_def)
  have ok: "fst (SqsCall b64_encode sqs_example_service ''id'' [EComplete ''id'' [7]] (Buf [7]) c) = Inr [7]"
    using sqs_call_general [of c "''id''" "Buf [7]" "[EComplete ''id'' [7]]" b64_encode sqs_example_service]
    by (auto simp: c rpc sqs_example_client_fields send_call_def enc svc Let_def)
  have "\<exists>q' svc process config dedup handle writes. ((), ''id'', buf_bytes (Buf [7]), q') \<in> set (xc_calls s) \<and>
      (q', svc, process, config, dedup, handle) \<in> set (xc_turns s) \<and>
      process (buf_bytes (Buf [7])) = Inr (writes, True) \<and> [7] = fold writeResponse writes []"
    by (rule sqs_replies_never_cross [OF codec s(1) _ _ _ _ _ ok, where q = q])
      (use s during in \<open>simp_all add: c rpc\<close>)
  with s(1,2) s(3) [unfolded during] ok show ?thesis unfolding buf_bytes.simps by blast
qed

section \<open>Kafka\<close>

text \<open>Every client may consume every reply, and the ids are random: there is one address.\<close>

definition kafka_requests ::
  "kafka_client_api \<times> (kafka_request \<Rightarrow> string option) \<times> kafka_client \<Rightarrow> string \<Rightarrow> buf \<Rightarrow>
     kafka_request list" where
  "kafka_requests l cid d =
     (case l of (api, produce, c) \<Rightarrow> snd (snd (kafka_call api produce cid [] d c)))"

type_synonym kafka_serving = "kafka_producer \<times> kafka_process option \<times> kafka_config"

text \<open>A record crosses the broker with its headers and its payload.\<close>

definition kafka_replies :: "kafka_serving \<Rightarrow> kafka_request \<Rightarrow> kafka_message list" where
  "kafka_replies x q =
     (case x of (p, process, server) \<Rightarrow>
        concat (map (\<lambda>a. case a of
            KProduce topic headers d \<Rightarrow> [\<lparr>km_headers = Some headers, km_payload = Some d\<rparr>]
          | _ \<Rightarrow> [])
          (fst (kafka_handle_message p process server
             \<lparr>km_headers = Some (kq_headers q), km_payload = Some (kq_payload q)\<rparr>))))"

definition kafka_exchange ::
  "(unit, kafka_request, kafka_serving, kafka_message) exchange \<Rightarrow>
   (unit, kafka_request, kafka_serving, kafka_message) exchange \<Rightarrow> bool" where
  "kafka_exchange =
     xc_step (\<lambda>_. True) (\<lambda>_. ()) kafka_requests kafka_replies (\<lambda>_. ())
       (\<lambda>_ :: unit. \<lambda>m. dispatch_reply (Message m))"

lemma KProduce_handle_message:
  assumes "KProduce topic headers response \<in> set (fst (kafka_handle_message p process server m))"
  shows "callback_answer k_writeResponse process (kafka_payload m) = Some response \<and>
    headers = reply_headers (headerValue (km_headers m) ''correlation-id'')"
  using assms
  by (auto simp: kafka_handle_message_def publishReply_def callback_answer_iff Let_def
      split: if_splits option.splits sum.splits prod.splits bool.splits)

lemma kafka_requests_fields:
  assumes "q \<in> set (kafka_requests l i d)"
  shows "headerValue (Some (kq_headers q)) ''correlation-id'' = i \<and> kq_payload q = buf_bytes d"
  using assms
  by (auto simp: kafka_requests_def kafka_call_def header_correlation Let_def
      split: if_splits prod.splits sum.splits option.splits)

interpretation kafka_xc: rpc_exchange "\<lambda>_. True" "\<lambda>_. ()" kafka_requests kafka_replies "\<lambda>_. ()"
    "\<lambda>_ :: unit. \<lambda>m. dispatch_reply (Message m)" "\<lambda>x. callback_answer k_writeResponse (fst (snd x))"
proof
  fix i q and l :: "kafka_client_api \<times> (kafka_request \<Rightarrow> string option) \<times> kafka_client" and d r x j p
  assume q: "q \<in> set (kafka_requests l i d)" and r: "r \<in> set (kafka_replies x q)"
    and p: "EComplete j p \<in> set (dispatch_reply (Message r))"
  obtain pr process server where x: "x = (pr, process, server)" by (cases x)
  from r obtain topic headers response where
    r': "KProduce topic headers response \<in> set (fst (kafka_handle_message pr process server
        \<lparr>km_headers = Some (kq_headers q), km_payload = Some (kq_payload q)\<rparr>))"
      "r = \<lparr>km_headers = Some headers, km_payload = Some response\<rparr>"
    by (auto simp: kafka_replies_def x split: kafka_action.splits)
  from KProduce_handle_message [OF r'(1)] kafka_requests_fields [OF q]
  have "callback_answer k_writeResponse process (buf_bytes d) = Some response"
    "headers = reply_headers i" by (simp_all add: kafka_payload_def)
  with p show "() = () \<and> j = i \<and>
      callback_answer k_writeResponse (fst (snd x)) (buf_bytes d) = Some p"
    by (auto simp: x r'(2) dispatch_reply_def reply_headers_def headerValue_def kafka_payload_def Let_def
        split: if_splits)
qed

lemma kafka_call_settled:
  assumes "pending_wf (kc_pending c)" "leaves cid during"
    and "fst (kafka_call api produce cid during d c) = Inr r"
  shows "first_settle cid during = Done r"
proof -
  obtain sr c1 where start: "ensureStarted api c = (sr, c1)" by (cases "ensureStarted api c")
  note keeps = ensureStarted_keeps [OF start]
  show ?thesis
  proof (cases "Register cid (kc_pending c)")
    case (Inl e)
    with assms(3) start keeps show ?thesis by (auto simp: kafka_call_def split: if_splits sum.splits)
  next
    case (Inr tq)
    obtain t q where tq: "tq = (t, q)" by (cases tq)
    have "fst (Wait t (fold pr_apply during q)) = Inr (Some r)"
      using assms(3) Inr start keeps
      by (auto simp: kafka_call_def tq Let_def split: if_splits sum.splits option.splits prod.splits)
    with Inr tq show ?thesis by (intro wait_reply_settled [OF assms(1) _ assms(2)]) auto
  qed
qed

text \<open>
  C5. Replies never cross on Kafka, although all clients may consume one reply topic and records
  are consumed at least once and in any order: when a call with an id of its own returns a reply,
  some server's callback was given exactly the bytes of this call, accepted them, and wrote exactly
  the bytes that the call returns.
\<close>
theorem kafka_replies_never_cross:
  assumes "reaches kafka_exchange xc_init s"
    and "((), cid, buf_bytes d, q) \<in> set (xc_calls s)" "set during \<subseteq> set (xc_events s ())"
    and "pending_wf (kc_pending c)" "leaves cid during"
    and "fst (kafka_call api produce cid during d c) = Inr r"
  shows "\<exists>q p process server writes. ((), cid, buf_bytes d, q) \<in> set (xc_calls s) \<and>
    (q, p, Some process, server) \<in> set (xc_turns s) \<and>
    process (buf_bytes d) = Inr (writes, True) \<and> r = fold k_writeResponse writes []"
proof -
  have "first_settle cid during = Done r" by (rule kafka_call_settled [OF assms(4-6)])
  from kafka_xc.replies_never_cross [OF assms(1) [unfolded kafka_exchange_def] assms(2,3) this]
  show ?thesis by (force simp: callback_answer_iff)
qed

lemma kafka_replies_never_cross_witness:
  "\<forall>api. \<exists>s q during c r. reaches kafka_exchange xc_init s \<and>
     ((), ''id'', [7], q) \<in> set (xc_calls s) \<and> set during \<subseteq> set (xc_events s ()) \<and>
     fst (kafka_call api (\<lambda>_. None) ''id'' during (Buf [7]) c) = Inr r \<and>
     (\<exists>q p process server writes. (q, p, Some process, server) \<in> set (xc_turns s) \<and>
        process [7] = Inr (writes, True) \<and> r = fold k_writeResponse writes [])"
proof
  fix api
  define c where "c = kafka_example_client\<lparr>kc_config := default_kafka_client\<lparr>kf_replyTopic := ''r''\<rparr>\<rparr>"
  have c: "kc_pending c = new_pending" "kc_started c" "pending_wf new_pending" "slots new_pending = []"
    "\<not> closed new_pending" "kf_replyTopic (kc_config c) = ''r''"
    by (simp_all add: c_def kafka_example_client_def new_KafkaClient_def new_pending_def Let_def)
      (simp add: pending_wf_def)
  define p where "p = \<lparr>kp_produce = \<lambda>_ _ _. None, kp_flush = \<lambda>_. None\<rparr>"
  define x :: kafka_serving where "x = (p, Some (\<lambda>d. Inr ([Buf (rev d)], True)), default_kafka_server)"
  obtain c' q where call: "kafka_call api (\<lambda>_. None) ''id'' [] (Buf [7]) c =
      (Inl (kafka_timeout (kc_config c) ''id''), c', [q])"
    using kafka_call_general [of c "''id''" "Buf [7]" api "\<lambda>_. None" "[]"] c
    by (auto simp: kafka_dispatch_def)
  then have q: "q \<in> set (kafka_requests (api, \<lambda>_. None, c) ''id'' (Buf [7]))"
    by (simp add: kafka_requests_def)
  note fields = kafka_requests_fields [OF this]
  define reply where "reply = \<lparr>km_headers = Some (reply_headers ''id''), km_payload = Some [7 :: byte]\<rparr>"
  have topic: "headerValue (Some (kq_headers q)) ''reply-to'' = ''r''"
    using kafka_call_general [of c "''id''" "Buf [7]" api "\<lambda>_. None" "[]"] c call
    by (auto simp: kafka_dispatch_def)
  have "reply \<in> set (kafka_replies x q)"
    using fields topic
    by (simp add: kafka_replies_def x_def kafka_handle_message_def kafka_reply_topic_def publishReply_def
        kafka_payload_def p_def k_writeResponse_def reply_def Let_def)
  with q obtain s where s: "reaches kafka_exchange xc_init s" "((), ''id'', [7], q) \<in> set (xc_calls s)"
      "set (dispatch_reply (Message reply)) \<subseteq> set (xc_events s ())"
    using xc_one_call [of "\<lambda>_. True" "''id''" q kafka_requests "(api, \<lambda>_. None, c)" "Buf [7]" reply
        kafka_replies x "\<lambda>_. ()" "\<lambda>_. ()" "\<lambda>_ :: unit. \<lambda>m. dispatch_reply (Message m)" "()"]
    by (auto simp: kafka_exchange_def)
  have during: "dispatch_reply (Message reply) = [EComplete ''id'' [7]]"
    by (simp add: dispatch_reply_def reply_def reply_headers_def headerValue_def kafka_payload_def)
  have "kafka_dispatch [([], Message reply)] = [EComplete ''id'' [7]]"
    by (simp add: kafka_dispatch_def during)
  then have ok: "fst (kafka_call api (\<lambda>_. None) ''id'' [EComplete ''id'' [7]] (Buf [7]) c) = Inr [7]"
    using kafka_call_general [of c "''id''" "Buf [7]" api "\<lambda>_. None" "[([], Message reply)]"] c by auto
  have "\<exists>q' p process server writes. ((), ''id'', buf_bytes (Buf [7]), q') \<in> set (xc_calls s) \<and>
      (q', p, Some process, server) \<in> set (xc_turns s) \<and>
      process (buf_bytes (Buf [7])) = Inr (writes, True) \<and> [7] = fold k_writeResponse writes []"
    by (rule kafka_replies_never_cross [OF s(1) _ _ _ _ ok, where q = q])
      (use s during in \<open>simp_all add: c\<close>)
  with s(1,2) s(3) [unfolded during] ok
  show "\<exists>s q during c r. reaches kafka_exchange xc_init s \<and>
     ((), ''id'', [7], q) \<in> set (xc_calls s) \<and> set during \<subseteq> set (xc_events s ()) \<and>
     fst (kafka_call api (\<lambda>_. None) ''id'' during (Buf [7]) c) = Inr r \<and>
     (\<exists>q p process server writes. (q, p, Some process, server) \<in> set (xc_turns s) \<and>
        process [7] = Inr (writes, True) \<and> r = fold k_writeResponse writes [])"
    unfolding buf_bytes.simps by blast
qed

section \<open>Pub/Sub\<close>

text \<open>
  What is published is the message object of the request to the service, and what is pulled is
  that object with an acknowledgement id around it.  A message that cannot be encoded is not
  published.  Clients may share the reply subscription, so there is one address.
\<close>

definition pubsub_published :: "buf \<Rightarrow> (string \<times> string) list \<Rightarrow> json list" where
  "pubsub_published d attributes =
     (case Base64Encode d of
        Inl e \<Rightarrow> []
      | Inr encoded \<Rightarrow> [message_of (publish_body encoded attributes)])"

definition pubsub_pulled :: "string \<Rightarrow> json \<Rightarrow> pulled_message option" where
  "pubsub_pulled ackId m =
     (case parse_received (JObject [(''ackId'', JString ackId), (''message'', m)]) of
        Inl e \<Rightarrow> None
      | Inr x \<Rightarrow> x)"

definition pubsub_requests :: "pubsub_config \<Rightarrow> string \<Rightarrow> buf \<Rightarrow> json list" where
  "pubsub_requests config cid d = pubsub_published d (call_attributes config cid)"

type_synonym pubsub_serving =
  "pubsub_config \<times> ps_process \<times> pubsub_session \<times> pubsub_world \<times> string"

definition pubsub_replies :: "pubsub_serving \<Rightarrow> json \<Rightarrow> json list" where
  "pubsub_replies x q =
     (case x of (config, process, se, w, ackId) \<Rightarrow>
        (case pubsub_pulled ackId q of
           None \<Rightarrow> []
         | Some m \<Rightarrow>
             concat (map (\<lambda>a. case a of
                 PsReply topic response attributes \<Rightarrow> pubsub_published (Buf response) attributes
               | _ \<Rightarrow> [])
               (fst (HandleMessage config process se (w, m))))))"

definition pubsub_deliver :: "string \<Rightarrow> json \<Rightarrow> pr_event list" where
  "pubsub_deliver ackId r =
     (case pubsub_pulled ackId r of None \<Rightarrow> [] | Some m \<Rightarrow> completions [m])"

definition pubsub_exchange ::
  "(unit, json, pubsub_serving, json) exchange \<Rightarrow> (unit, json, pubsub_serving, json) exchange \<Rightarrow> bool"
where
  "pubsub_exchange =
     xc_step (\<lambda>_. True) (\<lambda>_. ()) pubsub_requests pubsub_replies (\<lambda>_. ()) pubsub_deliver"

lemma pulled_published:
  assumes "q \<in> set (pubsub_published d attributes)" "distinct (map fst attributes)"
  shows "pubsub_pulled ackId q =
    Some \<lparr>pm_ackId = ackId, pm_data = buf_bytes d, pm_attributes = map_of attributes\<rparr>"
  using assms parse_received_published
  by (auto simp: pubsub_published_def pubsub_pulled_def split: sum.splits)

lemma PsReply_HandleMessage:
  assumes "PsReply topic response attributes \<in> set (fst (HandleMessage config process se (w, m)))"
  shows "callback_answer ps_writeResponse (Some process) (pm_data m) = Some response \<and>
    attributes = [(CorrelationIdAttr, Attribute (pm_attributes m) CorrelationIdAttr)]"
  using assms
  by (auto simp: HandleMessage_def ps_caught_def ps_acknowledge_def callback_answer_iff Let_def
      split: if_splits sum.splits prod.splits bool.splits)

interpretation pubsub_xc: rpc_exchange "\<lambda>_. True" "\<lambda>_. ()" pubsub_requests pubsub_replies "\<lambda>_. ()"
    pubsub_deliver "\<lambda>x. callback_answer ps_writeResponse (Some (fst (snd x)))"
proof
  fix i q and l :: pubsub_config and d r x j p y
  assume q: "q \<in> set (pubsub_requests l i d)" and r: "r \<in> set (pubsub_replies x q)"
    and p: "EComplete j p \<in> set (pubsub_deliver y r)"
  obtain config process se w ackId where x: "x = (config, process, se, w, ackId)" by (cases x)
  have "distinct (map fst (call_attributes l i))"
    by (simp add: call_attributes_def CorrelationIdAttr_def ReplyToAttr_def)
  from pulled_published [OF q [unfolded pubsub_requests_def] this]
  have pulled: "pubsub_pulled ackId q = Some \<lparr>pm_ackId = ackId, pm_data = buf_bytes d,
      pm_attributes = map_of (call_attributes l i)\<rparr>" (is "_ = Some ?m") .
  have attr: "Attribute (pm_attributes ?m) CorrelationIdAttr = i"
    by (simp add: Attribute_def call_attributes_def)
  from r obtain topic response attributes where
    a: "PsReply topic response attributes \<in> set (fst (HandleMessage config process se (w, ?m)))"
      "r \<in> set (pubsub_published (Buf response) attributes)"
    by (auto simp: pubsub_replies_def x pulled split: ps_action.splits)
  from PsReply_HandleMessage [OF a(1), unfolded attr]
  have "callback_answer ps_writeResponse (Some process) (buf_bytes d) = Some response"
    "attributes = [(CorrelationIdAttr, i)]" by simp_all
  with pulled_published [OF a(2), of y] p
  show "() = () \<and> j = i \<and>
      callback_answer ps_writeResponse (Some (fst (snd x))) (buf_bytes d) = Some p"
    by (simp add: x pubsub_deliver_def completions_def)
qed

lemma call_publish_keeps_pending:
  "call_publish handle cid attempts d c = Some (v, c') \<Longrightarrow> pc_pending c' = pc_pending c"
  using call_publish_keeps by blast

lemma EnsureStarted_keeps:
  "EnsureStarted h1 h2 w1 w2 w3 c = (v, c') \<Longrightarrow>
     pc_pending c' = pc_pending c \<and> ps_oneWay (pc_config c') = ps_oneWay (pc_config c)"
  by (auto simp: EnsureStarted_def AcquireSession_def ReleaseSession_def Let_def
      split: if_splits sum.splits prod.splits option.splits)

lemma PubSubCall_settled:
  assumes "pending_wf (pc_pending c)" "leaves cid during" "\<not> ps_oneWay (pc_config c)"
    and "PubSubCall handles w1 w2 w3 cid during attempts d c = Some (Inr r, c')"
  shows "first_settle cid during = Done r"
proof -
  obtain h1 h2 h3 where h: "handles = (h1, h2, h3)" by (cases handles)
  obtain v c1 where start: "EnsureStarted h1 h2 w1 w2 w3 c = (v, c1)"
    by (cases "EnsureStarted h1 h2 w1 w2 w3 c")
  note keeps = EnsureStarted_keeps [OF start]
  have call: "call_started h3 cid during attempts d c1 = Some (Inr r, c')"
    using assms(4) start by (auto simp: PubSubCall_def h split: if_splits sum.splits)
  show ?thesis
  proof (cases "Register cid (pc_pending c1)")
    case (Inl e)
    with call assms(3) keeps show ?thesis by (auto simp: call_started_def)
  next
    case (Inr tq)
    obtain t q where tq: "tq = (t, q)" by (cases tq)
    have "fst (Wait t (fold pr_apply during q)) = Inr (Some r)"
      using call assms(3) keeps Inr
      by (auto simp: call_started_def tq Let_def split: if_splits sum.splits option.splits prod.splits)
    with Inr tq assms(1) keeps show ?thesis
      by (intro wait_reply_settled [of "pc_pending c1" _ _ _ _] assms(2)) auto
  qed
qed

text \<open>
  C6. Replies never cross on Pub/Sub, although clients may share a subscription and messages are
  delivered at least once and in any order: when a call with an id of its own returns a reply, some
  server's callback was given exactly the bytes of this call, after JSON and Base64 and back,
  accepted them, and wrote exactly the bytes that the call returns.
\<close>
theorem pubsub_replies_never_cross:
  assumes "reaches pubsub_exchange xc_init s"
    and "((), cid, buf_bytes d, q) \<in> set (xc_calls s)" "set during \<subseteq> set (xc_events s ())"
    and "pending_wf (pc_pending c)" "leaves cid during" "\<not> ps_oneWay (pc_config c)"
    and "PubSubCall handles w1 w2 w3 cid during attempts d c = Some (Inr r, c')"
  shows "\<exists>q config process se w ackId writes. ((), cid, buf_bytes d, q) \<in> set (xc_calls s) \<and>
    (q, config, process, se, w, ackId) \<in> set (xc_turns s) \<and>
    process (buf_bytes d) = Inr (writes, True) \<and> r = fold ps_writeResponse writes []"
proof -
  have "first_settle cid during = Done r" by (rule PubSubCall_settled [OF assms(4-7)])
  from pubsub_xc.replies_never_cross [OF assms(1) [unfolded pubsub_exchange_def] assms(2,3) this]
  show ?thesis by (force simp: callback_answer_iff)
qed

definition pubsub_example_caller :: pubsub_client where
  "pubsub_example_caller = example_pubsub_client
     \<lparr>pc_config := default_pubsub_config\<lparr>ps_emulatorHost := ''h'', ps_replyTopic := ''replies''\<rparr>\<rparr>"

lemma pubsub_example_fields:
  "pc_pending pubsub_example_caller = new_pending" "pc_started pubsub_example_caller"
  "ps_oneWay (pc_config pubsub_example_caller) = False"
  "ps_replyTopic (pc_config pubsub_example_caller) = ''replies''"
  "ps_emulatorHost (pc_config pubsub_example_caller) = ''h''"
  "pc_idleSessions pubsub_example_caller = []"
  by (simp_all add: pubsub_example_caller_def example_pubsub_client_def default_pubsub_config_def)

lemma pubsub_example_encode: "Base64Encode (Buf [7]) = Inr ''Bw==''"
  by code_simp

lemma pubsub_example_publish:
  "\<exists>c'. call_publish True ''id'' [(example_world, False)] (Buf [7]) pubsub_example_caller = Some (Inr (), c')"
proof -
  have "Publish example_world topic (Buf [7]) attrs se = (Inr (), se)"
    if "ps_emulatorHost (se_config se) = ''h''" for topic attrs se
    using that pubsub_example_encode
    by (auto simp: Publish_def api_call_def Request_def perform_request_def
        example_world_def ThrowIfHttpFailed_def MaxPayloadBytes_def)
  then show ?thesis
    by (simp add: call_publish_def AcquireSession_def new_session_def pubsub_example_fields)
qed

lemma pubsub_example_call:
  "\<exists>c'. PubSubCall (True, True, True) w1 w2 w3 ''id'' [EComplete ''id'' [7]] [(example_world, False)]
     (Buf [7]) pubsub_example_caller = Some (Inr [7], c')"
proof -
  obtain c' where pub: "call_publish True ''id'' [(example_world, False)] (Buf [7]) pubsub_example_caller =
      Some (Inr (), c')"
    using pubsub_example_publish by blast
  have wf: "pending_wf new_pending" "\<not> closed new_pending" "map_of (slots new_pending) ''id'' = None"
    by (simp_all add: new_pending_def) (simp add: pending_wf_def)
  obtain t p where reg: "Register ''id'' new_pending = Inr (t, p)"
    by (rule Register_succeeds [OF wf(2,3)])
  have "fst (Wait t (fold pr_apply [EComplete ''id'' [7]] p)) = Inr (Some [7])"
    using wait_after_run(1) [OF wf(1) reg, of "[EComplete ''id'' [7]]"] by simp
  then show ?thesis
    using pub reg
    by (auto simp: PubSubCall_def EnsureStarted_def call_started_def pubsub_example_fields
        MaxPayloadBytes_def Let_def split: prod.split)
qed

lemma pubsub_replies_never_cross_witness:
  "\<exists>s q during c r c'. reaches pubsub_exchange xc_init s \<and>
     ((), ''id'', [7], q) \<in> set (xc_calls s) \<and> set during \<subseteq> set (xc_events s ()) \<and>
     PubSubCall (True, True, True) example_world example_world example_world ''id'' during
       [(example_world, False)] (Buf [7]) c = Some (Inr r, c') \<and>
     (\<exists>q config process se w ackId writes. (q, config, process, se, w, ackId) \<in> set (xc_turns s) \<and>
        process [7] = Inr (writes, True) \<and> r = fold ps_writeResponse writes [])"
proof -
  define config where "config = pc_config pubsub_example_caller"
  define x :: pubsub_serving where
    "x = (config, \<lambda>d. Inr ([Buf (rev d)], True), undefined, example_world, ''a'')"
  define q where "q = message_of (publish_body ''Bw=='' (call_attributes config ''id''))"
  define reply where "reply = message_of (publish_body ''Bw=='' [(CorrelationIdAttr, ''id'')])"
  have ne: "CorrelationIdAttr \<noteq> ReplyToAttr" by (simp add: CorrelationIdAttr_def ReplyToAttr_def)
  have rpc: "ps_oneWay config = False" "ps_replyTopic config = ''replies''"
    by (simp_all add: config_def pubsub_example_fields)
  have q: "q \<in> set (pubsub_requests config ''id'' (Buf [7]))"
    by (simp add: pubsub_requests_def pubsub_published_def pubsub_example_encode q_def)
  have pulled: "pubsub_pulled ''a'' q = Some \<lparr>pm_ackId = ''a'', pm_data = [7],
      pm_attributes = map_of (call_attributes config ''id'')\<rparr>"
    using pulled_published [OF q [unfolded pubsub_requests_def]] ne by (simp add: call_attributes_def)
  have valid: "IsValidResourceId ''replies''" by code_simp
  have "reply \<in> set (pubsub_replies x q)"
    using ne valid
    by (simp add: pubsub_replies_def x_def pulled HandleMessage_def Attribute_def call_attributes_def rpc
        ps_writeResponse_def ps_caught_def ps_acknowledge_def pubsub_published_def
        pubsub_example_encode reply_def Let_def split: sum.split prod.split)
  with q obtain s where s: "reaches pubsub_exchange xc_init s" "((), ''id'', [7], q) \<in> set (xc_calls s)"
      "set (pubsub_deliver ''b'' reply) \<subseteq> set (xc_events s ())"
    using xc_one_call [of "\<lambda>_. True" "''id''" q pubsub_requests config "Buf [7]" reply pubsub_replies x
        "\<lambda>_. ()" "\<lambda>_. ()" pubsub_deliver "''b''"]
    by (auto simp: pubsub_exchange_def)
  have "reply \<in> set (pubsub_published (Buf [7]) [(CorrelationIdAttr, ''id'')])"
    by (simp add: pubsub_published_def pubsub_example_encode reply_def)
  from pulled_published [OF this, of "''b''"]
  have during: "pubsub_deliver ''b'' reply = [EComplete ''id'' [7]]"
    by (simp add: pubsub_deliver_def completions_def)
  obtain c' where ok: "PubSubCall (True, True, True) example_world example_world example_world ''id''
      [EComplete ''id'' [7]] [(example_world, False)] (Buf [7]) pubsub_example_caller = Some (Inr [7], c')"
    using pubsub_example_call by blast
  have "\<exists>q' config process se w ackId writes. ((), ''id'', buf_bytes (Buf [7]), q') \<in> set (xc_calls s) \<and>
      (q', config, process, se, w, ackId) \<in> set (xc_turns s) \<and>
      process (buf_bytes (Buf [7])) = Inr (writes, True) \<and> [7] = fold ps_writeResponse writes []"
    by (rule pubsub_replies_never_cross [OF s(1) _ _ _ _ _ ok, where q = q])
      (use s during in \<open>simp_all add: pubsub_example_fields\<close>)
  with s(1,2) s(3) [unfolded during] ok show ?thesis unfolding buf_bytes.simps by blast
qed

end
