(* ===== verification/AbiHeap.thy ===== *)
theory AbiHeap
  imports TransportAbi Lifecycle
begin

text \<open>
  Who owns the memory that crosses the C ABI (\<^verbatim>\<open>TransportPluginExports.h\<close>): channels
  are objects of the plugin, buffers and messages are its allocations, and the gateway hands both
  back.  Pointers are \<open>None\<close> (null) or the number of an allocation; an operation on a pointer
  that is not live is undefined behaviour, the value \<open>None\<close>.
\<close>

section \<open>Objects and buffers\<close>

text \<open>The type \<open>'c\<close> is the transport object behind a channel.\<close>

record 'c abi_heap =
  ah_channels :: "nat \<Rightarrow> 'c option"
  ah_buffers :: "nat \<Rightarrow> bytes option"
  ah_next :: nat

definition empty_heap :: "'c abi_heap" where
  "empty_heap = \<lparr>ah_channels = Map.empty, ah_buffers = Map.empty, ah_next = 0\<rparr>"

text \<open>\<^verbatim>\<open>CopyBuffer\<close>: the allocation is live from then on.\<close>

definition heap_CopyBuffer ::
  "(nat \<Rightarrow> bool) \<Rightarrow> bytes \<Rightarrow> 'c abi_heap \<Rightarrow> nat option \<times> 'c abi_heap" where
  "heap_CopyBuffer malloc d h =
     (if malloc (length d + 1)
      then (Some (ah_next h), h\<lparr>ah_buffers := (ah_buffers h)(ah_next h \<mapsto> d @ [0]),
                                ah_next := Suc (ah_next h)\<rparr>)
      else (None, h))"

definition FreeBuffer :: "nat option \<Rightarrow> 'c abi_heap \<Rightarrow> 'c abi_heap option" where
  "FreeBuffer buffer h =
     (case buffer of
        None \<Rightarrow> Some h
      | Some b \<Rightarrow>
          if ah_buffers h b = None then None
          else Some (h\<lparr>ah_buffers := (ah_buffers h)(b := None)\<rparr>))"

definition DestroyTransport :: "nat option \<Rightarrow> 'c abi_heap \<Rightarrow> 'c abi_heap option" where
  "DestroyTransport channel h =
     (case channel of
        None \<Rightarrow> Some h
      | Some c \<Rightarrow>
          if ah_channels h c = None then None
          else Some (h\<lparr>ah_channels := (ah_channels h)(c := None)\<rparr>))"

text \<open>
  \<^verbatim>\<open>CreateTransport\<close> with a factory's result: the channel, what was stored through
  \<^verbatim>\<open>errorMessage\<close> (\<open>None\<close> when that is null) and the heap.
\<close>

definition heap_CreateTransport ::
  "(nat \<Rightarrow> bool) \<Rightarrow> 'c result \<Rightarrow> bool \<Rightarrow> 'c abi_heap \<Rightarrow>
     nat option \<times> nat option option \<times> 'c abi_heap" where
  "heap_CreateTransport malloc factory want_message h =
     (case factory of
        Inr transport \<Rightarrow>
          (Some (ah_next h), if want_message then Some None else None,
           h\<lparr>ah_channels := (ah_channels h)(ah_next h \<mapsto> transport), ah_next := Suc (ah_next h)\<rparr>)
      | Inl e \<Rightarrow>
          if want_message
          then (case heap_CopyBuffer malloc (string_to_bytes (caught_text e)) h of
                  (message, h') \<Rightarrow> (None, Some message, h'))
          else (None, None, h))"

text \<open>The handlers of \<^verbatim>\<open>SendCommand\<close>: the text of the exception as the response.\<close>

definition heap_failure ::
  "(nat \<Rightarrow> bool) \<Rightarrow> exn \<Rightarrow> 'c abi_heap \<Rightarrow> int \<times> (nat option \<times> 32 word) option \<times> 'c abi_heap" where
  "heap_failure malloc e h =
     (let text = string_to_bytes (caught_text e) in
      case heap_CopyBuffer malloc text h of
        (response, h') \<Rightarrow>
          (TRANSPORT_PLUGIN_ERROR,
           Some (response, if response \<noteq> None then word_of_nat (length text) else 0), h'))"

text \<open>
  \<^verbatim>\<open>SendCommand\<close>.  \<open>command\<close> is the transport's own \<^verbatim>\<open>SendCommand\<close>, which also
  changes the object; a channel that is not live is undefined behaviour.
\<close>

definition heap_SendCommand ::
  "(nat \<Rightarrow> bool) \<Rightarrow> ('c \<Rightarrow> ptr \<Rightarrow> 32 word \<Rightarrow> (bytes result \<times> 'c) option) \<Rightarrow> nat option \<Rightarrow> ptr \<Rightarrow> 32 word \<Rightarrow>
     bool \<Rightarrow> bool \<Rightarrow> 'c abi_heap \<Rightarrow> (int \<times> (nat option \<times> 32 word) option \<times> 'c abi_heap) option" where
  "heap_SendCommand malloc command channel message messageLen rp lp h =
     (if \<not> rp \<or> \<not> lp then Some (TRANSPORT_PLUGIN_ERROR, None, h)
      else case channel of
        None \<Rightarrow> Some (heap_failure malloc (InvalidArgument ''transport channel is null'') h)
      | Some i \<Rightarrow>
          (case ah_channels h i of
             None \<Rightarrow> None
           | Some c \<Rightarrow>
               (case command c message messageLen of
                  None \<Rightarrow> None
                | Some (r, c') \<Rightarrow>
                    (let h1 = h\<lparr>ah_channels := (ah_channels h)(i \<mapsto> c')\<rparr> in
                     case r of
                       Inl e \<Rightarrow> Some (heap_failure malloc e h1)
                     | Inr reply \<Rightarrow>
                         (case heap_CopyBuffer malloc reply h1 of
                            (None, h2) \<Rightarrow> Some (heap_failure malloc BadAlloc h2)
                          | (Some b, h2) \<Rightarrow>
                              Some (TRANSPORT_PLUGIN_OK,
                                Some (Some b, word_of_nat (length reply)), h2))))))"

section \<open>What the gateway reads\<close>

text \<open>Reading the buffers gives the values of \<open>TransportAbi\<close>.\<close>

definition buffer_value :: "'c abi_heap \<Rightarrow> nat option \<Rightarrow> bytes option" where
  "buffer_value h p = (case p of None \<Rightarrow> None | Some b \<Rightarrow> ah_buffers h b)"

lemma heap_CopyBuffer_value:
  "heap_CopyBuffer malloc d h = (p, h') \<Longrightarrow>
     buffer_value h' p = CopyBuffer malloc d \<and> (p = None \<longleftrightarrow> CopyBuffer malloc d = None)"
  by (auto simp: heap_CopyBuffer_def CopyBuffer_def buffer_value_def split: if_splits)

lemma heap_CreateTransport_refines:
  assumes "heap_CreateTransport malloc factory want h = (channel, message, h')"
  shows "CreateTransport malloc factory want =
    (case channel of None \<Rightarrow> None | Some i \<Rightarrow> ah_channels h' i, map_option (buffer_value h') message)"
  using assms heap_CopyBuffer_value [of malloc _ h]
  by (auto simp: heap_CreateTransport_def CreateTransport_def CopyMessage_def buffer_value_def
      split: sum.splits if_splits prod.splits)

lemma heap_failure_refines:
  "heap_failure malloc e h = (status, out, h') \<Longrightarrow>
     abi_failure malloc e = (status, map_option (\<lambda>(p, n). (buffer_value h' p, n)) out)"
  using heap_CopyBuffer_value [of malloc "string_to_bytes (caught_text e)" h]
  by (auto simp: heap_failure_def abi_failure_def Let_def split: prod.splits)

lemma heap_SendCommand_refines:
  fixes h :: "'c abi_heap"
  assumes "channel = None \<or> channel = Some i \<and> ah_channels h i = Some c"
  shows "AbiSendCommand malloc
      (map_option (\<lambda>_. \<lambda>m n. map_option fst (command c m n)) channel) message len rp lp =
    map_option (\<lambda>(status, out, h'). (status, map_option (\<lambda>(p, n). (buffer_value h' p, n)) out))
      (heap_SendCommand malloc command channel message len rp lp h)"
proof (cases "rp \<and> lp")
  case False
  then show ?thesis by (auto simp: AbiSendCommand_def heap_SendCommand_def)
next
  case True
  have failure: "(case heap_failure malloc e h of (status, out, h') \<Rightarrow>
      (status, map_option (\<lambda>(p, n). (buffer_value h' p, n)) out)) = abi_failure malloc e" for e and h :: "'c abi_heap"
    using heap_failure_refines by (cases "heap_failure malloc e h") fastforce
  show ?thesis
  proof (cases channel)
    case None
    with True failure show ?thesis by (simp add: AbiSendCommand_def heap_SendCommand_def)
  next
    case (Some j)
    with assms have j: "channel = Some i" "ah_channels h i = Some c" by simp_all
    show ?thesis
    proof (cases "command c message len")
      case None
      with True j show ?thesis by (simp add: AbiSendCommand_def heap_SendCommand_def)
    next
      case (Some rc)
      obtain r c' where rc: "rc = (r, c')" by (cases rc)
      let ?h = "h\<lparr>ah_channels := (ah_channels h)(i \<mapsto> c')\<rparr>"
      show ?thesis
      proof (cases r)
        case (Inl e)
        with True j Some rc failure show ?thesis
          by (simp add: AbiSendCommand_def heap_SendCommand_def)
      next
        case (Inr reply)
        obtain p h2 where p: "heap_CopyBuffer malloc reply ?h = (p, h2)"
          by (cases "heap_CopyBuffer malloc reply ?h")
        with True j Some rc Inr failure heap_CopyBuffer_value [OF p] show ?thesis
          by (cases p) (auto simp: AbiSendCommand_def heap_SendCommand_def split: option.split)
      qed
    qed
  qed
qed

section \<open>The gateway\<close>

text \<open>
  A gateway with what it holds: the channels it has not destroyed and the buffers it has not
  freed.  Each of its calls may meet any allocator, any factory and any transport; it passes only
  channels that it holds (or null) and hands back each pointer once.
\<close>

record 'c gateway =
  gw_heap :: "'c abi_heap"
  gw_channels :: "nat set"
  gw_buffers :: "nat set"

definition new_gateway :: "'c gateway" where
  "new_gateway = \<lparr>gw_heap = empty_heap, gw_channels = {}, gw_buffers = {}\<rparr>"

definition message_pointers :: "nat option option \<Rightarrow> nat set" where
  "message_pointers message = (case message of Some (Some b) \<Rightarrow> {b} | _ \<Rightarrow> {})"

definition response_pointers :: "(nat option \<times> 32 word) option \<Rightarrow> nat set" where
  "response_pointers out = (case out of Some (Some b, n) \<Rightarrow> {b} | _ \<Rightarrow> {})"

inductive gw_step :: "'c gateway \<Rightarrow> 'c gateway \<Rightarrow> bool" where
  gw_create: "heap_CreateTransport malloc factory want (gw_heap g) = (channel, message, h) \<Longrightarrow>
    gw_step g (g\<lparr>gw_heap := h, gw_channels := gw_channels g \<union> set_option channel,
                gw_buffers := gw_buffers g \<union> message_pointers message\<rparr>)"
| gw_send: "set_option channel \<subseteq> gw_channels g \<Longrightarrow>
    heap_SendCommand malloc command channel m n rp lp (gw_heap g) = Some (status, out, h) \<Longrightarrow>
    gw_step g (g\<lparr>gw_heap := h, gw_buffers := gw_buffers g \<union> response_pointers out\<rparr>)"
| gw_free: "b \<in> gw_buffers g \<Longrightarrow> FreeBuffer (Some b) (gw_heap g) = Some h \<Longrightarrow>
    gw_step g (g\<lparr>gw_heap := h, gw_buffers := gw_buffers g - {b}\<rparr>)"
| gw_destroy: "c \<in> gw_channels g \<Longrightarrow> DestroyTransport (Some c) (gw_heap g) = Some h \<Longrightarrow>
    gw_step g (g\<lparr>gw_heap := h, gw_channels := gw_channels g - {c}\<rparr>)"

text \<open>What is live is what the gateway holds, and every buffer ends in a zero byte.\<close>

definition zero_terminated :: "bytes \<Rightarrow> bool" where
  "zero_terminated d \<longleftrightarrow> (\<exists>x. d = x @ [0])"

lemma zero_terminated_append [simp]: "zero_terminated (x @ [0])"
  by (simp add: zero_terminated_def)

text \<open>The pointers \<open>ps\<close> are new in \<open>h'\<close>.\<close>

definition fresh_in :: "'c abi_heap \<Rightarrow> 'c abi_heap \<Rightarrow> nat set \<Rightarrow> bool" where
  "fresh_in h h' ps \<longleftrightarrow> ah_next h \<le> ah_next h' \<and> ps \<subseteq> {ah_next h..}"

definition heap_ok :: "'c abi_heap \<Rightarrow> nat set \<Rightarrow> nat set \<Rightarrow> bool" where
  "heap_ok h cs bs \<longleftrightarrow> dom (ah_channels h) = cs \<and> dom (ah_buffers h) = bs \<and>
     cs \<union> bs \<subseteq> {..<ah_next h} \<and> (\<forall>b d. ah_buffers h b = Some d \<longrightarrow> zero_terminated d)"

lemma heap_ok_CopyBuffer:
  assumes "heap_ok h cs bs" "heap_CopyBuffer malloc d h = (p, h')"
  shows "heap_ok h' cs (bs \<union> set_option p) \<and> fresh_in h h' (set_option p)"
  using assms by (auto simp: heap_ok_def fresh_in_def heap_CopyBuffer_def split: if_splits)

lemma heap_ok_create:
  assumes "heap_ok h cs bs" "heap_CreateTransport malloc factory want h = (channel, message, h')"
  shows "heap_ok h' (cs \<union> set_option channel) (bs \<union> message_pointers message) \<and>
    fresh_in h h' (set_option channel \<union> message_pointers message)"
proof (cases factory)
  case (Inl e)
  show ?thesis
  proof (cases want)
    case True
    obtain p k where p: "heap_CopyBuffer malloc (string_to_bytes (caught_text e)) h = (p, k)"
      by (cases "heap_CopyBuffer malloc (string_to_bytes (caught_text e)) h")
    from heap_ok_CopyBuffer [OF assms(1) p] assms(2) p Inl True show ?thesis
      by (auto simp: heap_CreateTransport_def fresh_in_def message_pointers_def split: option.split)
  next
    case False
    with assms Inl show ?thesis by (auto simp: heap_CreateTransport_def fresh_in_def message_pointers_def)
  qed
next
  case (Inr c)
  with assms show ?thesis
    by (auto simp: heap_ok_def fresh_in_def heap_CreateTransport_def message_pointers_def split: if_splits)
qed

lemma heap_ok_failure:
  assumes "heap_ok h cs bs" "heap_failure malloc e h = (status, out, h')"
  shows "heap_ok h' cs (bs \<union> response_pointers out) \<and> fresh_in h h' (response_pointers out)"
proof -
  obtain p k where p: "heap_CopyBuffer malloc (string_to_bytes (caught_text e)) h = (p, k)"
    by (cases "heap_CopyBuffer malloc (string_to_bytes (caught_text e)) h")
  from heap_ok_CopyBuffer [OF assms(1) p] assms(2) p show ?thesis
    by (auto simp: heap_failure_def Let_def fresh_in_def response_pointers_def split: option.split)
qed

lemma heap_ok_send:
  assumes ok: "heap_ok h cs bs"
    and send: "heap_SendCommand malloc command channel m n rp lp h = Some (status, out, h')"
  shows "heap_ok h' cs (bs \<union> response_pointers out) \<and> fresh_in h h' (response_pointers out)"
proof (cases "rp \<and> lp")
  case False
  with assms show ?thesis by (auto simp: heap_SendCommand_def fresh_in_def response_pointers_def)
next
  case True
  show ?thesis
  proof (cases channel)
    case None
    with send True heap_ok_failure [OF ok] show ?thesis by (auto simp: heap_SendCommand_def)
  next
    case (Some i)
    with send True obtain c r c' where c: "ah_channels h i = Some c" "command c m n = Some (r, c')"
      by (auto simp: heap_SendCommand_def split: option.splits)
    let ?h = "h\<lparr>ah_channels := (ah_channels h)(i \<mapsto> c')\<rparr>"
    have ok': "heap_ok ?h cs bs" using ok c(1) by (auto simp: heap_ok_def)
    show ?thesis
    proof (cases r)
      case (Inl e)
      with send True Some c heap_ok_failure [OF ok'] show ?thesis
        by (auto simp: heap_SendCommand_def fresh_in_def)
    next
      case (Inr reply)
      obtain p k where p: "heap_CopyBuffer malloc reply ?h = (p, k)"
        by (cases "heap_CopyBuffer malloc reply ?h")
      note copied = heap_ok_CopyBuffer [OF ok' p]
      show ?thesis
      proof (cases p)
        case None
        with copied have "heap_ok k cs bs" by simp
        from heap_ok_failure [OF this] copied send True Some c Inr p None show ?thesis
          by (fastforce simp: heap_SendCommand_def fresh_in_def)
      next
        case (Some b)
        with copied send True \<open>channel = Some i\<close> c Inr p show ?thesis
          by (auto simp: heap_SendCommand_def fresh_in_def response_pointers_def)
      qed
    qed
  qed
qed

lemma heap_ok_free:
  "heap_ok h cs bs \<Longrightarrow> FreeBuffer (Some b) h = Some h' \<Longrightarrow>
     heap_ok h' cs (bs - {b}) \<and> fresh_in h h' {}"
  by (auto simp: heap_ok_def fresh_in_def FreeBuffer_def split: if_splits)

lemma heap_ok_destroy:
  "heap_ok h cs bs \<Longrightarrow> DestroyTransport (Some c) h = Some h' \<Longrightarrow>
     heap_ok h' (cs - {c}) bs \<and> fresh_in h h' {}"
  by (auto simp: heap_ok_def fresh_in_def DestroyTransport_def split: if_splits)

definition gw_inv :: "'c gateway \<Rightarrow> bool" where
  "gw_inv g \<longleftrightarrow> heap_ok (gw_heap g) (gw_channels g) (gw_buffers g)"

lemma gw_inv_step:
  "gw_step g g' \<Longrightarrow> gw_inv g \<Longrightarrow>
     gw_inv g' \<and> fresh_in (gw_heap g) (gw_heap g') (gw_buffers g' - gw_buffers g) \<and>
     fresh_in (gw_heap g) (gw_heap g') (gw_channels g' - gw_channels g)"
proof (induction rule: gw_step.induct)
  case (gw_create malloc factory want g channel message h)
  then show ?case using heap_ok_create by (fastforce simp: gw_inv_def fresh_in_def)
next
  case (gw_send channel g malloc command m n rp lp status out h)
  then show ?case using heap_ok_send by (fastforce simp: gw_inv_def fresh_in_def)
next
  case (gw_free b g h)
  then show ?case by (auto simp: gw_inv_def fresh_in_def dest: heap_ok_free)
next
  case (gw_destroy c g h)
  then show ?case by (auto simp: gw_inv_def fresh_in_def dest: heap_ok_destroy)
qed

lemma gw_reachable_inv: "reaches gw_step new_gateway g \<Longrightarrow> gw_inv g"
proof (erule reaches_invariant)
  show "gw_inv new_gateway" by (simp add: gw_inv_def heap_ok_def new_gateway_def empty_heap_def)
qed (blast dest: gw_inv_step)

section \<open>Properties\<close>

lemma held_defined:
  assumes "gw_inv g"
  shows "b \<in> gw_buffers g \<Longrightarrow> \<exists>h. FreeBuffer (Some b) (gw_heap g) = Some h"
    and "c \<in> gw_channels g \<Longrightarrow> \<exists>h. DestroyTransport (Some c) (gw_heap g) = Some h"
    and "c \<in> gw_channels g \<Longrightarrow> \<exists>x. ah_channels (gw_heap g) c = Some x"
  using assms by (auto simp: gw_inv_def heap_ok_def FreeBuffer_def DestroyTransport_def)

lemma release_buffers:
  assumes "finite B" "gw_inv g" "gw_buffers g = B"
  shows "\<exists>g'. reaches gw_step g g' \<and> gw_inv g' \<and> gw_buffers g' = {} \<and> gw_channels g' = gw_channels g"
  using assms
proof (induction B arbitrary: g)
  case empty
  then show ?case by (blast intro: reaches_refl)
next
  case (insert b B)
  then obtain h where "FreeBuffer (Some b) (gw_heap g) = Some h" using held_defined(1) by blast
  with insert.prems have step: "gw_step g (g\<lparr>gw_heap := h, gw_buffers := gw_buffers g - {b}\<rparr>)"
    by (intro gw_free) auto
  let ?g = "g\<lparr>gw_heap := h, gw_buffers := gw_buffers g - {b}\<rparr>"
  have "gw_inv ?g" "gw_buffers ?g = B" using gw_inv_step [OF step] insert by auto
  from insert.IH [OF this] step show ?case by (auto intro: reaches_front)
qed

lemma release_channels:
  assumes "finite C" "gw_inv g" "gw_channels g = C"
  shows "\<exists>g'. reaches gw_step g g' \<and> gw_inv g' \<and> gw_channels g' = {} \<and> gw_buffers g' = gw_buffers g"
  using assms
proof (induction C arbitrary: g)
  case empty
  then show ?case by (blast intro: reaches_refl)
next
  case (insert c C)
  then obtain h where "DestroyTransport (Some c) (gw_heap g) = Some h" using held_defined(2) by blast
  with insert.prems have step: "gw_step g (g\<lparr>gw_heap := h, gw_channels := gw_channels g - {c}\<rparr>)"
    by (intro gw_destroy) auto
  let ?g = "g\<lparr>gw_heap := h, gw_channels := gw_channels g - {c}\<rparr>"
  have "gw_inv ?g" "gw_channels ?g = C" using gw_inv_step [OF step] insert by auto
  from insert.IH [OF this] step show ?case by (auto intro: reaches_front)
qed

lemma release_all:
  assumes "gw_inv g"
  shows "\<exists>g'. reaches gw_step g g' \<and> ah_channels (gw_heap g') = Map.empty \<and>
    ah_buffers (gw_heap g') = Map.empty"
proof -
  from assms have "finite (gw_buffers g)" "finite (gw_channels g)"
    by (auto simp: gw_inv_def heap_ok_def intro: finite_subset [OF _ finite_lessThan])
  with release_buffers [OF _ assms refl] release_channels obtain g1 g2 where
    "reaches gw_step g g1" "reaches gw_step g1 g2" "gw_inv g2" "gw_buffers g2 = {}" "gw_channels g2 = {}"
    by (metis (no_types, lifting))
  then show ?thesis
    by (intro exI [of _ g2]) (auto simp: gw_inv_def heap_ok_def intro: reaches_trans)
qed

text \<open>What is gone stays gone: numbers are not used again.\<close>


lemma released_stays:
  assumes "reaches gw_step g g'" "gw_inv g" "p < ah_next (gw_heap g)"
  shows "(p \<notin> gw_buffers g \<longrightarrow> p \<notin> gw_buffers g') \<and> (p \<notin> gw_channels g \<longrightarrow> p \<notin> gw_channels g')"
proof -
  have "gw_inv g' \<and> p < ah_next (gw_heap g') \<and>
      (p \<notin> gw_buffers g \<longrightarrow> p \<notin> gw_buffers g') \<and> (p \<notin> gw_channels g \<longrightarrow> p \<notin> gw_channels g')"
    using assms(1)
  proof (rule reaches_invariant)
    fix a b
    assume a: "gw_inv a \<and> p < ah_next (gw_heap a) \<and>
      (p \<notin> gw_buffers g \<longrightarrow> p \<notin> gw_buffers a) \<and> (p \<notin> gw_channels g \<longrightarrow> p \<notin> gw_channels a)"
      and step: "gw_step a b"
    from gw_inv_step [OF step] a show "gw_inv b \<and> p < ah_next (gw_heap b) \<and>
      (p \<notin> gw_buffers g \<longrightarrow> p \<notin> gw_buffers b) \<and> (p \<notin> gw_channels g \<longrightarrow> p \<notin> gw_channels b)"
      by (auto simp: fresh_in_def subset_iff not_le)
  qed (use assms in simp)
  then show ?thesis by blast
qed

lemma inv_reaches: "reaches gw_step g g' \<Longrightarrow> gw_inv g \<Longrightarrow> gw_inv g'"
  by (erule reaches_invariant) (blast dest: gw_inv_step)+

lemma freed_stays_freed:
  assumes inv: "gw_inv g" and b: "b \<in> gw_buffers g"
  shows "\<exists>d h. ah_buffers (gw_heap g) b = Some (d @ [0]) \<and> FreeBuffer (Some b) (gw_heap g) = Some h \<and>
    (\<forall>g'. reaches gw_step (g\<lparr>gw_heap := h, gw_buffers := gw_buffers g - {b}\<rparr>) g' \<longrightarrow>
       FreeBuffer (Some b) (gw_heap g') = None)"
proof -
  obtain h where h: "FreeBuffer (Some b) (gw_heap g) = Some h" using held_defined(1) [OF inv b] ..
  define g1 where "g1 = g\<lparr>gw_heap := h, gw_buffers := gw_buffers g - {b}\<rparr>"
  have "gw_step g g1" unfolding g1_def by (rule gw_free [OF b h])
  from gw_inv_step [OF this inv] have inv1: "gw_inv g1" and "ah_next (gw_heap g) \<le> ah_next (gw_heap g1)"
    by (simp_all add: fresh_in_def)
  moreover have "b < ah_next (gw_heap g)" using inv b by (auto simp: gw_inv_def heap_ok_def)
  ultimately have less: "b < ah_next (gw_heap g1)" by simp
  have "FreeBuffer (Some b) (gw_heap g') = None" if r: "reaches gw_step g1 g'" for g'
  proof -
    have "b \<notin> gw_buffers g'" using released_stays [OF r inv1 less] by (simp add: g1_def)
    with inv_reaches [OF r inv1] show ?thesis by (auto simp: gw_inv_def heap_ok_def FreeBuffer_def)
  qed
  moreover obtain x where x: "ah_buffers (gw_heap g) b = Some x"
    using h by (auto simp: FreeBuffer_def split: if_splits)
  with inv have "zero_terminated x" by (simp add: gw_inv_def heap_ok_def)
  then obtain d where "x = d @ [0]" unfolding zero_terminated_def ..
  ultimately show ?thesis using h x unfolding g1_def by blast
qed

lemma destroyed_stays_destroyed:
  assumes inv: "gw_inv g" and c: "c \<in> gw_channels g"
  shows "\<exists>h. DestroyTransport (Some c) (gw_heap g) = Some h \<and>
    (\<forall>g'. reaches gw_step (g\<lparr>gw_heap := h, gw_channels := gw_channels g - {c}\<rparr>) g' \<longrightarrow>
       DestroyTransport (Some c) (gw_heap g') = None)"
proof -
  obtain h where h: "DestroyTransport (Some c) (gw_heap g) = Some h" using held_defined(2) [OF inv c] ..
  define g1 where "g1 = g\<lparr>gw_heap := h, gw_channels := gw_channels g - {c}\<rparr>"
  have "gw_step g g1" unfolding g1_def by (rule gw_destroy [OF c h])
  from gw_inv_step [OF this inv] have inv1: "gw_inv g1" and "ah_next (gw_heap g) \<le> ah_next (gw_heap g1)"
    by (simp_all add: fresh_in_def)
  moreover have "c < ah_next (gw_heap g)" using inv c by (auto simp: gw_inv_def heap_ok_def)
  ultimately have less: "c < ah_next (gw_heap g1)" by simp
  have "DestroyTransport (Some c) (gw_heap g') = None" if r: "reaches gw_step g1 g'" for g'
  proof -
    have "c \<notin> gw_channels g'" using released_stays [OF r inv1 less] by (simp add: g1_def)
    with inv_reaches [OF r inv1] show ?thesis by (auto simp: gw_inv_def heap_ok_def DestroyTransport_def)
  qed
  with h show ?thesis unfolding g1_def by blast
qed

text \<open>
  C20. Memory that crosses the ABI.  Whatever channels a gateway creates, uses and destroys and
  whatever buffers it frees, in any order and with any failing allocations: the live channels and
  buffers of the plugin are exactly those the gateway still holds, so nothing leaks and nothing is
  taken back early; every buffer ends in a zero byte; handing back what it holds is defined, and a
  second free or destruction is not; and the gateway can always hand back everything, which leaves
  the plugin's heap empty.
\<close>
theorem abi_memory_owned:
  assumes "reaches gw_step new_gateway g"
  shows "dom (ah_channels (gw_heap g)) = gw_channels g \<and> dom (ah_buffers (gw_heap g)) = gw_buffers g \<and>
    (\<forall>b \<in> gw_buffers g. \<exists>d h. ah_buffers (gw_heap g) b = Some (d @ [0]) \<and>
       FreeBuffer (Some b) (gw_heap g) = Some h \<and>
       (\<forall>g'. reaches gw_step (g\<lparr>gw_heap := h, gw_buffers := gw_buffers g - {b}\<rparr>) g' \<longrightarrow>
          FreeBuffer (Some b) (gw_heap g') = None)) \<and>
    (\<forall>c \<in> gw_channels g. \<exists>h. DestroyTransport (Some c) (gw_heap g) = Some h \<and>
       (\<forall>g'. reaches gw_step (g\<lparr>gw_heap := h, gw_channels := gw_channels g - {c}\<rparr>) g' \<longrightarrow>
          DestroyTransport (Some c) (gw_heap g') = None)) \<and>
    (\<exists>g'. reaches gw_step g g' \<and> ah_channels (gw_heap g') = Map.empty \<and>
       ah_buffers (gw_heap g') = Map.empty)"
proof -
  have inv: "gw_inv g" by (rule gw_reachable_inv [OF assms])
  then have "dom (ah_channels (gw_heap g)) = gw_channels g" "dom (ah_buffers (gw_heap g)) = gw_buffers g"
    by (simp_all add: gw_inv_def heap_ok_def)
  then show ?thesis
    by (intro conjI ballI) (assumption | rule freed_stays_freed [OF inv]
        destroyed_stays_destroyed [OF inv] release_all [OF inv])+
qed

lemma abi_memory_owned_witness:
  "\<exists>g :: nat gateway. gw_buffers g = {1} \<and> gw_channels g = {0} \<and>
     (\<exists>d. ah_buffers (gw_heap g) 1 = Some (d @ [0])) \<and>
     (\<exists>g'. reaches gw_step g g' \<and> ah_channels (gw_heap g') = Map.empty \<and>
        ah_buffers (gw_heap g') = Map.empty)"
proof -
  define h1 :: "nat abi_heap" where
    "h1 = \<lparr>ah_channels = [0 \<mapsto> 5], ah_buffers = Map.empty, ah_next = 1\<rparr>"
  define h2 :: "nat abi_heap" where
    "h2 = \<lparr>ah_channels = [0 \<mapsto> 6], ah_buffers = [1 \<mapsto> [7, 0]], ah_next = 2\<rparr>"
  define g1 where "g1 = new_gateway\<lparr>gw_heap := h1, gw_channels := {0}\<rparr>"
  define g2 where "g2 = g1\<lparr>gw_heap := h2, gw_buffers := {1}\<rparr>"
  have "heap_CreateTransport (\<lambda>_. True) (Inr 5) True empty_heap = (Some 0, Some None, h1)"
    by (simp add: heap_CreateTransport_def empty_heap_def h1_def)
  then have "heap_CreateTransport (\<lambda>_. True) (Inr 5) True (gw_heap new_gateway) = (Some 0, Some None, h1)"
    by (simp add: new_gateway_def)
  from gw_create [OF this] have "gw_step new_gateway g1"
    by (simp add: g1_def new_gateway_def message_pointers_def)
  moreover have "heap_SendCommand (\<lambda>_. True) (\<lambda>c m n. Some (Inr [7], Suc c)) (Some 0) None 0 True True h1 =
      Some (TRANSPORT_PLUGIN_OK, Some (Some 1, 1), h2)"
    by (simp add: heap_SendCommand_def heap_CopyBuffer_def h1_def h2_def Let_def)
  then have "heap_SendCommand (\<lambda>_. True) (\<lambda>c m n. Some (Inr [7], Suc c)) (Some 0) None 0 True True
      (gw_heap g1) = Some (TRANSPORT_PLUGIN_OK, Some (Some 1, 1), h2)"
    by (simp add: g1_def)
  from gw_send [OF _ this] have "gw_step g1 g2"
    by (simp add: g1_def g2_def new_gateway_def response_pointers_def)
  ultimately have r: "reaches gw_step new_gateway g2" by (blast intro: reaches_step reaches_refl)
  have "gw_buffers g2 = {1}" "gw_channels g2 = {0}" by (simp_all add: g2_def g1_def)
  with abi_memory_owned [OF r] show ?thesis by (intro exI [of _ g2]) simp
qed

end
