(* ===== verification/PluginExports.thy ===== *)
theory PluginExports
  imports AbiHeap SqsClient PubSubClient RabbitMqClient ServiceBusClient KafkaClient
begin

text \<open>
  The five shared libraries as the gateway loads them (\<^verbatim>\<open>Transport*.cpp\<close>): what their
  constructors do with the arguments of \<^verbatim>\<open>CreateTransport\<close>, and the exported functions
  over the heap of channels and buffers.
\<close>

section \<open>Constructors\<close>

text \<open>\<^verbatim>\<open>p != nullptr ? p : ""\<close>\<close>

definition c_string_or_empty :: "string option \<Rightarrow> string" where
  "c_string_or_empty p = (case p of Some s \<Rightarrow> s | None \<Rightarrow> [])"

definition new_TransportSqs :: "cpp_env \<Rightarrow> string option \<Rightarrow> sqs_client result" where
  "new_TransportSqs env configSource =
     rbind (ParseSqsConfigSource env (c_string_or_empty configSource)) new_SqsClient"

definition new_TransportPubSub :: "cpp_env \<Rightarrow> string option \<Rightarrow> pubsub_client result" where
  "new_TransportPubSub env configSource =
     rbind (ParsePubSubConfigSource env (c_string_or_empty configSource)) (new_PubSubClient env)"

text \<open>The two words are what the random engine gives for the instance id.\<close>

definition new_TransportKafka :: "cpp_env \<Rightarrow> u64 \<Rightarrow> u64 \<Rightarrow> string option \<Rightarrow> kafka_client" where
  "new_TransportKafka env a b configJson = new_KafkaClient (parseClientConfig env configJson) a b"

text \<open>\<^verbatim>\<open>Initialize\<close> of all five transports takes three runtime numbers and ignores them.\<close>

definition Initialize :: "byte \<Rightarrow> byte \<Rightarrow> byte \<Rightarrow> int" where
  "Initialize callingRuntimeNumber calledRuntimeNumber calledRuntimeVersion = 0"

section \<open>SendCommand of the transports\<close>

text \<open>The tests of the arguments, and the command with what it does to the client.\<close>

definition length_guard :: "exn \<Rightarrow> ptr \<Rightarrow> 32 word \<Rightarrow> exn option" where
  "length_guard e p n = (if sint n < 0 \<or> sint n > 0 \<and> p = None then Some e else None)"

definition pointer_guard :: "exn \<Rightarrow> ptr \<Rightarrow> 32 word \<Rightarrow> exn option" where
  "pointer_guard e p n = (if p = None \<or> sint n < 0 then Some e else None)"

definition transport_command ::
  "(ptr \<Rightarrow> 32 word \<Rightarrow> exn option) \<Rightarrow> ('c \<Rightarrow> buf \<Rightarrow> bytes result \<times> 'c) \<Rightarrow> 'c \<Rightarrow> ptr \<Rightarrow> 32 word \<Rightarrow>
     (bytes result \<times> 'c) option" where
  "transport_command guard call c message messageLen =
     (case guard message messageLen of
        Some e \<Rightarrow> Some (Inl e, c)
      | None \<Rightarrow>
          (case read_ptr message (size_of_int32 messageLen) of
             None \<Rightarrow> None
           | Some d \<Rightarrow> (case call c d of (r, c') \<Rightarrow> Some (rbind r reject_error_reply, c'))))"

definition sqs_command :: "(sqs_client \<Rightarrow> buf \<Rightarrow> bytes result \<times> sqs_client) \<Rightarrow> sqs_client \<Rightarrow> ptr \<Rightarrow> 32 word \<Rightarrow>
    (bytes result \<times> sqs_client) option" where
  "sqs_command = transport_command
     (length_guard (InvalidArgument ''SQS transport: invalid request payload''))"

definition pubsub_command :: "(pubsub_client \<Rightarrow> buf \<Rightarrow> bytes result \<times> pubsub_client) \<Rightarrow> pubsub_client \<Rightarrow> ptr \<Rightarrow>
    32 word \<Rightarrow> (bytes result \<times> pubsub_client) option" where
  "pubsub_command = transport_command
     (length_guard (InvalidArgument ''Pub/Sub transport: invalid request payload''))"

definition rabbit_command :: "(rabbit_client \<Rightarrow> buf \<Rightarrow> bytes result \<times> rabbit_client) \<Rightarrow> rabbit_client \<Rightarrow> ptr \<Rightarrow>
    32 word \<Rightarrow> (bytes result \<times> rabbit_client) option" where
  "rabbit_command = transport_command (pointer_guard (RuntimeError ''invalid RabbitMQ payload''))"

definition sb_command :: "(sb_client \<Rightarrow> buf \<Rightarrow> bytes result \<times> sb_client) \<Rightarrow> sb_client \<Rightarrow> ptr \<Rightarrow> 32 word \<Rightarrow>
    (bytes result \<times> sb_client) option" where
  "sb_command = transport_command (pointer_guard (RuntimeError ''invalid Service Bus payload''))"

definition kafka_command :: "(kafka_client \<Rightarrow> buf \<Rightarrow> bytes result \<times> kafka_client) \<Rightarrow> kafka_client \<Rightarrow> ptr \<Rightarrow> 32 word \<Rightarrow>
    (bytes result \<times> kafka_client) option" where
  "kafka_command = transport_command (\<lambda>p n. None)"

text \<open>Their results are those of the transports.\<close>

lemmas command_defs = sqs_command_def pubsub_command_def rabbit_command_def sb_command_def
  kafka_command_def transport_command_def length_guard_def pointer_guard_def

lemma command_results:
  "map_option fst (sqs_command call1 c1 m n) = sqs_transport (\<lambda>d. fst (call1 c1 d)) m n"
  "map_option fst (pubsub_command call2 c2 m n) = pubsub_transport (\<lambda>d. fst (call2 c2 d)) m n"
  "map_option fst (rabbit_command call3 c3 m n) = rabbit_transport (\<lambda>d. fst (call3 c3 d)) m n"
  "map_option fst (sb_command call4 c4 m n) = sb_transport (\<lambda>d. fst (call4 c4 d)) m n"
  "map_option fst (kafka_command call5 c5 m n) = kafka_transport (\<lambda>d. fst (call5 c5 d)) m n"
  by (simp_all add: command_defs sqs_transport_def pubsub_transport_def rabbit_transport_def
      sb_transport_def kafka_transport_def reject_error_reply_def [abs_def] split: option.split prod.split)

section \<open>The exported functions\<close>

record 'c plugin_library =
  lib_CreateTransport :: "string option \<Rightarrow> u16 \<Rightarrow> string option \<Rightarrow> bool \<Rightarrow> 'c abi_heap \<Rightarrow>
    nat option \<times> nat option option \<times> 'c abi_heap"
  lib_DestroyTransport :: "nat option \<Rightarrow> 'c abi_heap \<Rightarrow> 'c abi_heap option"
  lib_TransportSendCommand :: "nat option \<Rightarrow> ptr \<Rightarrow> 32 word \<Rightarrow> bool \<Rightarrow> bool \<Rightarrow> 'c abi_heap \<Rightarrow>
    (int \<times> (nat option \<times> 32 word) option \<times> 'c abi_heap) option"
  lib_TransportFreeBuffer :: "nat option \<Rightarrow> 'c abi_heap \<Rightarrow> 'c abi_heap option"

definition sqs_library ::
  "(nat \<Rightarrow> bool) \<Rightarrow> cpp_env \<Rightarrow> (sqs_client \<Rightarrow> buf \<Rightarrow> bytes result \<times> sqs_client) \<Rightarrow> sqs_client plugin_library" where
  "sqs_library malloc env call =
    \<lparr>lib_CreateTransport = (\<lambda>ipAddress port configSource.
       heap_CreateTransport malloc (new_TransportSqs env configSource)),
     lib_DestroyTransport = DestroyTransport,
     lib_TransportSendCommand = heap_SendCommand malloc (sqs_command call),
     lib_TransportFreeBuffer = FreeBuffer\<rparr>"

definition pubsub_library ::
  "(nat \<Rightarrow> bool) \<Rightarrow> cpp_env \<Rightarrow> (pubsub_client \<Rightarrow> buf \<Rightarrow> bytes result \<times> pubsub_client) \<Rightarrow>
     pubsub_client plugin_library" where
  "pubsub_library malloc env call =
    \<lparr>lib_CreateTransport = (\<lambda>ipAddress port configSource.
       heap_CreateTransport malloc (new_TransportPubSub env configSource)),
     lib_DestroyTransport = DestroyTransport,
     lib_TransportSendCommand = heap_SendCommand malloc (pubsub_command call),
     lib_TransportFreeBuffer = FreeBuffer\<rparr>"

definition rabbit_library ::
  "(nat \<Rightarrow> bool) \<Rightarrow> cpp_env \<Rightarrow> (rabbit_client \<Rightarrow> buf \<Rightarrow> bytes result \<times> rabbit_client) \<Rightarrow>
     rabbit_client plugin_library" where
  "rabbit_library malloc env call =
    \<lparr>lib_CreateTransport = (\<lambda>ipAddress port configSource.
       heap_CreateTransport malloc (Inr (new_TransportRabbitMq env (c_string_or_empty ipAddress) port
         (c_string_or_empty configSource)))),
     lib_DestroyTransport = DestroyTransport,
     lib_TransportSendCommand = heap_SendCommand malloc (rabbit_command call),
     lib_TransportFreeBuffer = FreeBuffer\<rparr>"

text \<open>The session id is what \<^verbatim>\<open>BuildCorrelationId\<close> gives in the constructor of the client.\<close>

definition sb_library ::
  "(nat \<Rightarrow> bool) \<Rightarrow> cpp_env \<Rightarrow> string \<Rightarrow> (sb_client \<Rightarrow> buf \<Rightarrow> bytes result \<times> sb_client) \<Rightarrow>
     sb_client plugin_library" where
  "sb_library malloc env replySessionId call =
    \<lparr>lib_CreateTransport = (\<lambda>ipAddress port configSource.
       heap_CreateTransport malloc (Inr (new_TransportServiceBus env (c_string_or_empty ipAddress) port
         (c_string_or_empty configSource) replySessionId))),
     lib_DestroyTransport = DestroyTransport,
     lib_TransportSendCommand = heap_SendCommand malloc (sb_command call),
     lib_TransportFreeBuffer = FreeBuffer\<rparr>"

definition kafka_library ::
  "(nat \<Rightarrow> bool) \<Rightarrow> cpp_env \<Rightarrow> u64 \<Rightarrow> u64 \<Rightarrow> (kafka_client \<Rightarrow> buf \<Rightarrow> bytes result \<times> kafka_client) \<Rightarrow>
     kafka_client plugin_library" where
  "kafka_library malloc env a b call =
    \<lparr>lib_CreateTransport = (\<lambda>ipAddress port configSource.
       heap_CreateTransport malloc (Inr (new_TransportKafka env a b configSource))),
     lib_DestroyTransport = DestroyTransport,
     lib_TransportSendCommand = heap_SendCommand malloc (kafka_command call),
     lib_TransportFreeBuffer = FreeBuffer\<rparr>"

section \<open>One contract\<close>

text \<open>
  What the gateway relies on: the four functions work on the heap of \<open>AbiHeap\<close>, a transport is
  what the factory makes, and a message of positive length goes to the client's call as it is.
\<close>

locale gateway_plugin =
  fixes lib :: "'c plugin_library"
    and malloc :: "nat \<Rightarrow> bool"
    and factory :: "string option \<Rightarrow> u16 \<Rightarrow> string option \<Rightarrow> 'c result"
    and command :: "'c \<Rightarrow> ptr \<Rightarrow> 32 word \<Rightarrow> (bytes result \<times> 'c) option"
    and call :: "'c \<Rightarrow> buf \<Rightarrow> bytes result \<times> 'c"
  assumes creates: "lib_CreateTransport lib ip port cs = heap_CreateTransport malloc (factory ip port cs)"
    and destroys: "lib_DestroyTransport lib = DestroyTransport"
    and sends: "lib_TransportSendCommand lib = heap_SendCommand malloc command"
    and frees: "lib_TransportFreeBuffer lib = FreeBuffer"
    and passes: "0 < sint n \<Longrightarrow> nat (sint n) \<le> length region \<Longrightarrow>
      command c (Some region) n =
        Some (rbind (fst (call c (Buf (take (nat (sint n)) region)))) reject_error_reply,
              snd (call c (Buf (take (nat (sint n)) region))))"
begin

text \<open>Every use of the library is a step of the gateway of \<open>AbiHeap\<close>.\<close>

lemma library_step:
  "lib_CreateTransport lib ip port cs want (gw_heap g) = (channel, message, h) \<Longrightarrow>
     gw_step g (g\<lparr>gw_heap := h, gw_channels := gw_channels g \<union> set_option channel,
                 gw_buffers := gw_buffers g \<union> message_pointers message\<rparr>)"
  "set_option channel \<subseteq> gw_channels g \<Longrightarrow>
     lib_TransportSendCommand lib channel m n rp lp (gw_heap g) = Some (status, out, h) \<Longrightarrow>
     gw_step g (g\<lparr>gw_heap := h, gw_buffers := gw_buffers g \<union> response_pointers out\<rparr>)"
  "b \<in> gw_buffers g \<Longrightarrow> lib_TransportFreeBuffer lib (Some b) (gw_heap g) = Some h \<Longrightarrow>
     gw_step g (g\<lparr>gw_heap := h, gw_buffers := gw_buffers g - {b}\<rparr>)"
  "c \<in> gw_channels g \<Longrightarrow> lib_DestroyTransport lib (Some c) (gw_heap g) = Some h \<Longrightarrow>
     gw_step g (g\<lparr>gw_heap := h, gw_channels := gw_channels g - {c}\<rparr>)"
  by (simp_all add: creates sends frees destroys gw_create gw_send gw_free gw_destroy)

text \<open>What the gateway reads after a message.\<close>

lemma answers:
  assumes "ah_channels h i = Some c" "0 < sint n" "nat (sint n) \<le> length region"
    and r: "call c (Buf (take (nat (sint n)) region)) = (r, c')"
  shows "\<exists>status p k h'. lib_TransportSendCommand lib (Some i) (Some region) n True True h =
      Some (status, Some (p, k), h') \<and> ah_channels h' = (ah_channels h)(i \<mapsto> c') \<and>
    Some (status, Some (buffer_value h' p, k)) =
      (case r of Inl e \<Rightarrow> Some (abi_failure malloc e) | Inr reply \<Rightarrow> gateway_answer malloc reply)"
proof -
  let ?h = "h\<lparr>ah_channels := (ah_channels h)(i \<mapsto> c')\<rparr>"
  have failure: "\<exists>status p k h'. heap_failure malloc e h1 = (status, Some (p, k), h') \<and>
      ah_channels h' = ah_channels h1 \<and> abi_failure malloc e = (status, Some (buffer_value h' p, k))"
    for e and h1 :: "'c abi_heap"
    using heap_failure_refines [of malloc e h1]
    by (cases "heap_failure malloc e h1") (auto simp: heap_failure_def heap_CopyBuffer_def Let_def split: if_splits)
  have send: "lib_TransportSendCommand lib (Some i) (Some region) n True True h =
      (case rbind r reject_error_reply of
         Inl e \<Rightarrow> Some (heap_failure malloc e ?h)
       | Inr reply \<Rightarrow>
           (case heap_CopyBuffer malloc reply ?h of
              (None, h2) \<Rightarrow> Some (heap_failure malloc BadAlloc h2)
            | (Some b, h2) \<Rightarrow> Some (TRANSPORT_PLUGIN_OK, Some (Some b, word_of_nat (length reply)), h2)))"
    by (simp add: sends heap_SendCommand_def assms(1) passes [OF assms(2,3)] r Let_def)
  show ?thesis
  proof (cases "rbind r reject_error_reply")
    case (Inl e)
    then have "abi_failure malloc e \<in> set_option (case r of Inl e \<Rightarrow> Some (abi_failure malloc e)
        | Inr reply \<Rightarrow> gateway_answer malloc reply)"
      by (cases r) (auto simp: gateway_answer_failure reject_error_reply_def RejectGatewayErrorPayload_def split: if_splits)
    with failure [of e ?h] Inl show ?thesis unfolding send by (auto simp: elem_set)
  next
    case (Inr reply)
    then have reply: "r = Inr reply" "\<not> (reply \<noteq> [] \<and> hd reply = 255)"
      by (cases r; auto simp: reject_error_reply_iff)+
    show ?thesis
    proof (cases "malloc (length reply + 1)")
      case True
      with Inr reply show ?thesis
        unfolding send by (auto simp: heap_CopyBuffer_def gateway_answer_failure buffer_value_def)
    next
      case False
      with Inr reply failure [of BadAlloc ?h] show ?thesis
        unfolding send by (auto simp: heap_CopyBuffer_def gateway_answer_failure)
    qed
  qed
qed

lemma answers_text:
  assumes "ah_channels h i = Some c" "0 < sint n" "nat (sint n) \<le> length region"
    and r: "call c (Buf (take (nat (sint n)) region)) = (r, c')"
  shows "\<exists>status p k h'. lib_TransportSendCommand lib (Some i) (Some region) n True True h =
      Some (status, Some (p, k), h') \<and> ah_channels h' = (ah_channels h)(i \<mapsto> c') \<and>
    Some (status, Some (buffer_value h' p, k)) =
      (case r of Inl e \<Rightarrow> Some (abi_failure malloc e) | Inr reply \<Rightarrow> gateway_answer malloc reply) \<and>
    (status = TRANSPORT_PLUGIN_ERROR \<longrightarrow>
       (\<forall>b. buffer_value h' p = Some b \<longrightarrow> c_text b \<and> k = word_of_nat (length b - 1)))"
proof -
  obtain status p k h' where sent:
    "lib_TransportSendCommand lib (Some i) (Some region) n True True h = Some (status, Some (p, k), h')"
    "ah_channels h' = (ah_channels h)(i \<mapsto> c')"
    "Some (status, Some (buffer_value h' p, k)) =
      (case r of Inl e \<Rightarrow> Some (abi_failure malloc e) | Inr reply \<Rightarrow> gateway_answer malloc reply)"
    using answers [OF assms] by blast
  moreover have "c_text b \<and> k = word_of_nat (length b - 1)"
    if "status = TRANSPORT_PLUGIN_ERROR" "buffer_value h' p = Some b" for b
    by (rule error_answer_text) (use sent(3) that in simp)
  ultimately show ?thesis by blast
qed

lemma creation:
  assumes "lib_CreateTransport lib ip port cs True h = (channel, message, h')"
  shows "case factory ip port cs of
      Inr c \<Rightarrow> channel = Some (ah_next h) \<and> ah_channels h' (ah_next h) = Some c \<and> message = Some None
    | Inl e \<Rightarrow> channel = None \<and> (\<exists>p. message = Some p \<and>
        buffer_value h' p = CopyMessage malloc (caught_text e))"
  using assms heap_CopyBuffer_value [of malloc _ h]
  by (auto simp: creates heap_CreateTransport_def CopyMessage_def split: sum.splits prod.splits)

end

lemma command_passes:
  assumes "0 < sint n" "nat (sint n) \<le> length region" "guard (Some region) n = None"
  shows "transport_command guard call c (Some region) n =
    Some (rbind (fst (call c (Buf (take (nat (sint n)) region)))) reject_error_reply,
          snd (call c (Buf (take (nat (sint n)) region))))"
  by (simp add: transport_command_def read_ptr_positive [OF assms(1,2)] assms(3) case_prod_unfold)

interpretation sqs_lib: gateway_plugin "sqs_library malloc env call" malloc
    "\<lambda>ip port. new_TransportSqs env" "sqs_command call" call for malloc env call
  by unfold_locales (auto simp: sqs_library_def sqs_command_def command_passes length_guard_def)

interpretation pubsub_lib: gateway_plugin "pubsub_library malloc env call" malloc
    "\<lambda>ip port. new_TransportPubSub env" "pubsub_command call" call for malloc env call
  by unfold_locales (auto simp: pubsub_library_def pubsub_command_def command_passes length_guard_def)

interpretation rabbit_lib: gateway_plugin "rabbit_library malloc env call" malloc
    "\<lambda>ip port cs. Inr (new_TransportRabbitMq env (c_string_or_empty ip) port (c_string_or_empty cs))"
    "rabbit_command call" call for malloc env call
  by unfold_locales (auto simp: rabbit_library_def rabbit_command_def command_passes pointer_guard_def)

interpretation sb_lib: gateway_plugin "sb_library malloc env session call" malloc
    "\<lambda>ip port cs. Inr (new_TransportServiceBus env (c_string_or_empty ip) port (c_string_or_empty cs) session)"
    "sb_command call" call for malloc env session call
  by unfold_locales (auto simp: sb_library_def sb_command_def command_passes pointer_guard_def)

interpretation kafka_lib: gateway_plugin "kafka_library malloc env a b call" malloc
    "\<lambda>ip port cs. Inr (new_TransportKafka env a b cs)" "kafka_command call" call for malloc env a b call
  by unfold_locales (auto simp: kafka_library_def kafka_command_def command_passes)

section \<open>Properties\<close>

text \<open>A library that answers every message of positive length on every live channel.\<close>

definition serves_gateway ::
  "'c plugin_library \<Rightarrow> (nat \<Rightarrow> bool) \<Rightarrow> ('c \<Rightarrow> buf \<Rightarrow> bytes result \<times> 'c) \<Rightarrow> bool" where
  "serves_gateway lib malloc call \<longleftrightarrow>
     (\<forall>h i c n region. ah_channels h i = Some c \<longrightarrow> 0 < sint n \<longrightarrow> nat (sint n) \<le> length region \<longrightarrow>
        (case call c (Buf (take (nat (sint n)) region)) of (r, c') \<Rightarrow>
           \<exists>status p k h'. lib_TransportSendCommand lib (Some i) (Some region) n True True h =
               Some (status, Some (p, k), h') \<and> ah_channels h' = (ah_channels h)(i \<mapsto> c') \<and>
             Some (status, Some (buffer_value h' p, k)) =
               (case r of
                  Inl e \<Rightarrow> Some (gateway_failure malloc e)
                | Inr reply \<Rightarrow> gateway_answer malloc reply) \<and>
             (status = TRANSPORT_PLUGIN_ERROR \<longrightarrow>
                (\<forall>b. buffer_value h' p = Some b \<longrightarrow> c_text b \<and> k = word_of_nat (length b - 1)))))"

text \<open>
  C21. One contract over five shared libraries.  On every live channel and for every message of
  positive length that lies in memory, the exported \<^verbatim>\<open>TransportSendCommand\<close> of every
  plugin gives the client's call exactly the bytes of the message, once, changes no other channel,
  and leaves in the gateway's hands a buffer that reads: the text of the exception when the call
  fails, the gateway's own text when the reply carries the error mark, both up to their first zero
  byte, and otherwise the reply byte for byte, zero bytes included.  The buffer of an error has one
  zero byte, at its end, and the length is that of the text before it.
\<close>
theorem libraries_serve_gateway:
  "serves_gateway (rabbit_library malloc env call1) malloc call1 \<and>
   serves_gateway (sb_library malloc env session call2) malloc call2 \<and>
   serves_gateway (sqs_library malloc env call3) malloc call3 \<and>
   serves_gateway (pubsub_library malloc env call4) malloc call4 \<and>
   serves_gateway (kafka_library malloc env a b call5) malloc call5"
  unfolding serves_gateway_def abi_failure_gateway [symmetric]
  by (intro conjI allI impI; simp only: case_prod_unfold)
    (rule rabbit_lib.answers_text sb_lib.answers_text sqs_lib.answers_text pubsub_lib.answers_text
      kafka_lib.answers_text; simp)+

text \<open>
  C36. What a new channel is.  A channel of the SQS or the Pub/Sub library exists exactly when the
  configuration was read and accepted; it then has a fresh table of pending replies and no running
  dispatcher, and its configuration is within the limits of the service, names its queues or its
  topics, and needs no reply address only in one-way mode.  Otherwise the gateway gets no channel
  and the text of the refusal.  The other three libraries create a channel whatever they are given.
\<close>
theorem created_channels_sound:
  assumes "lib_CreateTransport (sqs_library malloc env call1) ip port cs True h1 = (ch1, msg1, h1')"
    and "lib_CreateTransport (pubsub_library malloc env call2) ip port cs True h2 = (ch2, msg2, h2')"
  shows "(case ch1 of
      Some i \<Rightarrow> \<exists>c. new_TransportSqs env cs = Inr c \<and> ah_channels h1' i = Some c \<and>
        sc_pending c = new_pending \<and> \<not> sc_started c \<and>
        sqs_requestQueueUrl (sc_config c) \<noteq> [] \<and>
        (sqs_oneWay (sc_config c) \<or> sqs_replyQueueUrl (sc_config c) \<noteq> []) \<and>
        1 \<le> sqs_waitTimeSeconds (sc_config c) \<and> sqs_waitTimeSeconds (sc_config c) \<le> 20 \<and>
        1 \<le> sqs_visibilityTimeoutSeconds (sc_config c) \<and>
        sqs_visibilityTimeoutSeconds (sc_config c) \<le> 43200 \<and> 1 \<le> sqs_rpcTimeoutMs (sc_config c)
    | None \<Rightarrow> \<exists>e p. new_TransportSqs env cs = Inl e \<and> msg1 = Some p \<and>
        buffer_value h1' p = CopyMessage malloc (caught_text e)) \<and>
   (case ch2 of
      Some i \<Rightarrow> \<exists>c. new_TransportPubSub env cs = Inr c \<and> ah_channels h2' i = Some c \<and>
        pc_pending c = new_pending \<and> \<not> pc_started c \<and>
        IsValidProjectId (ps_projectId (pc_config c)) \<and> IsValidResourceId (ps_requestTopic (pc_config c)) \<and>
        (ps_oneWay (pc_config c) \<or> IsValidResourceId (ps_replyTopic (pc_config c))) \<and>
        10 \<le> ps_ackDeadlineSeconds (pc_config c) \<and> ps_ackDeadlineSeconds (pc_config c) \<le> 600 \<and>
        1 \<le> ps_maxMessages (pc_config c) \<and> ps_maxMessages (pc_config c) \<le> 100
    | None \<Rightarrow> \<exists>e p. new_TransportPubSub env cs = Inl e \<and> msg2 = Some p \<and>
        buffer_value h2' p = CopyMessage malloc (caught_text e)) \<and>
   fst (lib_CreateTransport (rabbit_library malloc env call3) ip port cs True h3) \<noteq> None \<and>
   fst (lib_CreateTransport (sb_library malloc env session call4) ip port cs True h4) \<noteq> None \<and>
   fst (lib_CreateTransport (kafka_library malloc env a b call5) ip port cs True h5) \<noteq> None"
proof -
  have sqs: "sc_pending c = new_pending \<and> \<not> sc_started c \<and> sqs_requestQueueUrl (sc_config c) \<noteq> [] \<and>
      (sqs_oneWay (sc_config c) \<or> sqs_replyQueueUrl (sc_config c) \<noteq> []) \<and>
      1 \<le> sqs_waitTimeSeconds (sc_config c) \<and> sqs_waitTimeSeconds (sc_config c) \<le> 20 \<and>
      1 \<le> sqs_visibilityTimeoutSeconds (sc_config c) \<and>
      sqs_visibilityTimeoutSeconds (sc_config c) \<le> 43200 \<and> 1 \<le> sqs_rpcTimeoutMs (sc_config c)"
    if c: "new_TransportSqs env cs = Inr c" for c
  proof -
    from c obtain cfg where cfg: "ParseSqsConfigSource env (c_string_or_empty cs) = Inr cfg" "new_SqsClient cfg = Inr c"
      unfolding new_TransportSqs_def by (elim rbind_Inr_E)
    then have "sqs_ValidateClientConfig cfg = Inr ()" "sc_config c = cfg" "sc_pending c = new_pending"
      "\<not> sc_started c"
      by (auto simp: new_SqsClient_def elim!: rbind_Inr_E)
    with sqs_config_within_limits [OF cfg(1)] show ?thesis by (auto simp: sqs_ValidateClientConfig_def split: if_splits)
  qed
  have pubsub: "pc_pending c = new_pending \<and> \<not> pc_started c \<and>
      IsValidProjectId (ps_projectId (pc_config c)) \<and> IsValidResourceId (ps_requestTopic (pc_config c)) \<and>
      (ps_oneWay (pc_config c) \<or> IsValidResourceId (ps_replyTopic (pc_config c))) \<and>
      10 \<le> ps_ackDeadlineSeconds (pc_config c) \<and> ps_ackDeadlineSeconds (pc_config c) \<le> 600 \<and>
      1 \<le> ps_maxMessages (pc_config c) \<and> ps_maxMessages (pc_config c) \<le> 100"
    if c: "new_TransportPubSub env cs = Inr c" for c
  proof -
    from c obtain c0 where c0: "ParsePubSubConfigSource env (c_string_or_empty cs) = Inr c0"
        "new_PubSubClient env c0 = Inr c"
      unfolding new_TransportPubSub_def by (elim rbind_Inr_E)
    then obtain cfg where "ApplyRuntimeEnvironment env c0 = Inr cfg" "pubsub_ValidateClientConfig cfg = Inr ()"
        "pc_config c = cfg" "pc_pending c = new_pending" "\<not> pc_started c"
      by (auto simp: new_PubSubClient_def elim!: rbind_Inr_E)
    with pubsub_client_config_sound [OF c0(1)] show ?thesis by auto
  qed
  show ?thesis
    using sqs_lib.creation [OF assms(1)] sqs pubsub_lib.creation [OF assms(2)] pubsub
    by (auto simp: rabbit_lib.creates sb_lib.creates kafka_lib.creates heap_CreateTransport_def
        split: sum.splits)
qed

definition sqs_rpc_env :: cpp_env where
  "sqs_rpc_env =
    \<lparr>json_parse = (\<lambda>_. Inr (JObject [(''requestQueueUrl'', JString ''q''), (''replyQueueUrl'', JString ''r'')])),
     file_exists = (\<lambda>_. False), read_file = (\<lambda>_. None), getenv = (\<lambda>_. None)\<rparr>"

lemma sqs_rpc_parse:
  "ParseSqsConfigSource sqs_rpc_env ''x'' =
    Inr (default_sqs_config\<lparr>sqs_requestQueueUrl := ''q'', sqs_replyQueueUrl := ''r''\<rparr>)"
  by (simp add: sqs_rpc_env_def ParseSqsConfigSource_def ParseJsonSource_def sqs_select_def
      HasSpecificSqsKeys_def jcontains_def read_sqs_config_def read_sqs_strings_def Let_def ReadString_def
      ReadPositiveUint_def ReadBool_def default_sqs_config_def check_sqs_config_def)

lemma created_channels_sound_witness:
  "\<exists>c h'. lib_CreateTransport (sqs_library (\<lambda>_. True) sqs_rpc_env (\<lambda>c d. (Inr [], c))) None 0 (Some ''x'') True
        empty_heap = (Some 0, Some None, h') \<and>
     ah_channels h' 0 = Some c \<and> \<not> sc_started c \<and> sqs_waitTimeSeconds (sc_config c) \<le> 20"
proof -
  let ?sqs = "sqs_library (\<lambda>_. True) sqs_rpc_env (\<lambda>c d. (Inr [], c))"
  let ?pubsub = "pubsub_library (\<lambda>_. True) sqs_rpc_env (\<lambda>c d. (Inr [], c))"
  obtain ch1 msg1 h1 where sqs:
    "lib_CreateTransport ?sqs None 0 (Some ''x'') True empty_heap = (ch1, msg1, h1)"
    by (cases "lib_CreateTransport ?sqs None 0 (Some ''x'') True empty_heap")
  obtain ch2 msg2 h2 where pubsub:
    "lib_CreateTransport ?pubsub None 0 (Some ''x'') True empty_heap = (ch2, msg2, h2)"
    by (cases "lib_CreateTransport ?pubsub None 0 (Some ''x'') True empty_heap")
  obtain c where "new_TransportSqs sqs_rpc_env (Some ''x'') = Inr c"
    by (simp add: new_TransportSqs_def c_string_or_empty_def sqs_rpc_parse new_SqsClient_def
        sqs_ValidateClientConfig_def default_sqs_config_def CreateAwsSqsClient_def
        ParseEndpointOverride_def strip_front_def Let_def)
  with created_channels_sound [OF sqs pubsub] sqs_lib.creation [OF sqs] sqs show ?thesis
    by (auto simp: empty_heap_def)
qed

end
