(* ===== verification/GatewayExchange.thy ===== *)
theory GatewayExchange
  imports PluginExchange PluginExports
begin

text \<open>
  From gateway to gateway: the exported functions of a plugin, its client, the broker with all other
  clients and servers, and the server's handler together.  What the calling gateway reads from the
  buffer it is given is what the callback of a serving gateway wrote about its message.
\<close>

section \<open>The calls behind the libraries\<close>

text \<open>A call of a channel's client under the environment \<open>call\<close>: its result and the client after it.\<close>

definition with_client :: "(buf \<Rightarrow> 'c \<Rightarrow> bytes result \<times> 'c \<times> 'o) \<Rightarrow> 'c \<Rightarrow> buf \<Rightarrow> bytes result \<times> 'c" where
  "with_client call c d = (fst (call d c), fst (snd (call d c)))"

text \<open>
  The gateway gets an answer: every message that is sent on a channel of the library whose client is
  \<open>c\<close>, as the call \<open>cid\<close> of the exchange \<open>s\<close>, and that comes back with the success status.
\<close>

definition gets_callback_answer ::
  "'c plugin_library \<Rightarrow> 'c \<Rightarrow> ('a, 'q, 'x, 'r) exchange \<Rightarrow> 'a \<Rightarrow> string \<Rightarrow>
     ('x \<Rightarrow> bytes \<Rightarrow> bytes option) \<Rightarrow> bool" where
  "gets_callback_answer lib c s a cid answer \<longleftrightarrow>
     (\<forall>h i n region q p k h'. ah_channels h i = Some c \<longrightarrow> 0 < sint n \<longrightarrow> nat (sint n) \<le> length region \<longrightarrow>
        (a, cid, take (nat (sint n)) region, q) \<in> set (xc_calls s) \<longrightarrow>
        lib_TransportSendCommand lib (Some i) (Some region) n True True h =
          Some (TRANSPORT_PLUGIN_OK, Some (p, k), h') \<longrightarrow>
        (\<exists>reply b q x. p = Some b \<and> ah_buffers h' b = Some (reply @ [0]) \<and> k = word_of_nat (length reply) \<and>
           (a, cid, take (nat (sint n)) region, q) \<in> set (xc_calls s) \<and> (q, x) \<in> set (xc_turns s) \<and>
           answer x (take (nat (sint n)) region) = Some reply))"

lemma ok_not_error: "TRANSPORT_PLUGIN_OK \<noteq> TRANSPORT_PLUGIN_ERROR"
  by (simp add: TRANSPORT_PLUGIN_OK_def TRANSPORT_PLUGIN_ERROR_def)

text \<open>The success status means a reply of the call in a live buffer.\<close>

lemma gateway_answer_ok:
  assumes "gateway_answer malloc r = Some (TRANSPORT_PLUGIN_OK, Some (b, k))"
  shows "b = Some (r @ [0]) \<and> k = word_of_nat (length r)"
  using assms ok_not_error by (auto simp: gateway_answer_def abi_failure_def Let_def split: if_splits)

context gateway_plugin begin

lemma delivered:
  assumes "ah_channels h i = Some c" "0 < sint n" "nat (sint n) \<le> length region"
    and "lib_TransportSendCommand lib (Some i) (Some region) n True True h =
      Some (TRANSPORT_PLUGIN_OK, Some (p, k), h')"
  shows "\<exists>reply b. fst (call c (Buf (take (nat (sint n)) region))) = Inr reply \<and> p = Some b \<and>
    ah_buffers h' b = Some (reply @ [0]) \<and> k = word_of_nat (length reply)"
proof -
  obtain r c' where r: "call c (Buf (take (nat (sint n)) region)) = (r, c')"
    by (cases "call c (Buf (take (nat (sint n)) region))")
  from answers [OF assms(1-3) r] assms(4) have
    ans: "Some (TRANSPORT_PLUGIN_OK, Some (buffer_value h' p, k)) =
      (case r of Inl e \<Rightarrow> Some (abi_failure malloc e) | Inr reply \<Rightarrow> gateway_answer malloc reply)"
    by auto
  show ?thesis
  proof (cases r)
    case (Inl e)
    with ans ok_not_error show ?thesis by (simp add: abi_failure_def Let_def)
  next
    case (Inr reply)
    with ans gateway_answer_ok [of malloc reply "buffer_value h' p" k]
    have "buffer_value h' p = Some (reply @ [0])" "k = word_of_nat (length reply)" by auto
    with r Inr show ?thesis by (auto simp: buffer_value_def split: option.splits)
  qed
qed

lemma gets_answer:
  assumes "\<And>d q r. (a, cid, buf_bytes d, q) \<in> set (xc_calls s) \<Longrightarrow> fst (call c d) = Inr r \<Longrightarrow>
    \<exists>q x. (a, cid, buf_bytes d, q) \<in> set (xc_calls s) \<and> (q, x) \<in> set (xc_turns s) \<and>
      answer x (buf_bytes d) = Some r"
  shows "gets_callback_answer lib c s a cid answer"
  unfolding gets_callback_answer_def
proof (intro allI impI)
  fix h i n region q p k h'
  assume send: "ah_channels h i = Some c" "0 < sint n" "nat (sint n) \<le> length region"
      "lib_TransportSendCommand lib (Some i) (Some region) n True True h =
        Some (TRANSPORT_PLUGIN_OK, Some (p, k), h')"
    and called: "(a, cid, take (nat (sint n)) region, q) \<in> set (xc_calls s)"
  from delivered [OF send] obtain reply b where
    reply: "fst (call c (Buf (take (nat (sint n)) region))) = Inr reply" "p = Some b"
      "ah_buffers h' b = Some (reply @ [0])" "k = word_of_nat (length reply)" by blast
  from assms [of "Buf (take (nat (sint n)) region)" q reply] called reply
  show "\<exists>reply b q x. p = Some b \<and> ah_buffers h' b = Some (reply @ [0]) \<and> k = word_of_nat (length reply) \<and>
      (a, cid, take (nat (sint n)) region, q) \<in> set (xc_calls s) \<and> (q, x) \<in> set (xc_turns s) \<and>
      answer x (take (nat (sint n)) region) = Some reply"
    by auto
qed

end

section \<open>The five plugins\<close>

lemma rabbit_gets_answer:
  assumes "reaches rabbit_exchange xc_init s" "set during \<subseteq> set (xc_events s a)"
    and "pending_wf (rk_pending c)" "leaves cid during"
  shows "gets_callback_answer
    (rabbit_library malloc env (with_client (rabbit_Call open_link later published cid during)))
    c s a cid (\<lambda>x. callback_answer rabbit_writeResponse (fst (snd x)))"
proof (rule rabbit_lib.gets_answer)
  fix d q r
  assume q: "(a, cid, buf_bytes d, q) \<in> set (xc_calls s)"
    and "fst (with_client (rabbit_Call open_link later published cid during) c d) = Inr r"
  then have "first_settle cid during = Done r"
    by (intro rabbit_Call_settled [OF assms(3,4)]) (simp add: with_client_def)
  from rabbit_xc.replies_never_cross [OF assms(1) [unfolded rabbit_exchange_def] q assms(2) this]
  show "\<exists>q x. (a, cid, buf_bytes d, q) \<in> set (xc_calls s) \<and> (q, x) \<in> set (xc_turns s) \<and>
      callback_answer rabbit_writeResponse (fst (snd x)) (buf_bytes d) = Some r" .
qed

lemma sb_gets_answer:
  assumes "reaches sb_exchange xc_init s" "set during \<subseteq> set (xc_events s a)"
    and "pending_wf (sk_pending c)" "leaves cid during" "sb_topic (sk_config c) = []"
  shows "gets_callback_answer
    (sb_library malloc env session (with_client (sb_Call open_link later send cid during)))
    c s a cid (\<lambda>x. callback_answer sb_writeResponse (fst (snd x)))"
proof (rule sb_lib.gets_answer)
  fix d q r
  assume q: "(a, cid, buf_bytes d, q) \<in> set (xc_calls s)"
    and "fst (with_client (sb_Call open_link later send cid during) c d) = Inr r"
  then have "first_settle cid during = Done r"
    by (intro sb_Call_settled [OF assms(3-5)]) (simp add: with_client_def)
  from sb_xc.replies_never_cross [OF assms(1) [unfolded sb_exchange_def] q assms(2) this]
  show "\<exists>q x. (a, cid, buf_bytes d, q) \<in> set (xc_calls s) \<and> (q, x) \<in> set (xc_turns s) \<and>
      callback_answer sb_writeResponse (fst (snd x)) (buf_bytes d) = Some r" .
qed

lemma sqs_gets_answer:
  assumes "base64_codec enc dec" "reaches (sqs_exchange enc dec) xc_init s"
    and "set during \<subseteq> set (xc_events s ())"
    and "pending_wf (sc_pending c)" "leaves cid during" "\<not> sqs_oneWay (sc_config c)"
  shows "gets_callback_answer (sqs_library malloc env (with_client (SqsCall enc svc cid during)))
    c s () cid (\<lambda>x. callback_answer writeResponse (Some (fst (snd x))))"
proof (rule sqs_lib.gets_answer)
  fix d q r
  assume q: "((), cid, buf_bytes d, q) \<in> set (xc_calls s)"
    and "fst (with_client (SqsCall enc svc cid during) c d) = Inr r"
  then have "first_settle cid during = Done r"
    by (intro SqsCall_settled [OF assms(4-6)]) (simp add: with_client_def)
  from rpc_exchange.replies_never_cross [OF sqs_xc [OF assms(1)]
      assms(2) [unfolded sqs_exchange_def] q assms(3) this]
  show "\<exists>q x. ((), cid, buf_bytes d, q) \<in> set (xc_calls s) \<and> (q, x) \<in> set (xc_turns s) \<and>
      callback_answer writeResponse (Some (fst (snd x))) (buf_bytes d) = Some r" .
qed

lemma kafka_gets_answer:
  assumes "reaches kafka_exchange xc_init s" "set during \<subseteq> set (xc_events s ())"
    and "pending_wf (kc_pending c)" "leaves cid during"
  shows "gets_callback_answer (kafka_library malloc env x y (with_client (kafka_call api produce cid during)))
    c s () cid (\<lambda>x. callback_answer k_writeResponse (fst (snd x)))"
proof (rule kafka_lib.gets_answer)
  fix d q r
  assume q: "((), cid, buf_bytes d, q) \<in> set (xc_calls s)"
    and "fst (with_client (kafka_call api produce cid during) c d) = Inr r"
  then have "first_settle cid during = Done r"
    by (intro kafka_call_settled [OF assms(3,4)]) (simp add: with_client_def)
  from kafka_xc.replies_never_cross [OF assms(1) [unfolded kafka_exchange_def] q assms(2) this]
  show "\<exists>q x. ((), cid, buf_bytes d, q) \<in> set (xc_calls s) \<and> (q, x) \<in> set (xc_turns s) \<and>
      callback_answer k_writeResponse (fst (snd x)) (buf_bytes d) = Some r" .
qed

text \<open>A Pub/Sub call publishes again until it succeeds; here are the environments in which it ends.\<close>

lemma pubsub_gets_answer:
  assumes "reaches pubsub_exchange xc_init s" "set during \<subseteq> set (xc_events s ())"
    and "pending_wf (pc_pending c)" "leaves cid during" "\<not> ps_oneWay (pc_config c)"
    and ends: "\<And>d. PubSubCall handles w1 w2 w3 cid during attempts d c = Some (call c d)"
  shows "gets_callback_answer (pubsub_library malloc env call) c s () cid
    (\<lambda>x. callback_answer ps_writeResponse (Some (fst (snd x))))"
proof (rule pubsub_lib.gets_answer)
  fix d q r
  assume q: "((), cid, buf_bytes d, q) \<in> set (xc_calls s)" and r: "fst (call c d) = Inr r"
  then have "PubSubCall handles w1 w2 w3 cid during attempts d c = Some (Inr r, snd (call c d))"
    by (simp add: ends prod_eq_iff)
  then have "first_settle cid during = Done r" by (rule PubSubCall_settled [OF assms(3-5)])
  from pubsub_xc.replies_never_cross [OF assms(1) [unfolded pubsub_exchange_def] q assms(2) this]
  show "\<exists>q x. ((), cid, buf_bytes d, q) \<in> set (xc_calls s) \<and> (q, x) \<in> set (xc_turns s) \<and>
      callback_answer ps_writeResponse (Some (fst (snd x))) (buf_bytes d) = Some r" .
qed

text \<open>
  C7. The calling gateway reads what a serving gateway wrote.  Take any plugin, any history of
  clients, servers and broker that shares its queues or topics, and any events on the table while a
  call waits.  Whenever the exported \<^verbatim>\<open>TransportSendCommand\<close> returns success for a message of
  the calling gateway, the response pointer is a live buffer that holds, up to its terminating zero
  byte, exactly the bytes that the callback of some server wrote when it accepted exactly the bytes
  of this message, and the response length is their number.
\<close>
theorem gateway_gets_its_answer:
  "(reaches rabbit_exchange xc_init s1 \<and> set during \<subseteq> set (xc_events s1 a1) \<and>
      pending_wf (rk_pending c1) \<and> leaves cid during \<longrightarrow>
    gets_callback_answer
      (rabbit_library malloc env (with_client (rabbit_Call open_link later published cid during)))
      c1 s1 a1 cid (\<lambda>x. callback_answer rabbit_writeResponse (fst (snd x)))) \<and>
   (reaches sb_exchange xc_init s2 \<and> set during \<subseteq> set (xc_events s2 a2) \<and>
      pending_wf (sk_pending c2) \<and> leaves cid during \<and> sb_topic (sk_config c2) = [] \<longrightarrow>
    gets_callback_answer
      (sb_library malloc env session (with_client (sb_Call open_sb later_sb send cid during)))
      c2 s2 a2 cid (\<lambda>x. callback_answer sb_writeResponse (fst (snd x)))) \<and>
   (base64_codec enc dec \<and> reaches (sqs_exchange enc dec) xc_init s3 \<and>
      set during \<subseteq> set (xc_events s3 ()) \<and> pending_wf (sc_pending c3) \<and> leaves cid during \<and>
      \<not> sqs_oneWay (sc_config c3) \<longrightarrow>
    gets_callback_answer (sqs_library malloc env (with_client (SqsCall enc svc cid during)))
      c3 s3 () cid (\<lambda>x. callback_answer writeResponse (Some (fst (snd x))))) \<and>
   (reaches kafka_exchange xc_init s4 \<and> set during \<subseteq> set (xc_events s4 ()) \<and>
      pending_wf (kc_pending c4) \<and> leaves cid during \<longrightarrow>
    gets_callback_answer (kafka_library malloc env x y (with_client (kafka_call api produce cid during)))
      c4 s4 () cid (\<lambda>x. callback_answer k_writeResponse (fst (snd x)))) \<and>
   (reaches pubsub_exchange xc_init s5 \<and> set during \<subseteq> set (xc_events s5 ()) \<and>
      pending_wf (pc_pending c5) \<and> leaves cid during \<and> \<not> ps_oneWay (pc_config c5) \<and>
      (\<forall>d. PubSubCall handles w1 w2 w3 cid during attempts d c5 = Some (call c5 d)) \<longrightarrow>
    gets_callback_answer (pubsub_library malloc env call) c5 s5 () cid
      (\<lambda>x. callback_answer ps_writeResponse (Some (fst (snd x)))))"
  by (intro conjI impI; elim conjE)
    (rule rabbit_gets_answer sb_gets_answer sqs_gets_answer kafka_gets_answer pubsub_gets_answer;
      (assumption | erule spec))+

lemma gateway_gets_its_answer_witness:
  "\<forall>open_link. \<exists>s b h' q x. reaches rabbit_exchange xc_init s \<and>
     lib_TransportSendCommand
       (rabbit_library (\<lambda>_. True) sqs_rpc_env
         (with_client (rabbit_Call open_link (\<lambda>l. l) (\<lambda>_. True) ''id'' [EComplete ''id'' [7]])))
       (Some 0) (Some [7, 8]) 1 True True
       \<lparr>ah_channels = [0 \<mapsto> rabbit_example_client], ah_buffers = Map.empty, ah_next = 1\<rparr> =
       Some (TRANSPORT_PLUGIN_OK, Some (Some b, 1), h') \<and>
     ah_buffers h' b = Some [7, 0] \<and> (q, x) \<in> set (xc_turns s) \<and>
     callback_answer rabbit_writeResponse (fst (snd x)) [7] = Some [7]"
proof
  fix open_link
  let ?call = "with_client (rabbit_Call open_link (\<lambda>l. l) (\<lambda>_. True) ''id'' [EComplete ''id'' [7]])"
  let ?lib = "rabbit_library (\<lambda>_. True) sqs_rpc_env ?call"
  let ?h = "\<lparr>ah_channels = [0 \<mapsto> rabbit_example_client], ah_buffers = Map.empty, ah_next = 1\<rparr>"
  obtain s q where s: "reaches rabbit_exchange xc_init s" "(''r'', ''id'', [7], q) \<in> set (xc_calls s)"
      "EComplete ''id'' [7] \<in> set (xc_events s ''r'')"
    using rabbit_example_exchange by blast
  have wf: "pending_wf (rk_pending rabbit_example_client)"
    by (simp add: rabbit_example_client_def new_RabbitMqRpcClient_def)
  have call: "fst (?call rabbit_example_client (Buf [7])) = Inr [7]"
    using rabbit_example_call [of open_link] by (simp add: with_client_def)
  have len: "0 < sint (1 :: 32 word)" "nat (sint (1 :: 32 word)) \<le> length [7, 8 :: byte]" by simp_all
  have live: "ah_channels ?h 0 = Some rabbit_example_client" by simp
  obtain c' where c': "?call rabbit_example_client (Buf (take (nat (sint (1 :: 32 word))) [7, 8])) = (Inr [7], c')"
    using call by (cases "?call rabbit_example_client (Buf [7])") auto
  from rabbit_lib.answers [where call = ?call and malloc = "\<lambda>_. True" and env = sqs_rpc_env, OF live len c'] obtain p k h' where
    sent: "lib_TransportSendCommand ?lib (Some 0) (Some [7, 8]) 1 True True ?h =
      Some (TRANSPORT_PLUGIN_OK, Some (p, k), h')"
    by (auto simp: gateway_answer_def)
  have "gets_callback_answer ?lib rabbit_example_client s ''r'' ''id''
      (\<lambda>x. callback_answer rabbit_writeResponse (fst (snd x)))"
    using gateway_gets_its_answer [THEN conjunct1] s wf by simp
  from this [unfolded gets_callback_answer_def, rule_format, OF live len _ sent, of q] s(2)
  obtain reply b q' x where r: "p = Some b" "ah_buffers h' b = Some (reply @ [0])" "k = word_of_nat (length reply)"
      "(q', x) \<in> set (xc_turns s)" "callback_answer rabbit_writeResponse (fst (snd x)) [7] = Some reply"
    by auto
  from rabbit_lib.delivered [where call = ?call, OF live len sent] r(1,2) call have "reply = [7]" by auto
  with sent r s(1) show "\<exists>s b h' q x. reaches rabbit_exchange xc_init s \<and>
     lib_TransportSendCommand ?lib (Some 0) (Some [7, 8]) 1 True True ?h =
       Some (TRANSPORT_PLUGIN_OK, Some (Some b, 1), h') \<and>
     ah_buffers h' b = Some [7, 0] \<and> (q, x) \<in> set (xc_turns s) \<and>
     callback_answer rabbit_writeResponse (fst (snd x)) [7] = Some [7]"
    by (intro exI [of _ s] exI [of _ b] exI [of _ h'] exI [of _ q'] exI [of _ x]) simp
qed

end
