(* ===== verification/ServerLifetime.thy ===== *)
theory ServerLifetime
  imports SqsServer PubSubServer
begin

text \<open>
  The end of a server object of the SQS and Pub/Sub plugins.  \<^verbatim>\<open>start\<close> clears
  \<^verbatim>\<open>running_\<close> under the lock and, after the lock, notifies the condition variable of the
  object; the destructor calls \<^verbatim>\<open>stop\<close>, which returns as soon as \<^verbatim>\<open>running_\<close> is
  false, and then the object is gone.  (\<^verbatim>\<open>SqsServer.cpp\<close>, \<^verbatim>\<open>PubSubServer.cpp\<close>,
  from \<^verbatim>\<open>CreateServer\<close> to \<^verbatim>\<open>DestroyServer\<close>.)
\<close>

section \<open>Objects\<close>

text \<open>
  A server with the thread that called \<^verbatim>\<open>start\<close> (\<open>ob_notifying\<close>: it has left its last
  critical section and not yet notified) and the thread that called \<^verbatim>\<open>DestroyServer\<close>
  (\<open>ob_destroying\<close>: it is in the \<^verbatim>\<open>stop\<close> of the destructor).  \<open>ob_misused\<close> records a
  use of the object after its end.
\<close>

record 's server_object =
  ob_server :: 's
  ob_notifying :: bool
  ob_destroying :: bool
  ob_alive :: bool
  ob_misused :: bool

text \<open>\<^verbatim>\<open>CreateServer\<close>\<close>

definition CreateServer :: "'s \<Rightarrow> 's server_object" where
  "CreateServer s =
    \<lparr>ob_server = s, ob_notifying = False, ob_destroying = False, ob_alive = True, ob_misused = False\<rparr>"

definition ob_notify :: "'s server_object \<Rightarrow> 's server_object" where
  "ob_notify b = b\<lparr>ob_notifying := False, ob_misused := ob_misused b \<or> \<not> ob_alive b\<rparr>"

text \<open>The destructor up to the wait of \<^verbatim>\<open>stop\<close>, and its end.\<close>

definition DestroyServer :: "('s \<Rightarrow> 's) \<Rightarrow> 's server_object \<Rightarrow> 's server_object" where
  "DestroyServer signal b = b\<lparr>ob_server := signal (ob_server b), ob_destroying := True\<rparr>"

definition ob_release :: "'s server_object \<Rightarrow> 's server_object" where
  "ob_release b = b\<lparr>ob_alive := False\<rparr>"

text \<open>
  \<open>step\<close> are the steps of the server, of which the one that ends a run leaves the notification to
  do.  A \<open>careful\<close> gateway destroys the object when the call of \<^verbatim>\<open>start\<close> has returned and
  does not start it again.
\<close>

inductive ob_step ::
  "bool \<Rightarrow> ('s \<Rightarrow> 's \<Rightarrow> bool) \<Rightarrow> ('s \<Rightarrow> bool) \<Rightarrow> ('s \<Rightarrow> 's) \<Rightarrow> 's server_object \<Rightarrow> 's server_object \<Rightarrow> bool"
  for careful step running signal where
  ob_other: "ob_alive b \<Longrightarrow> step (ob_server b) s \<Longrightarrow> (running (ob_server b) \<longrightarrow> running s) \<Longrightarrow>
     (careful \<and> ob_destroying b \<longrightarrow> \<not> running s) \<Longrightarrow>
     ob_step careful step running signal b (b\<lparr>ob_server := s\<rparr>)"
| ob_finish: "ob_alive b \<Longrightarrow> step (ob_server b) s \<Longrightarrow> running (ob_server b) \<Longrightarrow> \<not> running s \<Longrightarrow>
     ob_step careful step running signal b (b\<lparr>ob_server := s, ob_notifying := True\<rparr>)"
| ob_notified: "ob_notifying b \<Longrightarrow> ob_step careful step running signal b (ob_notify b)"
| ob_destroy: "ob_alive b \<Longrightarrow> \<not> ob_destroying b \<Longrightarrow>
     (careful \<longrightarrow> \<not> running (ob_server b) \<and> \<not> ob_notifying b) \<Longrightarrow>
     ob_step careful step running signal b (DestroyServer signal b)"
| ob_released: "ob_alive b \<Longrightarrow> ob_destroying b \<Longrightarrow> \<not> running (ob_server b) \<Longrightarrow>
     ob_step careful step running signal b (ob_release b)"

section \<open>The contract\<close>

locale destroyed_server =
  fixes step :: "'s \<Rightarrow> 's \<Rightarrow> bool"
    and running :: "'s \<Rightarrow> bool"
    and signal :: "'s \<Rightarrow> 's"
    and new :: 's
  assumes signal_running: "running (signal s) = running s"
    and a_run_ends: "\<exists>s t. reaches step new s \<and> running s \<and> step s t \<and> \<not> running t"
begin

definition ob_inv :: "'s server_object \<Rightarrow> bool" where
  "ob_inv b \<longleftrightarrow> \<not> ob_misused b \<and> (ob_alive b \<or> ob_destroying b) \<and>
     (ob_destroying b \<longrightarrow> \<not> running (ob_server b) \<and> \<not> ob_notifying b)"

lemma careful_safe:
  assumes "reaches (ob_step True step running signal) (CreateServer new) b"
  shows "\<not> ob_misused b"
proof -
  have "ob_inv b"
    using assms
  proof (rule reaches_invariant)
    show "ob_inv (CreateServer new)" by (simp add: ob_inv_def CreateServer_def)
  next
    fix a b
    assume inv: "ob_inv a" and "ob_step True step running signal a b"
    from this(2) show "ob_inv b"
      by cases (use inv in \<open>auto simp: ob_inv_def ob_notify_def DestroyServer_def ob_release_def signal_running\<close>)
  qed
  then show ?thesis by (simp add: ob_inv_def)
qed

lemma lift_run:
  assumes "reaches step n s"
  shows "\<exists>b. reaches (ob_step c step running signal) (CreateServer n) b \<and> ob_server b = s \<and>
    ob_alive b \<and> \<not> ob_destroying b \<and> \<not> ob_misused b"
  using assms
proof (induction rule: reaches.induct)
  case (reaches_refl n)
  then show ?case
    by (intro exI [of _ "CreateServer n"]) (simp add: CreateServer_def reaches.reaches_refl)
next
  case (reaches_step n s t)
  then obtain b where b: "reaches (ob_step c step running signal) (CreateServer n) b"
    "ob_server b = s" "ob_alive b" "\<not> ob_destroying b" "\<not> ob_misused b" by blast
  show ?case
  proof (cases "running s \<and> \<not> running t")
    case True
    with b reaches_step.hyps have "ob_step c step running signal b (b\<lparr>ob_server := t, ob_notifying := True\<rparr>)"
      by (intro ob_finish) auto
    with b show ?thesis
      by (intro exI [of _ "b\<lparr>ob_server := t, ob_notifying := True\<rparr>"]) (auto intro: reaches.reaches_step)
  next
    case False
    with b reaches_step.hyps have "ob_step c step running signal b (b\<lparr>ob_server := t\<rparr>)"
      by (intro ob_other) auto
    with b show ?thesis
      by (intro exI [of _ "b\<lparr>ob_server := t\<rparr>"]) (auto intro: reaches.reaches_step)
  qed
qed

text \<open>A destruction between the last critical section and the notification.\<close>

lemma careless_misused:
  "\<exists>b. reaches (ob_step False step running signal) (CreateServer new) b \<and> ob_misused b"
proof -
  let ?step = "ob_step False step running signal"
  from a_run_ends obtain s t where run: "reaches step new s" "running s" "step s t" "\<not> running t" by blast
  from lift_run [OF run(1)] obtain b where b: "reaches ?step (CreateServer new) b" "ob_server b = s"
    "ob_alive b" "\<not> ob_destroying b" by blast
  define b1 where "b1 = b\<lparr>ob_server := t, ob_notifying := True\<rparr>"
  define b2 where "b2 = DestroyServer signal b1"
  define b3 where "b3 = ob_release b2"
  define b4 where "b4 = ob_notify b3"
  have "?step b b1" unfolding b1_def using b run by (intro ob_finish) auto
  moreover have "?step b1 b2" unfolding b2_def using b by (intro ob_destroy) (auto simp: b1_def)
  moreover have "?step b2 b3"
    unfolding b3_def using b run
    by (intro ob_released) (auto simp: b2_def b1_def DestroyServer_def signal_running)
  moreover have "?step b3 b4"
    unfolding b4_def by (intro ob_notified) (simp add: b3_def b2_def b1_def DestroyServer_def ob_release_def)
  ultimately have "reaches ?step (CreateServer new) b4" using b(1) by (blast intro: reaches_step)
  moreover have "ob_misused b4" by (simp add: b4_def b3_def ob_notify_def ob_release_def)
  ultimately show ?thesis by blast
qed

end

definition sqs_object_step :: "bool \<Rightarrow> sqs_server server_object \<Rightarrow> sqs_server server_object \<Rightarrow> bool" where
  "sqs_object_step careful = ob_step careful sv_step sv_running stop_signal"

definition pubsub_object_step :: "bool \<Rightarrow> pubsub_server server_object \<Rightarrow> pubsub_server server_object \<Rightarrow> bool" where
  "pubsub_object_step careful = ob_step careful pv_step pv_running ps_stop_signal"

interpretation sqs_end: destroyed_server sv_step sv_running stop_signal new_SqsServer
proof
  show "sv_running (stop_signal s) = sv_running s" for s by (simp add: stop_signal_def)
  define s1 where "s1 = start_publish new_SqsServer"
  define s2 where "s2 = start_copy s1"
  define s3 where "s3 = start_client s2"
  note defs = s3_def s2_def s1_def sv_ops new_SqsServer_def
  have "sv_step new_SqsServer s1" unfolding s1_def by (rule sv_start)
  moreover have "sv_step s1 s2" unfolding s2_def by (intro sv_own_step own_copy) (simp add: defs)
  moreover have "sv_step s2 s3" unfolding s3_def by (intro sv_own_step own_client) (simp add: defs)
  ultimately have r: "reaches sv_step new_SqsServer s3" by (blast intro: reaches_step reaches_refl)
  have s3: "sv_phase s3 = SvFinish" "sv_running s3"
    by (simp_all add: defs sqs_ValidateServerConfig_def default_sqs_config_def rbind_def)
  then have "sv_step s3 (start_finish s3)" by (intro sv_own_step own_finish)
  with r s3 show "\<exists>s t. reaches sv_step new_SqsServer s \<and> sv_running s \<and> sv_step s t \<and> \<not> sv_running t"
    by (intro exI [of _ s3] exI [of _ "start_finish s3"]) (simp add: start_finish_def)
qed

interpretation pubsub_end: destroyed_server pv_step pv_running ps_stop_signal new_PubSubServer
proof
  show "pv_running (ps_stop_signal s) = pv_running s" for s by (simp add: ps_stop_signal_def)
  define s where "s = ps_stop_signal (ps_start_publish new_PubSubServer)"
  have "pv_step new_PubSubServer (ps_start_publish new_PubSubServer)" by (rule pv_start)
  moreover have "pv_step (ps_start_publish new_PubSubServer) s" unfolding s_def by (rule pv_signal)
  ultimately have r: "reaches pv_step new_PubSubServer s" by (blast intro: reaches_step reaches_refl)
  have "pv_running s" "pv_stopRequested s"
    by (simp_all add: s_def ps_stop_signal_def ps_start_publish_def new_PubSubServer_def)
  then obtain t where t: "reaches pv_own s t" "\<not> pv_running t"
    using pubsub_stop_ends [OF r] by blast
  have "\<exists>u v. reaches pv_own s u \<and> pv_running u \<and> pv_own u v \<and> \<not> pv_running v"
    using t \<open>pv_running s\<close> by (induction rule: reaches.induct) blast+
  then obtain u v where u: "reaches pv_own s u" "pv_running u" "pv_own u v" "\<not> pv_running v" by blast
  from u(1) have "reaches pv_step s u"
    by (induction rule: reaches.induct) (auto intro: reaches_refl reaches_step pv_own_step)
  with r u show "\<exists>s t. reaches pv_step new_PubSubServer s \<and> pv_running s \<and> pv_step s t \<and> \<not> pv_running t"
    by (blast intro: reaches_trans pv_own_step)
qed

text \<open>
  C30. The end of a server object.  When the gateway destroys an SQS or Pub/Sub server after its
  call of \<^verbatim>\<open>start\<close> has returned and does not start it again, the object is never used after
  its end.  The \<^verbatim>\<open>stop\<close> in the destructor does not make the other order safe: it can return
  between the last critical section of \<^verbatim>\<open>start\<close> and the notification, and then the
  condition variable of a destroyed object is notified.
\<close>
theorem server_end_safe:
  "(reaches (sqs_object_step True) (CreateServer new_SqsServer) b \<longrightarrow> \<not> ob_misused b) \<and>
   (reaches (pubsub_object_step True) (CreateServer new_PubSubServer) b' \<longrightarrow> \<not> ob_misused b') \<and>
   (\<exists>b. reaches (sqs_object_step False) (CreateServer new_SqsServer) b \<and> ob_misused b) \<and>
   (\<exists>b. reaches (pubsub_object_step False) (CreateServer new_PubSubServer) b \<and> ob_misused b)"
  unfolding sqs_object_step_def pubsub_object_step_def
  using sqs_end.careful_safe pubsub_end.careful_safe sqs_end.careless_misused pubsub_end.careless_misused
  by blast

lemma server_end_safe_witness:
  "\<not> ob_misused (ob_release (DestroyServer stop_signal (CreateServer new_SqsServer)))"
proof -
  let ?b = "CreateServer new_SqsServer"
  have "sqs_object_step True ?b (DestroyServer stop_signal ?b)"
    unfolding sqs_object_step_def by (intro ob_destroy) (simp_all add: CreateServer_def new_SqsServer_def)
  moreover have "sqs_object_step True (DestroyServer stop_signal ?b) (ob_release (DestroyServer stop_signal ?b))"
    unfolding sqs_object_step_def
    by (intro ob_released) (simp_all add: DestroyServer_def CreateServer_def new_SqsServer_def stop_signal_def)
  ultimately have "reaches (sqs_object_step True) ?b (ob_release (DestroyServer stop_signal ?b))"
    by (blast intro: reaches_step reaches_refl)
  then show ?thesis using server_end_safe by blast
qed

end
