(* ===== verification/ServerSleep.thy ===== *)
theory ServerSleep
  imports Prelude
begin

text \<open>
  \<^verbatim>\<open>SleepUnlessStopped\<close> of the SQS and Pub/Sub servers: a sleep in short steps that a stop
  request ends early.  Times are milliseconds of the steady clock; \<open>stop\<close> is the flag as it reads
  at a time, and \<open>late\<close> is by how much the sleep that begins at a time overruns its step.
\<close>

function sleep_until :: "nat \<Rightarrow> (nat \<Rightarrow> bool) \<Rightarrow> (nat \<Rightarrow> nat) \<Rightarrow> nat \<Rightarrow> nat \<Rightarrow> nat" where
  "sleep_until step stop late deadline now =
     (if stop now \<or> deadline \<le> now \<or> step = 0 then now
      else sleep_until step stop late deadline (now + step + late now))"
  by pat_completeness auto
termination
  by (relation "measure (\<lambda>(step, stop, late, deadline, now). deadline - now)") auto

declare sleep_until.simps [simp del]

text \<open>The step is 100 milliseconds in \<^verbatim>\<open>SqsServer.cpp\<close> and 50 in \<^verbatim>\<open>PubSubServer.cpp\<close>.\<close>

definition sqs_SleepUnlessStopped :: "(nat \<Rightarrow> bool) \<Rightarrow> (nat \<Rightarrow> nat) \<Rightarrow> nat \<Rightarrow> nat \<Rightarrow> nat" where
  "sqs_SleepUnlessStopped stop late duration now = sleep_until 100 stop late (now + duration) now"

definition pubsub_SleepUnlessStopped :: "(nat \<Rightarrow> bool) \<Rightarrow> (nat \<Rightarrow> nat) \<Rightarrow> nat \<Rightarrow> nat \<Rightarrow> nat" where
  "pubsub_SleepUnlessStopped stop late duration now = sleep_until 50 stop late (now + duration) now"

lemma sleep_until_ends:
  assumes "0 < step"
  shows "now \<le> sleep_until step stop late deadline now \<and>
    (stop (sleep_until step stop late deadline now) \<or> deadline \<le> sleep_until step stop late deadline now)"
  using assms
proof (induction step stop late deadline now rule: sleep_until.induct)
  case (1 step stop late deadline now)
  then show ?case by (subst (1 2 3) sleep_until.simps) auto
qed

text \<open>The last step may begin just before the given time.\<close>

lemma sleep_until_bound:
  assumes "\<And>t. late t \<le> slack" "\<And>t. limit \<le> t \<Longrightarrow> stop t \<or> deadline \<le> t"
  shows "sleep_until step stop late deadline now \<le> max now (limit + step + slack)"
  using assms
proof (induction step stop late deadline now rule: sleep_until.induct)
  case (1 step stop late deadline now)
  show ?case
  proof (cases "stop now \<or> deadline \<le> now \<or> step = 0")
    case True
    then show ?thesis by (simp add: sleep_until.simps [of step])
  next
    case False
    then have "now < limit" using "1.prems"(2) by (meson not_le)
    moreover have "late now \<le> slack" by (rule "1.prems"(1))
    ultimately have "max (now + step + late now) (limit + step + slack) = limit + step + slack" by simp
    with "1.IH" [OF False "1.prems"] False show ?thesis by (simp add: sleep_until.simps [of step _ _ _ now])
  qed
qed

text \<open>
  C1. A sleeping server wakes up.  The sleep of the SQS and the Pub/Sub server ends for every clock
  and every stop flag, not before its duration is over or a stop was seen; it overruns its duration
  by at most one step and the lateness of the scheduler, and when a stop is requested at some time
  it ends within one step and that lateness after it.
\<close>
theorem sleep_unless_stopped:
  assumes "\<And>t. late t \<le> slack" "\<And>t. asked \<le> t \<Longrightarrow> stop t"
  shows "(let r = sqs_SleepUnlessStopped stop late duration now in
      now \<le> r \<and> (stop r \<or> now + duration \<le> r) \<and>
      r \<le> now + duration + 100 + slack \<and> r \<le> max now (asked + 100 + slack)) \<and>
    (let r = pubsub_SleepUnlessStopped stop late duration now in
      now \<le> r \<and> (stop r \<or> now + duration \<le> r) \<and>
      r \<le> now + duration + 50 + slack \<and> r \<le> max now (asked + 50 + slack))"
proof -
  let ?r = "\<lambda>step. sleep_until step stop late (now + duration) now"
  have "now \<le> ?r step \<and> (stop (?r step) \<or> now + duration \<le> ?r step) \<and>
      ?r step \<le> now + duration + step + slack \<and> ?r step \<le> max now (asked + step + slack)"
    if "0 < step" for step
  proof -
    have "?r step \<le> max now (now + duration + step + slack)"
      using assms(1) by (rule sleep_until_bound) simp
    moreover have "?r step \<le> max now (asked + step + slack)"
      using assms(1) by (rule sleep_until_bound) (use assms(2) in blast)
    ultimately show ?thesis using sleep_until_ends [OF that, of now stop late "now + duration"] by simp
  qed
  from this [of 100] this [of 50] show ?thesis
    by (simp add: sqs_SleepUnlessStopped_def pubsub_SleepUnlessStopped_def Let_def)
qed

lemma sleep_unless_stopped_witness:
  "sqs_SleepUnlessStopped (\<lambda>t. 250 \<le> t) (\<lambda>_. 3) 2000 0 \<le> 353 \<and>
   pubsub_SleepUnlessStopped (\<lambda>t. 250 \<le> t) (\<lambda>_. 3) 2000 0 \<le> 303"
proof -
  have "(\<lambda>_. 3) t \<le> (3 :: nat)" "250 \<le> t \<Longrightarrow> (\<lambda>t. 250 \<le> t) t" for t :: nat by simp_all
  from sleep_unless_stopped [of "\<lambda>_. 3" 3 250 "\<lambda>t. 250 \<le> t" 2000 0, OF this]
  show ?thesis by (simp add: Let_def)
qed

end
