(* ===== verification/GlobalStop.thy ===== *)
theory GlobalStop
  imports Lifecycle
begin

text \<open>
  The stop flag of the RabbitMQ and Service Bus servers is one variable of the whole process
  (\<^verbatim>\<open>g_stopRequested\<close>): \<^verbatim>\<open>start\<close> of any server object clears it before anything else,
  and \<^verbatim>\<open>stop\<close> of any server object sets it.  (\<^verbatim>\<open>RabbitMqServer.cpp\<close>,
  \<^verbatim>\<open>ServiceBusServer.cpp\<close>.)
\<close>

section \<open>Server objects of one process\<close>

text \<open>
  Where the thread of a server object is: outside \<^verbatim>\<open>start\<close>, in it but before the flag is
  cleared, or in the loop.  \<open>gs_asked\<close> are the objects whose \<^verbatim>\<open>stop\<close> was called since their
  \<^verbatim>\<open>start\<close> was called and that have not returned from it.
\<close>

datatype gs_phase = GsOut | GsEntered | GsLoop

record gs_process =
  gs_stopRequested :: bool
  gs_phase :: "nat \<Rightarrow> gs_phase"
  gs_asked :: "nat list"

definition gs_init :: gs_process where
  "gs_init = \<lparr>gs_stopRequested = False, gs_phase = (\<lambda>_. GsOut), gs_asked = []\<rparr>"

text \<open>The call of \<^verbatim>\<open>start\<close>, its first statement, the loop test that ends it.\<close>

definition gs_enter :: "nat \<Rightarrow> gs_process \<Rightarrow> gs_process" where
  "gs_enter i s = s\<lparr>gs_phase := (gs_phase s)(i := GsEntered)\<rparr>"

definition gs_clear :: "nat \<Rightarrow> gs_process \<Rightarrow> gs_process" where
  "gs_clear i s = s\<lparr>gs_stopRequested := False, gs_phase := (gs_phase s)(i := GsLoop)\<rparr>"

definition gs_shouldStop :: "gs_process \<Rightarrow> bool" where
  "gs_shouldStop s = gs_stopRequested s"

definition gs_leave :: "nat \<Rightarrow> gs_process \<Rightarrow> gs_process" where
  "gs_leave i s =
     s\<lparr>gs_phase := (gs_phase s)(i := GsOut), gs_asked := filter (\<lambda>j. j \<noteq> i) (gs_asked s)\<rparr>"

text \<open>\<^verbatim>\<open>stop\<close> of the object \<open>i\<close>.\<close>

definition gs_stop :: "nat \<Rightarrow> gs_process \<Rightarrow> gs_process" where
  "gs_stop i s =
     s\<lparr>gs_stopRequested := True,
       gs_asked := (if gs_phase s i = GsOut then gs_asked s else i # gs_asked s)\<rparr>"

text \<open>
  The steps.  A \<open>careful\<close> gateway waits between its calls: it lets no \<^verbatim>\<open>start\<close> begin while
  a stop is outstanding, and stops an object only when its \<^verbatim>\<open>start\<close> is past its first
  statement and no other one is before it.
\<close>

definition gs_settled :: "gs_process \<Rightarrow> bool" where
  "gs_settled s \<longleftrightarrow> (\<forall>j. gs_phase s j \<noteq> GsEntered)"

inductive gs_step :: "bool \<Rightarrow> gs_process \<Rightarrow> gs_process \<Rightarrow> bool" for careful where
  gs_start_called: "gs_phase s i = GsOut \<Longrightarrow> \<not> (careful \<and> gs_asked s \<noteq> []) \<Longrightarrow>
     gs_step careful s (gs_enter i s)"
| gs_flag_cleared: "gs_phase s i = GsEntered \<Longrightarrow> gs_step careful s (gs_clear i s)"
| gs_loop_turn: "gs_phase s i = GsLoop \<Longrightarrow> \<not> gs_shouldStop s \<Longrightarrow> gs_step careful s s"
| gs_loop_left: "gs_phase s i = GsLoop \<Longrightarrow> gs_shouldStop s \<Longrightarrow> gs_step careful s (gs_leave i s)"
| gs_stop_called: "\<not> (careful \<and> \<not> gs_settled s) \<Longrightarrow> gs_step careful s (gs_stop i s)"

text \<open>What the threads that serve do by themselves, for an object that was asked to stop.\<close>

inductive gs_own :: "gs_process \<Rightarrow> gs_process \<Rightarrow> bool" where
  gs_own_left: "gs_phase s i = GsLoop \<Longrightarrow> gs_shouldStop s \<Longrightarrow> i \<in> set (gs_asked s) \<Longrightarrow>
     gs_own s (gs_leave i s)"

text \<open>A stop that was called and that nothing will remind the object of.\<close>

definition gs_lost :: "nat \<Rightarrow> gs_process \<Rightarrow> bool" where
  "gs_lost i s \<longleftrightarrow> i \<in> set (gs_asked s) \<and> gs_phase s i = GsLoop \<and> \<not> gs_stopRequested s"

section \<open>A careful gateway\<close>

definition gs_inv :: "gs_process \<Rightarrow> bool" where
  "gs_inv s \<longleftrightarrow> (gs_asked s \<noteq> [] \<longrightarrow> gs_stopRequested s \<and> gs_settled s) \<and>
     (\<forall>i \<in> set (gs_asked s). gs_phase s i = GsLoop)"

lemma gs_inv_init: "gs_inv gs_init"
  by (simp add: gs_inv_def gs_init_def)

lemma gs_inv_step: "gs_step True s t \<Longrightarrow> gs_inv s \<Longrightarrow> gs_inv t"
proof (induction rule: gs_step.induct)
  case (gs_start_called s i)
  then show ?case by (auto simp: gs_inv_def gs_enter_def)
next
  case (gs_flag_cleared s i)
  then show ?case by (auto simp: gs_inv_def gs_clear_def gs_settled_def)
next
  case (gs_loop_turn s i)
  then show ?case by simp
next
  case (gs_loop_left s i)
  then show ?case by (auto simp: gs_inv_def gs_leave_def gs_settled_def)
next
  case (gs_stop_called s i)
  then show ?case by (cases "gs_phase s i") (auto simp: gs_inv_def gs_stop_def gs_settled_def)
qed

lemma gs_reachable_inv: "reaches (gs_step True) gs_init s \<Longrightarrow> gs_inv s"
  by (erule reaches_invariant) (auto intro: gs_inv_init gs_inv_step)

text \<open>
  The threads that were asked to stop are a server in the sense of \<open>stoppable\<close>: the reachable
  states of a careful gateway keep their requests.
\<close>

lemma length_filter_less: "i \<in> set xs \<Longrightarrow> length (filter (\<lambda>j. j \<noteq> i) xs) < length xs"
  by (induction xs) (auto simp: less_Suc_eq_le)

interpretation gs_stoppable: stoppable
  "\<lambda>s t. gs_inv s \<and> gs_step True s t" "\<lambda>s t. gs_inv s \<and> gs_own s t"
  "\<lambda>s. gs_inv s \<and> gs_asked s \<noteq> []" gs_stopRequested "\<lambda>s. length (gs_asked s)"
proof
  fix s t assume "gs_inv s \<and> gs_own s t"
  then show "gs_inv s \<and> gs_step True s t" by (auto elim: gs_own.cases intro: gs_step.intros)
next
  fix s t assume "gs_inv s \<and> gs_step True s t" "gs_inv t \<and> gs_asked t \<noteq> []"
  then show "gs_stopRequested t" by (simp add: gs_inv_def)
next
  fix s assume s: "gs_inv s \<and> gs_asked s \<noteq> []" "gs_stopRequested s"
  then obtain i where "i \<in> set (gs_asked s)" by (cases "gs_asked s") auto
  with s have "gs_own s (gs_leave i s)"
    by (auto simp: gs_inv_def gs_shouldStop_def intro!: gs_own_left)
  with s show "\<exists>t. gs_inv s \<and> gs_own s t" by blast
next
  fix s t assume "gs_inv s \<and> gs_own s t"
  then show "length (gs_asked t) < length (gs_asked s)"
    by (auto elim!: gs_own.cases simp: gs_leave_def length_filter_less)
qed

lemma gs_careful_stops:
  assumes "reaches (gs_step True) gs_init s"
  shows "\<not> gs_lost i s"
    and "gs_asked s \<noteq> [] \<Longrightarrow> \<exists>t. reaches (\<lambda>s t. gs_inv s \<and> gs_own s t) s t \<and> gs_asked t = []"
proof -
  have inv: "gs_inv s" by (rule gs_reachable_inv [OF assms])
  then show "\<not> gs_lost i s" by (auto simp: gs_inv_def gs_lost_def)
  assume asked: "gs_asked s \<noteq> []"
  with inv obtain t where t: "reaches (\<lambda>s t. gs_inv s \<and> gs_own s t) s t" "\<not> (gs_inv t \<and> gs_asked t \<noteq> [])"
    using gs_stoppable.stops [of s] by (auto simp: gs_inv_def)
  have "gs_inv t"
    using t(1) inv
    by (rule reaches_invariant) (auto elim!: gs_own.cases intro: gs_inv_step gs_loop_left)
  with t show "\<exists>t. reaches (\<lambda>s t. gs_inv s \<and> gs_own s t) s t \<and> gs_asked t = []" by blast
qed

lemma gs_lost_by_start:
  "\<exists>s. reaches (gs_step False) gs_init s \<and> gs_lost 0 s \<and> (\<forall>j. j \<noteq> 0 \<longrightarrow> gs_phase s j = GsOut)"
proof -
  define s1 where "s1 = gs_enter 0 gs_init"
  define s2 where "s2 = gs_stop 0 s1"
  define s3 where "s3 = gs_clear 0 s2"
  note defs = s3_def s2_def s1_def gs_enter_def gs_stop_def gs_clear_def gs_init_def gs_lost_def
  have "gs_step False gs_init s1" unfolding s1_def by (rule gs_start_called) (simp_all add: defs)
  moreover have "gs_step False s1 s2" unfolding s2_def by (rule gs_stop_called) simp
  moreover have "gs_step False s2 s3" unfolding s3_def by (rule gs_flag_cleared) (simp add: defs)
  ultimately have "reaches (gs_step False) gs_init s3" by (blast intro: reaches_step reaches_refl)
  then show ?thesis by (intro exI [of _ s3]) (simp add: defs)
qed

lemma gs_lost_by_other:
  "\<exists>s. reaches (gs_step False) (gs_clear 0 (gs_enter 0 gs_init)) s \<and> gs_lost 0 s \<and> gs_asked s = [0]"
proof -
  define s0 where "s0 = gs_clear 0 (gs_enter 0 gs_init)"
  define s1 where "s1 = gs_stop 0 s0"
  define s2 where "s2 = gs_enter 1 s1"
  define s3 where "s3 = gs_clear 1 s2"
  note defs = s3_def s2_def s1_def s0_def gs_enter_def gs_stop_def gs_clear_def gs_init_def gs_lost_def
  have "gs_step False s0 s1" unfolding s1_def by (rule gs_stop_called) simp
  moreover have "gs_step False s1 s2" unfolding s2_def by (rule gs_start_called) (simp_all add: defs)
  moreover have "gs_step False s2 s3" unfolding s3_def by (rule gs_flag_cleared) (simp add: defs)
  ultimately have "reaches (gs_step False) s0 s3" by (blast intro: reaches_step reaches_refl)
  then show ?thesis unfolding s0_def [symmetric] by (intro exI [of _ s3]) (simp add: defs)
qed

text \<open>
  C27. Stop requests of RabbitMQ and Service Bus servers.  When the gateway lets no \<^verbatim>\<open>start\<close>
  begin while a stop is outstanding and stops an object only when all that were started are past
  the first statement of \<^verbatim>\<open>start\<close>, no request is lost, and the asked threads can all leave
  their loops.  Otherwise requests get lost: a \<^verbatim>\<open>start\<close> forgets a stop that came just before
  its first statement, and because the flag is shared, the \<^verbatim>\<open>start\<close> of one object makes
  another one that was asked to stop serve on.
\<close>
theorem global_stop_requests:
  "(reaches (gs_step True) gs_init s \<longrightarrow>
      (\<forall>i. \<not> gs_lost i s) \<and>
      (gs_asked s \<noteq> [] \<longrightarrow> (\<exists>t. reaches (\<lambda>s t. gs_inv s \<and> gs_own s t) s t \<and> gs_asked t = []))) \<and>
   (\<exists>s. reaches (gs_step False) gs_init s \<and> gs_lost 0 s \<and> (\<forall>j. j \<noteq> 0 \<longrightarrow> gs_phase s j = GsOut)) \<and>
   (\<exists>s. reaches (gs_step False) (gs_clear 0 (gs_enter 0 gs_init)) s \<and> gs_lost 0 s \<and> gs_asked s = [0])"
  using gs_careful_stops gs_lost_by_start gs_lost_by_other by blast

lemma global_stop_requests_witness:
  "\<exists>s. reaches (gs_step True) gs_init s \<and> gs_asked s \<noteq> [] \<and>
     (\<exists>t. reaches (\<lambda>s t. gs_inv s \<and> gs_own s t) s t \<and> gs_asked t = [])"
proof -
  define s1 where "s1 = gs_enter 0 gs_init"
  define s2 where "s2 = gs_clear 0 s1"
  define s3 where "s3 = gs_stop 0 s2"
  note defs = s3_def s2_def s1_def gs_enter_def gs_stop_def gs_clear_def gs_init_def gs_settled_def
  have "gs_step True gs_init s1" unfolding s1_def by (rule gs_start_called) (simp_all add: defs)
  moreover have "gs_step True s1 s2" unfolding s2_def by (rule gs_flag_cleared) (simp add: defs)
  moreover have "gs_step True s2 s3" unfolding s3_def by (rule gs_stop_called) (simp add: defs)
  ultimately have "reaches (gs_step True) gs_init s3" by (blast intro: reaches_step reaches_refl)
  moreover have "gs_asked s3 \<noteq> []" by (simp add: defs)
  ultimately show ?thesis using global_stop_requests [of s3] by blast
qed

end
