(* ===== verification/SocketIo.thy ===== *)
theory SocketIo
  imports RabbitMqServer
begin

text \<open>
  How the RabbitMQ client and server wait for a socket and read from it
  (\<^verbatim>\<open>WaitForSocketReadable\<close>, \<^verbatim>\<open>IsWouldBlockError\<close> and the calls of \<^verbatim>\<open>recv\<close>,
  POSIX branch): the answers of \<^verbatim>\<open>select\<close> and \<^verbatim>\<open>recv\<close> that become the turns of the
  loops in \<open>RabbitMqClient\<close> and \<open>RabbitMqServer\<close>.
\<close>

section \<open>Waiting\<close>

datatype WaitStatus = Readable | Timeout | WaitError

record timeval =
  tv_sec :: int
  tv_usec :: int

text \<open>
  An \<^verbatim>\<open>fd_set\<close> holds the descriptors below \<^verbatim>\<open>FD_SETSIZE\<close>; \<^verbatim>\<open>FD_SET\<close> of
  any other descriptor writes outside the set, which is undefined (\<open>None\<close>).
\<close>

definition FD_SETSIZE :: int where "FD_SETSIZE = 1024"

definition FD_SET :: "int \<Rightarrow> int set \<Rightarrow> int set option" where
  "FD_SET fd s = (if 0 \<le> fd \<and> fd < FD_SETSIZE then Some (insert fd s) else None)"

text \<open>C's division and remainder truncate towards zero.\<close>

definition timeval_of_ms :: "int \<Rightarrow> timeval" where
  "timeval_of_ms timeoutMs =
     \<lparr>tv_sec = sgn timeoutMs * (\<bar>timeoutMs\<bar> div 1000),
      tv_usec = sgn timeoutMs * (\<bar>timeoutMs\<bar> mod 1000) * 1000\<rparr>"

text \<open>
  \<open>select nfds readSet timeout\<close> is the call: its result and the set it leaves behind.
\<close>

type_synonym select_fn = "int \<Rightarrow> int set \<Rightarrow> timeval \<Rightarrow> int \<times> int set"

definition WaitForSocketReadable :: "select_fn \<Rightarrow> int \<Rightarrow> int \<Rightarrow> WaitStatus option" where
  "WaitForSocketReadable select socket timeoutMs =
     (case FD_SET socket {} of
        None \<Rightarrow> None
      | Some readSet \<Rightarrow>
          (case select (socket + 1) readSet (timeval_of_ms timeoutMs) of
             (result, ready) \<Rightarrow>
               Some (if result > 0 \<and> socket \<in> ready then Readable
                     else if result = 0 then Timeout
                     else WaitError)))"

section \<open>Reading\<close>

datatype errno = EWOULDBLOCK | EAGAIN | EINTR | Errno string

fun isWouldBlockError :: "errno \<Rightarrow> bool" where
  "isWouldBlockError (Errno _) = False"
| "isWouldBlockError _ = True"

text \<open>What \<^verbatim>\<open>recv\<close> answers: bytes (none at the end of the stream) or an error.\<close>

type_synonym recv_result = "errno + bytes"

fun recv_turn :: "recv_result \<Rightarrow> io_turn" where
  "recv_turn (Inr []) = IoEof"
| "recv_turn (Inr chunk) = IoRead chunk"
| "recv_turn (Inl e) = (if isWouldBlockError e then IoWouldBlock else IoReadFailed)"

definition socket_turn :: "WaitStatus option \<Rightarrow> recv_result \<Rightarrow> io_turn option" where
  "socket_turn status received =
     (case status of
        None \<Rightarrow> None
      | Some Readable \<Rightarrow> Some (recv_turn received)
      | Some Timeout \<Rightarrow> Some IoTimeout
      | Some WaitError \<Rightarrow> Some IoSelectError)"

text \<open>The server has its own copy of the wait.\<close>

definition server_waitForSocketReadable :: "select_fn \<Rightarrow> int \<Rightarrow> int \<Rightarrow> WaitStatus option" where
  "server_waitForSocketReadable = WaitForSocketReadable"

text \<open>The client polls every 200 milliseconds, the server every second.\<close>

definition client_socket_turn :: "select_fn \<Rightarrow> recv_result \<Rightarrow> int \<Rightarrow> io_turn option" where
  "client_socket_turn select received socket =
     socket_turn (WaitForSocketReadable select socket 200) received"

definition server_socket_turn :: "select_fn \<Rightarrow> recv_result \<Rightarrow> int \<Rightarrow> io_turn option" where
  "server_socket_turn select received socket =
     socket_turn (server_waitForSocketReadable select socket 1000) received"

text \<open>The documented answers of \<^verbatim>\<open>select\<close> for one descriptor.\<close>

definition select_documented :: "select_fn \<Rightarrow> bool" where
  "select_documented select \<longleftrightarrow>
     (\<forall>n s t. case select n s t of (result, ready) \<Rightarrow>
        (result = -1 \<or> result = int (card ready) \<and> ready \<subseteq> s))"

section \<open>The handler of the client\<close>

text \<open>\<^verbatim>\<open>RuntimeState\<close> and the handler's callbacks, which only set its flags.\<close>

record runtime_state =
  ru_connectionReady :: bool
  ru_connectionClosed :: bool
  ru_connectionError :: bool

definition handler_onReady :: "runtime_state \<Rightarrow> runtime_state" where
  "handler_onReady s = s\<lparr>ru_connectionReady := True\<rparr>"

definition handler_onError :: "string option \<Rightarrow> runtime_state \<Rightarrow> runtime_state" where
  "handler_onError message s = s\<lparr>ru_connectionError := True\<rparr>"

definition handler_onClosed :: "runtime_state \<Rightarrow> runtime_state" where
  "handler_onClosed s = s\<lparr>ru_connectionClosed := True\<rparr>"

definition link_runtime :: "bool \<Rightarrow> rabbit_link \<Rightarrow> runtime_state" where
  "link_runtime ready l =
    \<lparr>ru_connectionReady = ready, ru_connectionClosed = rl_connectionClosed l,
     ru_connectionError = rl_connectionError l\<rparr>"

text \<open>The events of the link are these callbacks.\<close>

lemma handler_events:
  "link_runtime ready (fst (on_event HandlerError l)) = handler_onError m (link_runtime ready l)"
  "link_runtime ready (fst (on_event HandlerClosed l)) = handler_onClosed (link_runtime ready l)"
  "link_runtime True l = handler_onReady (link_runtime ready l)"
  by (simp_all add: link_runtime_def handler_onError_def handler_onClosed_def handler_onReady_def)

section \<open>Properties\<close>

lemma timeval_of_ms_exact:
  assumes "0 \<le> ms"
  shows "0 \<le> tv_usec (timeval_of_ms ms) \<and> tv_usec (timeval_of_ms ms) < 1000000 \<and>
    tv_sec (timeval_of_ms ms) * 1000000 + tv_usec (timeval_of_ms ms) = ms * 1000"
proof (cases "ms = 0")
  case False
  with assms have "sgn ms = 1" by simp
  moreover have "ms mod 1000 < 1000" "0 \<le> ms mod 1000" by simp_all
  moreover have "ms div 1000 * 1000000 + ms mod 1000 * 1000 = ms * 1000" by presburger
  ultimately show ?thesis using assms by (simp add: timeval_of_ms_def)
qed (simp add: timeval_of_ms_def)

lemma socket_turn_defined:
  "socket_turn (WaitForSocketReadable select socket ms) received \<noteq> None \<longleftrightarrow>
     0 \<le> socket \<and> socket < FD_SETSIZE"
  by (auto simp: socket_turn_def WaitForSocketReadable_def FD_SET_def
      split: option.splits WaitStatus.splits prod.splits)

lemma socket_turn_cases:
  assumes "0 \<le> socket" "socket < FD_SETSIZE" "select_documented select"
    and "select (socket + 1) {socket} (timeval_of_ms ms) = (result, ready)"
  shows "socket_turn (WaitForSocketReadable select socket ms) received =
    Some (if result = -1 then IoSelectError else if result = 0 then IoTimeout else recv_turn received)"
proof -
  have doc: "result = -1 \<or> result = int (card ready) \<and> ready \<subseteq> {socket}"
    using assms(3) [unfolded select_documented_def, rule_format, where n = "socket + 1" and s = "{socket}" and t = "timeval_of_ms ms"]
      assms(4)
    by simp
  then have "result = -1 \<or> result = 0 \<and> ready = {} \<or> result = 1 \<and> ready = {socket}"
    by (auto simp: subset_singleton_iff)
  with assms show ?thesis
    by (auto simp: socket_turn_def WaitForSocketReadable_def FD_SET_def)
qed

text \<open>
  C32. Waiting for the broker's bytes.  In the client and in the server the wait is defined exactly
  for descriptors below \<^verbatim>\<open>FD_SETSIZE\<close>: in a process with more open files it writes outside
  the set.  Where it is defined, the timeouts it passes are exact and well formed, a timeout changes
  nothing, what arrives is parsed, and an interrupted \<^verbatim>\<open>recv\<close> is tried again; but an
  interrupted \<^verbatim>\<open>select\<close>, like any other failure of it, breaks the link and fails every
  waiting call, and makes the server give up its connection; a failure of \<^verbatim>\<open>select\<close> or
  \<^verbatim>\<open>recv\<close> leaves the server's loop as an exception that names the call and carries the text of
  the system's error.
\<close>
theorem socket_waits:
  assumes "select_documented select"
    and "select (socket + 1) {socket} (timeval_of_ms 200) = (result, ready)"
    and "select (socket + 1) {socket} (timeval_of_ms 1000) = (result', ready')"
    and "\<not> rl_connectionError (io_link s)" "\<not> rl_connectionClosed (io_link s)"
  shows "(client_socket_turn select received socket = None \<longleftrightarrow> socket < 0 \<or> FD_SETSIZE \<le> socket) \<and>
    (server_socket_turn select received socket = None \<longleftrightarrow> socket < 0 \<or> FD_SETSIZE \<le> socket) \<and>
    tv_sec (timeval_of_ms 200) = 0 \<and> tv_usec (timeval_of_ms 200) = 200000 \<and>
    tv_sec (timeval_of_ms 1000) = 1 \<and> tv_usec (timeval_of_ms 1000) = 0 \<and>
    (\<forall>turn. client_socket_turn select received socket = Some turn \<longrightarrow>
       (result = 0 \<longrightarrow> run_turn parse turn s = (s, [], False)) \<and>
       (result = 1 \<longrightarrow> received = Inl EINTR \<longrightarrow> run_turn parse turn s = (s, [], False)) \<and>
       (result = 1 \<longrightarrow> (\<forall>chunk. received = Inr chunk \<and> chunk \<noteq> [] \<longrightarrow> turn = IoRead chunk)) \<and>
       (result = -1 \<longrightarrow> run_turn parse turn s =
          (s\<lparr>io_link := fst (rabbit_Disconnect ''RabbitMQ: socket error'' (io_link s))\<rparr>,
           [EFailAll ''RabbitMQ: socket error''], True))) \<and>
    (\<forall>turn. server_socket_turn select received socket = Some turn \<longrightarrow>
       (result' = 0 \<or> result' = 1 \<and> received = Inl EINTR \<longrightarrow>
          serve_turn sparse publish \<lparr>tn_stop = False, tn_io = turn, tn_strerror = text,
             tn_stop_later = False, tn_callback = callback\<rparr> serving = ([], Inr (), serving, False)) \<and>
       (result' = -1 \<longrightarrow> fst (snd (serve_turn sparse publish \<lparr>tn_stop = False, tn_io = turn,
             tn_strerror = text, tn_stop_later = False, tn_callback = callback\<rparr> serving)) =
          Inl (RuntimeError (''RabbitMQ consumer: select failed ('' @ text @ '')''))) \<and>
       (result' = 1 \<longrightarrow> (\<exists>name. received = Inl (Errno name)) \<longrightarrow>
          fst (snd (serve_turn sparse publish \<lparr>tn_stop = False, tn_io = turn,
             tn_strerror = text, tn_stop_later = False, tn_callback = callback\<rparr> serving)) =
          Inl (RuntimeError (''RabbitMQ consumer: recv failed ('' @ text @ '')''))))"
proof -
  have None: "client_socket_turn select received socket = None \<longleftrightarrow> socket < 0 \<or> FD_SETSIZE \<le> socket"
    "server_socket_turn select received socket = None \<longleftrightarrow> socket < 0 \<or> FD_SETSIZE \<le> socket"
    using socket_turn_defined [of select socket 200 received] socket_turn_defined [of select socket 1000 received]
    by (auto simp: client_socket_turn_def server_socket_turn_def server_waitForSocketReadable_def)
  have turn: "turn = (if r = -1 then IoSelectError else if r = 0 then IoTimeout else recv_turn received)"
    if "socket_turn (WaitForSocketReadable select socket ms) received = Some turn"
      "select (socket + 1) {socket} (timeval_of_ms ms) = (r, x)" for turn ms r x
  proof -
    from that(1) socket_turn_defined [of select socket ms received] have "0 \<le> socket" "socket < FD_SETSIZE"
      by auto
    from socket_turn_cases [OF this assms(1) that(2)] that(1) show ?thesis by simp
  qed
  have reads: "recv_turn (Inr chunk) = IoRead chunk" if "chunk \<noteq> []" for chunk
    using that by (cases chunk) auto
  have client: "(result = 0 \<longrightarrow> run_turn parse turn s = (s, [], False)) \<and>
      (result = 1 \<longrightarrow> received = Inl EINTR \<longrightarrow> run_turn parse turn s = (s, [], False)) \<and>
      (result = 1 \<longrightarrow> (\<forall>chunk. received = Inr chunk \<and> chunk \<noteq> [] \<longrightarrow> turn = IoRead chunk)) \<and>
      (result = -1 \<longrightarrow> run_turn parse turn s =
         (s\<lparr>io_link := fst (rabbit_Disconnect ''RabbitMQ: socket error'' (io_link s))\<rparr>,
          [EFailAll ''RabbitMQ: socket error''], True))"
    if "client_socket_turn select received socket = Some turn" for turn
    using turn [OF that [unfolded client_socket_turn_def] assms(2)] assms(4,5)
    by (simp add: reads run_turn_def io_disconnect_def rabbit_Disconnect_def)
  have server: "(result' = 0 \<or> result' = 1 \<and> received = Inl EINTR \<longrightarrow>
         serve_turn sparse publish \<lparr>tn_stop = False, tn_io = turn, tn_strerror = text,
           tn_stop_later = False, tn_callback = callback\<rparr> serving = ([], Inr (), serving, False)) \<and>
      (result' = -1 \<longrightarrow> fst (snd (serve_turn sparse publish \<lparr>tn_stop = False, tn_io = turn,
           tn_strerror = text, tn_stop_later = False, tn_callback = callback\<rparr> serving)) =
         Inl (RuntimeError (''RabbitMQ consumer: select failed ('' @ text @ '')''))) \<and>
      (result' = 1 \<longrightarrow> (\<exists>name. received = Inl (Errno name)) \<longrightarrow>
         fst (snd (serve_turn sparse publish \<lparr>tn_stop = False, tn_io = turn,
           tn_strerror = text, tn_stop_later = False, tn_callback = callback\<rparr> serving)) =
         Inl (RuntimeError (''RabbitMQ consumer: recv failed ('' @ text @ '')'')))"
    if "server_socket_turn select received socket = Some turn" for turn
    using turn [OF that [unfolded server_socket_turn_def server_waitForSocketReadable_def] assms(3)]
    by (auto simp: serve_turn_def lastSocketErrorMessage_def Let_def case_prod_unfold)
  have times: "tv_sec (timeval_of_ms 200) = 0" "tv_usec (timeval_of_ms 200) = 200000"
    "tv_sec (timeval_of_ms 1000) = 1" "tv_usec (timeval_of_ms 1000) = 0"
    by (simp_all add: timeval_of_ms_def)
  show ?thesis
    by (intro conjI) (rule None times | (rule allI, rule impI, erule client) |
      (rule allI, rule impI, erule server))+
qed

lemma socket_waits_witness:
  "client_socket_turn (\<lambda>n s t. (-1, {})) (Inl EINTR) 1024 = None \<and>
   (let s = \<lparr>io_conn = (), io_pendingBytes = [], io_link = new_link_state default_rabbit_client\<rparr> in
    client_socket_turn (\<lambda>n s t. (-1, {})) (Inl EINTR) 7 = Some IoSelectError \<and>
    fst (snd (run_turn (\<lambda>c b. (c, length b, [])) IoSelectError s)) = [EFailAll ''RabbitMQ: socket error''])"
proof -
  let ?select = "\<lambda>n (s :: int set) t. (-1 :: int, {} :: int set)"
  let ?s = "\<lparr>io_conn = (), io_pendingBytes = [], io_link = new_link_state default_rabbit_client\<rparr>"
  have doc: "select_documented ?select" by (simp add: select_documented_def)
  have fields: "\<not> rl_connectionError (io_link ?s)" "\<not> rl_connectionClosed (io_link ?s)"
    by (simp_all add: new_link_state_def)
  have seven: "client_socket_turn ?select (Inl EINTR) 7 = Some IoSelectError"
    by (simp add: client_socket_turn_def socket_turn_def WaitForSocketReadable_def FD_SET_def FD_SETSIZE_def)
  note waits = socket_waits [OF doc refl refl fields]
  from waits [where socket = 1024 and received = "Inl EINTR", THEN conjunct1]
  have large: "client_socket_turn ?select (Inl EINTR) 1024 = None" by (simp add: FD_SETSIZE_def)
  from waits [where socket = 7 and received = "Inl EINTR" and parse = "\<lambda>c b. (c, length b, [])"] seven
  have "run_turn (\<lambda>c b. (c, length b, [])) IoSelectError ?s =
      (?s\<lparr>io_link := fst (rabbit_Disconnect ''RabbitMQ: socket error'' (io_link ?s))\<rparr>,
       [EFailAll ''RabbitMQ: socket error''], True)"
    by blast
  with large seven show ?thesis unfolding Let_def by simp
qed

end
