(* ===== verification/PubSubSign.thy ===== *)
theory PubSubSign
  imports PubSubUtil
begin

text \<open>
  The RS256 signature of a service account (\<^verbatim>\<open>SignRs256\<close> in \<^verbatim>\<open>PubSubUtil.cpp\<close>) with
  OpenSSL as a parameter, the handles it acquires and releases, and the token it becomes part of.
\<close>

section \<open>OpenSSL\<close>

text \<open>
  One answer per call: whether \<^verbatim>\<open>BIO_new_mem_buf\<close> gives a buffer for a text and its length
  as an \<^verbatim>\<open>int\<close>, the key that is read from it, whether the context exists and the digest
  calls succeed, the size of the signature, and the signature for a buffer of that size (what
  \<^verbatim>\<open>EVP_DigestSignFinal\<close> writes, at most the size).  \<open>ossl_error\<close> is the code and the text of
  the last error.
\<close>

record 'k openssl =
  ossl_mem_buf :: "string \<Rightarrow> 32 word \<Rightarrow> bool"
  ossl_read_key :: "string \<Rightarrow> 32 word \<Rightarrow> 'k option"
  ossl_new_context :: bool
  ossl_sign_init :: "'k \<Rightarrow> bool"
  ossl_sign_update :: "'k \<Rightarrow> string \<Rightarrow> bool"
  ossl_sign_size :: "'k \<Rightarrow> string \<Rightarrow> nat option"
  ossl_sign_final :: "'k \<Rightarrow> string \<Rightarrow> nat \<Rightarrow> string option"
  ossl_error :: "nat \<times> string"

definition OpenSslError :: "'k openssl \<Rightarrow> string" where
  "OpenSslError o' = (if fst (ossl_error o') = 0 then ''unknown OpenSSL error'' else snd (ossl_error o'))"

datatype ossl_handle = Bio | EvpPkey | EvpMdCtx

datatype ossl_event = Acquired ossl_handle | Released ossl_handle

text \<open>
  A \<^verbatim>\<open>unique_ptr\<close> with its deleter: a handle that exists is released when the scope is left,
  by a return or by an exception.
\<close>

definition scoped :: "ossl_handle \<Rightarrow> 'a result \<times> ossl_event list \<Rightarrow> 'a result \<times> ossl_event list" where
  "scoped h body = (case body of (r, es) \<Rightarrow> (r, Acquired h # es @ [Released h]))"

definition sign_failed :: "'k openssl \<Rightarrow> 'a result \<times> ossl_event list" where
  "sign_failed o' = (Inl (RuntimeError (''Pub/Sub plugin: RS256 sign failed: '' @ OpenSslError o')), [])"

text \<open>The last part: the two calls of \<^verbatim>\<open>EVP_DigestSignFinal\<close> and the final size.\<close>

definition sign_final :: "'k openssl \<Rightarrow> 'k \<Rightarrow> string \<Rightarrow> string result \<times> ossl_event list" where
  "sign_final o' key input =
     (case ossl_sign_size o' key input of
        None \<Rightarrow> sign_failed o'
      | Some signatureSize \<Rightarrow>
          (case ossl_sign_final o' key input signatureSize of
             None \<Rightarrow> sign_failed o'
           | Some signature \<Rightarrow> (Inr signature, [])))"

definition sign_context :: "'k openssl \<Rightarrow> 'k \<Rightarrow> string \<Rightarrow> string result \<times> ossl_event list" where
  "sign_context o' key input =
     (if \<not> ossl_new_context o' then sign_failed o'
      else scoped EvpMdCtx
        (if \<not> ossl_sign_init o' key \<or> \<not> ossl_sign_update o' key input then sign_failed o'
         else sign_final o' key input))"

definition SignRs256 :: "'k openssl \<Rightarrow> string \<Rightarrow> string \<Rightarrow> string result \<times> ossl_event list" where
  "SignRs256 o' input pem =
     (let size = word_of_nat (length pem) in
      if \<not> ossl_mem_buf o' pem size
      then (Inl (RuntimeError ''Pub/Sub plugin: failed to read private key''), [])
      else scoped Bio
        (case ossl_read_key o' pem size of
           None \<Rightarrow> (Inl (RuntimeError (''Pub/Sub plugin: failed to parse service-account private key: '' @
             OpenSslError o')), [])
         | Some key \<Rightarrow> scoped EvpPkey (sign_context o' key input)))"

section \<open>Facts\<close>

text \<open>Releases match acquisitions, last first, and every handle is released.\<close>

fun well_nested :: "ossl_handle list \<Rightarrow> ossl_event list \<Rightarrow> bool" where
  "well_nested hs [] = (hs = [])"
| "well_nested hs (Acquired h # es) = (h \<notin> set hs \<and> well_nested (h # hs) es)"
| "well_nested hs (Released h # es) = (hs \<noteq> [] \<and> hd hs = h \<and> well_nested (tl hs) es)"

lemma SignRs256_released: "well_nested [] (snd (SignRs256 o' input pem))"
  by (auto simp: SignRs256_def scoped_def sign_context_def sign_final_def sign_failed_def Let_def
      split: option.split prod.split)

lemma SignRs256_Inr_iff:
  "fst (SignRs256 o' input pem) = Inr signature \<longleftrightarrow>
     (\<exists>key size. ossl_mem_buf o' pem (word_of_nat (length pem)) \<and>
        ossl_read_key o' pem (word_of_nat (length pem)) = Some key \<and> ossl_new_context o' \<and>
        ossl_sign_init o' key \<and> ossl_sign_update o' key input \<and>
        ossl_sign_size o' key input = Some size \<and> ossl_sign_final o' key input size = Some signature)"
  by (auto simp: SignRs256_def scoped_def sign_context_def sign_final_def sign_failed_def Let_def
      split: option.split)

lemma url_char_not_dot: "b64_char c \<Longrightarrow> url_char c \<noteq> CHR ''.''"
  by (auto simp: b64_char_def url_char_def char_class_defs)

lemma Base64Url_no_dot: "CHR ''.'' \<notin> set (Base64Url s)"
  using b64_raw_chars url_char_not_dot by (fastforce simp: Base64Url_raw)

section \<open>Properties\<close>

text \<open>
  C33. The token of a service account.  When it is built at all, the key was read from the credentials
  and OpenSSL signed; the token consists of three parts without dots between two dots; the second
  decodes to the claims and the third to the signature of exactly the text before the last dot; and
  on every path, errors included, the handles of OpenSSL are released, each once and in the reverse
  order.
\<close>
theorem service_account_token:
  assumes "BuildServiceAccountJwt (w\<lparr>w_sign := \<lambda>input pem. fst (SignRs256 o' input pem)\<rparr>)
      email pem tokenUri issued = Inr token"
  shows "(\<exists>header payload signature raw key size claims.
      token = header @ ''.'' @ payload @ ''.'' @ signature \<and>
      CHR ''.'' \<notin> set header \<and> CHR ''.'' \<notin> set payload \<and> CHR ''.'' \<notin> set signature \<and>
      jfind claims ''iss'' = Some (JString email) \<and> jfind claims ''iat'' = Some (jint issued) \<and>
      jfind claims ''exp'' = Some (jint (issued + 3600)) \<and>
      Base64Decode payload = Inr (string_to_bytes (w_dump w claims)) \<and>
      Base64Decode signature = Inr (string_to_bytes raw) \<and>
      ossl_read_key o' pem (word_of_nat (length pem)) = Some key \<and>
      ossl_sign_final o' key (header @ ''.'' @ payload) size = Some raw) \<and>
    (\<forall>input key. well_nested [] (snd (SignRs256 o' input key)))"
proof -
  define claims where "claims = JObject
    [(''aud'', JString (if tokenUri = [] then kDefaultTokenUri else tokenUri)),
     (''exp'', jint (issued + 3600)), (''iat'', jint issued), (''iss'', JString email),
     (''scope'', JString kPubSubScope)]"
  define header where "header = Base64Url (''{'' @ CHR 0x22 # ''alg'' @ CHR 0x22 # '':'' @ CHR 0x22 # ''RS256'' @
    CHR 0x22 # '','' @ CHR 0x22 # ''typ'' @ CHR 0x22 # '':'' @ CHR 0x22 # ''JWT'' @ CHR 0x22 # ''}'')"
  define payload where "payload = Base64Url (w_dump w claims)"
  from assms obtain raw where raw: "fst (SignRs256 o' (header @ ''.'' @ payload) pem) = Inr raw"
      "token = (header @ ''.'' @ payload) @ ''.'' @ Base64Url raw"
    unfolding BuildServiceAccountJwt_def Let_def
    by (auto simp: header_def payload_def claims_def elim!: rbind_Inr_E split: if_splits)
  from raw(1) obtain key size where "ossl_read_key o' pem (word_of_nat (length pem)) = Some key"
      "ossl_sign_final o' key (header @ ''.'' @ payload) size = Some raw"
    unfolding SignRs256_Inr_iff by blast
  moreover have "jfind claims ''iss'' = Some (JString email)" "jfind claims ''iat'' = Some (jint issued)"
      "jfind claims ''exp'' = Some (jint (issued + 3600))"
    by (simp_all add: claims_def)
  moreover have "CHR ''.'' \<notin> set header" "CHR ''.'' \<notin> set payload" "CHR ''.'' \<notin> set (Base64Url raw)"
    unfolding header_def payload_def by (rule Base64Url_no_dot)+
  moreover have "Base64Decode payload = Inr (string_to_bytes (w_dump w claims))"
      "Base64Decode (Base64Url raw) = Inr (string_to_bytes raw)"
    unfolding payload_def by (rule Base64Decode_Base64Url)+
  moreover have "token = header @ ''.'' @ payload @ ''.'' @ Base64Url raw" using raw(2) by simp
  ultimately show ?thesis using SignRs256_released by blast
qed

definition example_openssl :: "unit openssl" where
  "example_openssl =
    \<lparr>ossl_mem_buf = (\<lambda>_ _. True), ossl_read_key = (\<lambda>_ _. Some ()), ossl_new_context = True,
     ossl_sign_init = (\<lambda>_. True), ossl_sign_update = (\<lambda>_ _. True),
     ossl_sign_size = (\<lambda>_ _. Some 3), ossl_sign_final = (\<lambda>_ _ _. Some ''sig''), ossl_error = (0, [])\<rparr>"

definition signing_world :: pubsub_world where
  "signing_world =
    \<lparr>w_perform = (\<lambda>_. CurlOk 200 []), w_dump = (\<lambda>_. ''{}''), w_parse = (\<lambda>_. Inl type_error),
     w_trunc = (\<lambda>_. 0), w_sign = (\<lambda>_ _. Inr []), w_read_file = (\<lambda>_. None),
     w_now = 0, w_issuedAt = 0, w_later = 0\<rparr>"

lemma service_account_token_witness:
  "\<exists>token header payload signature. BuildServiceAccountJwt
      (signing_world\<lparr>w_sign := \<lambda>input pem. fst (SignRs256 example_openssl input pem)\<rparr>)
      ''e'' ''k'' [] 7 = Inr token \<and>
     token = header @ ''.'' @ payload @ ''.'' @ signature \<and> CHR ''.'' \<notin> set header \<and>
     Base64Decode payload = Inr (string_to_bytes ''{}'')"
proof -
  have "fst (SignRs256 example_openssl input pem) = Inr ''sig''" for input pem
    unfolding SignRs256_Inr_iff by (simp add: example_openssl_def)
  then obtain token where token: "BuildServiceAccountJwt
      (signing_world\<lparr>w_sign := \<lambda>input pem. fst (SignRs256 example_openssl input pem)\<rparr>)
      ''e'' ''k'' [] 7 = Inr token"
    by (simp add: BuildServiceAccountJwt_def Let_def)
  moreover have "w_dump signing_world claims = ''{}''" for claims by (simp add: signing_world_def)
  ultimately show ?thesis using service_account_token [OF token] by (metis (no_types, lifting))
qed

end
