(* ===== verification/KafkaDelivery.thy ===== *)
theory KafkaDelivery
  imports KafkaClient Lifecycle
begin

text \<open>
  The delivery tags of the Kafka client: each produced message carries a heap-allocated copy of its
  correlation id, which the delivery report of the message takes over and frees
  (\<^verbatim>\<open>KafkaClient.cpp\<close>: \<^verbatim>\<open>call\<close>, \<^verbatim>\<open>dr_cb\<close>, \<^verbatim>\<open>drainProducer\<close> and
  the destructor).  librdkafka is the environment: it reports only messages that it holds, each at
  most once.
\<close>

section \<open>Tags\<close>

text \<open>\<open>dl_queue\<close> are the tags of the messages the producer holds, \<open>dl_events\<close> what the reports did.\<close>

record delivery =
  dl_tags :: "nat \<Rightarrow> string option"
  dl_queue :: "nat list"
  dl_next :: nat
  dl_events :: "pr_event list"

definition new_delivery :: delivery where
  "new_delivery = \<lparr>dl_tags = Map.empty, dl_queue = [], dl_next = 0, dl_events = []\<rparr>"

text \<open>The tag of a call: allocated, and handed over or freed as \<^verbatim>\<open>produce\<close> succeeds or fails.\<close>

definition produce_tagged :: "bool \<Rightarrow> string \<Rightarrow> delivery \<Rightarrow> delivery" where
  "produce_tagged accepted correlationId d =
     (let a = dl_next d; d = d\<lparr>dl_tags := (dl_tags d)(a \<mapsto> correlationId), dl_next := Suc a\<rparr>
      in if accepted then d\<lparr>dl_queue := dl_queue d @ [a]\<rparr>
         else d\<lparr>dl_tags := (dl_tags d)(a := None)\<rparr>)"

text \<open>One report, \<open>None\<close> when its tag is not live any more (undefined behaviour).\<close>

definition report_tagged :: "nat \<times> string option \<Rightarrow> delivery \<Rightarrow> delivery option" where
  "report_tagged x d =
     (case dl_tags d (fst x) of
        None \<Rightarrow> None
      | Some cid \<Rightarrow>
          Some (d\<lparr>dl_tags := (dl_tags d)(fst x := None), dl_queue := remove1 (fst x) (dl_queue d),
                  dl_events := dl_events d @ dr_cb (Some cid) (snd x)\<rparr>))"

fun reports_tagged :: "(nat \<times> string option) list \<Rightarrow> delivery \<Rightarrow> delivery option" where
  "reports_tagged [] d = Some d"
| "reports_tagged (x # xs) d =
     (case report_tagged x d of None \<Rightarrow> None | Some d \<Rightarrow> reports_tagged xs d)"

text \<open>
  \<^verbatim>\<open>drainProducer\<close> with the reports that each of its polls serves: the state, and whether it
  has returned.
\<close>

fun drain_polls :: "(nat \<times> string option) list list \<Rightarrow> delivery \<Rightarrow> (delivery \<times> bool) option" where
  "drain_polls [] d = Some (d, dl_queue d = [])"
| "drain_polls (b # bs) d =
     (if dl_queue d = [] then Some (d, True)
      else case reports_tagged b d of None \<Rightarrow> None | Some d \<Rightarrow> drain_polls bs d)"

definition drainProducer ::
  "(nat \<times> string option) list \<Rightarrow> (nat \<times> string option) list list \<Rightarrow> delivery \<Rightarrow> (delivery \<times> bool) option"
where
  "drainProducer flushed polls d =
     (case reports_tagged flushed d of None \<Rightarrow> None | Some d \<Rightarrow> drain_polls polls d)"

text \<open>What librdkafka documents of a batch and of the batches of a drain.\<close>

definition batch_ok :: "(nat \<times> string option) list \<Rightarrow> delivery \<Rightarrow> bool" where
  "batch_ok b d \<longleftrightarrow> distinct (map fst b) \<and> set (map fst b) \<subseteq> set (dl_queue d)"

fun batches_ok :: "(nat \<times> string option) list list \<Rightarrow> nat list \<Rightarrow> bool" where
  "batches_ok [] q = True"
| "batches_ok (b # bs) q =
     (distinct (map fst b) \<and> set (map fst b) \<subseteq> set q \<and>
      batches_ok bs (filter (\<lambda>a. a \<notin> set (map fst b)) q))"

inductive delivery_step :: "delivery \<Rightarrow> delivery \<Rightarrow> bool" where
  dl_produce: "delivery_step d (produce_tagged accepted cid d)"
| dl_poll: "batch_ok b d \<Longrightarrow> reports_tagged b d = Some d' \<Longrightarrow> delivery_step d d'"

section \<open>Ownership\<close>

definition dl_inv :: "delivery \<Rightarrow> bool" where
  "dl_inv d \<longleftrightarrow> dom (dl_tags d) = set (dl_queue d) \<and> distinct (dl_queue d) \<and>
     set (dl_queue d) \<subseteq> {..<dl_next d}"

lemma dl_inv_produce: "dl_inv d \<Longrightarrow> dl_inv (produce_tagged accepted cid d)"
  by (auto simp: dl_inv_def produce_tagged_def Let_def)

lemma remove1_filter: "distinct xs \<Longrightarrow> remove1 a xs = filter (\<lambda>x. x \<noteq> a) xs"
  by (simp add: distinct_remove1_removeAll removeAll_filter_not_eq) metis

text \<open>A batch of reports: defined, frees exactly its tags, and settles the calls of the failed ones.\<close>

lemma reports_tagged_batch:
  assumes "dl_inv d" "batch_ok b d"
  shows "\<exists>d'. reports_tagged b d = Some d' \<and> dl_inv d' \<and>
    dl_queue d' = filter (\<lambda>a. a \<notin> set (map fst b)) (dl_queue d) \<and>
    dl_events d' = dl_events d @ concat (map (\<lambda>(a, err). dr_cb (dl_tags d a) err) b)"
  using assms
proof (induction b arbitrary: d)
  case Nil
  then show ?case by simp
next
  case (Cons x b)
  obtain a err where x: "x = (a, err)" by (cases x)
  from Cons.prems x have a: "a \<in> set (dl_queue d)" "a \<notin> set (map fst b)"
    by (auto simp: batch_ok_def)
  then have "a \<in> dom (dl_tags d)" using Cons.prems(1) by (simp add: dl_inv_def)
  then obtain cid where cid: "dl_tags d a = Some cid" by blast
  define d1 where "d1 = d\<lparr>dl_tags := (dl_tags d)(a := None), dl_queue := remove1 a (dl_queue d),
    dl_events := dl_events d @ dr_cb (Some cid) err\<rparr>"
  have q1: "dl_queue d1 = filter (\<lambda>x. x \<noteq> a) (dl_queue d)"
    using Cons.prems(1) by (simp add: d1_def dl_inv_def remove1_filter)
  have step: "report_tagged x d = Some d1" by (simp add: report_tagged_def x cid d1_def)
  have "dl_inv d1" using Cons.prems(1) q1 by (auto simp: dl_inv_def d1_def)
  moreover have "batch_ok b d1" using Cons.prems(2) a(2) x by (auto simp: batch_ok_def q1)
  ultimately obtain d' where d': "reports_tagged b d1 = Some d'" "dl_inv d'"
    "dl_queue d' = filter (\<lambda>a. a \<notin> set (map fst b)) (dl_queue d1)"
    "dl_events d' = dl_events d1 @ concat (map (\<lambda>(a, err). dr_cb (dl_tags d1 a) err) b)"
    using Cons.IH by blast
  have same: "dr_cb (dl_tags d1 a') err' = dr_cb (dl_tags d a') err'" if "(a', err') \<in> set b" for a' err'
    using a(2) that by (force simp: d1_def)
  then have eq: "map (\<lambda>(a, err). dr_cb (dl_tags d1 a) err) b = map (\<lambda>(a, err). dr_cb (dl_tags d a) err) b"
    by auto
  have "dl_events d' = dl_events d @ concat (map (\<lambda>(a, err). dr_cb (dl_tags d a) err) (x # b))"
    using d'(4) unfolding eq by (simp add: x cid d1_def)
  moreover have "dl_queue d' = filter (\<lambda>a. a \<notin> set (map fst (x # b))) (dl_queue d)"
    using d'(3) q1 x by (auto intro!: filter_cong)
  ultimately show ?case using d'(1,2) step by simp
qed

lemma dl_inv_step: "delivery_step d d' \<Longrightarrow> dl_inv d \<Longrightarrow> dl_inv d'"
  by (erule delivery_step.cases) (auto simp: dl_inv_produce dest: reports_tagged_batch)

lemma dl_reachable_inv: "reaches delivery_step new_delivery d \<Longrightarrow> dl_inv d"
proof (erule reaches_invariant)
  show "dl_inv new_delivery" by (simp add: dl_inv_def new_delivery_def)
qed (blast intro: dl_inv_step)

section \<open>Draining\<close>

lemma drain_polls_ok:
  assumes "dl_inv d" "batches_ok polls (dl_queue d)"
  shows "\<exists>d'. drain_polls polls d = Some (d', dl_queue d' = []) \<and> dl_inv d' \<and>
    (dl_queue d' = [] \<longleftrightarrow> set (dl_queue d) \<subseteq> fst ` set (concat polls))"
  using assms
proof (induction polls arbitrary: d)
  case Nil
  then show ?case by auto
next
  case (Cons b polls)
  show ?case
  proof (cases "dl_queue d = []")
    case True
    with Cons.prems show ?thesis by auto
  next
    case False
    from Cons.prems have "batch_ok b d" by (simp add: batch_ok_def)
    from reports_tagged_batch [OF Cons.prems(1) this] obtain d1 where d1:
      "reports_tagged b d = Some d1" "dl_inv d1"
      "dl_queue d1 = filter (\<lambda>a. a \<notin> set (map fst b)) (dl_queue d)" by blast
    with Cons.prems(2) have "batches_ok polls (dl_queue d1)" by simp
    from Cons.IH [OF d1(2) this] d1 False show ?thesis by (auto simp: subset_iff image_Un)
  qed
qed

text \<open>
  C38. The tags of produced messages.  In every state that calls and polls reach, the live tags are
  exactly those of the messages the producer holds; a batch of reports never touches a freed tag,
  frees exactly the tags of its messages, and fails exactly the calls whose delivery failed.
  \<^verbatim>\<open>drainProducer\<close> in the destructor returns exactly when every message was reported, and then
  no tag is left; while the library reports nothing, it polls on for ever, whatever timeout it was
  given.
\<close>
theorem kafka_tags_drained:
  assumes "reaches delivery_step new_delivery d"
    and "batch_ok flushed d" and "batches_ok (flushed # polls) (dl_queue d)"
  shows "dom (dl_tags d) = set (dl_queue d) \<and>
    (\<exists>d'. reports_tagged flushed d = Some d' \<and>
       dom (dl_tags d') = dom (dl_tags d) - fst ` set flushed \<and>
       dl_events d' = dl_events d @ concat (map (\<lambda>(a, err). dr_cb (dl_tags d a) err) flushed)) \<and>
    (\<exists>d' returned. drainProducer flushed polls d = Some (d', returned) \<and>
       (returned \<longleftrightarrow> set (dl_queue d) \<subseteq> fst ` set (concat (flushed # polls))) \<and>
       (returned \<longrightarrow> dl_tags d' = Map.empty)) \<and>
    (dl_queue d \<noteq> [] \<longrightarrow> (\<forall>n. drainProducer [] (replicate n []) d = Some (d, False)))"
proof -
  have inv: "dl_inv d" by (rule dl_reachable_inv [OF assms(1)])
  from reports_tagged_batch [OF inv assms(2)] obtain d1 where d1: "reports_tagged flushed d = Some d1"
    "dl_inv d1" "dl_queue d1 = filter (\<lambda>a. a \<notin> set (map fst flushed)) (dl_queue d)"
    "dl_events d1 = dl_events d @ concat (map (\<lambda>(a, err). dr_cb (dl_tags d a) err) flushed)" by blast
  with assms(3) have "batches_ok polls (dl_queue d1)" by simp
  from drain_polls_ok [OF d1(2) this] obtain d2 where d2: "drain_polls polls d1 = Some (d2, dl_queue d2 = [])"
    "dl_inv d2" "dl_queue d2 = [] \<longleftrightarrow> set (dl_queue d1) \<subseteq> fst ` set (concat polls)" by blast
  have "\<exists>d' returned. drainProducer flushed polls d = Some (d', returned) \<and>
       (returned \<longleftrightarrow> set (dl_queue d) \<subseteq> fst ` set (concat (flushed # polls))) \<and>
       (returned \<longrightarrow> dl_tags d' = Map.empty)"
    using d1 d2 by (auto simp: drainProducer_def dl_inv_def subset_iff image_Un)
  moreover have "drainProducer [] (replicate n []) d = Some (d, False)" if "dl_queue d \<noteq> []" for n
    unfolding drainProducer_def by (induction n) (simp_all add: that)
  moreover have "dom (dl_tags d1) = dom (dl_tags d) - fst ` set flushed"
    using inv d1 by (auto simp: dl_inv_def)
  ultimately show ?thesis using inv d1 by (simp add: dl_inv_def)
qed

lemma kafka_tags_drained_witness:
  "\<exists>d d'. reaches delivery_step new_delivery d \<and> dom (dl_tags d) = {0, 1} \<and>
     drainProducer [(1, Some ''e'')] [[], [(0, None)]] d = Some (d', True) \<and> dl_tags d' = Map.empty"
proof -
  define d1 where "d1 = produce_tagged True ''a'' new_delivery"
  define d where "d = produce_tagged True ''b'' d1"
  have "delivery_step new_delivery d1" "delivery_step d1 d"
    unfolding d_def d1_def by (rule dl_produce)+
  then have r: "reaches delivery_step new_delivery d" by (blast intro: reaches_step reaches_refl)
  have q: "dl_queue d = [0, 1]" by (simp add: d_def d1_def produce_tagged_def new_delivery_def Let_def)
  then have ok: "batch_ok [(1, Some ''e'')] d"
    "batches_ok ([(1, Some ''e'')] # [[], [(0, None)]]) (dl_queue d)"
    by (simp_all add: batch_ok_def)
  note drained = kafka_tags_drained [OF r ok]
  then have "dom (dl_tags d) = {0, 1}" using q by simp
  moreover from drained q obtain d' where
    "drainProducer [(1, Some ''e'')] [[], [(0, None)]] d = Some (d', True)" "dl_tags d' = Map.empty"
    by auto
  ultimately show ?thesis using r by blast
qed

end
