(* ===== verification/LinkShutdown.thy ===== *)
theory LinkShutdown
  imports Lifecycle
begin

text \<open>
  The end of a link: \<^verbatim>\<open>Link::Shutdown\<close> of \<^verbatim>\<open>RabbitMqClient.cpp\<close> and
  \<^verbatim>\<open>Link::~Link\<close> of \<^verbatim>\<open>ServiceBusClient.cpp\<close>.  Both set the flag, join the link's
  thread and then release what the thread used, one object after the other, while the thread may
  be anywhere in its loop.  A \<^verbatim>\<open>Close\<close> of the Service Bus library that throws is not
  modelled: \<^verbatim>\<open>~Link\<close> catches the exception and does nothing more, so that after a failed close of
  the receiver the sender is not closed but only destroyed with the link.
\<close>

section \<open>Resources and shutdown sequences\<close>

datatype resource = Channel | Connection | Handler | Socket | Receiver | Sender

datatype shutdown_action =
    CloseConnection
  | ResetChannel
  | ResetConnection
  | ResetHandler
  | CloseSocketHandle
  | CloseReceiver
  | CloseSender

text \<open>
  What an action touches and what it releases.  Closing an AMQP connection, also in its
  destructor, may write a frame through the handler to the socket.
\<close>

fun touches :: "shutdown_action \<Rightarrow> resource list" where
  "touches CloseConnection = [Connection, Handler, Socket]"
| "touches ResetChannel = [Channel, Connection]"
| "touches ResetConnection = [Connection, Handler, Socket]"
| "touches ResetHandler = [Handler]"
| "touches CloseSocketHandle = [Socket]"
| "touches CloseReceiver = [Receiver]"
| "touches CloseSender = [Sender]"

fun releases :: "shutdown_action \<Rightarrow> resource option" where
  "releases CloseConnection = None"
| "releases ResetChannel = Some Channel"
| "releases ResetConnection = Some Connection"
| "releases ResetHandler = Some Handler"
| "releases CloseSocketHandle = Some Socket"
| "releases CloseReceiver = Some Receiver"
| "releases CloseSender = Some Sender"

text \<open>A kind of link: what a turn of its thread touches, and the actions after the join.\<close>

record link_kind =
  lk_turn :: "resource list"
  lk_actions :: "shutdown_action list"

definition rabbit_shutdown :: link_kind where
  "rabbit_shutdown =
    \<lparr>lk_turn = [Socket, Connection, Channel, Handler],
     lk_actions = [CloseConnection, ResetChannel, ResetConnection, ResetHandler, CloseSocketHandle]\<rparr>"

definition sb_shutdown :: link_kind where
  "sb_shutdown = \<lparr>lk_turn = [Receiver], lk_actions = [CloseReceiver, CloseSender]\<rparr>"

text \<open>In one-way mode a Service Bus link has neither a receiver nor a thread.\<close>

definition sb_oneway_shutdown :: link_kind where
  "sb_oneway_shutdown = \<lparr>lk_turn = [], lk_actions = [CloseSender]\<rparr>"

definition resources :: "link_kind \<Rightarrow> resource list" where
  "resources k = List.map_filter releases (lk_actions k)"

section \<open>The steps\<close>

datatype link_thread = NoThread | AtTest | InTurn | Ended

datatype link_owner = InUse | Joining | Releasing "shutdown_action list"

record link_life =
  lf_thread :: link_thread
  lf_stopping :: bool
  lf_owner :: link_owner
  lf_open :: "resource list"
  lf_released :: "resource list"
  lf_misused :: bool

text \<open>
  A link that is up, and one whose constructor failed before it had a socket (RabbitMQ): the
  pointers are null and the socket is invalid, so \<^verbatim>\<open>Shutdown\<close> finds nothing to do.
\<close>

definition link_up :: "link_kind \<Rightarrow> link_life" where
  "link_up k =
    \<lparr>lf_thread = (if lk_turn k = [] then NoThread else AtTest), lf_stopping = False, lf_owner = InUse, lf_open = resources k,
     lf_released = [], lf_misused = False\<rparr>"

definition link_failed :: link_life where
  "link_failed =
    \<lparr>lf_thread = NoThread, lf_stopping = False, lf_owner = InUse, lf_open = [],
     lf_released = [], lf_misused = False\<rparr>"

text \<open>Touching something that is not open is recorded.\<close>

definition touch :: "resource list \<Rightarrow> link_life \<Rightarrow> link_life" where
  "touch rs s = s\<lparr>lf_misused := lf_misused s \<or> \<not> set rs \<subseteq> set (lf_open s)\<rparr>"

definition release :: "shutdown_action \<Rightarrow> link_life \<Rightarrow> link_life" where
  "release a s =
     (if lf_open s = [] then s
      else case releases a of
        None \<Rightarrow> touch (touches a) s
      | Some r \<Rightarrow>
          (touch (touches a) s)\<lparr>lf_open := filter (\<lambda>x. x \<noteq> r) (lf_open s),
            lf_released := lf_released s @ [r]\<rparr>)"

text \<open>The steps of the thread, and of the owner once it shuts the link down.\<close>

inductive lf_own :: "link_kind \<Rightarrow> link_life \<Rightarrow> link_life \<Rightarrow> bool" for k where
  lf_enter: "lf_thread s = AtTest \<Longrightarrow> \<not> lf_stopping s \<Longrightarrow> lf_own k s (s\<lparr>lf_thread := InTurn\<rparr>)"
| lf_exit: "lf_thread s = AtTest \<Longrightarrow> lf_stopping s \<Longrightarrow> lf_own k s (s\<lparr>lf_thread := Ended\<rparr>)"
| lf_turn: "lf_thread s = InTurn \<Longrightarrow> lf_own k s (touch (lk_turn k) s\<lparr>lf_thread := AtTest\<rparr>)"
| lf_lost: "lf_thread s = InTurn \<Longrightarrow> lf_own k s (touch (lk_turn k) s\<lparr>lf_thread := Ended\<rparr>)"
| lf_join: "lf_owner s = Joining \<Longrightarrow> lf_thread s = NoThread \<or> lf_thread s = Ended \<Longrightarrow>
     lf_own k s (s\<lparr>lf_owner := Releasing (lk_actions k)\<rparr>)"
| lf_release: "lf_owner s = Releasing (a # as) \<Longrightarrow>
     lf_own k s (release a s\<lparr>lf_owner := Releasing as\<rparr>)"

inductive lf_step :: "link_kind \<Rightarrow> link_life \<Rightarrow> link_life \<Rightarrow> bool" for k where
  lf_self: "lf_own k s t \<Longrightarrow> lf_step k s t"
| lf_shutdown: "lf_owner s = InUse \<Longrightarrow>
     lf_step k s (s\<lparr>lf_stopping := True, lf_owner := Joining\<rparr>)"

inductive_cases lf_own_E: "lf_own k s t"
inductive_cases lf_step_E: "lf_step k s t"

section \<open>The invariant\<close>

text \<open>
  The sequences are in a good order: what an action touches is not released by an earlier one,
  nothing is released twice, and the thread uses only what is released.
\<close>

fun order_ok :: "shutdown_action list \<Rightarrow> bool" where
  "order_ok [] = True"
| "order_ok (a # as) \<longleftrightarrow>
     set (touches a) \<subseteq> set (List.map_filter releases (a # as)) \<and>
     distinct (List.map_filter releases (a # as)) \<and> order_ok as"

definition kind_ok :: "link_kind \<Rightarrow> bool" where
  "kind_ok k \<longleftrightarrow> order_ok (lk_actions k) \<and> set (lk_turn k) \<subseteq> set (resources k)"

lemma kinds_ok: "kind_ok rabbit_shutdown" "kind_ok sb_shutdown" "kind_ok sb_oneway_shutdown"
  by (simp_all add: kind_ok_def rabbit_shutdown_def sb_shutdown_def sb_oneway_shutdown_def
      resources_def List.map_filter_simps)

definition thread_over :: "link_life \<Rightarrow> bool" where
  "thread_over s \<longleftrightarrow> lf_thread s = NoThread \<or> lf_thread s = Ended"

text \<open>
  \<open>full\<close> is what the link had when it was made: everything, or nothing.
\<close>

definition lf_inv :: "link_kind \<Rightarrow> link_life \<Rightarrow> bool" where
  "lf_inv k s \<longleftrightarrow>
     \<not> lf_misused s \<and> (lf_stopping s \<longleftrightarrow> lf_owner s \<noteq> InUse) \<and>
     (case lf_owner s of
        Releasing as \<Rightarrow>
          thread_over s \<and> order_ok as \<and>
          (lf_open s = [] \<and> lf_released s = [] \<or>
           lf_open s = List.map_filter releases as \<and>
           resources k = lf_released s @ List.map_filter releases as)
      | _ \<Rightarrow>
          lf_released s = [] \<and>
          (lf_open s = resources k \<or> lf_open s = [] \<and> thread_over s))"

lemma lf_inv_start: "lf_inv k (link_up k)" "lf_inv k link_failed"
  by (simp_all add: lf_inv_def link_up_def link_failed_def thread_over_def)

lemma filter_released:
  assumes "distinct (List.map_filter releases (a # as))" "releases a = Some r"
  shows "filter (\<lambda>x. x \<noteq> r) (List.map_filter releases (a # as)) = List.map_filter releases as"
proof -
  have "r \<notin> set (List.map_filter releases as)"
    using assms by (simp add: List.map_filter_simps)
  then show ?thesis using assms(2) by (auto simp: List.map_filter_simps intro!: filter_True)
qed

lemma release_inv:
  assumes "lf_inv k s" "lf_owner s = Releasing (a # as)"
  shows "lf_inv k (release a s\<lparr>lf_owner := Releasing as\<rparr>)"
proof (cases "lf_open s = []")
  case True
  have "lf_released s = [] \<or> resources k = lf_released s @ List.map_filter releases as"
    using assms True by (auto simp: lf_inv_def List.map_filter_simps split: option.splits)
  moreover have "List.map_filter releases as = []" if "lf_released s \<noteq> []"
    using assms True that by (auto simp: lf_inv_def List.map_filter_simps split: option.splits)
  ultimately show ?thesis
    using assms True by (auto simp: lf_inv_def release_def thread_over_def)
next
  case False
  with assms have "lf_open s = List.map_filter releases (a # as)" "order_ok (a # as)"
    "resources k = lf_released s @ List.map_filter releases (a # as)" "thread_over s"
    "\<not> lf_misused s" "lf_stopping s"
    by (auto simp: lf_inv_def)
  then show ?thesis
    using False filter_released [of a as]
    by (cases "releases a")
      (auto simp: lf_inv_def release_def touch_def thread_over_def List.map_filter_simps)
qed

lemma turn_safe:
  assumes "kind_ok k" "lf_inv k s" "lf_thread s = InTurn"
  shows "lf_misused (touch (lk_turn k) s) = False"
  using assms by (auto simp: kind_ok_def lf_inv_def touch_def thread_over_def split: link_owner.splits)

lemma touch_fields [simp]:
  "lf_thread (touch rs s) = lf_thread s" "lf_stopping (touch rs s) = lf_stopping s"
  "lf_owner (touch rs s) = lf_owner s" "lf_open (touch rs s) = lf_open s"
  "lf_released (touch rs s) = lf_released s"
  by (simp_all add: touch_def)

lemma release_fields [simp]:
  "lf_thread (release a s) = lf_thread s" "lf_stopping (release a s) = lf_stopping s"
  by (simp_all add: release_def split: option.split)

lemma lf_inv_own:
  assumes "kind_ok k" "lf_own k s t" "lf_inv k s"
  shows "lf_inv k t"
  using assms(2)
proof (rule lf_own_E)
  fix a as
  assume "t = release a s\<lparr>lf_owner := Releasing as\<rparr>" "lf_owner s = Releasing (a # as)"
  then show ?thesis using release_inv [OF assms(3)] by simp
next
  assume "t = s\<lparr>lf_owner := Releasing (lk_actions k)\<rparr>" "lf_owner s = Joining"
    "lf_thread s = NoThread \<or> lf_thread s = Ended"
  then show ?thesis
    using assms(1,3) by (auto simp: lf_inv_def thread_over_def kind_ok_def resources_def)
qed (use assms(3) turn_safe [OF assms(1,3)] in
  \<open>auto simp: lf_inv_def thread_over_def split: link_owner.splits\<close>)

lemma lf_inv_step: "kind_ok k \<Longrightarrow> lf_step k s t \<Longrightarrow> lf_inv k s \<Longrightarrow> lf_inv k t"
  by (erule lf_step_E) (auto intro: lf_inv_own, auto simp: lf_inv_def thread_over_def)

section \<open>Shutting down ends\<close>

definition lf_alive :: "link_kind \<Rightarrow> link_life \<Rightarrow> bool" where
  "lf_alive k s \<longleftrightarrow> kind_ok k \<and> lf_inv k s \<and> lf_owner s \<noteq> Releasing []"

fun lf_rank :: "link_kind \<Rightarrow> link_thread \<Rightarrow> link_owner \<Rightarrow> nat" where
  "lf_rank k th ow =
     (case th of InTurn \<Rightarrow> 2 | AtTest \<Rightarrow> 1 | _ \<Rightarrow> 0) +
     (case ow of InUse \<Rightarrow> length (lk_actions k) + 2 | Joining \<Rightarrow> length (lk_actions k) + 1
      | Releasing as \<Rightarrow> length as)"

interpretation link_stop: stoppable "lf_step k" "lf_own k" "lf_alive k" lf_stopping
  "\<lambda>s. lf_rank k (lf_thread s) (lf_owner s)" for k
proof unfold_locales
  fix s t
  assume "lf_step k s t" "lf_stopping s"
  then show "lf_stopping t"
    by (elim lf_step_E lf_own_E) auto
next
  fix s
  assume s: "lf_alive k s" "lf_stopping s"
  show "\<exists>t. lf_own k s t"
  proof (cases "lf_owner s")
    case InUse
    with s show ?thesis by (simp add: lf_alive_def lf_inv_def)
  next
    case Joining
    then show ?thesis
      using s(2) by (cases "lf_thread s") (auto intro: lf_own.intros)
  next
    case (Releasing as)
    with s(1) obtain a as' where "as = a # as'" by (cases as) (auto simp: lf_alive_def)
    with Releasing show ?thesis by (auto intro: lf_release)
  qed
next
  fix s t
  assume "lf_own k s t" "lf_alive k s" "lf_stopping s"
  then show "lf_rank k (lf_thread t) (lf_owner t) < lf_rank k (lf_thread s) (lf_owner s)"
    by (elim lf_own_E) (auto simp: lf_alive_def lf_inv_def)
qed (rule lf_self)

section \<open>Property\<close>

text \<open>
  C25. Links shut down in order.  Whatever the thread of a RabbitMQ or Service Bus link does
  meanwhile: no thread touches an object after its release, each is released at most once and in
  the order of the code, and when the shutdown is through, the thread is over and everything the
  link had is released.  From every state in which a shutdown has begun, the steps
  of the thread and the owner alone lead to its end.
\<close>
theorem link_shutdown_safe:
  assumes "k = rabbit_shutdown \<or> k = sb_shutdown \<or> k = sb_oneway_shutdown"
    and "start = link_up k \<or> k = rabbit_shutdown \<and> start = link_failed" and "reaches (lf_step k) start s"
  shows "\<not> lf_misused s \<and>
    (\<exists>rest. resources k = lf_released s @ rest) \<and> distinct (lf_released s) \<and>
    (lf_owner s = Releasing [] \<longrightarrow> lf_thread s \<in> {NoThread, Ended} \<and> lf_open s = [] \<and>
       (lf_released s = resources k \<or> lf_released s = [])) \<and>
    (lf_stopping s \<longrightarrow> (\<exists>t. reaches (lf_own k) s t \<and> lf_owner t = Releasing [] \<and> \<not> lf_misused t))"
proof -
  have ok: "kind_ok k" using assms(1) kinds_ok by auto
  have start: "lf_inv k start" using assms(2) lf_inv_start by auto
  have inv: "lf_inv k s"
    using assms(3) start by (rule reaches_invariant) (rule lf_inv_step [OF ok])
  have dist: "distinct (resources k)"
    using assms(1) by (auto simp: resources_def rabbit_shutdown_def sb_shutdown_def
        sb_oneway_shutdown_def List.map_filter_simps)
  have rest: "\<exists>rest. resources k = lf_released s @ rest"
    using inv by (auto simp: lf_inv_def split: link_owner.splits)
  have ends: "\<exists>t. reaches (lf_own k) s t \<and> lf_owner t = Releasing [] \<and> \<not> lf_misused t"
    if stop: "lf_stopping s"
  proof (cases "lf_owner s = Releasing []")
    case True
    then show ?thesis using inv by (auto simp: lf_inv_def intro: reaches_refl)
  next
    case False
    then have "lf_alive k s" using ok inv by (simp add: lf_alive_def)
    from link_stop.stops [OF this stop] obtain t where
      t: "reaches (lf_own k) s t" "\<not> lf_alive k t" by blast
    have "lf_inv k t" using t(1) inv by (rule reaches_invariant) (rule lf_inv_own [OF ok])
    with t ok show ?thesis by (auto simp: lf_alive_def lf_inv_def)
  qed
  have through: "lf_thread s \<in> {NoThread, Ended} \<and> lf_open s = [] \<and>
      (lf_released s = resources k \<or> lf_released s = [])" if "lf_owner s = Releasing []"
    using inv that by (auto simp: lf_inv_def thread_over_def List.map_filter_simps)
  show ?thesis
    using inv rest dist ends through by (auto simp: lf_inv_def)
qed

lemma link_shutdown_safe_witness:
  "\<exists>s. reaches (lf_step rabbit_shutdown) (link_up rabbit_shutdown) s \<and> lf_stopping s \<and>
     lf_thread s = InTurn \<and>
     (\<exists>t. reaches (lf_own rabbit_shutdown) s t \<and> lf_owner t = Releasing [] \<and> \<not> lf_misused t)"
proof -
  define s1 where "s1 = (link_up rabbit_shutdown)\<lparr>lf_thread := InTurn\<rparr>"
  define s2 where "s2 = s1\<lparr>lf_stopping := True, lf_owner := Joining\<rparr>"
  have "lf_step rabbit_shutdown (link_up rabbit_shutdown) s1"
    unfolding s1_def by (intro lf_self lf_enter) (simp_all add: link_up_def rabbit_shutdown_def)
  moreover have "lf_step rabbit_shutdown s1 s2"
    unfolding s2_def by (rule lf_shutdown) (simp add: s1_def link_up_def)
  ultimately have reach: "reaches (lf_step rabbit_shutdown) (link_up rabbit_shutdown) s2"
    by (blast intro: reaches_refl reaches_step)
  moreover have "lf_stopping s2" "lf_thread s2 = InTurn" by (simp_all add: s2_def s1_def)
  ultimately show ?thesis
    using link_shutdown_safe [of rabbit_shutdown "link_up rabbit_shutdown" s2] by blast
qed

end
