(* ===== verification/AwsSdkLifetime.thy ===== *)
theory AwsSdkLifetime
  imports Lifecycle
begin

text \<open>
  The lifetime of the AWS SDK in the SQS plugin (\<^verbatim>\<open>AwsSdkLifetime\<close> in
  \<^verbatim>\<open>SqsUtil.cpp\<close>): a thread of its own initialises the SDK, waits until the static object
  is destroyed, and shuts the SDK down; the constructor waits for the first, the destructor for
  the second.  \<open>al_calls\<close> records the calls of the SDK in order.
\<close>

section \<open>The steps\<close>

datatype sdk_call = InitAPI | UseSdk | ShutdownAPI

datatype sdk_thread = NotStarted | Starting | Initialised | WaitingForEnd | Ending | Finished

datatype sdk_owner = NotConstructed | Constructing | Constructed | Destroying | Destroyed

record aws_lifetime =
  al_thread :: sdk_thread
  al_owner :: sdk_owner
  al_initialized :: bool
  al_shutdown :: bool
  al_calls :: "sdk_call list"

definition new_aws_lifetime :: aws_lifetime where
  "new_aws_lifetime =
    \<lparr>al_thread = NotStarted, al_owner = NotConstructed, al_initialized = False,
     al_shutdown = False, al_calls = []\<rparr>"

definition call_sdk :: "sdk_call \<Rightarrow> aws_lifetime \<Rightarrow> aws_lifetime" where
  "call_sdk c s = s\<lparr>al_calls := al_calls s @ [c]\<rparr>"

text \<open>The steps of the lifecycle thread, and of the object's own constructor and destructor.\<close>

inductive al_own :: "aws_lifetime \<Rightarrow> aws_lifetime \<Rightarrow> bool" where
  al_init: "al_thread s = Starting \<Longrightarrow> al_own s (call_sdk InitAPI s\<lparr>al_thread := Initialised\<rparr>)"
| al_publish: "al_thread s = Initialised \<Longrightarrow>
     al_own s (s\<lparr>al_initialized := True, al_thread := WaitingForEnd\<rparr>)"
| al_wake: "al_thread s = WaitingForEnd \<Longrightarrow> al_shutdown s \<Longrightarrow> al_own s (s\<lparr>al_thread := Ending\<rparr>)"
| al_end: "al_thread s = Ending \<Longrightarrow> al_own s (call_sdk ShutdownAPI s\<lparr>al_thread := Finished\<rparr>)"
| al_constructed: "al_owner s = Constructing \<Longrightarrow> al_initialized s \<Longrightarrow>
     al_own s (s\<lparr>al_owner := Constructed\<rparr>)"
| al_join: "al_owner s = Destroying \<Longrightarrow> al_thread s = Finished \<Longrightarrow>
     al_own s (s\<lparr>al_owner := Destroyed\<rparr>)"

text \<open>
  The program creates the object before its first client, uses the SDK while the object exists,
  and destroys it at its end.
\<close>

inductive al_step :: "aws_lifetime \<Rightarrow> aws_lifetime \<Rightarrow> bool" where
  al_self: "al_own s t \<Longrightarrow> al_step s t"
| al_construct: "al_owner s = NotConstructed \<Longrightarrow>
     al_step s (s\<lparr>al_owner := Constructing, al_thread := Starting\<rparr>)"
| al_use: "al_owner s = Constructed \<Longrightarrow> al_step s (call_sdk UseSdk s)"
| al_destroy: "al_owner s = Constructed \<Longrightarrow>
     al_step s (s\<lparr>al_shutdown := True, al_owner := Destroying\<rparr>)"

inductive_cases al_own_E: "al_own s t"
inductive_cases al_step_E: "al_step s t"

section \<open>The invariant\<close>

fun init_done :: "sdk_thread \<Rightarrow> bool" where
  "init_done NotStarted = False"
| "init_done Starting = False"
| "init_done _ = True"

definition al_inv :: "aws_lifetime \<Rightarrow> bool" where
  "al_inv s \<longleftrightarrow>
     (al_owner s = NotConstructed \<longleftrightarrow> al_thread s = NotStarted) \<and>
     (al_initialized s \<longleftrightarrow> init_done (al_thread s) \<and> al_thread s \<noteq> Initialised) \<and>
     (al_shutdown s \<longleftrightarrow> al_owner s \<in> {Destroying, Destroyed}) \<and>
     (al_owner s \<in> {Constructed, Destroying, Destroyed} \<longrightarrow> al_initialized s) \<and>
     (al_thread s \<in> {Ending, Finished} \<longrightarrow> al_shutdown s) \<and>
     (al_owner s = Destroyed \<longrightarrow> al_thread s = Finished) \<and>
     (\<exists>n. al_calls s =
        (if init_done (al_thread s) then [InitAPI] else []) @ replicate n UseSdk @
        (if al_thread s = Finished then [ShutdownAPI] else []) \<and>
        (n \<noteq> 0 \<longrightarrow> al_initialized s))"

lemma al_inv_new: "al_inv new_aws_lifetime"
  by (simp add: al_inv_def new_aws_lifetime_def)

lemma al_inv_own: "al_own s t \<Longrightarrow> al_inv s \<Longrightarrow> al_inv t"
  by (erule al_own_E) (auto simp: al_inv_def call_sdk_def)

lemma al_inv_use:
  assumes "al_owner s = Constructed" "al_inv s"
  shows "al_inv (call_sdk UseSdk s)"
proof -
  obtain n where n: "al_calls s =
      (if init_done (al_thread s) then [InitAPI] else []) @ replicate n UseSdk @
      (if al_thread s = Finished then [ShutdownAPI] else [])"
    using assms(2) by (auto simp: al_inv_def)
  have th: "al_thread s \<noteq> Finished" "al_thread s \<noteq> Ending" "init_done (al_thread s)" "al_initialized s"
    using assms by (auto simp: al_inv_def)
  have "\<exists>m. al_calls s @ [UseSdk] = InitAPI # replicate m UseSdk"
    using n th by (intro exI [of _ "Suc n"]) (simp add: replicate_append_same)
  with assms th show ?thesis by (simp add: al_inv_def call_sdk_def)
qed

lemma al_inv_step: "al_step s t \<Longrightarrow> al_inv s \<Longrightarrow> al_inv t"
  by (erule al_step_E) (auto intro: al_inv_own al_inv_use, auto simp: al_inv_def)

fun al_rank :: "sdk_thread \<Rightarrow> sdk_owner \<Rightarrow> nat" where
  "al_rank th ow =
     (case th of NotStarted \<Rightarrow> 5 | Starting \<Rightarrow> 4 | Initialised \<Rightarrow> 3 | WaitingForEnd \<Rightarrow> 2 | Ending \<Rightarrow> 1
      | Finished \<Rightarrow> 0) +
     (case ow of NotConstructed \<Rightarrow> 4 | Constructing \<Rightarrow> 3 | Constructed \<Rightarrow> 2 | Destroying \<Rightarrow> 1
      | Destroyed \<Rightarrow> 0)"

definition al_alive :: "aws_lifetime \<Rightarrow> bool" where
  "al_alive s \<longleftrightarrow> al_inv s \<and> al_owner s \<noteq> Destroyed"

interpretation aws_stop: stoppable al_step al_own al_alive al_shutdown
  "\<lambda>s. al_rank (al_thread s) (al_owner s)"
proof unfold_locales
  fix s t
  assume "al_step s t" "al_shutdown s"
  then show "al_shutdown t" by (elim al_step_E al_own_E) (auto simp: call_sdk_def)
next
  fix s
  assume "al_alive s" "al_shutdown s"
  then have "al_owner s = Destroying" "al_thread s \<in> {WaitingForEnd, Ending, Finished}" "al_shutdown s"
    by (cases "al_thread s"; auto simp: al_alive_def al_inv_def)+
  then show "\<exists>t. al_own s t" by (auto intro: al_own.intros)
next
  fix s t
  assume "al_own s t"
  then show "al_rank (al_thread t) (al_owner t) < al_rank (al_thread s) (al_owner s)"
    by (elim al_own_E) (auto simp: call_sdk_def)
qed (rule al_self)

section \<open>Property\<close>

text \<open>
  The SDK is used only between its initialisation and its shutdown.  However the threads
  interleave, the calls are one initialisation, then uses, then at most one shutdown; an object
  whose constructor has returned has an initialised SDK; and from every state in which a
  destruction has begun, the steps of the thread and the destructor lead to its end, with the SDK
  shut down.
\<close>
theorem aws_sdk_lifetime:
  assumes "reaches al_step new_aws_lifetime s"
  shows "(\<exists>i n e. al_calls s = replicate i InitAPI @ replicate n UseSdk @ replicate e ShutdownAPI \<and>
      i \<le> 1 \<and> e \<le> 1 \<and> (n \<noteq> 0 \<or> e \<noteq> 0 \<longrightarrow> i = 1)) \<and>
    (al_owner s = Constructed \<longrightarrow> InitAPI \<in> set (al_calls s) \<and> ShutdownAPI \<notin> set (al_calls s)) \<and>
    (al_shutdown s \<longrightarrow>
      (\<exists>t. reaches al_own s t \<and> al_owner t = Destroyed \<and> last (al_calls t) = ShutdownAPI))"
proof -
  have inv: "al_inv s"
    using assms al_inv_new by (rule reaches_invariant) (rule al_inv_step)
  obtain n where n: "al_calls s =
      (if init_done (al_thread s) then [InitAPI] else []) @ replicate n UseSdk @
      (if al_thread s = Finished then [ShutdownAPI] else [])" "n \<noteq> 0 \<longrightarrow> al_initialized s"
    using inv by (auto simp: al_inv_def)
  have init: "al_initialized s \<Longrightarrow> init_done (al_thread s)" using inv by (simp add: al_inv_def)
  have "\<exists>i n e. al_calls s = replicate i InitAPI @ replicate n UseSdk @ replicate e ShutdownAPI \<and>
      i \<le> 1 \<and> e \<le> 1 \<and> (n \<noteq> 0 \<or> e \<noteq> 0 \<longrightarrow> i = 1)"
    using n init
    by (intro exI [of _ "if init_done (al_thread s) then 1 else 0"] exI [of _ n]
        exI [of _ "if al_thread s = Finished then 1 else 0"]) auto
  moreover have "InitAPI \<in> set (al_calls s) \<and> ShutdownAPI \<notin> set (al_calls s)"
    if "al_owner s = Constructed"
    using inv that n init by (auto simp: al_inv_def)
  moreover have "\<exists>t. reaches al_own s t \<and> al_owner t = Destroyed \<and> last (al_calls t) = ShutdownAPI"
    if stop: "al_shutdown s"
  proof -
    have "\<exists>t. reaches al_own s t \<and> \<not> al_alive t"
      using aws_stop.stops [OF _ stop] inv by (cases "al_alive s") (auto intro: reaches_refl)
    then obtain t where t: "reaches al_own s t" "\<not> al_alive t" by blast
    have "al_inv t" using t(1) inv by (rule reaches_invariant) (rule al_inv_own)
    with t show ?thesis by (auto simp: al_alive_def al_inv_def)
  qed
  ultimately show ?thesis by blast
qed

lemma aws_sdk_lifetime_witness:
  "\<exists>s. reaches al_step new_aws_lifetime s \<and> al_owner s = Constructed \<and> InitAPI \<in> set (al_calls s)"
proof -
  define s1 where "s1 = new_aws_lifetime\<lparr>al_owner := Constructing, al_thread := Starting\<rparr>"
  define s2 where "s2 = call_sdk InitAPI s1\<lparr>al_thread := Initialised\<rparr>"
  define s3 where "s3 = s2\<lparr>al_initialized := True, al_thread := WaitingForEnd\<rparr>"
  define s4 where "s4 = s3\<lparr>al_owner := Constructed\<rparr>"
  have "al_step new_aws_lifetime s1"
    unfolding s1_def by (rule al_construct) (simp add: new_aws_lifetime_def)
  moreover have "al_step s1 s2"
    unfolding s2_def by (intro al_self al_init) (simp add: s1_def)
  moreover have "al_step s2 s3"
    unfolding s3_def by (intro al_self al_publish) (simp add: s2_def)
  moreover have "al_step s3 s4"
    unfolding s4_def
    by (intro al_self al_constructed) (simp_all add: s3_def s2_def s1_def call_sdk_def)
  ultimately have reach: "reaches al_step new_aws_lifetime s4"
    by (meson reaches_refl reaches_step)
  moreover have "al_owner s4 = Constructed" by (simp add: s4_def)
  ultimately show ?thesis using aws_sdk_lifetime [OF reach] by blast
qed

end
