(* ===== verification/ClientLife.thy ===== *)
theory ClientLife
  imports Lifecycle
begin

text \<open>
  The life of a client of the SQS, Pub/Sub and Kafka plugins: the start that the first calls run
  under a mutex (\<^verbatim>\<open>EnsureDispatcher\<close> of \<^verbatim>\<open>SqsClient.cpp\<close>, \<^verbatim>\<open>EnsureStarted\<close> of
  \<^verbatim>\<open>PubSubClient.cpp\<close>, \<^verbatim>\<open>ensureStarted\<close> of \<^verbatim>\<open>KafkaClient.cpp\<close>), the dispatcher
  thread, and the destructors with the members they destroy.  Any number of callers, the dispatcher
  and the destructor interleave; a start may fail at each of its actions and is then run again by
  another call.
\<close>

section \<open>The three clients\<close>

text \<open>The members that threads share.\<close>

datatype part = PendingTable | AwsClient | IdleSessions | ReplySession | Reports | KProducer | KConsumer

text \<open>
  The actions of a start, each of which may throw: create a member with the help of others, use
  members, create the thread.  The actions of a destructor and of the destruction of the members
  after it: \<open>Release p us\<close> destroys \<open>p\<close> if it exists and uses \<open>us\<close> for that.
\<close>

datatype start_action = Make part "part list" | Use "part list" | Spawn

datatype end_action =
  SetStopping | ClosePending | JoinDispatcher | Release part "part list" | DestroyThread

text \<open>
  A kind of client: whether a call starts it, the members its constructor makes, its start, what a
  turn of the dispatcher and what a call uses, in this order, and its end.
\<close>

record client_kind =
  ck_lazy :: bool
  ck_made :: "part list"
  ck_start :: "start_action list"
  ck_turn :: "part list"
  ck_call :: "part list"
  ck_end :: "end_action list"

definition sqs_kind :: client_kind where
  "sqs_kind =
    \<lparr>ck_lazy = True, ck_made = [AwsClient, PendingTable], ck_start = [Spawn],
     ck_turn = [PendingTable, AwsClient, PendingTable],
     ck_call = [PendingTable, AwsClient, PendingTable],
     ck_end = [SetStopping, ClosePending, JoinDispatcher,
       DestroyThread, Release PendingTable [], Release AwsClient []]\<rparr>"

text \<open>A call in one-way mode neither starts the SQS client nor registers.\<close>

definition sqs_oneway_kind :: client_kind where
  "sqs_oneway_kind = sqs_kind\<lparr>ck_lazy := False, ck_start := [], ck_turn := [], ck_call := [AwsClient]\<rparr>"

definition pubsub_kind :: client_kind where
  "pubsub_kind =
    \<lparr>ck_lazy = True, ck_made = [PendingTable, IdleSessions],
     ck_start = [Use [IdleSessions], Use [IdleSessions], Make ReplySession [], Spawn],
     ck_turn = [PendingTable, ReplySession, ReplySession, PendingTable],
     ck_call = [PendingTable, IdleSessions, IdleSessions, PendingTable],
     ck_end = [SetStopping, ClosePending, JoinDispatcher,
       DestroyThread, Release IdleSessions [], Release ReplySession [], Release PendingTable []]\<rparr>"

definition pubsub_oneway_kind :: client_kind where
  "pubsub_oneway_kind = pubsub_kind\<lparr>ck_start := [Use [IdleSessions], Use [IdleSessions]], ck_turn := [],
     ck_call := [IdleSessions, IdleSessions]\<rparr>"

text \<open>
  The producer of Kafka calls the delivery reports, which use the table, whenever it is polled,
  flushed or destroyed.
\<close>

definition kafka_kind :: client_kind where
  "kafka_kind =
    \<lparr>ck_lazy = True, ck_made = [PendingTable],
     ck_start = [Make Reports [PendingTable], Make KProducer [Reports, PendingTable],
       Make KConsumer [], Use [KConsumer], Spawn],
     ck_turn = [KProducer, Reports, PendingTable, KConsumer, PendingTable],
     ck_call = [PendingTable, KProducer, PendingTable],
     ck_end = [SetStopping, JoinDispatcher, ClosePending, Release KConsumer [KConsumer],
       Release KProducer [KProducer, Reports, PendingTable],
       DestroyThread, Release Reports [], Release PendingTable []]\<rparr>"

definition client_kinds :: "client_kind list" where
  "client_kinds = [sqs_kind, sqs_oneway_kind, pubsub_kind, pubsub_oneway_kind, kafka_kind]"

section \<open>The steps\<close>

text \<open>Where a caller is: the phases are those of the double-checked start.\<close>

datatype caller_phase = Outside | Testing | Locking | Retesting | Starting "start_action list" |
  Calling "part list"

datatype dispatcher_phase = NoDispatcher | DTest | DTurn "part list" | DOver

datatype client_owner = Using | Ending "end_action list"

text \<open>
  \<open>cl_misused\<close> records a use of a member that does not exist, \<open>cl_terminated\<close> that
  a joinable thread was assigned or destroyed, which ends the process.
\<close>

record client_life =
  cl_callers :: "nat \<Rightarrow> caller_phase"
  cl_mutex :: "nat option"
  cl_started :: bool
  cl_stopping :: bool
  cl_thread :: dispatcher_phase
  cl_parts :: "part list"
  cl_owner :: client_owner
  cl_misused :: bool
  cl_terminated :: bool

definition client_made :: "client_kind \<Rightarrow> client_life" where
  "client_made k =
    \<lparr>cl_callers = (\<lambda>_. Outside), cl_mutex = None, cl_started = False, cl_stopping = False,
     cl_thread = NoDispatcher, cl_parts = ck_made k, cl_owner = Using, cl_misused = False,
     cl_terminated = False\<rparr>"

definition use_parts :: "part list \<Rightarrow> client_life \<Rightarrow> client_life" where
  "use_parts us s = s\<lparr>cl_misused := cl_misused s \<or> \<not> set us \<subseteq> set (cl_parts s)\<rparr>"

definition at_phase :: "nat \<Rightarrow> caller_phase \<Rightarrow> client_life \<Rightarrow> client_life" where
  "at_phase c p s = s\<lparr>cl_callers := (cl_callers s)(c := p)\<rparr>"

fun do_start :: "start_action \<Rightarrow> client_life \<Rightarrow> client_life" where
  "do_start (Make p us) s = (use_parts us s)\<lparr>cl_parts := List.insert p (cl_parts s)\<rparr>"
| "do_start (Use us) s = use_parts us s"
| "do_start Spawn s =
     s\<lparr>cl_thread := DTest, cl_terminated := cl_terminated s \<or> cl_thread s \<noteq> NoDispatcher\<rparr>"

fun do_end :: "end_action \<Rightarrow> client_life \<Rightarrow> client_life" where
  "do_end SetStopping s = s\<lparr>cl_stopping := True\<rparr>"
| "do_end ClosePending s = use_parts [PendingTable] s"
| "do_end JoinDispatcher s = s\<lparr>cl_thread := NoDispatcher\<rparr>"
| "do_end (Release p us) s =
     (if p \<in> set (cl_parts s)
      then (use_parts us s)\<lparr>cl_parts := removeAll p (cl_parts s)\<rparr> else s)"
| "do_end DestroyThread s = s\<lparr>cl_terminated := cl_terminated s \<or> cl_thread s \<noteq> NoDispatcher\<rparr>"

text \<open>
  The steps of the dispatcher, which may leave a turn after any of its uses, and of the
  destructor, which waits for the thread in the join.
\<close>

inductive cl_own :: "client_kind \<Rightarrow> client_life \<Rightarrow> client_life \<Rightarrow> bool" for k where
  cl_enter: "cl_thread s = DTest \<Longrightarrow> \<not> cl_stopping s \<Longrightarrow>
     cl_own k s (s\<lparr>cl_thread := DTurn (ck_turn k)\<rparr>)"
| cl_leave: "cl_thread s = DTest \<Longrightarrow> cl_stopping s \<Longrightarrow> cl_own k s (s\<lparr>cl_thread := DOver\<rparr>)"
| cl_turn: "cl_thread s = DTurn (p # ps) \<Longrightarrow>
     cl_own k s (use_parts [p] s\<lparr>cl_thread := DTurn ps\<rparr>)"
| cl_continue: "cl_thread s = DTurn ps \<Longrightarrow> cl_own k s (s\<lparr>cl_thread := DTest\<rparr>)"
| cl_end: "cl_owner s = Ending (a # as) \<Longrightarrow>
     (a = JoinDispatcher \<longrightarrow> cl_thread s = NoDispatcher \<or> cl_thread s = DOver) \<Longrightarrow>
     cl_own k s (do_end a s\<lparr>cl_owner := Ending as\<rparr>)"

text \<open>
  The steps of the callers; a call may return or throw after any of its uses.  The gateway destroys a channel when no call is in progress, and does
  not call it again.
\<close>

inductive cl_step :: "client_kind \<Rightarrow> client_life \<Rightarrow> client_life \<Rightarrow> bool" for k where
  cl_self: "cl_own k s t \<Longrightarrow> cl_step k s t"
| cl_arrive: "cl_owner s = Using \<Longrightarrow> cl_callers s c = Outside \<Longrightarrow>
     cl_step k s (at_phase c (if ck_lazy k then Testing else Calling (ck_call k)) s)"
| cl_test: "cl_callers s c = Testing \<Longrightarrow>
     cl_step k s (at_phase c (if cl_started s then Calling (ck_call k) else Locking) s)"
| cl_lock: "cl_callers s c = Locking \<Longrightarrow> cl_mutex s = None \<Longrightarrow>
     cl_step k s (at_phase c Retesting s\<lparr>cl_mutex := Some c\<rparr>)"
| cl_found: "cl_callers s c = Retesting \<Longrightarrow> cl_started s \<Longrightarrow>
     cl_step k s (at_phase c (Calling (ck_call k)) s\<lparr>cl_mutex := None\<rparr>)"
| cl_begin: "cl_callers s c = Retesting \<Longrightarrow> \<not> cl_started s \<Longrightarrow>
     cl_step k s (at_phase c (Starting (ck_start k)) s)"
| cl_act: "cl_callers s c = Starting (a # as) \<Longrightarrow>
     cl_step k s (at_phase c (Starting as) (do_start a s))"
| cl_throw: "cl_callers s c = Starting (a # as) \<Longrightarrow>
     cl_step k s (at_phase c Outside s\<lparr>cl_mutex := None\<rparr>)"
| cl_done: "cl_callers s c = Starting [] \<Longrightarrow>
     cl_step k s (at_phase c (Calling (ck_call k)) s\<lparr>cl_started := True, cl_mutex := None\<rparr>)"
| cl_call: "cl_callers s c = Calling (p # ps) \<Longrightarrow>
     cl_step k s (at_phase c (Calling ps) (use_parts [p] s))"
| cl_return: "cl_callers s c = Calling ps \<Longrightarrow> cl_step k s (at_phase c Outside s)"
| cl_destroy: "cl_owner s = Using \<Longrightarrow> (\<And>c. cl_callers s c = Outside) \<Longrightarrow>
     cl_step k s (s\<lparr>cl_owner := Ending (ck_end k)\<rparr>)"

inductive_cases cl_own_E: "cl_own k s t"
inductive_cases cl_step_E: "cl_step k s t"

section \<open>What makes a kind sound\<close>

text \<open>
  \<open>parts_at k n\<close> are the members after the first \<open>n\<close> actions of the start; an
  end is in order when every use finds its member, and nothing the dispatcher uses is destroyed
  before the join.
\<close>

fun make_part :: "start_action \<Rightarrow> part list \<Rightarrow> part list" where
  "make_part (Make p us) ps = List.insert p ps"
| "make_part _ ps = ps"

fun start_uses :: "start_action \<Rightarrow> part list" where
  "start_uses (Make p us) = us"
| "start_uses (Use us) = us"
| "start_uses Spawn = []"

definition parts_at :: "client_kind \<Rightarrow> nat \<Rightarrow> part list" where
  "parts_at k n = fold make_part (take n (ck_start k)) (ck_made k)"

definition has_thread :: "client_kind \<Rightarrow> bool" where
  "has_thread k \<longleftrightarrow> Spawn \<in> set (ck_start k)"

fun ending_ok :: "part list \<Rightarrow> part list \<Rightarrow> bool \<Rightarrow> bool \<Rightarrow> end_action list \<Rightarrow> bool" where
  "ending_ok turn ps stopping joined [] \<longleftrightarrow> ps = [] \<and> stopping \<and> joined"
| "ending_ok turn ps stopping joined (SetStopping # as) \<longleftrightarrow> ending_ok turn ps True joined as"
| "ending_ok turn ps stopping joined (ClosePending # as) \<longleftrightarrow>
     PendingTable \<in> set ps \<and> stopping \<and> ending_ok turn ps stopping joined as"
| "ending_ok turn ps stopping joined (JoinDispatcher # as) \<longleftrightarrow> stopping \<and> ending_ok turn ps stopping True as"
| "ending_ok turn ps stopping joined (Release p us # as) \<longleftrightarrow> stopping \<and>
     (if p \<in> set ps
      then set us \<subseteq> set ps \<and> (joined \<or> p \<notin> set turn) \<and> ending_ok turn (removeAll p ps) stopping joined as
      else ending_ok turn ps stopping joined as)"
| "ending_ok turn ps stopping joined (DestroyThread # as) \<longleftrightarrow>
     stopping \<and> joined \<and> ending_ok turn ps stopping joined as"

definition client_kind_ok :: "client_kind \<Rightarrow> bool" where
  "client_kind_ok k \<longleftrightarrow>
     (let n = length (ck_start k) in
      list_all (\<lambda>m. ending_ok (ck_turn k) (parts_at k m) False False (ck_end k)) [0..<Suc n] \<and>
      list_all (\<lambda>m. set (start_uses (ck_start k ! m)) \<subseteq> set (parts_at k m)) [0..<n] \<and>
      Spawn \<notin> set (butlast (ck_start k)) \<and>
      (has_thread k \<longrightarrow> set (ck_turn k) \<subseteq> set (parts_at k n)) \<and>
      (ck_lazy k \<longleftrightarrow> n \<noteq> 0) \<and>
      set (ck_call k) \<subseteq> set (parts_at k n))"

lemmas client_kind_defs = sqs_kind_def sqs_oneway_kind_def pubsub_kind_def pubsub_oneway_kind_def kafka_kind_def

lemma client_kinds_ok: "k \<in> set client_kinds \<Longrightarrow> client_kind_ok k"
  by (auto simp: client_kinds_def client_kind_ok_def Let_def parts_at_def has_thread_def client_kind_defs
      upt_conv_Cons numeral_eq_Suc)

lemma parts_at_Suc:
  "n < length (ck_start k) \<Longrightarrow> parts_at k (Suc n) = make_part (ck_start k ! n) (parts_at k n)"
  by (simp add: parts_at_def take_Suc_conv_app_nth)

lemma make_part_mono: "set ps \<subseteq> set (make_part a ps)"
  by (cases a) auto

lemma parts_at_mono: "m \<le> n \<Longrightarrow> n \<le> length (ck_start k) \<Longrightarrow> set (parts_at k m) \<subseteq> set (parts_at k n)"
proof (induction n rule: dec_induct)
  case (step n)
  then show ?case using make_part_mono [of "parts_at k n" "ck_start k ! n"] by (auto simp: parts_at_Suc)
qed simp

text \<open>An action that has been done before changes nothing when it is done again.\<close>

lemma make_part_again:
  assumes "m < n" "n \<le> length (ck_start k)"
  shows "make_part (ck_start k ! m) (parts_at k n) = parts_at k n"
proof (cases "ck_start k ! m")
  case (Make p us)
  then have "p \<in> set (parts_at k (Suc m))" using assms by (simp add: parts_at_Suc)
  then have "p \<in> set (parts_at k n)" using parts_at_mono [of "Suc m" n k] assms by auto
  with Make show ?thesis by simp
qed simp_all

lemma do_start_fields:
  "cl_callers (do_start a s) = cl_callers s" "cl_mutex (do_start a s) = cl_mutex s"
  "cl_started (do_start a s) = cl_started s" "cl_stopping (do_start a s) = cl_stopping s"
  "cl_owner (do_start a s) = cl_owner s" "cl_parts (do_start a s) = make_part a (cl_parts s)"
  "cl_thread (do_start a s) = (if a = Spawn then DTest else cl_thread s)"
  "cl_misused (do_start a s) \<longleftrightarrow> cl_misused s \<or> \<not> set (start_uses a) \<subseteq> set (cl_parts s)"
  "cl_terminated (do_start a s) \<longleftrightarrow> cl_terminated s \<or> a = Spawn \<and> cl_thread s \<noteq> NoDispatcher"
  by (cases a; simp add: use_parts_def)+

section \<open>The invariant\<close>

text \<open>
  The mutex is held by the caller between its second test and the end of its start.
\<close>

definition in_start :: "caller_phase \<Rightarrow> bool" where
  "in_start p \<longleftrightarrow> p = Retesting \<or> (\<exists>as. p = Starting as)"

definition lock_inv :: "client_life \<Rightarrow> bool" where
  "lock_inv s \<longleftrightarrow> (\<forall>c. in_start (cl_callers s c) \<longleftrightarrow> cl_mutex s = Some c)"

text \<open>While the client is used: \<open>n\<close> is how far the starts have come so far.\<close>

fun phase_ok :: "client_kind \<Rightarrow> nat \<Rightarrow> bool \<Rightarrow> part list \<Rightarrow> caller_phase \<Rightarrow> bool" where
  "phase_ok k n started parts Outside \<longleftrightarrow> True"
| "phase_ok k n started parts (Starting as) \<longleftrightarrow> \<not> started \<and> (\<exists>m \<le> n. as = drop m (ck_start k))"
| "phase_ok k n started parts (Calling ps) \<longleftrightarrow> set ps \<subseteq> set parts \<and> (started \<or> \<not> ck_lazy k)"
| "phase_ok k n started parts _ \<longleftrightarrow> ck_lazy k"

definition callers_inv :: "client_kind \<Rightarrow> nat \<Rightarrow> client_life \<Rightarrow> bool" where
  "callers_inv k n s \<longleftrightarrow> (\<forall>c. phase_ok k n (cl_started s) (cl_parts s) (cl_callers s c))"

definition thread_inv :: "client_kind \<Rightarrow> client_life \<Rightarrow> bool" where
  "thread_inv k s \<longleftrightarrow> (cl_thread s = DOver \<longrightarrow> cl_stopping s) \<and> (cl_thread s = NoDispatcher \<or>
     has_thread k \<and> set (ck_turn k) \<subseteq> set (cl_parts s) \<and>
     (\<forall>ps. cl_thread s = DTurn ps \<longrightarrow> set ps \<subseteq> set (ck_turn k)))"

definition using_inv :: "client_kind \<Rightarrow> client_life \<Rightarrow> bool" where
  "using_inv k s \<longleftrightarrow> \<not> cl_stopping s \<and>
     (\<exists>n \<le> length (ck_start k). cl_parts s = parts_at k n \<and> callers_inv k n s \<and>
        (cl_started s \<longrightarrow> n = length (ck_start k))) \<and>
     (cl_thread s \<noteq> NoDispatcher \<longleftrightarrow>
        has_thread k \<and> (cl_started s \<or> (\<exists>c. cl_callers s c = Starting [])))"

definition ending_inv :: "client_kind \<Rightarrow> end_action list \<Rightarrow> client_life \<Rightarrow> bool" where
  "ending_inv k as s \<longleftrightarrow> (\<forall>c. cl_callers s c = Outside) \<and>
     (\<exists>joined. ending_ok (ck_turn k) (cl_parts s) (cl_stopping s) joined as \<and>
        (joined \<longrightarrow> cl_thread s = NoDispatcher))"

definition cl_inv :: "client_kind \<Rightarrow> client_life \<Rightarrow> bool" where
  "cl_inv k s \<longleftrightarrow> \<not> cl_misused s \<and> \<not> cl_terminated s \<and> lock_inv s \<and> thread_inv k s \<and>
     (case cl_owner s of Using \<Rightarrow> using_inv k s | Ending as \<Rightarrow> ending_inv k as s)"

lemma cl_inv_made: "client_kind_ok k \<Longrightarrow> cl_inv k (client_made k)"
  by (auto simp: cl_inv_def client_made_def lock_inv_def in_start_def thread_inv_def using_inv_def
      callers_inv_def parts_at_def client_kind_ok_def Let_def intro!: exI [of _ 0])

lemma use_parts_fields [simp]:
  "cl_callers (use_parts us s) = cl_callers s" "cl_mutex (use_parts us s) = cl_mutex s"
  "cl_started (use_parts us s) = cl_started s" "cl_stopping (use_parts us s) = cl_stopping s"
  "cl_thread (use_parts us s) = cl_thread s" "cl_parts (use_parts us s) = cl_parts s"
  "cl_owner (use_parts us s) = cl_owner s" "cl_terminated (use_parts us s) = cl_terminated s"
  by (simp_all add: use_parts_def)

lemma at_phase_fields [simp]:
  "cl_callers (at_phase c p s) = (cl_callers s)(c := p)" "cl_mutex (at_phase c p s) = cl_mutex s"
  "cl_started (at_phase c p s) = cl_started s" "cl_stopping (at_phase c p s) = cl_stopping s"
  "cl_thread (at_phase c p s) = cl_thread s" "cl_parts (at_phase c p s) = cl_parts s"
  "cl_owner (at_phase c p s) = cl_owner s" "cl_terminated (at_phase c p s) = cl_terminated s"
  "cl_misused (at_phase c p s) = cl_misused s"
  by (simp_all add: at_phase_def)

lemma in_start_simps [simp]:
  "\<not> in_start Outside" "\<not> in_start Testing" "\<not> in_start Locking" "in_start Retesting"
  "in_start (Starting as)" "\<not> in_start (Calling ps)"
  by (simp_all add: in_start_def)

lemma callers_inv_at:
  "callers_inv k n s \<Longrightarrow> cl_callers s c = p \<Longrightarrow> phase_ok k n (cl_started s) (cl_parts s) p"
  by (auto simp: callers_inv_def)

section \<open>Each step keeps it\<close>

lemma owner_when_called: "cl_inv k s \<Longrightarrow> cl_callers s c \<noteq> Outside \<Longrightarrow> cl_owner s = Using \<and> using_inv k s"
  by (auto simp: cl_inv_def ending_inv_def split: client_owner.splits)

lemma lock_inv_move:
  assumes "lock_inv s"
    and "in_start (cl_callers s c) = in_start p \<and> mu = cl_mutex s \<or>
      in_start (cl_callers s c) \<and> \<not> in_start p \<and> mu = None \<or>
      cl_mutex s = None \<and> in_start p \<and> mu = Some c"
  shows "lock_inv (at_phase c p s\<lparr>cl_mutex := mu\<rparr>)"
  using assms unfolding lock_inv_def by auto

text \<open>A caller moves to a phase that is in order for it, and takes or gives the mutex.\<close>

lemma inv_move:
  assumes "cl_inv k s" "cl_owner s = Using" "cl_callers s c \<noteq> Starting []" "p \<noteq> Starting []"
    and mu: "in_start (cl_callers s c) = in_start p \<and> mu = cl_mutex s \<or>
      in_start (cl_callers s c) \<and> \<not> in_start p \<and> mu = None \<or>
      cl_mutex s = None \<and> in_start p \<and> mu = Some c"
    and ok: "\<And>n. n \<le> length (ck_start k) \<Longrightarrow> callers_inv k n s \<Longrightarrow> cl_parts s = parts_at k n \<Longrightarrow>
       (cl_started s \<longrightarrow> n = length (ck_start k)) \<Longrightarrow> phase_ok k n (cl_started s) (cl_parts s) p"
  shows "cl_inv k (at_phase c p s\<lparr>cl_mutex := mu\<rparr>)"
proof -
  have u: "using_inv k s" and l: "lock_inv s" using assms(1,2) by (simp_all add: cl_inv_def)
  then obtain n where n: "n \<le> length (ck_start k)" "cl_parts s = parts_at k n" "callers_inv k n s"
    "cl_started s \<longrightarrow> n = length (ck_start k)"
    by (auto simp: using_inv_def)
  have "callers_inv k n (at_phase c p s\<lparr>cl_mutex := mu\<rparr>)"
    using n(3) ok [OF n(1,3,2,4)] by (simp add: callers_inv_def)
  moreover have "(\<exists>d. ((cl_callers s)(c := p)) d = Starting []) \<longleftrightarrow> (\<exists>d. cl_callers s d = Starting [])"
    using assms(3,4) by (metis fun_upd_apply)
  ultimately have "using_inv k (at_phase c p s\<lparr>cl_mutex := mu\<rparr>)"
    using u n unfolding using_inv_def by auto
  with assms(1,2) lock_inv_move [OF l mu] show ?thesis by (simp add: cl_inv_def thread_inv_def)
qed

lemma inv_move_same:
  assumes "cl_inv k s" "cl_owner s = Using" "cl_callers s c \<noteq> Starting []" "p \<noteq> Starting []"
    "in_start (cl_callers s c) = in_start p"
    "\<And>n. n \<le> length (ck_start k) \<Longrightarrow> callers_inv k n s \<Longrightarrow> cl_parts s = parts_at k n \<Longrightarrow>
       (cl_started s \<longrightarrow> n = length (ck_start k)) \<Longrightarrow> phase_ok k n (cl_started s) (cl_parts s) p"
  shows "cl_inv k (at_phase c p s)"
proof -
  have "at_phase c p s\<lparr>cl_mutex := cl_mutex s\<rparr> = at_phase c p s" by (simp add: at_phase_def)
  then show ?thesis using inv_move [of k s c p "cl_mutex s"] assms by metis
qed

lemma call_parts: "client_kind_ok k \<Longrightarrow> cl_parts s = parts_at k (length (ck_start k)) \<Longrightarrow>
    set (ck_call k) \<subseteq> set (cl_parts s)"
  by (simp add: client_kind_ok_def Let_def)

lemma inv_arrive:
  assumes "client_kind_ok k" "cl_inv k s" "cl_owner s = Using" "cl_callers s c = Outside"
  shows "cl_inv k (at_phase c (if ck_lazy k then Testing else Calling (ck_call k)) s)"
proof (rule inv_move_same [OF assms(2,3)])
  fix n
  assume "n \<le> length (ck_start k)" "cl_parts s = parts_at k n"
  moreover have "length (ck_start k) = 0" if "\<not> ck_lazy k"
    using assms(1) that by (simp add: client_kind_ok_def Let_def)
  ultimately show "phase_ok k n (cl_started s) (cl_parts s) (if ck_lazy k then Testing else Calling (ck_call k))"
    using call_parts [OF assms(1), of s] by auto
qed (use assms(4) in simp_all)

lemma inv_test:
  assumes "client_kind_ok k" "cl_inv k s" "cl_callers s c = Testing"
  shows "cl_inv k (at_phase c (if cl_started s then Calling (ck_call k) else Locking) s)"
proof (rule inv_move_same [OF assms(2)])
  fix n
  assume "callers_inv k n s" "cl_parts s = parts_at k n" "cl_started s \<longrightarrow> n = length (ck_start k)"
  then show "phase_ok k n (cl_started s) (cl_parts s) (if cl_started s then Calling (ck_call k) else Locking)"
    using call_parts [OF assms(1), of s] callers_inv_at [OF _ assms(3), of k n] by auto
qed (use owner_when_called [OF assms(2), of c] assms(3) in simp_all)

lemma inv_found:
  assumes "client_kind_ok k" "cl_inv k s" "cl_callers s c = Retesting" "cl_started s"
  shows "cl_inv k (at_phase c (Calling (ck_call k)) s\<lparr>cl_mutex := None\<rparr>)"
  using owner_when_called [OF assms(2), of c] assms(3,4) call_parts [OF assms(1), of s]
  by (intro inv_move [OF assms(2)]) auto

lemma inv_callers:
  assumes "cl_inv k s"
  shows "cl_callers s c = Locking \<Longrightarrow> cl_mutex s = None \<Longrightarrow>
      cl_inv k (at_phase c Retesting s\<lparr>cl_mutex := Some c\<rparr>)"
    "cl_callers s c = Starting (a # as) \<Longrightarrow> cl_inv k (at_phase c Outside s\<lparr>cl_mutex := None\<rparr>)"
    "cl_callers s c = Calling ps \<Longrightarrow> cl_inv k (at_phase c Outside s)"
  by (intro inv_move [OF assms] inv_move_same [OF assms]; use owner_when_called [OF assms, of c] in
      \<open>auto dest: callers_inv_at\<close>)+

lemma inv_begin:
  assumes "client_kind_ok k" "cl_inv k s" "cl_callers s c = Retesting" "\<not> cl_started s"
  shows "cl_inv k (at_phase c (Starting (ck_start k)) s)"
proof (rule inv_move_same [OF assms(2)])
  have o: "cl_owner s = Using" "using_inv k s"
    using owner_when_called [OF assms(2), of c] assms(3) by simp_all
  then show "cl_owner s = Using" by simp
  from o(2) callers_inv_at [OF _ assms(3)] have "ck_lazy k" by (auto simp: using_inv_def)
  with assms(1) show "Starting (ck_start k) \<noteq> Starting []" by (simp add: client_kind_ok_def Let_def)
  fix n
  show "phase_ok k n (cl_started s) (cl_parts s) (Starting (ck_start k))"
    using assms(4) by (auto intro: exI [of _ 0])
qed (use assms(3) in simp_all)

lemma phase_ok_mono:
  "phase_ok k n b ps p \<Longrightarrow> n \<le> n' \<Longrightarrow> set ps \<subseteq> set ps' \<Longrightarrow> phase_ok k n' b ps' p"
  by (cases p) (auto intro: order_trans)

text \<open>The thread is created by the last action of a start, if the kind has one.\<close>

lemma spawn_is_last:
  assumes "client_kind_ok k" "m < length (ck_start k)"
  shows "ck_start k ! m = Spawn \<longleftrightarrow> has_thread k \<and> drop (Suc m) (ck_start k) = []"
proof -
  have b: "Spawn \<notin> set (butlast (ck_start k))" using assms(1) by (simp add: client_kind_ok_def Let_def)
  have "ck_start k \<noteq> []" using assms(2) by auto
  then have s: "x \<in> set (ck_start k) \<longleftrightarrow> x = last (ck_start k) \<or> x \<in> set (butlast (ck_start k))" for x
    using append_butlast_last_id [of "ck_start k"] by (metis Un_iff empty_iff empty_set insert_iff list.simps(15) set_append)
  show ?thesis
  proof (cases "Suc m = length (ck_start k)")
    case True
    then have m: "m = length (ck_start k) - 1" by arith
    have "ck_start k ! m = last (ck_start k)"
      unfolding m using \<open>ck_start k \<noteq> []\<close> by (rule last_conv_nth [symmetric])
    moreover have "drop (Suc m) (ck_start k) = []" using True by simp
    moreover have "has_thread k \<longleftrightarrow> last (ck_start k) = Spawn"
      unfolding has_thread_def s [of Spawn] using b by auto
    ultimately show ?thesis by simp
  next
    case False
    with assms(2) have "m < length (butlast (ck_start k))" by simp
    then have "ck_start k ! m \<in> set (butlast (ck_start k))" by (metis nth_butlast nth_mem)
    with False assms(2) b show ?thesis by auto
  qed
qed

text \<open>Where a start is, and what the other threads are not doing meanwhile.\<close>

lemma start_position:
  assumes "cl_inv k s" "cl_callers s c = Starting (a # as)"
  obtains n m where "n \<le> length (ck_start k)" "m \<le> n" "m < length (ck_start k)"
    "a = ck_start k ! m" "as = drop (Suc m) (ck_start k)"
    "cl_parts s = parts_at k n" "callers_inv k n s" "\<not> cl_started s"
    "cl_thread s = NoDispatcher" "\<nexists>d. cl_callers s d = Starting []"
proof -
  have u: "using_inv k s" and l: "lock_inv s"
    using owner_when_called [OF assms(1), of c] assms by (simp_all add: cl_inv_def)
  then obtain n where n: "n \<le> length (ck_start k)" "cl_parts s = parts_at k n" "callers_inv k n s"
    by (auto simp: using_inv_def)
  from callers_inv_at [OF n(3) assms(2)] obtain m where
    m: "m \<le> n" "a # as = drop m (ck_start k)" and ns: "\<not> cl_started s" by auto
  have lt: "m < length (ck_start k)" using m(2) by (metis drop_all list.distinct(1) not_less)
  have "a # as = ck_start k ! m # drop (Suc m) (ck_start k)"
    by (simp only: m(2) Cons_nth_drop_Suc [OF lt])
  then have a: "a = ck_start k ! m" "as = drop (Suc m) (ck_start k)" by simp_all
  have none: "\<nexists>d. cl_callers s d = Starting []"
  proof
    assume "\<exists>d. cl_callers s d = Starting []"
    then obtain d where d: "cl_callers s d = Starting []" ..
    then have "in_start (cl_callers s d)" "in_start (cl_callers s c)" using assms(2) by simp_all
    then have "d = c" using l by (simp add: lock_inv_def)
    with d assms(2) show False by simp
  qed
  then have "cl_thread s = NoDispatcher" using u ns by (simp add: using_inv_def)
  with that n m(1) lt a ns none show ?thesis by blast
qed

text \<open>An action of a start: the members grow to the next stage, or are there already.\<close>

lemma inv_act:
  assumes "client_kind_ok k" "cl_inv k s" "cl_callers s c = Starting (a # as)"
  shows "cl_inv k (at_phase c (Starting as) (do_start a s))" (is "cl_inv k ?t")
proof -
  let ?N = "length (ck_start k)"
  have o: "cl_owner s = Using" "using_inv k s" and l: "lock_inv s"
    using owner_when_called [OF assms(2), of c] assms(2,3) by (simp_all add: cl_inv_def)
  from start_position [OF assms(2,3)] obtain n m where
    n: "n \<le> ?N" "m \<le> n" and lt: "m < ?N" and a: "a = ck_start k ! m" "as = drop (Suc m) (ck_start k)"
    and p: "cl_parts s = parts_at k n" "callers_inv k n s" and ns: "\<not> cl_started s"
    and th: "cl_thread s = NoDispatcher" and none: "\<nexists>d. cl_callers s d = Starting []" .
  define n' where "n' = max n (Suc m)"
  have n': "n' \<le> ?N" "Suc m \<le> n'" using n lt by (simp_all add: n'_def)
  have parts: "make_part a (cl_parts s) = parts_at k n'"
    using parts_at_Suc [OF lt] make_part_again [of m n k] n p(1)
    by (cases "m < n") (simp_all add: n'_def a(1) max_absorb1)
  have uses: "set (start_uses a) \<subseteq> set (cl_parts s)"
    using assms(1) lt parts_at_mono [OF n(2,1)]
    by (fastforce simp: client_kind_ok_def Let_def list_all_iff a(1) p(1))
  note spawn = spawn_is_last [OF assms(1) lt, folded a]
  have old: "phase_ok k n' (cl_started s) (make_part a (cl_parts s)) (cl_callers s d)" for d
    using phase_ok_mono [OF callers_inv_at [OF p(2) refl] _ make_part_mono] by (simp add: n'_def)
  moreover have "phase_ok k n' (cl_started s) (make_part a (cl_parts s)) (Starting as)"
    using ns n'(2) a(2) by auto
  ultimately have "callers_inv k n' ?t"
    by (simp add: callers_inv_def do_start_fields del: phase_ok.simps)
  moreover have "(\<exists>d. cl_callers ?t d = Starting []) \<longleftrightarrow> as = []"
    using none by (auto simp: do_start_fields)
  ultimately have "using_inv k ?t"
    unfolding using_inv_def
    by (intro conjI exI [of _ n'])
      (use o(2) ns n'(1) parts spawn in \<open>simp_all add: using_inv_def do_start_fields th del: fun_upd_apply\<close>)
  moreover have "lock_inv ?t"
    using lock_inv_move [OF l, of c "Starting as" "cl_mutex s"] assms(3)
    by (simp add: lock_inv_def do_start_fields)
  moreover have "n' = ?N" if "as = []" using that a(2) n' by simp
  then have "thread_inv k ?t"
    using assms(1) parts spawn
    by (cases "a = Spawn") (simp_all add: thread_inv_def do_start_fields th client_kind_ok_def Let_def)
  ultimately show ?thesis
    using assms(2) o(1) th uses by (simp add: cl_inv_def do_start_fields)
qed

lemma inv_done:
  assumes "client_kind_ok k" "cl_inv k s" "cl_callers s c = Starting []"
  shows "cl_inv k (at_phase c (Calling (ck_call k)) s\<lparr>cl_started := True, cl_mutex := None\<rparr>)" (is "cl_inv k ?t")
proof -
  let ?N = "length (ck_start k)"
  have o: "cl_owner s = Using" "using_inv k s" and l: "lock_inv s"
    using owner_when_called [OF assms(2), of c] assms(2,3) by (simp_all add: cl_inv_def)
  then obtain n where n: "n \<le> ?N" "cl_parts s = parts_at k n" "callers_inv k n s"
    by (auto simp: using_inv_def)
  from callers_inv_at [OF n(3) assms(3)] n(1) have full: "n = ?N" by auto
  have "callers_inv k n ?t"
    unfolding callers_inv_def
  proof
    fix d
    have "phase_ok k n True (cl_parts s) (cl_callers s d)" if "d \<noteq> c"
    proof -
      have "\<not> in_start (cl_callers s d)" using l assms(3) that by (auto simp: lock_inv_def)
      with callers_inv_at [OF n(3) refl, of d] show ?thesis by (cases "cl_callers s d") auto
    qed
    then show "phase_ok k n (cl_started ?t) (cl_parts ?t) (cl_callers ?t d)"
      using call_parts [OF assms(1), of s] n(2) full by auto
  qed
  then have "using_inv k ?t" using o(2) n full assms(3) by (auto simp: using_inv_def)
  moreover have "lock_inv ?t" using l assms(3) by (auto simp: lock_inv_def)
  ultimately show ?thesis using assms(2) o(1) by (simp add: cl_inv_def thread_inv_def)
qed

lemma inv_call:
  assumes "cl_inv k s" "cl_callers s c = Calling (p # ps)"
  shows "cl_inv k (at_phase c (Calling ps) (use_parts [p] s))"
proof -
  have o: "cl_owner s = Using" "using_inv k s"
    using owner_when_called [OF assms(1), of c] assms(2) by simp_all
  then obtain n where "callers_inv k n s" by (auto simp: using_inv_def)
  from callers_inv_at [OF this assms(2)] have "p \<in> set (cl_parts s)" by simp
  then have "use_parts [p] s = s" by (simp add: use_parts_def)
  with o assms(2) show ?thesis
    by simp (rule inv_move_same [OF assms(1)]; use callers_inv_at [OF _ assms(2), of k] in auto)
qed

lemma inv_destroy:
  assumes "client_kind_ok k" "cl_inv k s" "cl_owner s = Using" "\<And>c. cl_callers s c = Outside"
  shows "cl_inv k (s\<lparr>cl_owner := Ending (ck_end k)\<rparr>)"
proof -
  obtain n where n: "n \<le> length (ck_start k)" "cl_parts s = parts_at k n" "\<not> cl_stopping s"
    using assms(2,3) by (auto simp: cl_inv_def using_inv_def)
  have "ending_ok (ck_turn k) (parts_at k n) False False (ck_end k)"
    using assms(1) n(1) by (auto simp: client_kind_ok_def Let_def list_all_iff)
  then show ?thesis
    using assms(2-4) n by (auto simp: cl_inv_def ending_inv_def lock_inv_def thread_inv_def)
qed

lemma inv_end:
  assumes "cl_inv k s" "cl_owner s = Ending (a # as)"
    and "a = JoinDispatcher \<longrightarrow> cl_thread s = NoDispatcher \<or> cl_thread s = DOver"
  shows "cl_inv k (do_end a s\<lparr>cl_owner := Ending as\<rparr>)"
proof -
  obtain joined where j: "ending_ok (ck_turn k) (cl_parts s) (cl_stopping s) joined (a # as)"
    "joined \<longrightarrow> cl_thread s = NoDispatcher" "\<forall>c. cl_callers s c = Outside"
    using assms(1,2) by (auto simp: cl_inv_def ending_inv_def)
  show ?thesis
    using assms j
    by (cases a) (auto simp: cl_inv_def ending_inv_def lock_inv_def thread_inv_def use_parts_def
        split: if_splits)
qed

lemma cl_inv_own:
  assumes "client_kind_ok k" "cl_own k s t" "cl_inv k s"
  shows "cl_inv k t"
  using assms(2)
proof (rule cl_own_E)
  fix a as
  assume "t = do_end a s\<lparr>cl_owner := Ending as\<rparr>" "cl_owner s = Ending (a # as)"
    "a = JoinDispatcher \<longrightarrow> cl_thread s = NoDispatcher \<or> cl_thread s = DOver"
  then show ?thesis using inv_end [OF assms(3)] by simp
qed (use assms(3) in \<open>auto simp: cl_inv_def lock_inv_def thread_inv_def using_inv_def ending_inv_def
      callers_inv_def use_parts_def split: client_owner.splits\<close>)

lemma cl_inv_step:
  assumes "client_kind_ok k" "cl_step k s t" "cl_inv k s"
  shows "cl_inv k t"
  using assms(2)
proof cases
  case cl_self
  then show ?thesis using cl_inv_own assms(1,3) by blast
next
  case (cl_arrive c)
  then show ?thesis using inv_arrive [OF assms(1,3)] by simp
next
  case (cl_test c)
  then show ?thesis using inv_test [OF assms(1,3)] by simp
qed (use assms(1,3) in \<open>auto intro: inv_found inv_callers inv_begin inv_act inv_done
      inv_call inv_destroy\<close>)

section \<open>The destructor ends\<close>

definition cl_alive :: "client_kind \<Rightarrow> client_life \<Rightarrow> bool" where
  "cl_alive k s \<longleftrightarrow> client_kind_ok k \<and> cl_inv k s \<and> cl_owner s \<noteq> Ending []"

fun dispatcher_rank :: "dispatcher_phase \<Rightarrow> nat" where
  "dispatcher_rank (DTurn ps) = Suc (Suc (length ps))"
| "dispatcher_rank DTest = 1"
| "dispatcher_rank _ = 0"

fun owner_rank :: "client_owner \<Rightarrow> nat" where
  "owner_rank Using = 0"
| "owner_rank (Ending as) = length as"

lemma do_end_stopping: "cl_stopping s \<Longrightarrow> cl_stopping (do_end a s)"
  by (cases a) simp_all

lemma do_end_rank: "dispatcher_rank (cl_thread (do_end a s)) \<le> dispatcher_rank (cl_thread s)"
  by (cases a) simp_all

interpretation client_stop: stoppable "cl_step k" "cl_own k" "cl_alive k" cl_stopping
  "\<lambda>s. dispatcher_rank (cl_thread s) + owner_rank (cl_owner s)" for k
proof unfold_locales
  fix s t
  assume "cl_step k s t" "cl_stopping s"
  then show "cl_stopping t"
    by (elim cl_step_E cl_own_E) (auto simp: do_end_stopping do_start_fields)
next
  fix s
  assume s: "cl_alive k s" "cl_stopping s"
  then obtain a as where o: "cl_owner s = Ending (a # as)"
    by (auto simp: cl_alive_def cl_inv_def using_inv_def neq_Nil_conv split: client_owner.splits)
  show "\<exists>t. cl_own k s t"
    using s(2) o by (cases "cl_thread s") (auto intro: cl_own.intros)
next
  fix s t
  assume "cl_own k s t" "cl_alive k s" "cl_stopping s"
  then show "dispatcher_rank (cl_thread t) + owner_rank (cl_owner t) <
      dispatcher_rank (cl_thread s) + owner_rank (cl_owner s)"
    by (elim cl_own_E) (auto simp: do_end_rank le_imp_less_Suc)
qed (rule cl_self)

lemma ending_starts:
  assumes "ending_ok turn ps False joined as"
  shows "\<exists>as'. as = SetStopping # as'"
  using assms by (cases as rule: list.exhaust) (auto elim: ending_ok.elims)

lemma destructor_ends:
  assumes "client_kind_ok k" "cl_inv k s" "cl_owner s = Ending as"
  shows "\<exists>t. reaches (cl_own k) s t \<and> cl_inv k t \<and> cl_owner t = Ending []"
proof -
  have stopping: "\<exists>t. reaches (cl_own k) u t \<and> cl_inv k t \<and> cl_owner t = Ending []"
    if "cl_inv k u" "cl_stopping u" for u
  proof (cases "cl_owner u = Ending []")
    case False
    then have "cl_alive k u" using assms(1) that(1) by (simp add: cl_alive_def)
    from client_stop.stops [OF this that(2)] obtain t where
      t: "reaches (cl_own k) u t" "\<not> cl_alive k t" by blast
    have "cl_inv k t" using t(1) that(1) by (rule reaches_invariant) (rule cl_inv_own [OF assms(1)])
    with t assms(1) show ?thesis by (auto simp: cl_alive_def)
  qed (use that(1) in \<open>auto intro: reaches_refl\<close>)
  show ?thesis
  proof (cases "cl_stopping s")
    case False
    then obtain joined where "ending_ok (ck_turn k) (cl_parts s) False joined as"
      using assms(2,3) by (auto simp: cl_inv_def ending_inv_def)
    from ending_starts [OF this] obtain as' where as: "as = SetStopping # as'" ..
    have own: "cl_own k s (do_end SetStopping s\<lparr>cl_owner := Ending as'\<rparr>)"
      using assms(3) as by (intro cl_end) simp_all
    from stopping [OF cl_inv_own [OF assms(1) own assms(2)]] own show ?thesis
      by (auto intro: reaches_front)
  qed (use stopping assms(2) in blast)
qed

section \<open>Property\<close>

text \<open>
  C26. A client starts once, serves every call and ends in order.  Whatever the callers, the failures
  of a start, the dispatcher and the destructor do: no thread uses a member before it exists or
  after its end, no running thread is overwritten or destroyed, and at most one caller is in the
  start.  While a call that needs a reply is on its way, everything it uses exists and the
  dispatcher runs.  The destructor comes to its end from every state in which it has begun, and then
  the thread is joined and no member is left.
\<close>
theorem client_life_safe:
  assumes "k \<in> set client_kinds" and "reaches (cl_step k) (client_made k) s"
  shows "\<not> cl_misused s \<and> \<not> cl_terminated s \<and>
    (\<forall>c d. in_start (cl_callers s c) \<and> in_start (cl_callers s d) \<longrightarrow> c = d) \<and>
    (\<forall>c ps. cl_callers s c = Calling ps \<longrightarrow> set ps \<subseteq> set (cl_parts s) \<and>
       (has_thread k \<longrightarrow> cl_thread s \<noteq> NoDispatcher \<and> cl_thread s \<noteq> DOver)) \<and>
    (\<forall>as. cl_owner s = Ending as \<longrightarrow>
       (\<exists>t. reaches (cl_own k) s t \<and> cl_owner t = Ending [] \<and> \<not> cl_misused t \<and> \<not> cl_terminated t)) \<and>
    (cl_owner s = Ending [] \<longrightarrow> cl_thread s = NoDispatcher \<and> cl_parts s = [])"
proof -
  have ok: "client_kind_ok k" using assms(1) by (rule client_kinds_ok)
  have inv: "cl_inv k s"
    using assms(2) cl_inv_made [OF ok] by (rule reaches_invariant) (rule cl_inv_step [OF ok])
  have calls: "set ps \<subseteq> set (cl_parts s) \<and>
      (has_thread k \<longrightarrow> cl_thread s \<noteq> NoDispatcher \<and> cl_thread s \<noteq> DOver)"
    if c: "cl_callers s c = Calling ps" for c ps
  proof -
    have u: "using_inv k s" using owner_when_called [OF inv, of c] c by simp
    then obtain n where n: "n \<le> length (ck_start k)" "callers_inv k n s" by (auto simp: using_inv_def)
    have "ck_lazy k" if "has_thread k"
      using ok that by (auto simp: client_kind_ok_def Let_def has_thread_def)
    with callers_inv_at [OF n(2) c] u inv show ?thesis
      by (auto simp: using_inv_def cl_inv_def thread_inv_def)
  qed
  have only: "\<forall>c d. in_start (cl_callers s c) \<and> in_start (cl_callers s d) \<longrightarrow> c = d"
  proof (intro allI impI)
    fix c d
    assume "in_start (cl_callers s c) \<and> in_start (cl_callers s d)"
    moreover have "lock_inv s" using inv by (simp add: cl_inv_def)
    ultimately show "c = d" unfolding lock_inv_def by (metis option.inject)
  qed
  have ends: "\<exists>t. reaches (cl_own k) s t \<and> cl_owner t = Ending [] \<and> \<not> cl_misused t \<and> \<not> cl_terminated t"
    if "cl_owner s = Ending as" for as
    using destructor_ends [OF ok inv that] by (auto simp: cl_inv_def)
  show ?thesis
    using inv only calls ends by (auto simp: cl_inv_def ending_inv_def)
qed

text \<open>A client that ends while its dispatcher is in a turn.\<close>

lemma client_life_safe_witness:
  "\<exists>s. reaches (cl_step sqs_kind) (client_made sqs_kind) s \<and> cl_owner s = Ending (ck_end sqs_kind) \<and>
     cl_thread s = DTurn (ck_turn sqs_kind) \<and>
     (\<exists>t. reaches (cl_own sqs_kind) s t \<and> cl_owner t = Ending [] \<and> \<not> cl_misused t \<and> \<not> cl_terminated t)"
proof -
  let ?k = sqs_kind
  define st where "st p mu b th ow =
    \<lparr>cl_callers = (\<lambda>_. Outside)(0 := p), cl_mutex = mu, cl_started = b, cl_stopping = False,
     cl_thread = th, cl_parts = ck_made ?k, cl_owner = ow, cl_misused = False, cl_terminated = False\<rparr>"
    for p mu b th ow
  note defs = st_def at_phase_def sqs_kind_def
  define u where "u = st (Calling (ck_call ?k)) None True DTest Using"
  have "client_made ?k = st Outside None False NoDispatcher Using"
    by (simp add: st_def client_made_def fun_eq_iff)
  moreover have "cl_step ?k (st Outside None False NoDispatcher Using) (st Testing None False NoDispatcher Using)"
    using cl_arrive [of "st Outside None False NoDispatcher Using" 0 ?k] by (simp add: defs)
  moreover have "cl_step ?k (st Testing None False NoDispatcher Using) (st Locking None False NoDispatcher Using)"
    using cl_test [of "st Testing None False NoDispatcher Using" 0 ?k] by (simp add: defs)
  moreover have "cl_step ?k (st Locking None False NoDispatcher Using) (st Retesting (Some 0) False NoDispatcher Using)"
    using cl_lock [of "st Locking None False NoDispatcher Using" 0 ?k] by (simp add: defs)
  moreover have "cl_step ?k (st Retesting (Some 0) False NoDispatcher Using)
      (st (Starting [Spawn]) (Some 0) False NoDispatcher Using)"
    using cl_begin [of "st Retesting (Some 0) False NoDispatcher Using" 0 ?k] by (simp add: defs)
  moreover have "cl_step ?k (st (Starting [Spawn]) (Some 0) False NoDispatcher Using)
      (st (Starting []) (Some 0) False DTest Using)"
    using cl_act [of "st (Starting [Spawn]) (Some 0) False NoDispatcher Using" 0 Spawn "[]" ?k]
    by (simp add: defs)
  moreover have "cl_step ?k (st (Starting []) (Some 0) False DTest Using) u"
    using cl_done [of "st (Starting []) (Some 0) False DTest Using" 0 ?k] by (simp add: defs u_def)
  moreover have "cl_step ?k u (u\<lparr>cl_thread := DTurn (ck_turn ?k)\<rparr>)"
    by (intro cl_self cl_enter) (simp_all add: u_def st_def)
  moreover have "cl_step ?k (u\<lparr>cl_thread := DTurn (ck_turn ?k)\<rparr>) (st Outside None True (DTurn (ck_turn ?k)) Using)"
    using cl_return [of "u\<lparr>cl_thread := DTurn (ck_turn ?k)\<rparr>" 0 "ck_call ?k" ?k]
    by (simp add: u_def st_def at_phase_def)
  moreover have "cl_step ?k (st Outside None True (DTurn (ck_turn ?k)) Using)
      (st Outside None True (DTurn (ck_turn ?k)) (Ending (ck_end ?k)))"
    using cl_destroy [of "st Outside None True (DTurn (ck_turn ?k)) Using" ?k] by (simp add: st_def)
  ultimately have reach: "reaches (cl_step ?k) (client_made ?k)
      (st Outside None True (DTurn (ck_turn ?k)) (Ending (ck_end ?k)))"
    by (metis reaches_refl reaches_step)
  have "?k \<in> set client_kinds" by (simp add: client_kinds_def)
  note safe = client_life_safe [OF this reach]
  have "cl_owner (st Outside None True (DTurn (ck_turn ?k)) (Ending (ck_end ?k))) = Ending (ck_end ?k)"
    "cl_thread (st Outside None True (DTurn (ck_turn ?k)) (Ending (ck_end ?k))) = DTurn (ck_turn ?k)"
    by (simp_all add: st_def)
  with safe reach show ?thesis by blast
qed

end
