(* ===== verification/ConfigTypes.thy ===== *)
theory ConfigTypes
  imports SqsConfig PubSubConfig ServiceBusConfig KafkaUtil
begin

text \<open>
  The types of the members of a configuration.  A plugin knows its members by name, each with one
  JSON type; the readers of the RabbitMQ, Service Bus and Kafka plugins ignore a member of another
  type, those of SQS and Pub/Sub refuse one where a number or a flag is expected and ignore it where
  a string is.
\<close>

section \<open>Types of members\<close>

datatype json_type = TString | TInt | TBool

fun has_type :: "json_type \<Rightarrow> json \<Rightarrow> bool" where
  "has_type TString (JString s) = True"
| "has_type TInt v = is_number_integer v"
| "has_type TBool (JBool b) = True"
| "has_type _ _ = False"

type_synonym members = "(string \<times> json_type) list"

definition member_typed :: "json \<Rightarrow> string \<times> json_type \<Rightarrow> bool" where
  "member_typed node m = (case jfind node (fst m) of None \<Rightarrow> True | Some v \<Rightarrow> has_type (snd m) v)"

text \<open>The object without the members that are unknown or of another type.\<close>

definition known_typed :: "members \<Rightarrow> string \<times> json \<Rightarrow> bool" where
  "known_typed ms kv = (case map_of ms (fst kv) of None \<Rightarrow> False | Some t \<Rightarrow> has_type t (snd kv))"

fun typed_part :: "members \<Rightarrow> json \<Rightarrow> json" where
  "typed_part ms (JObject kvs) = JObject (filter (known_typed ms) kvs)"
| "typed_part ms j = j"

text \<open>The members of the five plugins, first the strings.\<close>

definition strings :: "string list \<Rightarrow> members" where
  "strings keys = map (\<lambda>k. (k, TString)) keys"

definition rabbit_members :: members where
  "rabbit_members = [(''port'', TInt), (''rpcTimeoutMs'', TInt)] @
     strings [''name'', ''host'', ''queue'', ''user'', ''password'', ''vhost'']"

definition sb_members :: members where
  "sb_members = [(''rpcTimeoutMs'', TInt), (''useDevelopmentEmulator'', TBool)] @
     strings [''name'', ''connectionString'', ''host'', ''sharedAccessKeyName'', ''sharedAccessKey'',
       ''queue'', ''replyQueue'', ''topic'', ''subscription'']"

definition kafka_members :: members where
  "kafka_members = [(''rpcTimeoutMs'', TInt)] @
     strings [''brokers'', ''host'', ''requestTopic'', ''queue'', ''replyTopic'', ''replyQueue'',
       ''groupId'', ''securityProtocol'', ''saslMechanism'', ''saslUsername'', ''saslPassword'',
       ''sslCaLocation'']"

definition sqs_strict :: members where
  "sqs_strict = [(''rpcTimeoutMs'', TInt), (''waitTimeSeconds'', TInt), (''visibilityTimeoutSeconds'', TInt),
     (''oneWay'', TBool), (''verifySsl'', TBool)]"

definition sqs_members :: members where
  "sqs_members = sqs_strict @
     strings [''name'', ''region'', ''endpointOverride'', ''accessKeyId'', ''secretAccessKey'',
       ''sessionToken'', ''requestQueueUrl'', ''replyQueueUrl'', ''messageGroupId'', ''queueUrl'',
       ''queue'', ''replyQueue'']"

definition pubsub_strict :: members where
  "pubsub_strict = [(''rpcTimeoutMs'', TInt), (''ackDeadlineSeconds'', TInt), (''maxMessages'', TInt),
     (''oneWay'', TBool), (''autoCreate'', TBool), (''verifySsl'', TBool)]"

definition pubsub_members :: members where
  "pubsub_members = pubsub_strict @
     strings [''name'', ''projectId'', ''requestTopic'', ''requestSubscription'', ''replyTopic'',
       ''replySubscription'', ''emulatorHost'', ''credentialsFile'', ''accessToken'', ''queue'',
       ''replyQueue'', ''subscription'']"

section \<open>Readers and types\<close>

lemma map_of_filter:
  "distinct (map fst kvs) \<Longrightarrow>
     map_of (filter P kvs) k = (case map_of kvs k of None \<Rightarrow> None | Some v \<Rightarrow> if P (k, v) then Some v else None)"
proof (induction kvs)
  case (Cons kv kvs)
  have "map_of (filter P kvs) (fst kv) = None"
    using Cons.prems by (force simp: map_of_eq_None_iff)
  with Cons show ?case by (cases kv) (auto split: option.split)
qed simp

text \<open>What of an object a plugin sees of its members.\<close>

definition typed_view :: "members \<Rightarrow> json \<Rightarrow> json \<Rightarrow> bool" where
  "typed_view ms node t \<longleftrightarrow>
     (\<forall>k. jfind t k = (case jfind node k of
        None \<Rightarrow> None | Some v \<Rightarrow> if known_typed ms (k, v) then Some v else None))"

lemma typed_view_part:
  "distinct (map fst kvs) \<Longrightarrow> typed_view ms (JObject kvs) (typed_part ms (JObject kvs))"
  by (simp add: typed_view_def map_of_filter)

lemma typed_view_find:
  "typed_view ms node t \<Longrightarrow> jfind t k =
     (case jfind node k of None \<Rightarrow> None | Some v \<Rightarrow> if known_typed ms (k, v) then Some v else None)"
  by (simp add: typed_view_def)

text \<open>Every reader gives the same on the object and on its typed part.\<close>

lemma lenient_readers:
  assumes "typed_view ms node t"
  shows "map_of ms k = Some TString \<Longrightarrow> ReadString t k s = ReadString node k s"
    "map_of ms k = Some TString \<Longrightarrow> jstring_at t k = jstring_at node k"
    "map_of ms k = Some TBool \<Longrightarrow> read_flag t k d = read_flag node k d"
    "map_of ms k = Some TInt \<Longrightarrow> read_in_range t k b w = read_in_range node k b w"
    "map_of ms k = Some TInt \<Longrightarrow> read_or_throw t k b e w' = read_or_throw node k b e w'"
    "map_of ms ''rpcTimeoutMs'' = Some TInt \<Longrightarrow> read_kafka_timeout t i = read_kafka_timeout node i"
  unfolding ReadString_def jstring_at_def read_flag_def read_in_range_def read_or_throw_def
    read_kafka_timeout_def typed_view_find [OF assms]
  by (auto simp: known_typed_def split: option.split json.split)

lemma optional_string:
  "typed_view ms node t \<Longrightarrow> map_of ms k = Some TString \<Longrightarrow>
     getOptionalString t k s = getOptionalString node k s"
  by (simp only: getOptionalString_ReadString lenient_readers(1))

lemma strict_readers:
  assumes "typed_view ms node t"
  shows "map_of ms k = Some TInt \<Longrightarrow> member_typed node (k, TInt) \<Longrightarrow>
      ReadPositiveUint plugin t k w = ReadPositiveUint plugin node k w"
    "map_of ms k = Some TBool \<Longrightarrow> member_typed node (k, TBool) \<Longrightarrow> ReadBool plugin t k d = ReadBool plugin node k d"
    "map_of ms k = Some TBool \<Longrightarrow> member_typed node (k, TBool) \<Longrightarrow>
      ReadBoolSpecified t k d spec = ReadBoolSpecified node k d spec"
  unfolding ReadPositiveUint_def ReadBool_def ReadBoolSpecified_def typed_view_find [OF assms]
  by (auto simp: known_typed_def member_typed_def split: option.split)

text \<open>All errors of the readers are runtime errors.\<close>

lemma strict_readers_errors:
  "ReadPositiveUint plugin node k d = Inl e \<Longrightarrow> \<exists>m. e = RuntimeError m"
  "ReadBool plugin node k d' = Inl e \<Longrightarrow> \<exists>m. e = RuntimeError m"
  "ReadBoolSpecified node k d' s = Inl e \<Longrightarrow> \<exists>m. e = RuntimeError m"
  by (auto simp: ReadPositiveUint_def ReadBool_def ReadBoolSpecified_def Let_def
      split: option.splits json.splits if_splits)

section \<open>Configurations and types\<close>

lemma rabbit_member_types:
  "map_of rabbit_members ''port'' = Some TInt"
  "map_of rabbit_members ''rpcTimeoutMs'' = Some TInt"
  "map_of rabbit_members ''name'' = Some TString"
  "map_of rabbit_members ''host'' = Some TString"
  "map_of rabbit_members ''queue'' = Some TString"
  "map_of rabbit_members ''user'' = Some TString"
  "map_of rabbit_members ''password'' = Some TString"
  "map_of rabbit_members ''vhost'' = Some TString"
  by (simp_all add: rabbit_members_def strings_def)

lemma sb_member_types:
  "map_of sb_members ''rpcTimeoutMs'' = Some TInt"
  "map_of sb_members ''useDevelopmentEmulator'' = Some TBool"
  "map_of sb_members ''name'' = Some TString"
  "map_of sb_members ''connectionString'' = Some TString"
  "map_of sb_members ''host'' = Some TString"
  "map_of sb_members ''sharedAccessKeyName'' = Some TString"
  "map_of sb_members ''sharedAccessKey'' = Some TString"
  "map_of sb_members ''queue'' = Some TString"
  "map_of sb_members ''replyQueue'' = Some TString"
  "map_of sb_members ''topic'' = Some TString"
  "map_of sb_members ''subscription'' = Some TString"
  by (simp_all add: sb_members_def strings_def)

lemma kafka_member_types:
  "map_of kafka_members ''rpcTimeoutMs'' = Some TInt"
  "map_of kafka_members ''brokers'' = Some TString"
  "map_of kafka_members ''host'' = Some TString"
  "map_of kafka_members ''requestTopic'' = Some TString"
  "map_of kafka_members ''queue'' = Some TString"
  "map_of kafka_members ''replyTopic'' = Some TString"
  "map_of kafka_members ''replyQueue'' = Some TString"
  "map_of kafka_members ''groupId'' = Some TString"
  "map_of kafka_members ''securityProtocol'' = Some TString"
  "map_of kafka_members ''saslMechanism'' = Some TString"
  "map_of kafka_members ''saslUsername'' = Some TString"
  "map_of kafka_members ''saslPassword'' = Some TString"
  "map_of kafka_members ''sslCaLocation'' = Some TString"
  by (simp_all add: kafka_members_def strings_def)

lemma sqs_member_types:
  "map_of sqs_members ''rpcTimeoutMs'' = Some TInt"
  "map_of sqs_members ''waitTimeSeconds'' = Some TInt"
  "map_of sqs_members ''visibilityTimeoutSeconds'' = Some TInt"
  "map_of sqs_members ''oneWay'' = Some TBool"
  "map_of sqs_members ''verifySsl'' = Some TBool"
  "map_of sqs_members ''name'' = Some TString"
  "map_of sqs_members ''region'' = Some TString"
  "map_of sqs_members ''endpointOverride'' = Some TString"
  "map_of sqs_members ''accessKeyId'' = Some TString"
  "map_of sqs_members ''secretAccessKey'' = Some TString"
  "map_of sqs_members ''sessionToken'' = Some TString"
  "map_of sqs_members ''requestQueueUrl'' = Some TString"
  "map_of sqs_members ''replyQueueUrl'' = Some TString"
  "map_of sqs_members ''messageGroupId'' = Some TString"
  "map_of sqs_members ''queueUrl'' = Some TString"
  "map_of sqs_members ''queue'' = Some TString"
  "map_of sqs_members ''replyQueue'' = Some TString"
  by (simp_all add: sqs_members_def strings_def sqs_strict_def)

lemma pubsub_member_types:
  "map_of pubsub_members ''rpcTimeoutMs'' = Some TInt"
  "map_of pubsub_members ''ackDeadlineSeconds'' = Some TInt"
  "map_of pubsub_members ''maxMessages'' = Some TInt"
  "map_of pubsub_members ''oneWay'' = Some TBool"
  "map_of pubsub_members ''autoCreate'' = Some TBool"
  "map_of pubsub_members ''verifySsl'' = Some TBool"
  "map_of pubsub_members ''name'' = Some TString"
  "map_of pubsub_members ''projectId'' = Some TString"
  "map_of pubsub_members ''requestTopic'' = Some TString"
  "map_of pubsub_members ''requestSubscription'' = Some TString"
  "map_of pubsub_members ''replyTopic'' = Some TString"
  "map_of pubsub_members ''replySubscription'' = Some TString"
  "map_of pubsub_members ''emulatorHost'' = Some TString"
  "map_of pubsub_members ''credentialsFile'' = Some TString"
  "map_of pubsub_members ''accessToken'' = Some TString"
  "map_of pubsub_members ''queue'' = Some TString"
  "map_of pubsub_members ''replyQueue'' = Some TString"
  "map_of pubsub_members ''subscription'' = Some TString"
  by (simp_all add: pubsub_members_def strings_def pubsub_strict_def)

lemma rabbit_readers_typed:
  assumes "typed_view rabbit_members node t" "is_object t \<longleftrightarrow> is_object node"
  shows "ApplyRabbitMqConfig t c = ApplyRabbitMqConfig node c" "read_rabbit_server t = read_rabbit_server node"
  using assms(2)
  by (simp_all add: ApplyRabbitMqConfig_def read_rabbit_server_def rabbit_server_strings_def
      lenient_readers [OF assms(1)] optional_string [OF assms(1)] rabbit_member_types)

lemma sb_readers_typed:
  assumes "typed_view sb_members node t" "is_object t \<longleftrightarrow> is_object node"
  shows "ApplyServiceBusConfig t c = ApplyServiceBusConfig node c"
    "sb_server_strings t = sb_server_strings node"
    "read_or_throw t ''rpcTimeoutMs'' b e w = read_or_throw node ''rpcTimeoutMs'' b e w"
  using assms(2)
  by (simp_all add: ApplyServiceBusConfig_def sb_server_strings_def lenient_readers [OF assms(1)]
      optional_string [OF assms(1)] sb_member_types)

lemma kafka_readers_typed:
  assumes "typed_view kafka_members node t"
  shows "read_kafka_fields t c = read_kafka_fields node c"
    "read_kafka_timeout t i = read_kafka_timeout node i"
proof -
  have either: "read_either t k k' s = read_either node k k' s"
    if "map_of kafka_members k = Some TString" "map_of kafka_members k' = Some TString" for k k' s
    using that by (simp only: read_either_def lenient_readers [OF assms])
  show "read_kafka_fields t c = read_kafka_fields node c" "read_kafka_timeout t i = read_kafka_timeout node i"
    by (simp_all add: read_kafka_fields_def either read_security_def lenient_readers [OF assms] kafka_member_types)
qed

lemma strict_accepts:
  "ReadPositiveUint plugin node k w = Inr x \<Longrightarrow> member_typed node (k, TInt)"
  "ReadBool plugin node k d = Inr y \<Longrightarrow> member_typed node (k, TBool)"
  "ReadBoolSpecified node k d spec = Inr z \<Longrightarrow> member_typed node (k, TBool)"
  by (auto simp: member_typed_def ReadPositiveUint_def ReadBool_def ReadBoolSpecified_def Let_def
      split: option.splits json.splits if_splits)

lemma rbind_Inl_E:
  assumes "rbind m f = Inl e"
  obtains "m = Inl e" | x where "m = Inr x" "f x = Inl e"
  using assms by (cases m) auto

lemma sqs_readers_typed:
  assumes "typed_view sqs_members node t" "list_all (member_typed node) sqs_strict"
  shows "read_sqs_config t = read_sqs_config node"
proof -
  have "ReadString t k = ReadString node k" if "map_of sqs_members k = Some TString" for k
    using lenient_readers(1) [OF assms(1) that] by (simp add: fun_eq_iff)
  then have "read_sqs_strings t = read_sqs_strings node"
    by (simp only: read_sqs_strings_def sqs_member_types)
  then show ?thesis
    using assms(2)
    by (simp add: read_sqs_config_def Let_def strict_readers [OF assms(1)] sqs_member_types sqs_strict_def)
qed

lemma pubsub_readers_typed:
  assumes "typed_view pubsub_members node t" "list_all (member_typed node) pubsub_strict"
  shows "read_pubsub_config t = read_pubsub_config node"
proof -
  have "ReadString t k = ReadString node k" if "map_of pubsub_members k = Some TString" for k
    using lenient_readers(1) [OF assms(1) that] by (simp add: fun_eq_iff)
  then have "read_pubsub_strings t = read_pubsub_strings node"
    by (simp only: read_pubsub_strings_def pubsub_member_types)
  then show ?thesis
    using assms(2)
    by (simp add: read_pubsub_config_def Let_def strict_readers [OF assms(1)] pubsub_member_types
        pubsub_strict_def)
qed

lemma sqs_reader_strict:
  "read_sqs_config node = Inr c \<Longrightarrow> list_all (member_typed node) sqs_strict"
  "read_sqs_config node = Inl e \<Longrightarrow> \<exists>m. e = RuntimeError m"
  unfolding read_sqs_config_def Let_def sqs_strict_def
  by (elim rbind_Inr_E; simp add: strict_accepts) (elim rbind_Inl_E; auto dest: strict_readers_errors)

lemma pubsub_reader_strict:
  "read_pubsub_config node = Inr c \<Longrightarrow> list_all (member_typed node) pubsub_strict"
  "read_pubsub_config node = Inl e \<Longrightarrow> \<exists>m. e = RuntimeError m"
  unfolding read_pubsub_config_def Let_def pubsub_strict_def
  by (elim rbind_Inr_E; auto simp: strict_accepts split: prod.splits elim: rbind_Inr_E)
    (elim rbind_Inl_E; auto dest: strict_readers_errors split: prod.splits elim: rbind_Inl_E)

section \<open>Property\<close>

text \<open>
  C35. Every member of a configuration has one type.  On any object with distinct keys the readers of
  the RabbitMQ, Service Bus and Kafka plugins, clients and servers, give what they give on the
  object without its unknown and ill-typed members, so such a member never changes a configuration.
  The readers of SQS and Pub/Sub do the same for unknown members and for strings; they give a
  configuration only if every number is an integer and every flag a boolean, and otherwise throw a
  runtime error.
\<close>
theorem config_readers_typed:
  assumes "distinct (map fst kvs)"
  shows "ApplyRabbitMqConfig (typed_part rabbit_members (JObject kvs)) c1 = ApplyRabbitMqConfig (JObject kvs) c1 \<and>
    read_rabbit_server (typed_part rabbit_members (JObject kvs)) = read_rabbit_server (JObject kvs) \<and>
    ApplyServiceBusConfig (typed_part sb_members (JObject kvs)) c2 = ApplyServiceBusConfig (JObject kvs) c2 \<and>
    sb_server_strings (typed_part sb_members (JObject kvs)) = sb_server_strings (JObject kvs) \<and>
    read_kafka_fields (typed_part kafka_members (JObject kvs)) c3 = read_kafka_fields (JObject kvs) c3 \<and>
    read_kafka_timeout (typed_part kafka_members (JObject kvs)) i = read_kafka_timeout (JObject kvs) i \<and>
    (if list_all (member_typed (JObject kvs)) sqs_strict
     then read_sqs_config (typed_part sqs_members (JObject kvs)) = read_sqs_config (JObject kvs)
     else \<exists>e. read_sqs_config (JObject kvs) = Inl (RuntimeError e)) \<and>
    (if list_all (member_typed (JObject kvs)) pubsub_strict
     then read_pubsub_config (typed_part pubsub_members (JObject kvs)) = read_pubsub_config (JObject kvs)
     else \<exists>e. read_pubsub_config (JObject kvs) = Inl (RuntimeError e))"
proof -
  note view = typed_view_part [OF assms]
  have object: "is_object (typed_part ms (JObject kvs)) \<longleftrightarrow> is_object (JObject kvs)" for ms by simp
  have "\<exists>e. read_sqs_config (JObject kvs) = Inl (RuntimeError e)"
    if "\<not> list_all (member_typed (JObject kvs)) sqs_strict"
    using that sqs_reader_strict [of "JObject kvs"] by (cases "read_sqs_config (JObject kvs)") auto
  moreover have "\<exists>e. read_pubsub_config (JObject kvs) = Inl (RuntimeError e)"
    if "\<not> list_all (member_typed (JObject kvs)) pubsub_strict"
    using that pubsub_reader_strict [of "JObject kvs"] by (cases "read_pubsub_config (JObject kvs)") auto
  ultimately show ?thesis
    using rabbit_readers_typed [OF view object] sb_readers_typed [OF view object]
      kafka_readers_typed [OF view] sqs_readers_typed [OF view] pubsub_readers_typed [OF view]
    by (simp only: simp_thms if_True if_False split: if_split) blast
qed

lemma config_readers_typed_witness:
  "ApplyRabbitMqConfig (JObject [(''port'', JString ''5672''), (''queue'', JString ''q'')]) default_rabbit_client =
     ApplyRabbitMqConfig (JObject [(''queue'', JString ''q'')]) default_rabbit_client \<and>
   (\<exists>e. read_sqs_config (JObject [(''oneWay'', JString ''yes'')]) = Inl (RuntimeError e))"
proof -
  have "typed_part rabbit_members (JObject [(''port'', JString ''5672''), (''queue'', JString ''q'')]) =
      JObject [(''queue'', JString ''q'')]"
    by (simp add: known_typed_def rabbit_member_types)
  moreover have "\<not> list_all (member_typed (JObject [(''oneWay'', JString ''yes'')])) sqs_strict"
    by (simp add: sqs_strict_def member_typed_def)
  ultimately show ?thesis
    using config_readers_typed [of "[(''port'', JString ''5672''), (''queue'', JString ''q'')]" default_rabbit_client]
      config_readers_typed [of "[(''oneWay'', JString ''yes'')]"]
    by (simp add: if_not_P)
qed

end
