(* ===== verification/TestSupport.thy ===== *)
theory TestSupport
  imports PluginExports ServerLifetime
begin

text \<open>
  What the test programs of the plugins use (\<^verbatim>\<open>*TransportTests.cpp\<close>,
  \<^verbatim>\<open>smoke.cpp\<close>): the expectations of GoogleTest as predicates, the callbacks of the
  servers, and the helpers for texts.  A test is a bool: whether it passes.  An exception that
  leaves a test fails it.
\<close>

section \<open>Expectations\<close>

text \<open>\<^verbatim>\<open>EXPECT_THROW(e, std::runtime_error)\<close>, also for classes derived from it.\<close>

fun throws_runtime_error :: "'a result \<Rightarrow> bool" where
  "throws_runtime_error (Inl (RuntimeError m)) = True"
| "throws_runtime_error (Inl (HttpError s m)) = True"
| "throws_runtime_error _ = False"

text \<open>\<^verbatim>\<open>EXPECT_THROW(e, std::invalid_argument)\<close>\<close>

fun throws_invalid_argument :: "'a result \<Rightarrow> bool" where
  "throws_invalid_argument (Inl (InvalidArgument m)) = True"
| "throws_invalid_argument _ = False"

text \<open>The \<^verbatim>\<open>what()\<close> of a \<^verbatim>\<open>std::runtime_error\<close> that is caught.\<close>

fun runtime_error_text :: "'a result \<Rightarrow> string option" where
  "runtime_error_text (Inl (RuntimeError m)) = Some (c_str m)"
| "runtime_error_text (Inl (HttpError s m)) = Some (c_str m)"
| "runtime_error_text _ = None"

text \<open>\<^verbatim>\<open>EXPECT_NO_THROW(e)\<close>\<close>

fun no_throw :: "'a result \<Rightarrow> bool" where
  "no_throw (Inr x) = True"
| "no_throw (Inl e) = False"

text \<open>A value the rest of a test is about.\<close>

fun value_is :: "'a result \<Rightarrow> ('a \<Rightarrow> bool) \<Rightarrow> bool" where
  "value_is (Inr x) P = P x"
| "value_is (Inl e) P = False"

text \<open>A suite is its tests by name.\<close>

type_synonym suite = "(string \<times> bool) list"

definition suite_passes :: "suite \<Rightarrow> bool" where
  "suite_passes ts = list_all snd ts"

lemma suite_passes_simps [simp]:
  "suite_passes []"
  "suite_passes ((n, b) # ts) \<longleftrightarrow> b \<and> suite_passes ts"
  by (simp_all add: suite_passes_def)

section \<open>Texts\<close>

text \<open>A text of several lines.\<close>

fun lines :: "string list \<Rightarrow> string" where
  "lines [] = []"
| "lines [l] = l"
| "lines (l # ls) = l @ CHR 0x0A # lines ls"

text \<open>The parser reads the documents of a test program as the values they spell.\<close>

definition reads :: "cpp_env \<Rightarrow> (string \<times> json) list \<Rightarrow> bool" where
  "reads env docs = list_all (\<lambda>(text, value). json_parse env text = Inr value) docs"

lemma reads_simps [simp]:
  "reads env []"
  "reads env ((t, j) # ds) \<longleftrightarrow> json_parse env t = Inr j \<and> reads env ds"
  by (simp_all add: reads_def)

lemma lines_not_Nil [simp]: "lines ((c # l) # ls) \<noteq> []"
  by (cases ls) simp_all

text \<open>A text that is read as a value is that value for every plugin.\<close>

lemma ParseJsonSource_reads:
  "json_parse env text = Inr j \<Longrightarrow> text \<noteq> [] \<Longrightarrow> ParseJsonSource plugin env text = Inr j"
  by (simp add: ParseJsonSource_def)

text \<open>An environment that knows these documents and no files.\<close>

definition doc_env :: "(string \<times> json) list \<Rightarrow> cpp_env" where
  "doc_env docs =
    \<lparr>json_parse = (\<lambda>text. case map_of docs text of Some j \<Rightarrow> Inr j | None \<Rightarrow> Inl (LibError ''parse_error'')),
     file_exists = (\<lambda>_. False), read_file = (\<lambda>_. None), getenv = (\<lambda>_. None)\<rparr>"

lemma reads_doc_env: "distinct (map fst docs) \<Longrightarrow> reads (doc_env docs) docs"
  by (auto simp: reads_def doc_env_def list_all_iff)

lemma doc_env_other: "text \<notin> fst ` set docs \<Longrightarrow> json_parse (doc_env docs) text = Inl (LibError ''parse_error'')"
  by (simp add: doc_env_def map_of_eq_None_iff [THEN iffD2] split: option.split)

text \<open>\<^verbatim>\<open>EscapeJson\<close>\<close>

definition EscapeJson :: "string \<Rightarrow> string" where
  "EscapeJson value =
     concat (map (\<lambda>c. if c = CHR 0x5C \<or> c = CHR 0x22 then [CHR 0x5C, c] else [c]) value)"

text \<open>\<^verbatim>\<open>EnvOr\<close>\<close>

definition EnvOr :: "cpp_env \<Rightarrow> string \<Rightarrow> string \<Rightarrow> string" where
  "EnvOr env name fallback = (case getenv env name of Some value \<Rightarrow> value | None \<Rightarrow> fallback)"

text \<open>A file that a test writes, and \<^verbatim>\<open>std::filesystem::remove\<close>.\<close>

definition write_file :: "string \<Rightarrow> string \<Rightarrow> cpp_env \<Rightarrow> cpp_env" where
  "write_file path content env =
     env\<lparr>file_exists := (file_exists env)(path := True), read_file := (read_file env)(path \<mapsto> content)\<rparr>"

section \<open>Callbacks\<close>

definition kPayload :: bytes where
  "kPayload = [0x00, 0x01, 0x7f, 0x80, 0xfe, 0xff]"

text \<open>A callback gets the bytes and gives what it writes and its answer.\<close>

definition EchoCallback :: "bytes \<Rightarrow> (buf list \<times> bool) result" where
  "EchoCallback d = Inr ([Buf d], True)"

text \<open>\<^verbatim>\<open>RecordOneWayCallback\<close>: the answer is also what it stores in \<^verbatim>\<open>g_oneWaySeen\<close>.\<close>

definition RecordOneWayCallback :: "bytes \<Rightarrow> (buf list \<times> bool) result" where
  "RecordOneWayCallback d = Inr ([], d = kPayload)"

section \<open>The exported functions in a test\<close>

text \<open>
  A command with a null message: the status is an error, the response is the text of the exception
  and is freed; the heap after that.
\<close>

definition rejects_message ::
  "'c plugin_library \<Rightarrow> nat \<Rightarrow> string \<Rightarrow> 32 word \<Rightarrow> 'c abi_heap option \<Rightarrow> 'c abi_heap option" where
  "rejects_message lib channel text len heap =
     Option.bind heap (\<lambda>h.
       case lib_TransportSendCommand lib (Some channel) None len True True h of
         Some (status, Some (Some response, responseLen), h') \<Rightarrow>
           (case ah_buffers h' response of
              Some d \<Rightarrow>
                if status = TRANSPORT_PLUGIN_ERROR \<and> take (unat responseLen) d = string_to_bytes text
                then lib_TransportFreeBuffer lib (Some response) h' else None
            | None \<Rightarrow> None)
       | _ \<Rightarrow> None)"

text \<open>
  \<^verbatim>\<open>FactoryCreatesAndDestroysTransport\<close>: create a channel, send the two lengths that are
  refused, destroy it; nothing of the plugin is left.
\<close>

definition factory_test ::
  "'c plugin_library \<Rightarrow> string option \<Rightarrow> string \<Rightarrow> string \<Rightarrow> 32 word list \<Rightarrow> bool" where
  "factory_test lib ipAddress config text lengths =
     (case lib_CreateTransport lib ipAddress 0 (Some config) True empty_heap of
        (Some channel, errorMessage, h) \<Rightarrow>
          errorMessage = Some None \<and>
          Option.bind (fold (rejects_message lib channel text) lengths (Some h))
            (lib_DestroyTransport lib (Some channel)) \<noteq> None
      | _ \<Rightarrow> False)"

text \<open>A library whose transport refuses these messages passes.\<close>

lemma rejects_message_heap:
  assumes "lib_TransportSendCommand lib = heap_SendCommand malloc command"
    "lib_TransportFreeBuffer lib = FreeBuffer" "\<And>n. malloc n"
    "command c None len = Some (Inl e, c)" "is_std e" "length (what e) < 2 ^ 31"
    "ah_channels h channel = Some c"
  shows "\<exists>h'. rejects_message lib channel (what e) len (Some h) = Some h' \<and> ah_channels h' channel = Some c"
proof -
  have "unat (word_of_nat (length (what e)) :: 32 word) = length (what e)"
    using assms(6) by (simp add: unat_of_nat)
  moreover have "length (string_to_bytes (what e)) = length (what e)"
    by (simp add: string_to_bytes_def)
  ultimately show ?thesis
    using assms(4,5,7)
    by (simp add: rejects_message_def assms(1-3) heap_SendCommand_def heap_failure_def Let_def
        heap_CopyBuffer_def caught_text_def FreeBuffer_def)
qed

lemma factory_test_passes:
  assumes "lib_CreateTransport lib ipAddress 0 (Some config) True =
      heap_CreateTransport malloc (Inr c) True"
    "lib_DestroyTransport lib = DestroyTransport"
    "lib_TransportSendCommand lib = heap_SendCommand malloc command"
    "lib_TransportFreeBuffer lib = FreeBuffer" "\<And>n. malloc n"
    "\<And>len. len \<in> set lengths \<Longrightarrow> command c None len = Some (Inl e, c)"
    "is_std e" "length (what e) < 2 ^ 31"
  shows "factory_test lib ipAddress config (what e) lengths"
proof -
  have run: "\<exists>h'. fold (rejects_message lib channel (what e)) ls (Some h) = Some h' \<and>
      ah_channels h' channel = Some c"
    if "ah_channels h channel = Some c" "set ls \<subseteq> set lengths" for h channel ls
    using that
  proof (induction ls arbitrary: h)
    case (Cons len ls)
    then obtain h' where "rejects_message lib channel (what e) len (Some h) = Some h'"
        "ah_channels h' channel = Some c"
      using rejects_message_heap [OF assms(3,4,5) assms(6) assms(7,8), of len h channel] by auto
    with Cons show ?case by auto
  qed simp
  obtain h where h: "heap_CreateTransport malloc (Inr c) True empty_heap = (Some 0, Some None, h)"
      "ah_channels h 0 = Some c"
    by (simp add: heap_CreateTransport_def empty_heap_def)
  from run [OF h(2), of lengths] h assms(1,2) show ?thesis
    by (auto simp: factory_test_def DestroyTransport_def)
qed

end
