(* ===== verification/SqsTests.thy ===== *)
theory SqsTests
  imports TestSupport
begin

text \<open>
  The tests of the SQS plugin that need no queue (\<^verbatim>\<open>SqsTransportTests.cpp\<close>), run on the
  model: each \<^verbatim>\<open>TEST\<close> is a definition, and the suite passes whatever the environment is, as
  long as its JSON parser reads the documents of the tests as what they spell.
\<close>

section \<open>Documents\<close>

text \<open>Each text of the program with the value it spells; members are in the order of their keys.\<close>

definition kLocalConfig :: string where
  \<open>kLocalConfig = lines
    [''{'',
     ''        "name": "SqsPlugin",'',
     ''        "region": "us-east-1",'',
     ''        "endpointOverride": "http://localhost:4566",'',
     ''        "accessKeyId": "test",'',
     ''        "secretAccessKey": "test",'',
     ''        "requestQueueUrl": "http://localhost:4566/000000000000/graft-requests",'',
     ''        "replyQueueUrl": "http://localhost:4566/000000000000/graft-replies",'',
     ''        "rpcTimeoutMs": 5000,'',
     ''        "waitTimeSeconds": 1,'',
     ''        "visibilityTimeoutSeconds": 30,'',
     ''        "verifySsl": false'',
     ''    }'']\<close>

definition kLocalConfig_doc :: json where
  "kLocalConfig_doc =
     JObject [(''accessKeyId'', JString ''test''),
     (''endpointOverride'', JString ''http://localhost:4566''),
     (''name'', JString ''SqsPlugin''), (''region'', JString ''us-east-1''),
     (''replyQueueUrl'', JString ''http://localhost:4566/000000000000/graft-replies''),
     (''requestQueueUrl'', JString ''http://localhost:4566/000000000000/graft-requests''),
     (''rpcTimeoutMs'', JUnsigned 5000), (''secretAccessKey'', JString ''test''),
     (''verifySsl'', JBool False), (''visibilityTimeoutSeconds'', JUnsigned 30),
     (''waitTimeSeconds'', JUnsigned 1)]"

definition sqs_nested_sqs_text :: string where
  \<open>sqs_nested_sqs_text = lines
    [''{'',
     ''        "configurations": {'',
     ''            "package": {'',
     ''                "plugin": {'',
     ''                    "sqs": {'',
     ''                        "region": "eu-west-1",'',
     ''                        "requestQueueUrl": "https://example/requests",'',
     ''                        "replyQueueUrl": "https://example/replies"'',
     ''                    }'',
     ''                }'',
     ''            }'',
     ''        }'',
     ''    }'']\<close>

definition sqs_nested_sqs_text_doc :: json where
  "sqs_nested_sqs_text_doc =
     JObject [(''configurations'', JObject [(''package'', JObject [(''plugin'', JObject [(''sqs'', JObject [(''region'', JString ''eu-west-1''),
     (''replyQueueUrl'', JString ''https://example/replies''),
     (''requestQueueUrl'', JString ''https://example/requests'')])])])])]"

definition sqs_alias_text :: string where
  \<open>sqs_alias_text = lines
    [''{'',
     ''        "name": "SqsPlugin",'',
     ''        "region": "eu-central-1",'',
     ''        "queue": "https://example/requests",'',
     ''        "replyQueue": "https://example/replies"'',
     ''    }'']\<close>

definition sqs_alias_text_doc :: json where
  "sqs_alias_text_doc =
     JObject [(''name'', JString ''SqsPlugin''),
     (''queue'', JString ''https://example/requests''), (''region'', JString ''eu-central-1''),
     (''replyQueue'', JString ''https://example/replies'')]"

definition sqs_foreign_first_text :: string where
  \<open>sqs_foreign_first_text = lines
    [''{'',
     ''        "configurations": {'',
     ''            "other": {'',
     ''                "plugin": {'',
     ''                    "name": "RabbitmqPlugin",'',
     ''                    "queue": "myqueue",'',
     ''                    "host": "localhost"'',
     ''                }'',
     ''            },'',
     ''            "calculator": {'',
     ''                "plugin": {'',
     ''                    "name": "SqsPlugin",'',
     ''                    "region": "us-west-2",'',
     ''                    "queue": "https://example/requests",'',
     ''                    "replyQueue": "https://example/replies"'',
     ''                }'',
     ''            }'',
     ''        }'',
     ''    }'']\<close>

definition sqs_foreign_first_text_doc :: json where
  "sqs_foreign_first_text_doc =
     JObject [(''configurations'', JObject [(''calculator'', JObject [(''plugin'', JObject [(''name'', JString ''SqsPlugin''),
     (''queue'', JString ''https://example/requests''), (''region'', JString ''us-west-2''),
     (''replyQueue'', JString ''https://example/replies'')])]),
     (''other'', JObject [(''plugin'', JObject [(''host'', JString ''localhost''),
     (''name'', JString ''RabbitmqPlugin''), (''queue'', JString ''myqueue'')])])])]"

definition sqs_foreign_text :: string where
  \<open>sqs_foreign_text = lines
    [''{'',
     ''            "name": "RabbitmqPlugin",'',
     ''            "queue": "myqueue",'',
     ''            "host": "localhost"'',
     ''        }'']\<close>

definition sqs_foreign_text_doc :: json where
  "sqs_foreign_text_doc =
     JObject [(''host'', JString ''localhost''), (''name'', JString ''RabbitmqPlugin''),
     (''queue'', JString ''myqueue'')]"

definition sqs_file_text :: string where
  \<open>sqs_file_text = lines
    [''{'',
     ''            "region": "ap-southeast-2",'',
     ''            "queueUrl": "https://example/from-file",'',
     ''            "replyQueueUrl": "https://example/from-file-replies",'',
     ''            "oneWay": false'',
     ''        }'']\<close>

definition sqs_file_text_doc :: json where
  "sqs_file_text_doc =
     JObject [(''oneWay'', JBool False), (''queueUrl'', JString ''https://example/from-file''),
     (''region'', JString ''ap-southeast-2''),
     (''replyQueueUrl'', JString ''https://example/from-file-replies'')]"

definition sqs_long_wait_text :: string where
  \<open>sqs_long_wait_text = lines
    [''{"waitTimeSeconds": 21, "requestQueueUrl": "q"}'']\<close>

definition sqs_long_wait_text_doc :: json where
  "sqs_long_wait_text_doc =
     JObject [(''requestQueueUrl'', JString ''q''), (''waitTimeSeconds'', JUnsigned 21)]"

definition sqs_long_visibility_text :: string where
  \<open>sqs_long_visibility_text = lines
    [''{"visibilityTimeoutSeconds": 43201, "requestQueueUrl": "q"}'']\<close>

definition sqs_long_visibility_text_doc :: json where
  "sqs_long_visibility_text_doc =
     JObject [(''requestQueueUrl'', JString ''q''),
     (''visibilityTimeoutSeconds'', JUnsigned 43201)]"

definition sqs_one_key_text :: string where
  \<open>sqs_one_key_text = lines
    [''{"accessKeyId": "only-one", "requestQueueUrl": "q"}'']\<close>

definition sqs_one_key_text_doc :: json where
  "sqs_one_key_text_doc =
     JObject [(''accessKeyId'', JString ''only-one''), (''requestQueueUrl'', JString ''q'')]"

definition sqs_text_one_way_text :: string where
  \<open>sqs_text_one_way_text = lines
    [''{"oneWay": "yes", "requestQueueUrl": "q"}'']\<close>

definition sqs_text_one_way_text_doc :: json where
  "sqs_text_one_way_text_doc =
     JObject [(''oneWay'', JString ''yes''), (''requestQueueUrl'', JString ''q'')]"

definition sqs_no_queue_text :: string where
  \<open>sqs_no_queue_text = lines
    [''{"region":"us-east-1"}'']\<close>

definition sqs_no_queue_text_doc :: json where
  "sqs_no_queue_text_doc =
     JObject [(''region'', JString ''us-east-1'')]"


text \<open>The group of 129 characters, as the test puts it together.\<close>

definition sqs_long_group_text :: string where
  \<open>sqs_long_group_text =
     ''{"messageGroupId": "'' @ replicate 129 (CHR ''g'') @ ''", "requestQueueUrl": "q"}''\<close>

definition sqs_long_group_text_doc :: json where
  "sqs_long_group_text_doc =
     JObject [(''messageGroupId'', JString (replicate 129 (CHR ''g''))), (''requestQueueUrl'', JString ''q'')]"

definition sqs_documents :: "(string \<times> json) list" where
  "sqs_documents =
    [(kLocalConfig, kLocalConfig_doc), (sqs_nested_sqs_text, sqs_nested_sqs_text_doc),
     (sqs_alias_text, sqs_alias_text_doc), (sqs_foreign_first_text, sqs_foreign_first_text_doc),
     (sqs_foreign_text, sqs_foreign_text_doc), (sqs_file_text, sqs_file_text_doc),
     (sqs_long_wait_text, sqs_long_wait_text_doc),
     (sqs_long_visibility_text, sqs_long_visibility_text_doc),
     (sqs_one_key_text, sqs_one_key_text_doc), (sqs_text_one_way_text, sqs_text_one_way_text_doc),
     (sqs_long_group_text, sqs_long_group_text_doc), (sqs_no_queue_text, sqs_no_queue_text_doc)]"

section \<open>Configurations\<close>

definition SqsConfig_ParsesQueueAndAwsSettings :: "cpp_env \<Rightarrow> bool" where
  "SqsConfig_ParsesQueueAndAwsSettings env =
     value_is (ParseSqsConfigSource env kLocalConfig) (\<lambda>config.
       sqs_region config = ''us-east-1'' \<and>
       sqs_requestQueueUrl config = ''http://localhost:4566/000000000000/graft-requests'' \<and>
       sqs_replyQueueUrl config = ''http://localhost:4566/000000000000/graft-replies'' \<and>
       sqs_rpcTimeoutMs config = 5000 \<and>
       \<not> sqs_verifySsl config \<and>
       no_throw (sqs_ValidateClientConfig config))"

definition SqsConfig_FindsNestedSqsNode :: "cpp_env \<Rightarrow> bool" where
  "SqsConfig_FindsNestedSqsNode env =
     value_is (ParseSqsConfigSource env sqs_nested_sqs_text) (\<lambda>config.
       sqs_region config = ''eu-west-1'' \<and>
       sqs_requestQueueUrl config = ''https://example/requests'')"

definition SqsConfig_RequiresReplyQueueForRpc :: bool where
  "SqsConfig_RequiresReplyQueueForRpc =
     (let config = default_sqs_config\<lparr>sqs_requestQueueUrl := ''https://example/requests''\<rparr> in
      throws_runtime_error (sqs_ValidateClientConfig config) \<and>
      no_throw (sqs_ValidateClientConfig (config\<lparr>sqs_oneWay := True\<rparr>)))"

definition SqsConfig_DetectsFifoQueueUrls :: bool where
  "SqsConfig_DetectsFifoQueueUrls \<longleftrightarrow>
     IsFifoQueueUrl ''https://sqs.us-east-1.amazonaws.com/1/a.fifo'' \<and>
     IsFifoQueueUrl ''https://localhost/a.fifo/'' \<and>
     IsFifoQueueUrl ''https://localhost/a.fifo?x=1'' \<and>
     \<not> IsFifoQueueUrl ''https://sqs.us-east-1.amazonaws.com/1/a'' \<and>
     \<not> IsFifoQueueUrl ''https://localhost/a.fifo.queue''"

definition SqsConfig_AcceptsFlatQueueAlias :: "cpp_env \<Rightarrow> bool" where
  "SqsConfig_AcceptsFlatQueueAlias env =
     value_is (ParseSqsConfigSource env sqs_alias_text) (\<lambda>config.
       sqs_requestQueueUrl config = ''https://example/requests'' \<and>
       sqs_replyQueueUrl config = ''https://example/replies'' \<and>
       sqs_region config = ''eu-central-1'')"

definition SqsConfig_ReadsNestedAliasAheadOfForeignQueue :: "cpp_env \<Rightarrow> bool" where
  "SqsConfig_ReadsNestedAliasAheadOfForeignQueue env =
     value_is (ParseSqsConfigSource env sqs_foreign_first_text) (\<lambda>config.
       sqs_region config = ''us-west-2'' \<and>
       sqs_requestQueueUrl config = ''https://example/requests'')"

definition SqsConfig_RejectsForeignQueueConfig :: "cpp_env \<Rightarrow> bool" where
  "SqsConfig_RejectsForeignQueueConfig env =
     throws_runtime_error (ParseSqsConfigSource env sqs_foreign_text)"

text \<open>The file is written under \<open>path\<close>, a name in the directory for temporary files.\<close>

definition SqsConfig_ReadsConfigurationFile :: "cpp_env \<Rightarrow> string \<Rightarrow> bool" where
  "SqsConfig_ReadsConfigurationFile env path =
     value_is (ParseSqsConfigSource (write_file path sqs_file_text env) path) (\<lambda>config.
       sqs_region config = ''ap-southeast-2'' \<and>
       sqs_requestQueueUrl config = ''https://example/from-file'')"

definition SqsConfig_RejectsInvalidValues :: "cpp_env \<Rightarrow> bool" where
  "SqsConfig_RejectsInvalidValues env \<longleftrightarrow>
     throws_runtime_error (ParseSqsConfigSource env sqs_long_wait_text) \<and>
     throws_runtime_error (ParseSqsConfigSource env sqs_long_visibility_text) \<and>
     throws_runtime_error (ParseSqsConfigSource env sqs_one_key_text) \<and>
     throws_runtime_error (ParseSqsConfigSource env sqs_text_one_way_text) \<and>
     throws_runtime_error (ParseSqsConfigSource env sqs_long_group_text) \<and>
     throws_runtime_error (ParseSqsConfigSource env '''') \<and>
     throws_runtime_error (ParseSqsConfigSource env ''not-json-or-a-file'')"

definition SqsConfig_ParsesEndpointOverride :: bool where
  "SqsConfig_ParsesEndpointOverride \<longleftrightarrow>
     value_is (ParseEndpointOverride ''http://localhost:4566/'') (\<lambda>httpEndpoint.
       overridden httpEndpoint \<and> \<not> useHttps httpEndpoint \<and>
       authority httpEndpoint = ''localhost:4566'') \<and>
     value_is (ParseEndpointOverride '' https://sqs.example:443 '') (\<lambda>httpsEndpoint.
       useHttps httpsEndpoint \<and> authority httpsEndpoint = ''sqs.example:443'') \<and>
     value_is (ParseEndpointOverride '''') (\<lambda>endpoint. \<not> overridden endpoint) \<and>
     throws_runtime_error (ParseEndpointOverride ''http:///'')"

section \<open>Payloads and FIFO queues\<close>

definition SqsPayload_PreservesArbitraryBinaryData ::
  "(bytes \<Rightarrow> string) \<Rightarrow> (string \<Rightarrow> bytes) \<Rightarrow> bool" where
  "SqsPayload_PreservesArbitraryBinaryData enc dec =
     value_is (EncodePayload enc (Buf kPayload)) (\<lambda>encoded.
       DecodePayload dec encoded = Inr kPayload)"

definition SqsPayload_SupportsEmptyPayload ::
  "(bytes \<Rightarrow> string) \<Rightarrow> (string \<Rightarrow> bytes) \<Rightarrow> bool" where
  "SqsPayload_SupportsEmptyPayload enc dec =
     value_is (EncodePayload enc (Null 0)) (\<lambda>encoded.
       encoded \<noteq> [] \<and> value_is (DecodePayload dec encoded) (\<lambda>d. d = []))"

definition SqsPayload_RejectsUnsupportedAndOversizedBodies ::
  "(bytes \<Rightarrow> string) \<Rightarrow> (string \<Rightarrow> bytes) \<Rightarrow> bool" where
  "SqsPayload_RejectsUnsupportedAndOversizedBodies enc dec \<longleftrightarrow>
     throws_runtime_error (DecodePayload dec ''not-a-graftcode-body'') \<and>
     throws_runtime_error (DecodePayload dec ''graftcode-base64:****'') \<and>
     throws_runtime_error (DecodePayload dec ''graftcode-base64:abc'') \<and>
     throws_runtime_error (EncodePayload enc (Buf (replicate MaxEncodedBodyBytes 0x11)))"

definition SqsPayload_RejectsGatewayErrorPrefix :: bool where
  "SqsPayload_RejectsGatewayErrorPrefix \<longleftrightarrow>
     no_throw (RejectGatewayErrorPayload []) \<and>
     no_throw (RejectGatewayErrorPayload [0x01, 0x02]) \<and>
     runtime_error_text (RejectGatewayErrorPayload (255 # string_to_bytes ''boom'')) = Some ''boom''"

text \<open>A message of the AWS library before anything is set.\<close>

definition new_send_request :: sqs_send_request where
  "new_send_request =
    \<lparr>ss_queueUrl = [], ss_body = [], ss_attributes = Map.empty, ss_groupId = None,
     ss_deduplicationId = None\<rparr>"

definition SqsFifo_SetsGroupAndDedupOnlyForFifoQueues :: bool where
  "SqsFifo_SetsGroupAndDedupOnlyForFifoQueues =
     (let fifo = ConfigureFifoMessage new_send_request
            ''https://sqs.us-east-1.amazonaws.com/1/orders.fifo'' '''' ''dedup-1'';
          standard = ConfigureFifoMessage new_send_request
            ''https://sqs.us-east-1.amazonaws.com/1/orders'' ''group'' ''dedup-1''
      in ss_groupId fifo = Some ''graftcode'' \<and> ss_deduplicationId fifo = Some ''dedup-1'' \<and>
         ss_groupId standard = None \<and> ss_deduplicationId standard = None)"

section \<open>Transport and server\<close>

definition SqsTransport_FactoryCreatesAndDestroysTransport ::
  "(nat \<Rightarrow> bool) \<Rightarrow> cpp_env \<Rightarrow> (sqs_client \<Rightarrow> buf \<Rightarrow> bytes result \<times> sqs_client) \<Rightarrow> bool" where
  "SqsTransport_FactoryCreatesAndDestroysTransport malloc env call =
     factory_test (sqs_library malloc env call) None kLocalConfig
       ''SQS transport: invalid request payload'' [-1, 4]"

text \<open>
  The server object with its two failed configurations, the good one, \<^verbatim>\<open>stop\<close>, and the
  destructor, which waits until the server does not run.
\<close>

definition SqsServer_FactoryConfigureAndStop :: "cpp_env \<Rightarrow> bool" where
  "SqsServer_FactoryConfigureAndStop env =
     (let server = CreateServer new_SqsServer;
          first = configure env kLocalConfig False (ob_server server);
          second = configure env sqs_no_queue_text True (snd first);
          third = configure env kLocalConfig True (snd second);
          stopped = stop_disable (sv_activeClient (snd third)) (stop_signal (snd third));
          ended = DestroyServer stop_signal (server\<lparr>ob_server := stopped\<rparr>)
      in throws_runtime_error (fst first) \<and> throws_runtime_error (fst second) \<and>
         no_throw (fst third) \<and> \<not> sv_running stopped \<and> \<not> sv_running (ob_server ended) \<and>
         \<not> ob_misused (ob_release ended))"

definition SqsServer_OneWayServerDoesNotRequireReplyQueue :: bool where
  "SqsServer_OneWayServerDoesNotRequireReplyQueue =
     (let config = default_sqs_config\<lparr>sqs_requestQueueUrl := ''https://example/requests'',
                                      sqs_oneWay := True\<rparr>
      in no_throw (sqs_ValidateServerConfig config) \<and> no_throw (sqs_ValidateClientConfig config))"

section \<open>The suite\<close>

text \<open>
  What the program runs in: the environment with a parser, the Base64 routines of the AWS library,
  the allocator, the name of the file and the call of a client, which no test reaches.
\<close>

definition sqs_suite ::
  "cpp_env \<Rightarrow> (bytes \<Rightarrow> string) \<Rightarrow> (string \<Rightarrow> bytes) \<Rightarrow> (nat \<Rightarrow> bool) \<Rightarrow> string \<Rightarrow>
     (sqs_client \<Rightarrow> buf \<Rightarrow> bytes result \<times> sqs_client) \<Rightarrow> suite" where
  "sqs_suite env enc dec malloc path call =
    [(''ParsesQueueAndAwsSettings'', SqsConfig_ParsesQueueAndAwsSettings env),
     (''FindsNestedSqsNode'', SqsConfig_FindsNestedSqsNode env),
     (''RequiresReplyQueueForRpc'', SqsConfig_RequiresReplyQueueForRpc),
     (''PreservesArbitraryBinaryData'', SqsPayload_PreservesArbitraryBinaryData enc dec),
     (''SupportsEmptyPayload'', SqsPayload_SupportsEmptyPayload enc dec),
     (''DetectsFifoQueueUrls'', SqsConfig_DetectsFifoQueueUrls),
     (''AcceptsFlatQueueAlias'', SqsConfig_AcceptsFlatQueueAlias env),
     (''ReadsNestedAliasAheadOfForeignQueue'', SqsConfig_ReadsNestedAliasAheadOfForeignQueue env),
     (''RejectsForeignQueueConfig'', SqsConfig_RejectsForeignQueueConfig env),
     (''ReadsConfigurationFile'', SqsConfig_ReadsConfigurationFile env path),
     (''RejectsInvalidValues'', SqsConfig_RejectsInvalidValues env),
     (''ParsesEndpointOverride'', SqsConfig_ParsesEndpointOverride),
     (''RejectsUnsupportedAndOversizedBodies'', SqsPayload_RejectsUnsupportedAndOversizedBodies enc dec),
     (''RejectsGatewayErrorPrefix'', SqsPayload_RejectsGatewayErrorPrefix),
     (''SetsGroupAndDedupOnlyForFifoQueues'', SqsFifo_SetsGroupAndDedupOnlyForFifoQueues),
     (''FactoryCreatesAndDestroysTransport'',
        SqsTransport_FactoryCreatesAndDestroysTransport malloc env call),
     (''FactoryConfigureAndStop'', SqsServer_FactoryConfigureAndStop env),
     (''OneWayServerDoesNotRequireReplyQueue'', SqsServer_OneWayServerDoesNotRequireReplyQueue)]"

section \<open>The tests pass\<close>

lemmas sqs_docs = kLocalConfig_doc_def sqs_nested_sqs_text_doc_def sqs_alias_text_doc_def
  sqs_foreign_first_text_doc_def sqs_foreign_text_doc_def sqs_file_text_doc_def
  sqs_long_wait_text_doc_def sqs_long_visibility_text_doc_def sqs_one_key_text_doc_def
  sqs_text_one_way_text_doc_def sqs_long_group_text_doc_def sqs_no_queue_text_doc_def

lemmas sqs_parsing = ParseSqsConfigSource_def sqs_select_def HasSpecificSqsKeys_def IsFlatSqsAlias_def
  jcontains_def jstring_at_def read_sqs_config_def read_sqs_strings_def Let_def ReadString_def
  ReadPositiveUint_def ReadBool_def default_sqs_config_def check_sqs_config_def sqs_docs

lemma sqs_texts_not_Nil:
  "list_all (\<lambda>(text, value). text \<noteq> []) sqs_documents"
  by (simp add: sqs_documents_def kLocalConfig_def sqs_nested_sqs_text_def sqs_alias_text_def
      sqs_foreign_first_text_def sqs_foreign_text_def sqs_file_text_def sqs_long_wait_text_def
      sqs_long_visibility_text_def sqs_one_key_text_def sqs_text_one_way_text_def
      sqs_long_group_text_def sqs_no_queue_text_def)

lemma sqs_source:
  assumes "reads env sqs_documents" "(text, value) \<in> set sqs_documents"
  shows "ParseJsonSource plugin env text = Inr value"
  using assms sqs_texts_not_Nil
  by (intro ParseJsonSource_reads) (auto simp: reads_def list_all_iff)

lemma sqs_sources:
  assumes "reads env sqs_documents"
  shows "ParseJsonSource plugin env kLocalConfig = Inr kLocalConfig_doc"
    "ParseJsonSource plugin env sqs_nested_sqs_text = Inr sqs_nested_sqs_text_doc"
    "ParseJsonSource plugin env sqs_alias_text = Inr sqs_alias_text_doc"
    "ParseJsonSource plugin env sqs_foreign_first_text = Inr sqs_foreign_first_text_doc"
    "ParseJsonSource plugin env sqs_foreign_text = Inr sqs_foreign_text_doc"
    "ParseJsonSource plugin env sqs_long_wait_text = Inr sqs_long_wait_text_doc"
    "ParseJsonSource plugin env sqs_long_visibility_text = Inr sqs_long_visibility_text_doc"
    "ParseJsonSource plugin env sqs_one_key_text = Inr sqs_one_key_text_doc"
    "ParseJsonSource plugin env sqs_text_one_way_text = Inr sqs_text_one_way_text_doc"
    "ParseJsonSource plugin env sqs_long_group_text = Inr sqs_long_group_text_doc"
    "ParseJsonSource plugin env sqs_no_queue_text = Inr sqs_no_queue_text_doc"
  by (rule sqs_source [OF assms], simp add: sqs_documents_def)+

lemma sqs_local_config:
  assumes "reads env sqs_documents"
  shows "ParseSqsConfigSource env kLocalConfig =
    Inr \<lparr>sqs_name = ''SqsPlugin'', sqs_region = ''us-east-1'',
      sqs_endpointOverride = ''http://localhost:4566'', sqs_accessKeyId = ''test'',
      sqs_secretAccessKey = ''test'', sqs_sessionToken = [],
      sqs_requestQueueUrl = ''http://localhost:4566/000000000000/graft-requests'',
      sqs_replyQueueUrl = ''http://localhost:4566/000000000000/graft-replies'',
      sqs_messageGroupId = ''graftcode'', sqs_rpcTimeoutMs = 5000, sqs_waitTimeSeconds = 1,
      sqs_visibilityTimeoutSeconds = 30, sqs_oneWay = False, sqs_verifySsl = False\<rparr>"
  by (simp add: sqs_parsing sqs_sources [OF assms])

lemma sqs_config_tests:
  assumes "reads env sqs_documents"
  shows "SqsConfig_ParsesQueueAndAwsSettings env" "SqsConfig_FindsNestedSqsNode env"
    "SqsConfig_AcceptsFlatQueueAlias env" "SqsConfig_ReadsNestedAliasAheadOfForeignQueue env"
    "SqsConfig_RejectsForeignQueueConfig env"
  subgoal by (simp add: SqsConfig_ParsesQueueAndAwsSettings_def sqs_local_config [OF assms] sqs_ValidateClientConfig_def)
  subgoal by (simp add: SqsConfig_FindsNestedSqsNode_def sqs_sources [OF assms] sqs_parsing)
  subgoal by (simp add: SqsConfig_AcceptsFlatQueueAlias_def sqs_sources [OF assms] sqs_parsing)
  subgoal by (simp add: SqsConfig_ReadsNestedAliasAheadOfForeignQueue_def sqs_sources [OF assms] sqs_parsing)
  subgoal by (simp add: SqsConfig_RejectsForeignQueueConfig_def sqs_sources [OF assms] sqs_parsing)
  done

text \<open>Texts that are neither documents nor names of files.\<close>

lemma ParseJsonSource_unreadable:
  "throws_runtime_error (ParseSqsConfigSource env [])"
  "json_parse env text = Inl e \<Longrightarrow> read_file env text = None \<Longrightarrow>
     throws_runtime_error (ParseSqsConfigSource env text)"
  by (simp_all add: ParseSqsConfigSource_def ParseJsonSource_def)

lemma sqs_invalid_values:
  assumes "reads env sqs_documents" "json_parse env ''not-json-or-a-file'' = Inl e"
    "read_file env ''not-json-or-a-file'' = None"
  shows "SqsConfig_RejectsInvalidValues env"
proof -
  have "throws_runtime_error (ParseSqsConfigSource env sqs_long_wait_text)"
    "throws_runtime_error (ParseSqsConfigSource env sqs_long_visibility_text)"
    "throws_runtime_error (ParseSqsConfigSource env sqs_one_key_text)"
    "throws_runtime_error (ParseSqsConfigSource env sqs_text_one_way_text)"
    "throws_runtime_error (ParseSqsConfigSource env sqs_long_group_text)"
    by (simp_all add: sqs_sources [OF assms(1)] sqs_parsing)
  then show ?thesis
    using ParseJsonSource_unreadable(1) ParseJsonSource_unreadable(2) [OF assms(2,3)]
    by (simp only: SqsConfig_RejectsInvalidValues_def)
qed

lemma sqs_configuration_file:
  assumes "reads env sqs_documents" "json_parse env path = Inl e" "path \<noteq> []"
  shows "SqsConfig_ReadsConfigurationFile env path"
proof -
  have "json_parse env sqs_file_text = Inr sqs_file_text_doc"
    using assms(1) by (simp add: sqs_documents_def)
  then have "ParseJsonSource ''SQS plugin'' (write_file path sqs_file_text env) path = Inr sqs_file_text_doc"
    using assms(2,3) by (simp add: ParseJsonSource_def write_file_def)
  then show ?thesis by (simp add: SqsConfig_ReadsConfigurationFile_def sqs_parsing)
qed

lemma sqs_pure_tests:
  "SqsConfig_RequiresReplyQueueForRpc" "SqsConfig_DetectsFifoQueueUrls"
  "SqsConfig_ParsesEndpointOverride" "SqsPayload_RejectsGatewayErrorPrefix"
  "SqsFifo_SetsGroupAndDedupOnlyForFifoQueues" "SqsServer_OneWayServerDoesNotRequireReplyQueue"
  subgoal by (simp add: SqsConfig_RequiresReplyQueueForRpc_def sqs_ValidateClientConfig_def default_sqs_config_def)
  subgoal by (simp add: SqsConfig_DetectsFifoQueueUrls_def IsFifoQueueUrl_def strip_back_def is_slash_def)
  subgoal by (simp add: SqsConfig_ParsesEndpointOverride_def ParseEndpointOverride_def strip_back_def
      strip_front_def is_blank_def is_slash_def starts_with_def)
  subgoal by (simp add: SqsPayload_RejectsGatewayErrorPrefix_def RejectGatewayErrorPayload_def c_str_Cons)
  subgoal by (simp add: SqsFifo_SetsGroupAndDedupOnlyForFifoQueues_def ConfigureFifoMessage_def
      IsFifoQueueUrl_def strip_back_def is_slash_def c_str_def new_send_request_def)
  subgoal by (simp add: SqsServer_OneWayServerDoesNotRequireReplyQueue_def sqs_ValidateServerConfig_def
      sqs_ValidateClientConfig_def default_sqs_config_def)
  done

lemma sqs_payload_tests:
  assumes "base64_codec enc dec"
  shows "SqsPayload_PreservesArbitraryBinaryData enc dec" "SqsPayload_SupportsEmptyPayload enc dec"
    "SqsPayload_RejectsUnsupportedAndOversizedBodies enc dec"
proof -
  have fits: "EncodePayload enc (Buf d) = Inr (payload_prefix @ enc d)" if "length d \<le> 6" for d
    unfolding EncodePayload_Inr_iff using base64_codec.payload_fits_iff [OF assms, of d] that by simp
  show "SqsPayload_PreservesArbitraryBinaryData enc dec"
    by (simp add: SqsPayload_PreservesArbitraryBinaryData_def fits kPayload_def
        base64_codec.DecodePayload_enc [OF assms])
  show "SqsPayload_SupportsEmptyPayload enc dec"
    using base64_codec.enc_Nil_iff [OF assms, of "[]"] base64_codec.dec_enc [OF assms, of "[]"]
    by (simp add: SqsPayload_SupportsEmptyPayload_def EncodePayload_def Let_def payload_prefix_def
        DecodePayload_def IsValidBase64_def MaxEncodedBodyBytes_def)
  have "length (enc (replicate MaxEncodedBodyBytes 0x11)) > MaxEncodedBodyBytes"
    by (simp add: base64_codec.enc_length [OF assms] MaxEncodedBodyBytes_def)
  then show "SqsPayload_RejectsUnsupportedAndOversizedBodies enc dec"
    by (simp add: SqsPayload_RejectsUnsupportedAndOversizedBodies_def DecodePayload_def EncodePayload_def
        Let_def payload_prefix_def IsValidBase64_def char_class_defs)
qed

lemma sqs_object_tests:
  assumes "reads env sqs_documents" "\<And>n. malloc n"
  shows "SqsTransport_FactoryCreatesAndDestroysTransport malloc env call"
    "SqsServer_FactoryConfigureAndStop env"
proof -
  have "\<exists>c. new_TransportSqs env (Some kLocalConfig) = Inr c"
    by (simp add: new_TransportSqs_def c_string_or_empty_def sqs_local_config [OF assms(1)]
        new_SqsClient_def sqs_ValidateClientConfig_def CreateAwsSqsClient_def ParseEndpointOverride_def
        strip_back_def strip_front_def is_blank_def is_slash_def starts_with_def Let_def)
  then obtain c where "new_TransportSqs env (Some kLocalConfig) = Inr c" ..
  then have "factory_test (sqs_library malloc env call) None kLocalConfig
      (what (InvalidArgument ''SQS transport: invalid request payload'')) [-1, 4]"
    by (intro factory_test_passes [where c = c and malloc = malloc and command = "sqs_command call"])
      (auto simp: c_str_Cons sqs_library_def sqs_command_def transport_command_def length_guard_def assms(2))
  then show "SqsTransport_FactoryCreatesAndDestroysTransport malloc env call"
    by (simp add: SqsTransport_FactoryCreatesAndDestroysTransport_def c_str_Cons)
  show "SqsServer_FactoryConfigureAndStop env"
    by (simp add: SqsServer_FactoryConfigureAndStop_def configure_def sqs_local_config [OF assms(1)]
        sqs_sources [OF assms(1)] sqs_parsing sqs_ValidateServerConfig_def CreateServer_def
        new_SqsServer_def stop_signal_def stop_disable_def DestroyServer_def ob_release_def)
qed

section \<open>Property\<close>

text \<open>
  C39. The model passes the tests of the SQS plugin: with any parser that reads the documents of the
  tests as what they spell, any lawful Base64 codec and an allocator that does not fail, every test
  that needs no queue passes.
\<close>
theorem sqs_suite_passes:
  assumes "reads env sqs_documents"
    and "json_parse env path = Inl e" "path \<noteq> []"
    and "json_parse env ''not-json-or-a-file'' = Inl e'" "read_file env ''not-json-or-a-file'' = None"
    and "base64_codec enc dec" and "\<And>n. malloc n"
  shows "suite_passes (sqs_suite env enc dec malloc path call)"
  using sqs_config_tests [OF assms(1)] sqs_configuration_file [OF assms(1,2,3)]
    sqs_invalid_values [OF assms(1,4,5)] sqs_pure_tests sqs_payload_tests [OF assms(6)]
    sqs_object_tests [OF assms(1,7)]
  by (simp only: sqs_suite_def suite_passes_simps simp_thms)

lemma sqs_suite_passes_witness:
  "suite_passes (sqs_suite (doc_env sqs_documents) b64_encode b64_decode_total (\<lambda>_. True)
     ''/tmp/graftcode-sqs-config.json'' (\<lambda>c d. (Inr [], c)))"
proof -
  have distinct: "distinct (map fst sqs_documents)" by code_simp
  have "''not-json-or-a-file'' \<notin> fst ` set sqs_documents"
    "''/tmp/graftcode-sqs-config.json'' \<notin> fst ` set sqs_documents"
    by code_simp+
  note env = reads_doc_env [OF distinct] doc_env_other [OF this(1)] doc_env_other [OF this(2)]
  show ?thesis
    by (rule sqs_suite_passes [OF env(1,3) _ env(2) _ pubsub_b64.base64_codec_axioms])
      (simp_all add: doc_env_def)
qed

end
