(* ===== verification/PubSubTests.thy ===== *)
theory PubSubTests
  imports TestSupport PubSubSign
begin

text \<open>
  The tests of the Pub/Sub plugin that need no service (\<^verbatim>\<open>PubSubTransportTests.cpp\<close>), run on
  the model: each \<^verbatim>\<open>TEST\<close> is a definition, and the suite passes whatever the environment is, as
  long as its JSON parser reads the documents of the tests as what they spell and OpenSSL verifies
  what it signs.
\<close>

section \<open>Documents\<close>

text \<open>Each text of the program with the value it spells; members are in the order of their keys.\<close>

definition pubsub_kLocalConfig :: string where
  \<open>pubsub_kLocalConfig = lines
    [''{'',
     ''        "name": "PubSubPlugin",'',
     ''        "projectId": "graftcode-local",'',
     ''        "emulatorHost": "http://127.0.0.1:8085/",'',
     ''        "requestTopic": "graft-requests",'',
     ''        "replyTopic": "graft-replies",'',
     ''        "rpcTimeoutMs": 5000,'',
     ''        "ackDeadlineSeconds": 30,'',
     ''        "autoCreate": false,'',
     ''        "verifySsl": false'',
     ''    }'']\<close>

definition pubsub_kLocalConfig_doc :: json where
  "pubsub_kLocalConfig_doc =
     JObject [(''ackDeadlineSeconds'', JUnsigned 30), (''autoCreate'', JBool False),
     (''emulatorHost'', JString ''http://127.0.0.1:8085/''),
     (''name'', JString ''PubSubPlugin''), (''projectId'', JString ''graftcode-local''),
     (''replyTopic'', JString ''graft-replies''),
     (''requestTopic'', JString ''graft-requests''), (''rpcTimeoutMs'', JUnsigned 5000),
     (''verifySsl'', JBool False)]"

definition pubsub_nested_text :: string where
  \<open>pubsub_nested_text = lines
    [''{'',
     ''        "configurations": {'',
     ''            "package": {'',
     ''                "plugin": {'',
     ''                    "pubsub": {'',
     ''                        "projectId": "demo-project",'',
     ''                        "requestTopic": "graft-requests",'',
     ''                        "replyTopic": "graft-replies",'',
     ''                        "emulatorHost": "https://pubsub.example:443"'',
     ''                    }'',
     ''                }'',
     ''            }'',
     ''        }'',
     ''    }'']\<close>

definition pubsub_nested_text_doc :: json where
  "pubsub_nested_text_doc =
     JObject [(''configurations'', JObject [(''package'', JObject [(''plugin'', JObject [(''pubsub'', JObject [(''emulatorHost'', JString ''https://pubsub.example:443''),
     (''projectId'', JString ''demo-project''), (''replyTopic'', JString ''graft-replies''),
     (''requestTopic'', JString ''graft-requests'')])])])])]"

definition pubsub_alias_text :: string where
  \<open>pubsub_alias_text = lines
    [''{'',
     ''        "name": "PubSubPlugin",'',
     ''        "projectId": "graftcode-local",'',
     ''        "queue": "graft-requests",'',
     ''        "replyQueue": "graft-replies"'',
     ''    }'']\<close>

definition pubsub_alias_text_doc :: json where
  "pubsub_alias_text_doc =
     JObject [(''name'', JString ''PubSubPlugin''),
     (''projectId'', JString ''graftcode-local''), (''queue'', JString ''graft-requests''),
     (''replyQueue'', JString ''graft-replies'')]"

definition pubsub_foreign_first_text :: string where
  \<open>pubsub_foreign_first_text = lines
    [''{'',
     ''        "configurations": {'',
     ''            "other": {'',
     ''                "plugin": {'',
     ''                    "name": "RabbitmqPlugin",'',
     ''                    "queue": "myqueue",'',
     ''                    "host": "localhost"'',
     ''                }'',
     ''            },'',
     ''            "calculator": {'',
     ''                "plugin": {'',
     ''                    "name": "PubSubPlugin",'',
     ''                    "projectId": "graftcode-local",'',
     ''                    "queue": "graft-requests",'',
     ''                    "replyQueue": "graft-replies"'',
     ''                }'',
     ''            }'',
     ''        }'',
     ''    }'']\<close>

definition pubsub_foreign_first_text_doc :: json where
  "pubsub_foreign_first_text_doc =
     JObject [(''configurations'', JObject [(''calculator'', JObject [(''plugin'', JObject [(''name'', JString ''PubSubPlugin''),
     (''projectId'', JString ''graftcode-local''), (''queue'', JString ''graft-requests''),
     (''replyQueue'', JString ''graft-replies'')])]),
     (''other'', JObject [(''plugin'', JObject [(''host'', JString ''localhost''),
     (''name'', JString ''RabbitmqPlugin''), (''queue'', JString ''myqueue'')])])])]"

definition pubsub_foreign_text :: string where
  \<open>pubsub_foreign_text = lines
    [''{'',
     ''            "name": "RabbitmqPlugin",'',
     ''            "queue": "myqueue",'',
     ''            "host": "localhost"'',
     ''        }'']\<close>

definition pubsub_foreign_text_doc :: json where
  "pubsub_foreign_text_doc =
     JObject [(''host'', JString ''localhost''), (''name'', JString ''RabbitmqPlugin''),
     (''queue'', JString ''myqueue'')]"

definition pubsub_file_text :: string where
  \<open>pubsub_file_text = lines
    [''{'',
     ''            "projectId": "from-file",'',
     ''            "requestTopic": "graft-requests",'',
     ''            "replyTopic": "graft-replies",'',
     ''            "subscription": "custom-requests-sub",'',
     ''            "oneWay": false'',
     ''        }'']\<close>

definition pubsub_file_text_doc :: json where
  "pubsub_file_text_doc =
     JObject [(''oneWay'', JBool False), (''projectId'', JString ''from-file''),
     (''replyTopic'', JString ''graft-replies''),
     (''requestTopic'', JString ''graft-requests''),
     (''subscription'', JString ''custom-requests-sub'')]"

definition pubsub_short_ack_text :: string where
  \<open>pubsub_short_ack_text = lines
    [''{"ackDeadlineSeconds": 9, "projectId": "p", "requestTopic": "graft-requests"}'']\<close>

definition pubsub_short_ack_text_doc :: json where
  "pubsub_short_ack_text_doc =
     JObject [(''ackDeadlineSeconds'', JUnsigned 9), (''projectId'', JString ''p''),
     (''requestTopic'', JString ''graft-requests'')]"

definition pubsub_long_ack_text :: string where
  \<open>pubsub_long_ack_text = lines
    [''{"ackDeadlineSeconds": 601, "projectId": "p", "requestTopic": "graft-requests"}'']\<close>

definition pubsub_long_ack_text_doc :: json where
  "pubsub_long_ack_text_doc =
     JObject [(''ackDeadlineSeconds'', JUnsigned 601), (''projectId'', JString ''p''),
     (''requestTopic'', JString ''graft-requests'')]"

definition pubsub_no_messages_text :: string where
  \<open>pubsub_no_messages_text = lines
    [''{"maxMessages": 0, "projectId": "p", "requestTopic": "graft-requests"}'']\<close>

definition pubsub_no_messages_text_doc :: json where
  "pubsub_no_messages_text_doc =
     JObject [(''maxMessages'', JUnsigned 0), (''projectId'', JString ''p''),
     (''requestTopic'', JString ''graft-requests'')]"

definition pubsub_text_one_way_text :: string where
  \<open>pubsub_text_one_way_text = lines
    [''{"oneWay": "yes", "projectId": "p", "requestTopic": "graft-requests"}'']\<close>

definition pubsub_text_one_way_text_doc :: json where
  "pubsub_text_one_way_text_doc =
     JObject [(''oneWay'', JString ''yes''), (''projectId'', JString ''p''),
     (''requestTopic'', JString ''graft-requests'')]"

definition pubsub_bad_host_text :: string where
  \<open>pubsub_bad_host_text = lines
    [''{"emulatorHost": "http:///", "projectId": "p", "requestTopic": "graft-requests"}'']\<close>

definition pubsub_bad_host_text_doc :: json where
  "pubsub_bad_host_text_doc =
     JObject [(''emulatorHost'', JString ''http:///''), (''projectId'', JString ''p''),
     (''requestTopic'', JString ''graft-requests'')]"

definition pubsub_no_host_text :: string where
  \<open>pubsub_no_host_text = lines
    [''{'',
     ''        "projectId": "graftcode-local",'',
     ''        "requestTopic": "graft-requests",'',
     ''        "replyTopic": "graft-replies"'',
     ''    }'']\<close>

definition pubsub_no_host_text_doc :: json where
  "pubsub_no_host_text_doc =
     JObject [(''projectId'', JString ''graftcode-local''),
     (''replyTopic'', JString ''graft-replies''),
     (''requestTopic'', JString ''graft-requests'')]"

definition pubsub_no_topic_text :: string where
  \<open>pubsub_no_topic_text = lines
    [''{"projectId":"graftcode-local"}'']\<close>

definition pubsub_no_topic_text_doc :: json where
  "pubsub_no_topic_text_doc =
     JObject [(''projectId'', JString ''graftcode-local'')]"

definition pubsub_one_way_text :: string where
  \<open>pubsub_one_way_text = lines
    [''{'',
     ''        "projectId": "graftcode-local",'',
     ''        "requestTopic": "graft-requests",'',
     ''        "oneWay": true,'',
     ''        "autoCreate": false'',
     ''    }'']\<close>

definition pubsub_one_way_text_doc :: json where
  "pubsub_one_way_text_doc =
     JObject [(''autoCreate'', JBool False), (''oneWay'', JBool True),
     (''projectId'', JString ''graftcode-local''),
     (''requestTopic'', JString ''graft-requests'')]"

definition pubsub_documents :: "(string \<times> json) list" where
  "pubsub_documents =
    [(pubsub_kLocalConfig, pubsub_kLocalConfig_doc),
     (pubsub_nested_text, pubsub_nested_text_doc),
     (pubsub_alias_text, pubsub_alias_text_doc),
     (pubsub_foreign_first_text, pubsub_foreign_first_text_doc),
     (pubsub_foreign_text, pubsub_foreign_text_doc),
     (pubsub_file_text, pubsub_file_text_doc),
     (pubsub_short_ack_text, pubsub_short_ack_text_doc),
     (pubsub_long_ack_text, pubsub_long_ack_text_doc),
     (pubsub_no_messages_text, pubsub_no_messages_text_doc),
     (pubsub_text_one_way_text, pubsub_text_one_way_text_doc),
     (pubsub_bad_host_text, pubsub_bad_host_text_doc),
     (pubsub_no_host_text, pubsub_no_host_text_doc),
     (pubsub_no_topic_text, pubsub_no_topic_text_doc),
     (pubsub_one_way_text, pubsub_one_way_text_doc)]"

section \<open>Configurations\<close>

definition PubSubConfig_ParsesTopicsAndEmulatorSettings :: "cpp_env \<Rightarrow> bool" where
  "PubSubConfig_ParsesTopicsAndEmulatorSettings env =
     value_is (ParsePubSubConfigSource env pubsub_kLocalConfig) (\<lambda>config.
       ps_projectId config = ''graftcode-local'' \<and>
       ps_emulatorHost config = ''127.0.0.1:8085'' \<and>
       \<not> ps_emulatorUseHttps config \<and>
       ps_requestTopic config = ''graft-requests'' \<and>
       ps_requestSubscription config = ''graft-requests-sub'' \<and>
       ps_replyTopic config = ''graft-replies'' \<and>
       ps_replySubscription config = ''graft-replies-sub'' \<and>
       ps_rpcTimeoutMs config = 5000 \<and>
       ps_ackDeadlineSeconds config = 30 \<and>
       \<not> ps_autoCreate config \<and>
       ps_autoCreateSpecified config \<and>
       \<not> ps_verifySsl config \<and>
       EndpointBase config = ''http://127.0.0.1:8085'' \<and>
       no_throw (pubsub_ValidateClientConfig config) \<and>
       no_throw (pubsub_ValidateServerConfig config))"

definition PubSubConfig_FindsNestedPubSubNode :: "cpp_env \<Rightarrow> bool" where
  "PubSubConfig_FindsNestedPubSubNode env =
     value_is (ParsePubSubConfigSource env pubsub_nested_text) (\<lambda>config.
       ps_projectId config = ''demo-project'' \<and>
       ps_requestTopic config = ''graft-requests'' \<and>
       ps_emulatorUseHttps config \<and>
       ps_emulatorHost config = ''pubsub.example:443'' \<and>
       EndpointBase config = ''https://pubsub.example:443'')"

definition PubSubConfig_RequiresReplyTopicForRpc :: bool where
  "PubSubConfig_RequiresReplyTopicForRpc =
     (let config = default_pubsub_config\<lparr>ps_projectId := ''graftcode-local'',
            ps_requestTopic := ''graft-requests'', ps_requestSubscription := ''graft-requests-sub''\<rparr>;
          oneWay = config\<lparr>ps_oneWay := True\<rparr>
      in throws_runtime_error (pubsub_ValidateClientConfig config) \<and>
         no_throw (pubsub_ValidateClientConfig oneWay) \<and>
         no_throw (pubsub_ValidateServerConfig oneWay))"

definition PubSubConfig_AcceptsFlatQueueAlias :: "cpp_env \<Rightarrow> bool" where
  "PubSubConfig_AcceptsFlatQueueAlias env =
     value_is (ParsePubSubConfigSource env pubsub_alias_text) (\<lambda>config.
       ps_requestTopic config = ''graft-requests'' \<and>
       ps_replyTopic config = ''graft-replies'' \<and>
       ps_requestSubscription config = ''graft-requests-sub'')"

definition PubSubConfig_ReadsNestedAliasAheadOfForeignQueue :: "cpp_env \<Rightarrow> bool" where
  "PubSubConfig_ReadsNestedAliasAheadOfForeignQueue env =
     value_is (ParsePubSubConfigSource env pubsub_foreign_first_text) (\<lambda>config.
       ps_projectId config = ''graftcode-local'' \<and>
       ps_requestTopic config = ''graft-requests'' \<and>
       ps_replyTopic config = ''graft-replies'')"

definition PubSubConfig_RejectsForeignQueueConfig :: "cpp_env \<Rightarrow> bool" where
  "PubSubConfig_RejectsForeignQueueConfig env =
     throws_runtime_error (ParsePubSubConfigSource env pubsub_foreign_text)"

definition PubSubConfig_ReadsConfigurationFile :: "cpp_env \<Rightarrow> string \<Rightarrow> bool" where
  "PubSubConfig_ReadsConfigurationFile env path =
     value_is (ParsePubSubConfigSource (write_file path pubsub_file_text env) path) (\<lambda>config.
       ps_projectId config = ''from-file'' \<and>
       ps_requestSubscription config = ''custom-requests-sub'' \<and>
       ps_replySubscription config = ''graft-replies-sub'')"

definition PubSubConfig_RejectsInvalidValues :: "cpp_env \<Rightarrow> bool" where
  "PubSubConfig_RejectsInvalidValues env \<longleftrightarrow>
     throws_runtime_error (ParsePubSubConfigSource env pubsub_short_ack_text) \<and>
     throws_runtime_error (ParsePubSubConfigSource env pubsub_long_ack_text) \<and>
     throws_runtime_error (ParsePubSubConfigSource env pubsub_no_messages_text) \<and>
     throws_runtime_error (ParsePubSubConfigSource env pubsub_text_one_way_text) \<and>
     throws_runtime_error (ParsePubSubConfigSource env pubsub_bad_host_text) \<and>
     throws_runtime_error (ParsePubSubConfigSource env '''') \<and>
     throws_runtime_error (ParsePubSubConfigSource env ''not-json-or-a-file'') \<and>
     \<not> IsValidResourceId ''ab'' \<and>
     \<not> IsValidResourceId ''1graft-requests'' \<and>
     IsValidResourceId ''graft-requests''"

text \<open>\<^verbatim>\<open>EnvGuard\<close>: the environment with a variable set, and what the destructor restores.\<close>

definition SetEnv :: "string \<Rightarrow> string \<Rightarrow> cpp_env \<Rightarrow> cpp_env" where
  "SetEnv name value env = env\<lparr>getenv := (getenv env)(name \<mapsto> value)\<rparr>"

definition UnsetEnv :: "string \<Rightarrow> cpp_env \<Rightarrow> cpp_env" where
  "UnsetEnv name env = env\<lparr>getenv := (getenv env)(name := None)\<rparr>"

definition EnvGuard :: "string \<Rightarrow> string \<Rightarrow> cpp_env \<Rightarrow> string option \<times> cpp_env" where
  "EnvGuard name value env = (getenv env name, SetEnv name value env)"

definition end_EnvGuard :: "string \<Rightarrow> string option \<Rightarrow> cpp_env \<Rightarrow> cpp_env" where
  "end_EnvGuard name previous env =
     (case previous of Some value \<Rightarrow> SetEnv name value env | None \<Rightarrow> UnsetEnv name env)"

text \<open>The test leaves the environment as it found it: its result and the environment after it.\<close>

definition PubSubConfig_EmulatorEnvEnablesAutoCreate :: "cpp_env \<Rightarrow> bool \<times> cpp_env" where
  "PubSubConfig_EmulatorEnvEnablesAutoCreate env =
     (let (host, env1) = EnvGuard ''PUBSUB_EMULATOR_HOST'' ''127.0.0.1:8085'' env;
          (token, env2) = EnvGuard ''PUBSUB_ACCESS_TOKEN'' ''local-token'' env1
      in (value_is (ParsePubSubConfigSource env2 pubsub_no_host_text) (\<lambda>config.
            ps_emulatorHost config = [] \<and> \<not> ps_autoCreate config \<and>
            value_is (ApplyRuntimeEnvironment env2 config) (\<lambda>config.
              ps_emulatorHost config = ''127.0.0.1:8085'' \<and> ps_autoCreate config \<and>
              ps_accessToken config = ''local-token'')),
          end_EnvGuard ''PUBSUB_EMULATOR_HOST'' host
            (end_EnvGuard ''PUBSUB_ACCESS_TOKEN'' token env2)))"

section \<open>Payloads\<close>

definition PubSubPayload_PreservesArbitraryBinaryData :: bool where
  "PubSubPayload_PreservesArbitraryBinaryData =
     value_is (Base64Encode (Buf kPayload)) (\<lambda>encoded. Base64Decode encoded = Inr kPayload)"

text \<open>\<^verbatim>\<open>while (unpadded.back() == '=') unpadded.pop_back()\<close> is \<open>strip_back\<close>.\<close>

definition PubSubPayload_SupportsEmptyPayloadAndMissingPadding :: bool where
  "PubSubPayload_SupportsEmptyPayloadAndMissingPadding \<longleftrightarrow>
     Base64Encode (Null 0) = Inr [] \<and>
     Base64Decode '''' = Inr [] \<and>
     value_is (Base64Encode (Buf kPayload)) (\<lambda>encoded.
       Base64Decode (strip_back is_pad encoded) = Inr kPayload) \<and>
     throws_runtime_error (Base64Decode ''****'')"

definition PubSubPayload_RejectsGatewayErrorPrefix :: bool where
  "PubSubPayload_RejectsGatewayErrorPrefix \<longleftrightarrow>
     no_throw (RejectGatewayErrorPayload []) \<and>
     no_throw (RejectGatewayErrorPayload [0x01, 0x02]) \<and>
     runtime_error_text (RejectGatewayErrorPayload (255 # string_to_bytes ''boom'')) = Some ''boom''"

text \<open>A call as the test makes it: none of the worlds of the requests is used.\<close>

definition PubSubPayload_RejectsOversizedPayloadBeforeNetwork ::
  "cpp_env \<Rightarrow> (buf \<Rightarrow> pubsub_client \<Rightarrow> (bytes result \<times> pubsub_client) option) \<Rightarrow> bool" where
  "PubSubPayload_RejectsOversizedPayloadBeforeNetwork env call =
     value_is (rbind (ParsePubSubConfigSource env pubsub_kLocalConfig) (new_PubSubClient env)) (\<lambda>client.
       case call (Null (MaxPayloadBytes + 1)) client of
         None \<Rightarrow> False
       | Some (r, client) \<Rightarrow> throws_runtime_error r \<and>
           (case call (Null 4) client of None \<Rightarrow> False | Some (r, client) \<Rightarrow> throws_invalid_argument r))"

section \<open>The token of a service account\<close>

text \<open>
  \<^verbatim>\<open>GenerateRsaKey\<close> with what OpenSSL answers: whether the context can be prepared, the key
  of the generator, and its text.
\<close>

record 'k keygen =
  kg_context :: bool
  kg_key :: "'k option"
  kg_pem :: "'k \<Rightarrow> string option"

definition GenerateRsaKey :: "'k keygen \<Rightarrow> (string \<times> 'k) result" where
  "GenerateRsaKey g =
     (if \<not> kg_context g then Inl (RuntimeError ''failed to initialize RSA key generation'')
      else case kg_key g of
        None \<Rightarrow> Inl (RuntimeError ''failed to generate RSA key'')
      | Some key \<Rightarrow>
          (case kg_pem g key of
             None \<Rightarrow> Inl (RuntimeError ''failed to encode RSA key'')
           | Some pem \<Rightarrow> Inr (pem, key)))"

definition standard_char :: "char \<Rightarrow> char" where
  "standard_char c = (if c = CHR ''-'' then CHR ''+'' else if c = CHR ''_'' then CHR ''/'' else c)"

definition Base64UrlToStandard :: "string \<Rightarrow> string" where
  "Base64UrlToStandard value = map standard_char value @ replicate ((4 - length value mod 4) mod 4) (CHR ''='')"

text \<open>\<^verbatim>\<open>find('.', from)\<close>\<close>

definition find_dot :: "string \<Rightarrow> nat \<Rightarrow> nat option" where
  "find_dot s start =
     (let n = start + length (takeWhile (\<lambda>c. c \<noteq> CHR ''.'') (drop start s))
      in if n < length s then Some n else None)"

text \<open>
  The test: \<open>verify\<close> is \<^verbatim>\<open>EVP_DigestVerify*\<close> with the generated key.
\<close>

definition jwt_of ::
  "pubsub_world \<Rightarrow> 'k openssl \<Rightarrow> string \<Rightarrow> string \<Rightarrow> string \<Rightarrow> int \<Rightarrow> string result" where
  "jwt_of w o' = BuildServiceAccountJwt (w\<lparr>w_sign := \<lambda>input pem. fst (SignRs256 o' input pem)\<rparr>)"

definition jwt_verifies :: "('k \<Rightarrow> string \<Rightarrow> bytes \<Rightarrow> bool) \<Rightarrow> 'k \<Rightarrow> string \<Rightarrow> bool" where
  "jwt_verifies verify key jwt =
     (case find_dot jwt 0 of
        None \<Rightarrow> False
      | Some firstDot \<Rightarrow>
          (case find_dot jwt (firstDot + 1) of
             None \<Rightarrow> False
           | Some secondDot \<Rightarrow>
               value_is (Base64Decode (Base64UrlToStandard (take firstDot jwt))) (\<lambda>header.
               value_is (Base64Decode (Base64UrlToStandard
                 (take (secondDot - firstDot - 1) (drop (firstDot + 1) jwt)))) (\<lambda>payload.
               value_is (Base64Decode (Base64UrlToStandard (drop (secondDot + 1) jwt))) (\<lambda>signature.
                 contains_sub ''RS256'' (bytes_to_string header) \<and>
                 contains_sub ''caller@graftcode-local.iam.gserviceaccount.com'' (bytes_to_string payload) \<and>
                 contains_sub ''https://www.googleapis.com/auth/pubsub'' (bytes_to_string payload) \<and>
                 verify key (take secondDot jwt) signature)))))"

definition PubSubAuth_ServiceAccountJwtIsRs256 ::
  "pubsub_world \<Rightarrow> 'k openssl \<Rightarrow> 'k keygen \<Rightarrow> ('k \<Rightarrow> string \<Rightarrow> bytes \<Rightarrow> bool) \<Rightarrow> bool" where
  "PubSubAuth_ServiceAccountJwtIsRs256 w o' g verify =
     value_is (GenerateRsaKey g) (\<lambda>(pem, key).
       value_is (jwt_of w o' ''caller@graftcode-local.iam.gserviceaccount.com'' pem
         ''https://oauth2.googleapis.com/token'' 1700000000) (jwt_verifies verify key) \<and>
       throws_runtime_error (jwt_of w o' ''caller@example.com'' ''not-a-key'' '''' 1))"

section \<open>Transport and server\<close>

definition PubSubTransport_FactoryCreatesAndDestroysTransport ::
  "(nat \<Rightarrow> bool) \<Rightarrow> cpp_env \<Rightarrow> (pubsub_client \<Rightarrow> buf \<Rightarrow> bytes result \<times> pubsub_client) \<Rightarrow> bool" where
  "PubSubTransport_FactoryCreatesAndDestroysTransport malloc env call =
     factory_test (pubsub_library malloc env call) None pubsub_kLocalConfig
       ''Pub/Sub transport: invalid request payload'' [-1, 4]"

definition PubSubServer_FactoryConfigureAndStop :: "cpp_env \<Rightarrow> bool" where
  "PubSubServer_FactoryConfigureAndStop env =
     (let server = CreateServer new_PubSubServer;
          first = ps_configure env pubsub_kLocalConfig False (ob_server server);
          second = ps_configure env pubsub_no_topic_text True (snd first);
          third = ps_configure env pubsub_kLocalConfig True (snd second);
          stopped = ps_stop_signal (snd third);
          ended = DestroyServer ps_stop_signal (server\<lparr>ob_server := stopped\<rparr>)
      in throws_runtime_error (fst first) \<and> throws_runtime_error (fst second) \<and>
         no_throw (fst third) \<and> \<not> pv_running stopped \<and> \<not> pv_running (ob_server ended) \<and>
         \<not> ob_misused (ob_release ended))"

definition PubSubServer_OneWayServerDoesNotRequireReplyTopic :: "cpp_env \<Rightarrow> bool" where
  "PubSubServer_OneWayServerDoesNotRequireReplyTopic env =
     (value_is (ParsePubSubConfigSource env pubsub_one_way_text) (\<lambda>parsed.
        no_throw (pubsub_ValidateServerConfig parsed) \<and> no_throw (pubsub_ValidateClientConfig parsed)) \<and>
      (case ps_configure env pubsub_one_way_text True new_PubSubServer of
         (r, server) \<Rightarrow> no_throw r \<and> \<not> pv_running (ps_stop_signal server)))"

section \<open>The suite\<close>

definition pubsub_suite ::
  "cpp_env \<Rightarrow> (nat \<Rightarrow> bool) \<Rightarrow> string \<Rightarrow> (pubsub_client \<Rightarrow> buf \<Rightarrow> bytes result \<times> pubsub_client) \<Rightarrow>
     (buf \<Rightarrow> pubsub_client \<Rightarrow> (bytes result \<times> pubsub_client) option) \<Rightarrow> pubsub_world \<Rightarrow> 'k openssl \<Rightarrow>
     'k keygen \<Rightarrow> ('k \<Rightarrow> string \<Rightarrow> bytes \<Rightarrow> bool) \<Rightarrow> suite" where
  "pubsub_suite env malloc path call Call w o' g verify =
    [(''ParsesTopicsAndEmulatorSettings'', PubSubConfig_ParsesTopicsAndEmulatorSettings env),
     (''FindsNestedPubSubNode'', PubSubConfig_FindsNestedPubSubNode env),
     (''RequiresReplyTopicForRpc'', PubSubConfig_RequiresReplyTopicForRpc),
     (''AcceptsFlatQueueAlias'', PubSubConfig_AcceptsFlatQueueAlias env),
     (''ReadsNestedAliasAheadOfForeignQueue'', PubSubConfig_ReadsNestedAliasAheadOfForeignQueue env),
     (''RejectsForeignQueueConfig'', PubSubConfig_RejectsForeignQueueConfig env),
     (''ReadsConfigurationFile'', PubSubConfig_ReadsConfigurationFile env path),
     (''RejectsInvalidValues'', PubSubConfig_RejectsInvalidValues env),
     (''EmulatorEnvEnablesAutoCreate'', fst (PubSubConfig_EmulatorEnvEnablesAutoCreate env)),
     (''PreservesArbitraryBinaryData'', PubSubPayload_PreservesArbitraryBinaryData),
     (''SupportsEmptyPayloadAndMissingPadding'', PubSubPayload_SupportsEmptyPayloadAndMissingPadding),
     (''RejectsGatewayErrorPrefix'', PubSubPayload_RejectsGatewayErrorPrefix),
     (''RejectsOversizedPayloadBeforeNetwork'',
        PubSubPayload_RejectsOversizedPayloadBeforeNetwork env Call),
     (''ServiceAccountJwtIsRs256'', PubSubAuth_ServiceAccountJwtIsRs256 w o' g verify),
     (''FactoryCreatesAndDestroysTransport'',
        PubSubTransport_FactoryCreatesAndDestroysTransport malloc env call),
     (''FactoryConfigureAndStop'', PubSubServer_FactoryConfigureAndStop env),
     (''OneWayServerDoesNotRequireReplyTopic'', PubSubServer_OneWayServerDoesNotRequireReplyTopic env)]"

section \<open>The tests pass\<close>

lemmas pubsub_docs = pubsub_kLocalConfig_doc_def pubsub_nested_text_doc_def pubsub_alias_text_doc_def
  pubsub_foreign_first_text_doc_def pubsub_foreign_text_doc_def pubsub_file_text_doc_def
  pubsub_short_ack_text_doc_def pubsub_long_ack_text_doc_def pubsub_no_messages_text_doc_def
  pubsub_text_one_way_text_doc_def pubsub_bad_host_text_doc_def pubsub_no_host_text_doc_def
  pubsub_no_topic_text_doc_def pubsub_one_way_text_doc_def

lemmas pubsub_parsing = ParsePubSubConfigSource_def pubsub_select_def HasSpecificPubSubKeys_def
  IsFlatPubSubAlias_def NameLooksLikePubSub_def jcontains_def jstring_at_def read_pubsub_config_def
  read_pubsub_strings_def Let_def ReadString_def ReadPositiveUint_def ReadBool_def ReadBoolSpecified_def
  default_pubsub_config_def check_pubsub_config_def NormalizeEmulatorHost_def Trim_def strip_back_def
  strip_front_def is_space_def code_in_def starts_with_def is_slash_char_def DefaultSubscription_def
  bad_emulator_host_def pubsub_docs

lemmas pubsub_validation = pubsub_ValidateClientConfig_def pubsub_ValidateServerConfig_def
  ValidateCommon_def ValidateResource_def IsValidProjectId_def IsValidResourceId_def char_class_defs Let_def

lemma pubsub_texts_not_Nil: "list_all (\<lambda>(text, value). text \<noteq> []) pubsub_documents"
  by (simp add: pubsub_documents_def pubsub_kLocalConfig_def pubsub_nested_text_def pubsub_alias_text_def
      pubsub_foreign_first_text_def pubsub_foreign_text_def pubsub_file_text_def
      pubsub_short_ack_text_def pubsub_long_ack_text_def pubsub_no_messages_text_def
      pubsub_text_one_way_text_def pubsub_bad_host_text_def pubsub_no_host_text_def
      pubsub_no_topic_text_def pubsub_one_way_text_def)

lemma pubsub_source:
  assumes "reads env pubsub_documents" "(text, value) \<in> set pubsub_documents"
  shows "ParseJsonSource plugin env text = Inr value"
  using assms pubsub_texts_not_Nil
  by (intro ParseJsonSource_reads) (auto simp: reads_def list_all_iff)

lemma pubsub_sources:
  assumes "reads env pubsub_documents"
  shows "ParseJsonSource plugin env pubsub_kLocalConfig = Inr pubsub_kLocalConfig_doc"
    "ParseJsonSource plugin env pubsub_nested_text = Inr pubsub_nested_text_doc"
    "ParseJsonSource plugin env pubsub_alias_text = Inr pubsub_alias_text_doc"
    "ParseJsonSource plugin env pubsub_foreign_first_text = Inr pubsub_foreign_first_text_doc"
    "ParseJsonSource plugin env pubsub_foreign_text = Inr pubsub_foreign_text_doc"
    "ParseJsonSource plugin env pubsub_short_ack_text = Inr pubsub_short_ack_text_doc"
    "ParseJsonSource plugin env pubsub_long_ack_text = Inr pubsub_long_ack_text_doc"
    "ParseJsonSource plugin env pubsub_no_messages_text = Inr pubsub_no_messages_text_doc"
    "ParseJsonSource plugin env pubsub_text_one_way_text = Inr pubsub_text_one_way_text_doc"
    "ParseJsonSource plugin env pubsub_bad_host_text = Inr pubsub_bad_host_text_doc"
    "ParseJsonSource plugin env pubsub_no_host_text = Inr pubsub_no_host_text_doc"
    "ParseJsonSource plugin env pubsub_no_topic_text = Inr pubsub_no_topic_text_doc"
    "ParseJsonSource plugin env pubsub_one_way_text = Inr pubsub_one_way_text_doc"
  by (rule pubsub_source [OF assms], simp add: pubsub_documents_def)+

lemma pubsub_local_config:
  assumes "reads env pubsub_documents"
  shows "ParsePubSubConfigSource env pubsub_kLocalConfig =
    Inr (default_pubsub_config\<lparr>ps_name := ''PubSubPlugin'', ps_projectId := ''graftcode-local'',
      ps_emulatorHost := ''127.0.0.1:8085'', ps_requestTopic := ''graft-requests'',
      ps_requestSubscription := ''graft-requests-sub'', ps_replyTopic := ''graft-replies'',
      ps_replySubscription := ''graft-replies-sub'', ps_rpcTimeoutMs := 5000,
      ps_ackDeadlineSeconds := 30, ps_autoCreate := False, ps_autoCreateSpecified := True,
      ps_verifySsl := False\<rparr>)"
  by (simp add: pubsub_sources [OF assms] pubsub_parsing)

lemma pubsub_config_tests:
  assumes "reads env pubsub_documents"
  shows "PubSubConfig_ParsesTopicsAndEmulatorSettings env" "PubSubConfig_FindsNestedPubSubNode env"
    "PubSubConfig_AcceptsFlatQueueAlias env" "PubSubConfig_ReadsNestedAliasAheadOfForeignQueue env"
    "PubSubConfig_RejectsForeignQueueConfig env"
  subgoal by (simp add: PubSubConfig_ParsesTopicsAndEmulatorSettings_def pubsub_local_config [OF assms]
      EndpointBase_def default_pubsub_config_def pubsub_validation)
  subgoal by (simp add: PubSubConfig_FindsNestedPubSubNode_def pubsub_sources [OF assms] pubsub_parsing
      EndpointBase_def)
  subgoal by (simp add: PubSubConfig_AcceptsFlatQueueAlias_def pubsub_sources [OF assms] pubsub_parsing)
  subgoal by (simp add: PubSubConfig_ReadsNestedAliasAheadOfForeignQueue_def pubsub_sources [OF assms] pubsub_parsing)
  subgoal by (simp add: PubSubConfig_RejectsForeignQueueConfig_def pubsub_sources [OF assms] pubsub_parsing)
  done

lemma pubsub_unreadable:
  "throws_runtime_error (ParsePubSubConfigSource env [])"
  "json_parse env text = Inl e \<Longrightarrow> read_file env text = None \<Longrightarrow>
     throws_runtime_error (ParsePubSubConfigSource env text)"
  by (simp_all add: ParsePubSubConfigSource_def ParseJsonSource_def)

lemma pubsub_invalid_values:
  assumes "reads env pubsub_documents" "json_parse env ''not-json-or-a-file'' = Inl e"
    "read_file env ''not-json-or-a-file'' = None"
  shows "PubSubConfig_RejectsInvalidValues env"
proof -
  have "throws_runtime_error (ParsePubSubConfigSource env pubsub_short_ack_text)"
    "throws_runtime_error (ParsePubSubConfigSource env pubsub_long_ack_text)"
    "throws_runtime_error (ParsePubSubConfigSource env pubsub_no_messages_text)"
    "throws_runtime_error (ParsePubSubConfigSource env pubsub_text_one_way_text)"
    "throws_runtime_error (ParsePubSubConfigSource env pubsub_bad_host_text)"
    by (simp_all add: pubsub_sources [OF assms(1)] pubsub_parsing)
  moreover have "\<not> IsValidResourceId ''ab''" "\<not> IsValidResourceId ''1graft-requests''"
    "IsValidResourceId ''graft-requests''"
    by (simp_all add: IsValidResourceId_def char_class_defs)
  ultimately show ?thesis
    using pubsub_unreadable(1) pubsub_unreadable(2) [OF assms(2,3)]
    by (simp only: PubSubConfig_RejectsInvalidValues_def not_False_eq_True simp_thms)
qed

lemma pubsub_configuration_file:
  assumes "reads env pubsub_documents" "json_parse env path = Inl e" "path \<noteq> []"
  shows "PubSubConfig_ReadsConfigurationFile env path"
proof -
  have "json_parse env pubsub_file_text = Inr pubsub_file_text_doc"
    using assms(1) by (simp add: pubsub_documents_def)
  then have "ParseJsonSource ''Pub/Sub plugin'' (write_file path pubsub_file_text env) path = Inr pubsub_file_text_doc"
    using assms(2,3) by (simp add: ParseJsonSource_def write_file_def)
  then show ?thesis by (simp add: PubSubConfig_ReadsConfigurationFile_def pubsub_parsing)
qed

lemma pubsub_emulator_environment:
  assumes "reads env pubsub_documents"
  shows "fst (PubSubConfig_EmulatorEnvEnablesAutoCreate env)"
    "snd (PubSubConfig_EmulatorEnvEnablesAutoCreate env) = env"
proof -
  let ?env = "SetEnv ''PUBSUB_ACCESS_TOKEN'' ''local-token''
    (SetEnv ''PUBSUB_EMULATOR_HOST'' ''127.0.0.1:8085'' env)"
  have "reads ?env pubsub_documents" using assms by (simp add: reads_def SetEnv_def)
  moreover have "getenv ?env ''PUBSUB_EMULATOR_HOST'' = Some ''127.0.0.1:8085''"
    "getenv ?env ''PUBSUB_ACCESS_TOKEN'' = Some ''local-token''"
    by (simp_all add: SetEnv_def)
  ultimately show "fst (PubSubConfig_EmulatorEnvEnablesAutoCreate env)"
    by (simp add: PubSubConfig_EmulatorEnvEnablesAutoCreate_def EnvGuard_def pubsub_sources pubsub_parsing
        ApplyRuntimeEnvironment_def split: option.split)
  show "snd (PubSubConfig_EmulatorEnvEnablesAutoCreate env) = env"
    by (cases env) (auto simp: PubSubConfig_EmulatorEnvEnablesAutoCreate_def EnvGuard_def end_EnvGuard_def
        SetEnv_def UnsetEnv_def fun_eq_iff split: option.split)
qed

lemma pubsub_pure_tests:
  "PubSubConfig_RequiresReplyTopicForRpc" "PubSubPayload_PreservesArbitraryBinaryData"
  "PubSubPayload_SupportsEmptyPayloadAndMissingPadding" "PubSubPayload_RejectsGatewayErrorPrefix"
  subgoal by (simp add: PubSubConfig_RequiresReplyTopicForRpc_def default_pubsub_config_def pubsub_validation)
  subgoal by code_simp
  subgoal by code_simp
  subgoal by (simp add: PubSubPayload_RejectsGatewayErrorPrefix_def RejectGatewayErrorPayload_def c_str_Cons)
  done

text \<open>Where the host is not taken from the environment, only three fields can come from it.\<close>

definition runtime_fields :: "string \<Rightarrow> string \<Rightarrow> bool \<Rightarrow> pubsub_config \<Rightarrow> pubsub_config" where
  "runtime_fields token path auto c =
     c\<lparr>ps_accessToken := token, ps_credentialsFile := path, ps_autoCreate := auto\<rparr>"

lemma runtime_fields_validate [simp]:
  "pubsub_ValidateClientConfig (runtime_fields t f a c) = pubsub_ValidateClientConfig c"
  "pubsub_ValidateServerConfig (runtime_fields t f a c) = pubsub_ValidateServerConfig c"
  by (simp_all add: runtime_fields_def pubsub_ValidateClientConfig_def pubsub_ValidateServerConfig_def
      ValidateCommon_def)

lemma ApplyRuntimeEnvironment_fields:
  assumes "ps_emulatorHost c \<noteq> [] \<or> getenv env ''PUBSUB_EMULATOR_HOST'' = None"
  shows "\<exists>token path auto. ApplyRuntimeEnvironment env c = Inr (runtime_fields token path auto c)"
proof -
  have one: "(if ps_emulatorHost c = []
      then case getenv env ''PUBSUB_EMULATOR_HOST'' of
             Some host \<Rightarrow> NormalizeEmulatorHost (c\<lparr>ps_emulatorHost := host\<rparr>)
           | None \<Rightarrow> Inr c
      else Inr c) = Inr c"
    using assms by auto
  have token: "\<exists>token. (if ps_accessToken c = []
      then case getenv env ''PUBSUB_ACCESS_TOKEN'' of
             Some token \<Rightarrow> c\<lparr>ps_accessToken := token\<rparr> | None \<Rightarrow> c
      else c) = c\<lparr>ps_accessToken := token\<rparr>"
    by (cases "getenv env ''PUBSUB_ACCESS_TOKEN''") (auto intro: exI [of _ "ps_accessToken c"])
  have path: "\<exists>path. (if ps_credentialsFile c = []
      then case getenv env ''GOOGLE_APPLICATION_CREDENTIALS'' of
             Some path \<Rightarrow> c\<lparr>ps_credentialsFile := path\<rparr> | None \<Rightarrow> c
      else c) = c\<lparr>ps_credentialsFile := path\<rparr>" for c :: pubsub_config
    by (cases "getenv env ''GOOGLE_APPLICATION_CREDENTIALS''")
      (auto intro: exI [of _ "ps_credentialsFile c"])
  obtain t where t: "(if ps_accessToken c = []
      then case getenv env ''PUBSUB_ACCESS_TOKEN'' of
             Some token \<Rightarrow> c\<lparr>ps_accessToken := token\<rparr> | None \<Rightarrow> c
      else c) = c\<lparr>ps_accessToken := t\<rparr>" using token ..
  obtain f where f: "(if ps_credentialsFile (c\<lparr>ps_accessToken := t\<rparr>) = []
      then case getenv env ''GOOGLE_APPLICATION_CREDENTIALS'' of
             Some path \<Rightarrow> c\<lparr>ps_accessToken := t\<rparr>\<lparr>ps_credentialsFile := path\<rparr>
           | None \<Rightarrow> c\<lparr>ps_accessToken := t\<rparr>
      else c\<lparr>ps_accessToken := t\<rparr>) = c\<lparr>ps_accessToken := t\<rparr>\<lparr>ps_credentialsFile := f\<rparr>"
    using path ..
  show ?thesis
    unfolding ApplyRuntimeEnvironment_def one Let_def rbind_simps t f
    by (intro exI [of _ t] exI [of _ f])
      (auto simp: runtime_fields_def intro: exI [of _ "ps_autoCreate c"])
qed

lemma pubsub_local_client:
  assumes "reads env pubsub_documents"
  shows "\<exists>c. rbind (ParsePubSubConfigSource env pubsub_kLocalConfig) (new_PubSubClient env) = Inr c"
proof -
  obtain c where c: "ParsePubSubConfigSource env pubsub_kLocalConfig = Inr c" "ps_emulatorHost c \<noteq> []"
    "pubsub_ValidateClientConfig c = Inr ()"
    by (simp add: pubsub_local_config [OF assms] default_pubsub_config_def pubsub_validation)
  then show ?thesis
    using ApplyRuntimeEnvironment_fields [of c env] by (auto simp: new_PubSubClient_def)
qed

text \<open>The configuration of a server: parsed, completed from the environment and checked.\<close>

lemma ps_configure_of:
  assumes "ParsePubSubConfigSource env text = Inr c"
    and "ps_emulatorHost c \<noteq> [] \<or> getenv env ''PUBSUB_EMULATOR_HOST'' = None" and "\<not> pv_running s"
  shows "throws_runtime_error (pubsub_ValidateServerConfig c) \<Longrightarrow>
      throws_runtime_error (fst (ps_configure env text True s)) \<and> snd (ps_configure env text True s) = s"
    and "pubsub_ValidateServerConfig c = Inr () \<Longrightarrow>
      fst (ps_configure env text True s) = Inr () \<and> \<not> pv_running (snd (ps_configure env text True s))"
  using ApplyRuntimeEnvironment_fields [OF assms(2)] assms(1,3)
  by (cases "pubsub_ValidateServerConfig c"; auto simp: ps_configure_def)+

lemma pubsub_oversized:
  assumes "reads env pubsub_documents"
  shows "PubSubPayload_RejectsOversizedPayloadBeforeNetwork env
    (PubSubCall handles w1 w2 w3 cid during attempts)"
  using pubsub_local_client [OF assms]
  by (auto simp: PubSubPayload_RejectsOversizedPayloadBeforeNetwork_def PubSubCall_def MaxPayloadBytes_def)

lemma pubsub_object_tests:
  assumes "reads env pubsub_documents" "\<And>n. malloc n" "getenv env ''PUBSUB_EMULATOR_HOST'' = None"
  shows "PubSubTransport_FactoryCreatesAndDestroysTransport malloc env call"
    "PubSubServer_FactoryConfigureAndStop env" "PubSubServer_OneWayServerDoesNotRequireReplyTopic env"
proof -
  obtain c where "new_TransportPubSub env (Some pubsub_kLocalConfig) = Inr c"
    using pubsub_local_client [OF assms(1)] by (auto simp: new_TransportPubSub_def c_string_or_empty_def)
  then have "factory_test (pubsub_library malloc env call) None pubsub_kLocalConfig
      (what (InvalidArgument ''Pub/Sub transport: invalid request payload'')) [-1, 4]"
    by (intro factory_test_passes [where c = c and malloc = malloc and command = "pubsub_command call"])
      (auto simp: c_str_Cons pubsub_library_def pubsub_command_def transport_command_def length_guard_def assms(2))
  then show "PubSubTransport_FactoryCreatesAndDestroysTransport malloc env call"
    by (simp add: PubSubTransport_FactoryCreatesAndDestroysTransport_def c_str_Cons)
  obtain c1 where c1: "ParsePubSubConfigSource env pubsub_kLocalConfig = Inr c1" "ps_emulatorHost c1 \<noteq> []"
    "pubsub_ValidateServerConfig c1 = Inr ()"
    by (simp add: pubsub_local_config [OF assms(1)] default_pubsub_config_def pubsub_validation)
  obtain c2 where c2: "ParsePubSubConfigSource env pubsub_no_topic_text = Inr c2"
    "throws_runtime_error (pubsub_ValidateServerConfig c2)"
    by (simp add: pubsub_sources [OF assms(1)] pubsub_parsing pubsub_validation)
  obtain c3 where c3: "ParsePubSubConfigSource env pubsub_one_way_text = Inr c3"
    "pubsub_ValidateServerConfig c3 = Inr ()" "pubsub_ValidateClientConfig c3 = Inr ()"
    by (simp add: pubsub_sources [OF assms(1)] pubsub_parsing pubsub_validation)
  have idle: "\<not> pv_running new_PubSubServer" by (simp add: new_PubSubServer_def)
  note conf = ps_configure_of(2) [OF c1(1) _ idle c1(3)] ps_configure_of(1) [OF c2(1) _ idle c2(2)]
    ps_configure_of(2) [OF c3(1) _ idle c3(2)]
  have "fst (ps_configure env pubsub_kLocalConfig False new_PubSubServer) =
      Inl (RuntimeError ''Pub/Sub server: processMessage callback is required'')"
    "snd (ps_configure env pubsub_kLocalConfig False new_PubSubServer) = new_PubSubServer"
    by (simp_all add: ps_configure_def)
  then show "PubSubServer_FactoryConfigureAndStop env"
    using conf c1(2) assms(3)
    by (simp add: PubSubServer_FactoryConfigureAndStop_def Let_def CreateServer_def ps_stop_signal_def
        DestroyServer_def ob_release_def)
  show "PubSubServer_OneWayServerDoesNotRequireReplyTopic env"
    using conf(3) assms(3) c3
    by (cases "ps_configure env pubsub_one_way_text True new_PubSubServer")
      (simp add: PubSubServer_OneWayServerDoesNotRequireReplyTopic_def ps_stop_signal_def)
qed

text \<open>The token: where its dots are, and what its parts decode to.\<close>

lemma find_dot_first:
  assumes "CHR ''.'' \<notin> set a"
  shows "find_dot (a @ CHR ''.'' # b) 0 = Some (length a)"
proof -
  have "takeWhile (\<lambda>c. c \<noteq> CHR ''.'') (a @ CHR ''.'' # b) = a"
    using assms by (induction a) auto
  then show ?thesis by (simp add: find_dot_def Let_def)
qed

lemma find_dot_next:
  assumes "CHR ''.'' \<notin> set b"
  shows "find_dot (a @ CHR ''.'' # b @ CHR ''.'' # c) (Suc (length a)) = Some (Suc (length a + length b))"
proof -
  have "takeWhile (\<lambda>c. c \<noteq> CHR ''.'') (b @ CHR ''.'' # c) = b"
    using assms by (induction b) auto
  then show ?thesis by (simp add: find_dot_def Let_def)
qed

lemma Base64Decode_standard: "Base64Decode (Base64UrlToStandard (Base64Url s)) = Inr (string_to_bytes s)"
proof -
  have url: "standard_char (url_char c) = c" if "b64_char c" for c
    using that by (auto simp: standard_char_def url_char_def b64_char_def char_class_defs)
  have "map (\<lambda>c. standard_char (url_char c)) (b64_raw (string_to_bytes s)) = b64_raw (string_to_bytes s)"
    using b64_raw_chars [of "string_to_bytes s"] url by (simp add: map_idI)
  then show ?thesis
    using Base64Decode_raw [of "\<lambda>c. c" "string_to_bytes s"] Base64Value_table_at b64_char_not_pad
      b64_char_range
    by (simp add: Base64UrlToStandard_def Base64Url_raw o_def)
qed

text \<open>Strings that the library writes as they are.\<close>

definition plain_text :: "string \<Rightarrow> bool" where
  "plain_text s \<longleftrightarrow> list_all (\<lambda>c. is_alnum c \<or> c \<in> set ''@.-:/'') s"

lemma pubsub_token_test:
  assumes key: "GenerateRsaKey g = Inr (pem, key)" "pem \<noteq> []"
    and parsed: "ossl_mem_buf o' pem (word_of_nat (length pem))"
      "ossl_read_key o' pem (word_of_nat (length pem)) = Some key"
    and usable: "ossl_new_context o'" "ossl_sign_init o' key" "\<And>input. ossl_sign_update o' key input"
    and signs: "\<And>input. \<exists>size raw. ossl_sign_size o' key input = Some size \<and>
        ossl_sign_final o' key input size = Some raw \<and> verify key input (string_to_bytes raw)"
    and bad: "\<And>n. ossl_read_key o' ''not-a-key'' n = None"
    and dump: "\<And>kvs k s. (k, JString s) \<in> set kvs \<Longrightarrow> plain_text s \<Longrightarrow> contains_sub s (w_dump w (JObject kvs))"
  shows "PubSubAuth_ServiceAccountJwtIsRs256 w o' g verify"
proof -
  let ?email = "''caller@graftcode-local.iam.gserviceaccount.com''"
  define claims where "claims =
    [(''aud'', JString ''https://oauth2.googleapis.com/token''), (''exp'', jint (1700000000 + 3600)),
     (''iat'', jint 1700000000), (''iss'', JString ?email), (''scope'', JString kPubSubScope)]"
  define plain_header where "plain_header = ''{'' @ CHR 0x22 # ''alg'' @ CHR 0x22 # '':'' @ CHR 0x22 # ''RS256'' @
    CHR 0x22 # '','' @ CHR 0x22 # ''typ'' @ CHR 0x22 # '':'' @ CHR 0x22 # ''JWT'' @ CHR 0x22 # ''}''"
  define header payload where "header = Base64Url plain_header"
    and "payload = Base64Url (w_dump w (JObject claims))"
  obtain raw where raw: "fst (SignRs256 o' (header @ ''.'' @ payload) pem) = Inr raw"
    "verify key (header @ ''.'' @ payload) (string_to_bytes raw)"
  proof -
    obtain size raw where "ossl_sign_size o' key (header @ ''.'' @ payload) = Some size"
      "ossl_sign_final o' key (header @ ''.'' @ payload) size = Some raw"
      "verify key (header @ ''.'' @ payload) (string_to_bytes raw)"
      using signs by blast
    moreover from this have "fst (SignRs256 o' (header @ ''.'' @ payload) pem) = Inr raw"
      unfolding SignRs256_Inr_iff using parsed usable by blast
    ultimately show ?thesis using that by blast
  qed
  have token: "jwt_of w o' ?email pem ''https://oauth2.googleapis.com/token'' 1700000000 =
      Inr (header @ CHR ''.'' # payload @ CHR ''.'' # Base64Url raw)"
    using key(2) raw(1)
    by (simp add: jwt_of_def BuildServiceAccountJwt_def Let_def header_def payload_def plain_header_def claims_def)
  have dots: "CHR ''.'' \<notin> set header" "CHR ''.'' \<notin> set payload"
    unfolding header_def payload_def by (rule Base64Url_no_dot)+
  have plain: "plain_text ?email" "plain_text ''https://www.googleapis.com/auth/pubsub''"
    by (simp_all add: plain_text_def char_class_defs)
  have "(''iss'', JString ?email) \<in> set claims"
    "(''scope'', JString ''https://www.googleapis.com/auth/pubsub'') \<in> set claims"
    by (simp_all add: claims_def kPubSubScope_def)
  note written = dump [OF this(1) plain(1)] dump [OF this(2) plain(2)]
  have algorithm: "contains_sub ''RS256'' plain_header"
    by (simp add: plain_header_def starts_with_def)
  have "jwt_verifies verify key (header @ CHR ''.'' # payload @ CHR ''.'' # Base64Url raw)"
    using find_dot_first [OF dots(1), of "payload @ CHR ''.'' # Base64Url raw"]
      find_dot_next [OF dots(2), of header "Base64Url raw"] raw(2) written algorithm
    by (simp add: jwt_verifies_def) (simp add: header_def payload_def Base64Decode_standard)
  moreover have "throws_runtime_error (jwt_of w o' ''caller@example.com'' ''not-a-key'' [] 1)"
    using bad by (auto simp: jwt_of_def BuildServiceAccountJwt_def Let_def SignRs256_def scoped_def)
  ultimately show ?thesis
    by (simp add: PubSubAuth_ServiceAccountJwtIsRs256_def key(1) token)
qed

section \<open>Property\<close>

text \<open>
  C40. The model passes the tests of the Pub/Sub plugin: with any parser that reads the documents of the
  tests as what they spell, a writer of JSON that keeps plain texts, an allocator that does not fail,
  no emulator in the environment and an OpenSSL that reads the generated key from its text, signs with
  it what the key verifies, and refuses a text that is no key, every test that needs no service passes, and the test that sets environment
  variables leaves the environment as it was.
\<close>
theorem pubsub_suite_passes:
  assumes "reads env pubsub_documents"
    and "json_parse env path = Inl e" "path \<noteq> []"
    and "json_parse env ''not-json-or-a-file'' = Inl e'" "read_file env ''not-json-or-a-file'' = None"
    and "getenv env ''PUBSUB_EMULATOR_HOST'' = None" and "\<And>n. malloc n"
    and "GenerateRsaKey g = Inr (pem, key)" "pem \<noteq> []"
    and "ossl_mem_buf o' pem (word_of_nat (length pem))"
      "ossl_read_key o' pem (word_of_nat (length pem)) = Some key"
      "ossl_new_context o'" "ossl_sign_init o' key" "\<And>input. ossl_sign_update o' key input"
      "\<And>input. \<exists>size raw. ossl_sign_size o' key input = Some size \<and>
        ossl_sign_final o' key input size = Some raw \<and> verify key input (string_to_bytes raw)"
    and "\<And>n. ossl_read_key o' ''not-a-key'' n = None"
    and "\<And>kvs k s. (k, JString s) \<in> set kvs \<Longrightarrow> plain_text s \<Longrightarrow> contains_sub s (w_dump w (JObject kvs))"
  shows "suite_passes (pubsub_suite env malloc path call
      (PubSubCall handles w1 w2 w3 cid during attempts) w o' g verify) \<and>
    snd (PubSubConfig_EmulatorEnvEnablesAutoCreate env) = env"
  using pubsub_config_tests [OF assms(1)] pubsub_configuration_file [OF assms(1,2,3)]
    pubsub_invalid_values [OF assms(1,4,5)] pubsub_emulator_environment [OF assms(1)] pubsub_pure_tests
    pubsub_oversized [OF assms(1)] pubsub_token_test [of g pem key o' verify w, OF assms(8-17)]
    pubsub_object_tests [OF assms(1,7,6)]
  by (simp only: pubsub_suite_def suite_passes_simps simp_thms)

text \<open>A writer that writes the members one after the other, and a key that signs with a fixed text.\<close>

definition simple_dump :: "json \<Rightarrow> string" where
  "simple_dump j = (case j of JObject kvs \<Rightarrow>
     concat (map (\<lambda>(k, v). case v of JString s \<Rightarrow> s | _ \<Rightarrow> []) kvs) | _ \<Rightarrow> [])"

definition simple_openssl :: "unit openssl" where
  "simple_openssl = example_openssl\<lparr>ossl_read_key := \<lambda>pem n. if pem = ''not-a-key'' then None else Some ()\<rparr>"

lemma contains_sub_append: "contains_sub s (a @ s @ b)"
  by (induction a) (cases s; cases b; auto simp: starts_with_def)+

lemma pubsub_suite_passes_witness:
  "suite_passes (pubsub_suite (doc_env pubsub_documents) (\<lambda>_. True) ''/tmp/graftcode-pubsub-config.json''
     (\<lambda>c d. (Inr [], c)) (PubSubCall (True, True, True) signing_world signing_world signing_world ''id'' [] [])
     (signing_world\<lparr>w_dump := simple_dump\<rparr>) simple_openssl
     \<lparr>kg_context = True, kg_key = Some (), kg_pem = \<lambda>_. Some ''pem''\<rparr>
     (\<lambda>_ _ signature. signature = string_to_bytes ''sig''))"
proof -
  have distinct: "distinct (map fst pubsub_documents)" by code_simp
  have "''not-json-or-a-file'' \<notin> fst ` set pubsub_documents"
    "''/tmp/graftcode-pubsub-config.json'' \<notin> fst ` set pubsub_documents"
    by code_simp+
  note env = reads_doc_env [OF distinct] doc_env_other [OF this(1)] doc_env_other [OF this(2)]
  have "contains_sub s (simple_dump (JObject kvs))" if "(k, JString s) \<in> set kvs" for k s kvs
  proof -
    from that obtain xs ys where "kvs = xs @ (k, JString s) # ys" by (auto dest: split_list)
    then show ?thesis by (simp add: simple_dump_def contains_sub_append)
  qed
  then show ?thesis
    using env
    by (intro conjunct1 [OF pubsub_suite_passes [where pem = "''pem''" and key = "()"]])
      (auto simp: GenerateRsaKey_def simple_openssl_def example_openssl_def doc_env_def)
qed

end
