(* ===== verification/SmokeTests.thy ===== *)
theory SmokeTests
  imports SqsTests PubSubTests
begin

text \<open>
  The smoke programs of the Kafka, SQS and Pub/Sub plugins (\<^verbatim>\<open>smoke.cpp\<close>): a server that
  is configured and destroyed without a start, and a channel that is created and destroyed.  A
  program gives the line it prints last and its exit code, or nothing when it does not end
  normally.
\<close>

section \<open>The programs\<close>

definition smokeProcess :: kafka_process where
  "smokeProcess request = Inr ([Buf (string_to_bytes ''ok'')], True)"

text \<open>The second half of \<^verbatim>\<open>main\<close>.\<close>

definition smoke_transport ::
  "'c plugin_library \<Rightarrow> string option \<Rightarrow> string \<Rightarrow> string \<Rightarrow> (string \<times> int) option" where
  "smoke_transport lib ipAddress config ok =
     (case lib_CreateTransport lib ipAddress 0 (Some config) True empty_heap of
        (None, errorMessage, h) \<Rightarrow>
          (let message = (case errorMessage of Some p \<Rightarrow> p | None \<Rightarrow> None);
               text = (case buffer_value h message of
                         Some d \<Rightarrow> c_str (bytes_to_string d) | None \<Rightarrow> []) in
           map_option (\<lambda>_. (''FAIL: CreateTransport returned null: '' @ text, 1))
             (lib_TransportFreeBuffer lib message h))
      | (Some transport, errorMessage, h) \<Rightarrow>
          map_option (\<lambda>_. (ok, 0)) (lib_DestroyTransport lib (Some transport) h))"

definition kafka_smoke_config :: string where
  \<open>kafka_smoke_config =
     ''{"brokers":"127.0.0.1:1","requestTopic":"graft.requests","replyTopic":"graft.replies","groupId":"graft-smoke"}''\<close>

definition kafka_smoke_config_doc :: json where
  "kafka_smoke_config_doc =
     JObject [(''brokers'', JString ''127.0.0.1:1''), (''groupId'', JString ''graft-smoke''),
     (''replyTopic'', JString ''graft.replies''), (''requestTopic'', JString ''graft.requests'')]"

text \<open>The configured server, the server after its destructor, and the rest of \<^verbatim>\<open>main\<close>.\<close>

definition kafka_smoke ::
  "(nat \<Rightarrow> bool) \<Rightarrow> cpp_env \<Rightarrow> u64 \<Rightarrow> u64 \<Rightarrow> (kafka_client \<Rightarrow> buf \<Rightarrow> bytes result \<times> kafka_client) \<Rightarrow>
     (kafka_config \<times> kafka_process option) \<times> kafka_server \<times> (string \<times> int) option" where
  "kafka_smoke malloc env a b call =
     (let configured = kafka_configure env (Some kafka_smoke_config) (Some smokeProcess)
            (default_kafka_server, None);
          ended = kafka_stop new_KafkaServer
      in (configured, ended,
          smoke_transport (kafka_library malloc env a b call) (Some ''127.0.0.1'') kafka_smoke_config
            (''KafkaPlugin smoke OK '' @ [CHR 0xE2, CHR 0x80, CHR 0x94] @
             '' factories linked; run against local Kafka to exercise RPC'')))"

definition sqs_smoke_config :: string where
  \<open>sqs_smoke_config = lines
    [''{'',
     ''        "region": "us-east-1",'',
     ''        "endpointOverride": "http://127.0.0.1:9",'',
     ''        "accessKeyId": "test",'',
     ''        "secretAccessKey": "test",'',
     ''        "requestQueueUrl": "http://127.0.0.1:9/000000000000/graft-requests",'',
     ''        "replyQueueUrl": "http://127.0.0.1:9/000000000000/graft-replies",'',
     ''        "verifySsl": false'',
     ''    }'']\<close>

definition sqs_smoke_config_doc :: json where
  "sqs_smoke_config_doc =
     JObject [(''accessKeyId'', JString ''test''),
     (''endpointOverride'', JString ''http://127.0.0.1:9''), (''region'', JString ''us-east-1''),
     (''replyQueueUrl'', JString ''http://127.0.0.1:9/000000000000/graft-replies''),
     (''requestQueueUrl'', JString ''http://127.0.0.1:9/000000000000/graft-requests''),
     (''secretAccessKey'', JString ''test''), (''verifySsl'', JBool False)]"

text \<open>A destructor that finds the server running would wait for ever here: nobody else stops it.\<close>

definition sqs_smoke ::
  "(nat \<Rightarrow> bool) \<Rightarrow> cpp_env \<Rightarrow> (sqs_client \<Rightarrow> buf \<Rightarrow> bytes result \<times> sqs_client) \<Rightarrow>
     (string \<times> int) option" where
  "sqs_smoke malloc env call =
     (let server = CreateServer new_SqsServer in
      case configure env sqs_smoke_config True (ob_server server) of
        (Inl e, s) \<Rightarrow> None
      | (Inr _, s) \<Rightarrow>
          (let stopped = stop_disable (sv_activeClient s) (stop_signal s);
               ended = DestroyServer stop_signal (server\<lparr>ob_server := stopped\<rparr>) in
           if sv_running (ob_server ended) then None
           else smoke_transport (sqs_library malloc env call) None sqs_smoke_config ''SqsPlugin smoke OK''))"

definition pubsub_smoke_config :: string where
  \<open>pubsub_smoke_config = lines
    [''{'',
     ''        "projectId": "graftcode-local",'',
     ''        "emulatorHost": "127.0.0.1:9",'',
     ''        "requestTopic": "graft-requests",'',
     ''        "replyTopic": "graft-replies",'',
     ''        "autoCreate": false,'',
     ''        "verifySsl": false'',
     ''    }'']\<close>

definition pubsub_smoke_config_doc :: json where
  "pubsub_smoke_config_doc =
     JObject [(''autoCreate'', JBool False), (''emulatorHost'', JString ''127.0.0.1:9''),
     (''projectId'', JString ''graftcode-local''), (''replyTopic'', JString ''graft-replies''),
     (''requestTopic'', JString ''graft-requests''), (''verifySsl'', JBool False)]"

definition pubsub_smoke ::
  "(nat \<Rightarrow> bool) \<Rightarrow> cpp_env \<Rightarrow> (pubsub_client \<Rightarrow> buf \<Rightarrow> bytes result \<times> pubsub_client) \<Rightarrow>
     (string \<times> int) option" where
  "pubsub_smoke malloc env call =
     (let server = CreateServer new_PubSubServer in
      case ps_configure env pubsub_smoke_config True (ob_server server) of
        (Inl e, s) \<Rightarrow> None
      | (Inr _, s) \<Rightarrow>
          (let ended = DestroyServer ps_stop_signal (server\<lparr>ob_server := ps_stop_signal s\<rparr>) in
           if pv_running (ob_server ended) then None
           else smoke_transport (pubsub_library malloc env call) None pubsub_smoke_config
             ''PubSubPlugin smoke OK''))"

definition smoke_documents :: "(string \<times> json) list" where
  "smoke_documents =
    [(kafka_smoke_config, kafka_smoke_config_doc), (sqs_smoke_config, sqs_smoke_config_doc),
     (pubsub_smoke_config, pubsub_smoke_config_doc)]"

section \<open>They end normally\<close>

lemma smoke_configs_not_Nil [simp]: "sqs_smoke_config \<noteq> []" "pubsub_smoke_config \<noteq> []"
  by (simp_all add: sqs_smoke_config_def pubsub_smoke_config_def)

lemma smoke_transport_ok:
  assumes "lib_CreateTransport lib ipAddress 0 (Some config) True = heap_CreateTransport malloc (Inr c) True"
    "lib_DestroyTransport lib = DestroyTransport"
  shows "smoke_transport lib ipAddress config ok = Some (ok, 0)"
  by (simp add: smoke_transport_def assms heap_CreateTransport_def empty_heap_def DestroyTransport_def)

lemma smoke_transport_failed:
  assumes "lib_CreateTransport lib ipAddress 0 (Some config) True = heap_CreateTransport malloc (Inl e) True"
    "lib_TransportFreeBuffer lib = FreeBuffer"
  shows "\<exists>text. smoke_transport lib ipAddress config ok = Some (''FAIL: CreateTransport returned null: '' @ text, 1)"
  by (auto simp: smoke_transport_def assms heap_CreateTransport_def empty_heap_def FreeBuffer_def
      heap_CopyBuffer_def buffer_value_def Let_def)

lemma kafka_smoke_ok:
  assumes "json_parse env kafka_smoke_config = Inr kafka_smoke_config_doc"
  shows "\<exists>line. kafka_smoke malloc env a b call =
    ((default_kafka_server\<lparr>kf_brokers := ''127.0.0.1:1'', kf_groupId := ''graft-smoke''\<rparr>, Some smokeProcess),
     new_KafkaServer, Some (line, 0))"
  using smoke_transport_ok [of "kafka_library malloc env a b call" "Some ''127.0.0.1''" kafka_smoke_config
      malloc "new_TransportKafka env a b (Some kafka_smoke_config)"]
  by (simp add: kafka_smoke_def kafka_library_def Let_def kafka_configure_def assms kafka_smoke_config_doc_def
      read_kafka_fields_def read_either_def ReadString_def jstring_at_def read_security_def
      default_kafka_server_def default_kafka_client_def no_security_def kafka_stop_def kv_ops new_KafkaServer_def)

lemma sqs_smoke_ok:
  assumes "json_parse env sqs_smoke_config = Inr sqs_smoke_config_doc"
  shows "sqs_smoke malloc env call = Some (''SqsPlugin smoke OK'', 0)"
proof -
  note parse = ParseJsonSource_reads [OF assms smoke_configs_not_Nil(1)]
  obtain config where config: "ParseSqsConfigSource env sqs_smoke_config = Inr config"
    "sqs_ValidateServerConfig config = Inr ()" "sqs_ValidateClientConfig config = Inr ()"
    "\<exists>client. new_SqsClient config = Inr client"
    by (simp add: parse sqs_smoke_config_doc_def sqs_parsing sqs_ValidateServerConfig_def
        sqs_ValidateClientConfig_def new_SqsClient_def CreateAwsSqsClient_def ParseEndpointOverride_def
        strip_back_def strip_front_def is_blank_def is_slash_def starts_with_def)
  then obtain client where "new_TransportSqs env (Some sqs_smoke_config) = Inr client"
    by (auto simp: new_TransportSqs_def c_string_or_empty_def)
  then have "smoke_transport (sqs_library malloc env call) None sqs_smoke_config ok = Some (ok, 0)" for ok
    by (intro smoke_transport_ok [where malloc = malloc and c = client]) (simp_all add: sqs_library_def)
  with config show ?thesis
    by (simp add: sqs_smoke_def configure_def CreateServer_def new_SqsServer_def stop_signal_def
        stop_disable_def DestroyServer_def Let_def)
qed

lemma pubsub_smoke_ok:
  assumes "json_parse env pubsub_smoke_config = Inr pubsub_smoke_config_doc"
  shows "pubsub_smoke malloc env call = Some (''PubSubPlugin smoke OK'', 0)"
proof -
  note parse = ParseJsonSource_reads [OF assms smoke_configs_not_Nil(2)]
  obtain c where c: "ParsePubSubConfigSource env pubsub_smoke_config = Inr c" "ps_emulatorHost c \<noteq> []"
    "pubsub_ValidateServerConfig c = Inr ()" "pubsub_ValidateClientConfig c = Inr ()"
    by (simp add: parse pubsub_smoke_config_doc_def pubsub_parsing pubsub_validation)
  then obtain client where "new_TransportPubSub env (Some pubsub_smoke_config) = Inr client"
    using ApplyRuntimeEnvironment_fields [of c env]
    by (auto simp: new_TransportPubSub_def c_string_or_empty_def new_PubSubClient_def)
  then have transport: "smoke_transport (pubsub_library malloc env call) None pubsub_smoke_config ok =
      Some (ok, 0)" for ok
    by (intro smoke_transport_ok [where malloc = malloc and c = client]) (simp_all add: pubsub_library_def)
  have "\<not> pv_running new_PubSubServer" by (simp add: new_PubSubServer_def)
  from ps_configure_of(2) [OF c(1) _ this c(3)] c(2) obtain s where
    "ps_configure env pubsub_smoke_config True new_PubSubServer = (Inr (), s)" "\<not> pv_running s"
    by (cases "ps_configure env pubsub_smoke_config True new_PubSubServer") auto
  with transport show ?thesis
    by (simp add: pubsub_smoke_def CreateServer_def ps_stop_signal_def DestroyServer_def Let_def)
qed

section \<open>Property\<close>

text \<open>
  The smoke programs succeed.  With a parser that reads their documents as what they spell, each of
  the three programs ends with exit code 0, whatever the environment holds; the server of the
  Kafka program has then taken the broker and the group of its document, keeps the topics it had by
  default, and was destroyed without a start.  A library that refuses the configuration makes the
  program print the refusal and end with exit code 1.
\<close>
theorem smoke_programs_succeed:
  assumes "reads env smoke_documents"
  shows "(\<exists>line. kafka_smoke malloc env a b call =
      ((default_kafka_server\<lparr>kf_brokers := ''127.0.0.1:1'', kf_groupId := ''graft-smoke''\<rparr>, Some smokeProcess),
       new_KafkaServer, Some (line, 0))) \<and>
    sqs_smoke malloc env call1 = Some (''SqsPlugin smoke OK'', 0) \<and>
    pubsub_smoke malloc env call2 = Some (''PubSubPlugin smoke OK'', 0) \<and>
    (new_TransportSqs env' (Some config) = Inl e \<longrightarrow>
      (\<exists>text. smoke_transport (sqs_library malloc env' call1) None config ok =
         Some (''FAIL: CreateTransport returned null: '' @ text, 1)))"
proof -
  have docs: "json_parse env kafka_smoke_config = Inr kafka_smoke_config_doc"
    "json_parse env sqs_smoke_config = Inr sqs_smoke_config_doc"
    "json_parse env pubsub_smoke_config = Inr pubsub_smoke_config_doc"
    using assms by (simp_all add: smoke_documents_def)
  have "\<exists>text. smoke_transport (sqs_library malloc env' call1) None config ok =
      Some (''FAIL: CreateTransport returned null: '' @ text, 1)"
    if "new_TransportSqs env' (Some config) = Inl e"
    by (rule smoke_transport_failed [where malloc = malloc and e = e]) (simp_all add: sqs_library_def that)
  with kafka_smoke_ok [OF docs(1), of malloc a b call] sqs_smoke_ok [OF docs(2), of malloc call1]
    pubsub_smoke_ok [OF docs(3), of malloc call2]
  show ?thesis by blast
qed

lemma smoke_programs_succeed_witness:
  "sqs_smoke (\<lambda>_. True) (doc_env smoke_documents) (\<lambda>c d. (Inr [], c)) = Some (''SqsPlugin smoke OK'', 0) \<and>
   pubsub_smoke (\<lambda>_. True) (doc_env smoke_documents) (\<lambda>c d. (Inr [], c)) =
     Some (''PubSubPlugin smoke OK'', 0)"
proof -
  have "distinct (map fst smoke_documents)" by code_simp
  from smoke_programs_succeed [OF reads_doc_env [OF this]] show ?thesis by blast
qed

end
