(* ===== verification/SqsLive.thy ===== *)
theory SqsLive
  imports SqsTests
begin

text \<open>
  The test of the SQS plugin against a live queue (\<^verbatim>\<open>SqsLive.RpcRoundTrip\<close> of
  \<^verbatim>\<open>SqsTransportTests.cpp\<close>): a server and a client are configured from the same JSON, which
  the test puts together from the environment, and two calls and a one-way call go through a queue
  that hands over every message once.  The threads of the test are the order of its parts here;
  that \<^verbatim>\<open>stop\<close> ends the server is a theorem of \<^verbatim>\<open>SqsServer\<close>.
\<close>

section \<open>The configuration\<close>

definition sqs_live_json :: "cpp_env \<Rightarrow> string \<Rightarrow> string \<Rightarrow> string" where
  \<open>sqs_live_json env requestQueue replyQueue =
     ''{"region":"'' @ EscapeJson (EnvOr env ''AWS_REGION'' ''us-east-1'') @
     ''","requestQueueUrl":"'' @ EscapeJson requestQueue @
     ''","replyQueueUrl":"'' @ EscapeJson replyQueue @
     ''","endpointOverride":"'' @ EscapeJson (EnvOr env ''SQS_ENDPOINT_OVERRIDE'' '''') @
     ''","accessKeyId":"'' @ EscapeJson (EnvOr env ''AWS_ACCESS_KEY_ID'' '''') @
     ''","secretAccessKey":"'' @ EscapeJson (EnvOr env ''AWS_SECRET_ACCESS_KEY'' '''') @
     ''","sessionToken":"'' @ EscapeJson (EnvOr env ''AWS_SESSION_TOKEN'' '''') @
     ''","rpcTimeoutMs":20000,"waitTimeSeconds":1}''\<close>

definition one_way_json :: "string \<Rightarrow> string" where
  \<open>one_way_json json = take (length json - 1) json @ '',"oneWay":true}''\<close>

text \<open>What a parser makes of the two texts.\<close>

definition sqs_live_doc :: "cpp_env \<Rightarrow> string \<Rightarrow> string \<Rightarrow> bool \<Rightarrow> json" where
  "sqs_live_doc env requestQueue replyQueue oneWay =
     JObject ([(''accessKeyId'', JString (EnvOr env ''AWS_ACCESS_KEY_ID'' '''')),
       (''endpointOverride'', JString (EnvOr env ''SQS_ENDPOINT_OVERRIDE'' ''''))] @
       (if oneWay then [(''oneWay'', JBool True)] else []) @
       [(''region'', JString (EnvOr env ''AWS_REGION'' ''us-east-1'')),
       (''replyQueueUrl'', JString replyQueue), (''requestQueueUrl'', JString requestQueue),
       (''rpcTimeoutMs'', JUnsigned 20000),
       (''secretAccessKey'', JString (EnvOr env ''AWS_SECRET_ACCESS_KEY'' '''')),
       (''sessionToken'', JString (EnvOr env ''AWS_SESSION_TOKEN'' '''')), (''waitTimeSeconds'', JUnsigned 1)])"

section \<open>A call through the queues\<close>

text \<open>What the server does for the messages of the request queue, and what it puts on the reply queue.\<close>

definition sqs_served ::
  "(bytes \<Rightarrow> string) \<Rightarrow> (string \<Rightarrow> bytes) \<Rightarrow> sqs_service \<Rightarrow> process_fn \<Rightarrow> sqs_config \<Rightarrow> string \<Rightarrow>
     sqs_send_request list \<Rightarrow> sqs_action list" where
  "sqs_served enc dec svc process config dedup sent =
     concat (map (\<lambda>s. fst (handle_message enc dec svc process config dedup (delivered s ''''))) sent)"

definition sqs_replies :: "sqs_action list \<Rightarrow> sqs_send_request list" where
  "sqs_replies acts = concat (map (\<lambda>a. case a of SendReply s \<Rightarrow> [s] | _ \<Rightarrow> []) acts)"

definition sqs_requests :: "sqs_action list \<Rightarrow> bytes list" where
  "sqs_requests acts = concat (map (\<lambda>a. case a of ProcessRequest d \<Rightarrow> [d] | _ \<Rightarrow> []) acts)"

text \<open>
  The call sends its request, the server handles what was sent, and the dispatcher of the client
  gets the replies while the call waits.
\<close>

definition sqs_live_call ::
  "(bytes \<Rightarrow> string) \<Rightarrow> (string \<Rightarrow> bytes) \<Rightarrow> sqs_service \<Rightarrow> process_fn \<Rightarrow> sqs_config \<Rightarrow> string \<Rightarrow>
     string \<Rightarrow> buf \<Rightarrow> sqs_client \<Rightarrow> bytes result \<times> sqs_action list" where
  "sqs_live_call enc dec svc process config dedup cid d client =
     (let sent = snd (snd (SqsCall enc svc cid [] d client));
          acts = sqs_served enc dec svc process config dedup sent;
          during = map (\<lambda>s. dispatch_message dec svc (sc_config client) (delivered s '''')) (sqs_replies acts)
      in (fst (SqsCall enc svc cid during d client), acts))"

section \<open>The test\<close>

text \<open>\<^verbatim>\<open>SqsClient(ParseSqsConfigSource(json))\<close>\<close>

definition sqs_live_client :: "cpp_env \<Rightarrow> string \<Rightarrow> sqs_client result" where
  "sqs_live_client env json = rbind (ParseSqsConfigSource env json) new_SqsClient"

text \<open>\<open>g_oneWaySeen\<close> is what the callback stored last.\<close>

definition g_oneWaySeen :: "bytes list \<Rightarrow> bool" where
  "g_oneWaySeen requests =
     (requests \<noteq> [] \<and> value_is (RecordOneWayCallback (last requests)) snd)"

definition SqsLive_RpcRoundTrip ::
  "cpp_env \<Rightarrow> (bytes \<Rightarrow> string) \<Rightarrow> (string \<Rightarrow> bytes) \<Rightarrow> sqs_service \<Rightarrow> (nat \<Rightarrow> string) \<Rightarrow> string \<Rightarrow> bool" where
  "SqsLive_RpcRoundTrip env enc dec svc ids dedup =
     (case (getenv env ''SQS_REQUEST_QUEUE_URL'', getenv env ''SQS_REPLY_QUEUE_URL'') of
        (Some requestQueue, Some replyQueue) \<Rightarrow>
          (let json = sqs_live_json env requestQueue replyQueue;
               oneWayJson = one_way_json json;
               server = configure env json True new_SqsServer;
               oneWayServer = configure env oneWayJson True new_SqsServer;
               call = (\<lambda>server process i d client.
                 sqs_live_call enc dec svc process (sv_config (snd server)) dedup (ids i) d client)
           in no_throw (fst server) \<and>
              value_is (sqs_live_client env json) (\<lambda>client.
                value_is (fst (call server EchoCallback 0 (Buf kPayload) client)) (\<lambda>response.
                  response = kPayload)) \<and>
              value_is (sqs_live_client env json) (\<lambda>client.
                value_is (fst (call server EchoCallback 1 (Null 0) client)) (\<lambda>emptyResponse.
                  emptyResponse = [])) \<and>
              no_throw (fst oneWayServer) \<and>
              value_is (sqs_live_client env oneWayJson) (\<lambda>client.
                case call oneWayServer RecordOneWayCallback 2 (Buf kPayload) client of
                  (oneWayResult, acts) \<Rightarrow>
                    value_is oneWayResult (\<lambda>r. r = []) \<and> g_oneWaySeen (sqs_requests acts)))
      | _ \<Rightarrow> True)"

section \<open>The test passes\<close>

text \<open>The bytes of a buffer that may be null, in the form that goes on a queue.\<close>

lemma EncodePayload_fits:
  assumes "base64_codec enc dec" "d = Buf x \<or> d = Null 0 \<and> x = []" "length x \<le> 786417"
  shows "EncodePayload enc d = Inr (payload_prefix @ enc x)"
proof -
  have "EncodePayload enc (Buf x) = Inr (payload_prefix @ enc x)"
    unfolding EncodePayload_Inr_iff using base64_codec.payload_fits_iff [OF assms(1), of x] assms(3) by simp
  then show ?thesis using assms(2) by (auto simp: EncodePayload_def)
qed

text \<open>A queue that takes everything, and a lawful codec.\<close>

definition live_queue :: "(bytes \<Rightarrow> string) \<Rightarrow> (string \<Rightarrow> bytes) \<Rightarrow> sqs_service \<Rightarrow> bool" where
  "live_queue enc dec svc \<longleftrightarrow>
     base64_codec enc dec \<and> (\<forall>s. svc_send svc s = Inr ()) \<and> (\<forall>r. svc_delete svc r = Inr ())"

lemma live_queueD:
  assumes "live_queue enc dec svc"
  shows "base64_codec enc dec" "svc_send svc s = Inr ()" "svc_delete svc r = Inr ()"
  using assms by (simp_all add: live_queue_def)

lemma send_accepted:
  assumes "live_queue enc dec svc" "d = Buf x \<or> d = Null 0 \<and> x = []" "length x \<le> 786417"
  shows "send_call enc svc config cid d = (Inr (), [call_request config cid (payload_prefix @ enc x)])"
  by (simp add: send_call_def EncodePayload_fits [OF live_queueD(1) [OF assms(1)] assms(2,3)] live_queueD(2) [OF assms(1)] Let_def)

lemma attributes_distinct: "CorrelationIdAttribute \<noteq> ReplyToAttribute"
  by (simp add: CorrelationIdAttribute_def ReplyToAttribute_def)

text \<open>A call gets what the callback wrote for its bytes.\<close>

lemma live_call_answered:
  assumes queue: "live_queue enc dec svc"
    and d: "d = Buf x \<or> d = Null 0 \<and> x = []" "length x \<le> 786417"
    and rpc: "\<not> sqs_oneWay (sc_config c)" "\<not> sqs_oneWay config"
    and cid: "cid \<noteq> []" "c_str cid = cid" "c_str (sqs_replyQueueUrl (sc_config c)) \<noteq> []"
    and process: "process x = Inr (writes, True)" "length (fold writeResponse writes []) \<le> 786417"
    and fresh: "sc_pending c = new_pending"
  shows "fst (sqs_live_call enc dec svc process config dedup cid d c) = Inr (fold writeResponse writes [])"
proof -
  note codec = live_queueD(1) [OF queue] and accepts = live_queueD(2,3) [OF queue]
  define response where "response = fold writeResponse writes []"
  define url where "url = c_str (sqs_replyQueueUrl (sc_config c))"
  define request where "request = call_request (sc_config c) cid (payload_prefix @ enc x)"
  define reply where "reply = server_reply config url cid dedup (payload_prefix @ enc response)"
  have table: "pending_wf (sc_pending c)" "\<not> closed (sc_pending c)"
    "map_of (slots (sc_pending c)) cid = None" "\<not> (buf_size d > 0 \<and> buf_is_null d)"
    using d(1) by (auto simp: fresh new_pending_def pending_wf_def)
  have call: "\<exists>c'. SqsCall enc svc cid during d c =
      (case first_settle cid during of
         Waiting \<Rightarrow> Inl (sqs_timeout (sc_config c) cid)
       | Failed e \<Rightarrow> Inl (RuntimeError e)
       | Done pl \<Rightarrow> Inr pl, c', [request])" if "leaves cid during" for during
    using sqs_call_general [OF table(1-3) rpc(1) table(4) that, of enc svc]
    by (auto simp: send_accepted [OF queue d] request_def)
  have sent: "snd (snd (SqsCall enc svc cid [] d c)) = [request]"
    using call [of "[]"] by auto
  have attrs: "GetStringAttribute (delivered request h) CorrelationIdAttribute = cid"
      "GetStringAttribute (delivered request h) ReplyToAttribute = url"
      "sqs_message.sm_body (delivered request h) = payload_prefix @ enc x" for h
    using attributes_distinct by (simp_all add: GetStringAttribute_def delivered_def request_def url_def
        call_request_attributes rpc cid)
  have body: "EncodePayload enc (Buf response) = Inr (payload_prefix @ enc response)"
    by (rule EncodePayload_fits [OF codec]) (simp_all add: response_def process)
  have "\<exists>rest. fst (handle_message enc dec svc process config dedup (delivered request h)) =
      ProcessRequest x # SendReply reply # rest \<and> sqs_replies rest = []" for h
    using cid rpc body
    by (simp add: handle_message_def Let_def attrs base64_codec.DecodePayload_enc [OF codec] process
        reply_def url_def flip: response_def)
      (simp add: accepts delete_request_def sqs_replies_def Let_def)
  from this [of "[]"] have replies:
    "sqs_replies (sqs_served enc dec svc process config dedup [request]) = [reply]"
    by (elim exE) (simp add: sqs_served_def sqs_replies_def)
  have got: "first_settle cid [dispatch_message dec svc (sc_config c) (delivered reply h)] = Done response" for h
    using first_settle_dispatch [of cid dec svc "sc_config c" "[delivered reply h]"]
    by (simp add: GetStringAttribute_def delivered_def reply_def server_reply_fields cid accepts
        base64_codec.DecodePayload_enc [OF codec])
  have "leaves cid [dispatch_message dec svc (sc_config c) (delivered reply h)]" for h
    using leaves_dispatch [of cid dec svc "sc_config c" "[delivered reply h]"] by simp
  from call [OF this [of "[]"]] got [of "[]"] show ?thesis
    by (auto simp: sqs_live_call_def Let_def sent replies response_def)
qed

text \<open>A one-way call returns nothing, and the callback gets its bytes once.\<close>

lemma live_oneway_call:
  assumes queue: "live_queue enc dec svc"
    and d: "d = Buf x \<or> d = Null 0 \<and> x = []" "length x \<le> 786417"
    and oneway: "sqs_oneWay (sc_config c)" "sqs_oneWay config"
  shows "fst (sqs_live_call enc dec svc process config dedup cid d c) = Inr [] \<and>
    sqs_requests (snd (sqs_live_call enc dec svc process config dedup cid d c)) = [x]"
proof -
  note codec = live_queueD(1) [OF queue] and accepts = live_queueD(2,3) [OF queue]
  define request where "request = call_request (sc_config c) cid (payload_prefix @ enc x)"
  have call: "SqsCall enc svc cid during d c = (Inr [], c, [request])" for during
    using d(1) oneway(1) by (auto simp: SqsCall_def send_accepted [OF queue d] request_def)
  have "sqs_message.sm_body (delivered request h) = payload_prefix @ enc x" for h
    by (simp add: delivered_def request_def call_request_def ConfigureFifoMessage_def Let_def)
  then have "\<exists>rest. fst (handle_message enc dec svc process config dedup (delivered request h)) =
      ProcessRequest x # rest \<and> sqs_requests rest = []" for h
    using oneway(2)
    by (cases "process x")
      (auto simp: handle_message_def Let_def base64_codec.DecodePayload_enc [OF codec]
        delete_request_def sqs_requests_def accepts)
  from this [of "[]"] have "sqs_requests (sqs_served enc dec svc process config dedup [request]) = [x]"
    by (elim exE) (simp add: sqs_served_def sqs_requests_def)
  then show ?thesis by (simp add: sqs_live_call_def call Let_def)
qed

section \<open>Property\<close>

lemma sqs_live_config:
  assumes "json_parse env text = Inr (sqs_live_doc env requestQueue replyQueue oneWay)" "text \<noteq> []"
    and "requestQueue \<noteq> []" "replyQueue \<noteq> []"
    and "EnvOr env ''AWS_ACCESS_KEY_ID'' [] = [] \<longleftrightarrow> EnvOr env ''AWS_SECRET_ACCESS_KEY'' [] = []"
    and "EnvOr env ''AWS_REGION'' ''us-east-1'' \<noteq> []"
    and "ParseEndpointOverride (EnvOr env ''SQS_ENDPOINT_OVERRIDE'' []) = Inr endpoint"
  obtains config client where
    "configure env text True new_SqsServer = (Inr (), new_SqsServer\<lparr>sv_config := config, sv_process := True\<rparr>)"
    "sqs_oneWay config = oneWay" "sqs_live_client env text = Inr client" "sc_config client = config"
    "sqs_replyQueueUrl config = replyQueue" "sc_pending client = new_pending"
proof -
  obtain config where config: "ParseSqsConfigSource env text = Inr config" "sqs_oneWay config = oneWay"
    "sqs_requestQueueUrl config = requestQueue" "sqs_replyQueueUrl config = replyQueue"
    "sqs_endpointOverride config = EnvOr env ''SQS_ENDPOINT_OVERRIDE'' []"
    using assms(3-6)
    by (cases oneWay) (simp_all add: sqs_parsing ParseJsonSource_reads [OF assms(1,2)] sqs_live_doc_def)
  then have valid: "sqs_ValidateServerConfig config = Inr ()" "sqs_ValidateClientConfig config = Inr ()"
    using assms(3,4) by (simp_all add: sqs_ValidateServerConfig_def sqs_ValidateClientConfig_def)
  obtain aws where "CreateAwsSqsClient config = Inr aws"
    using config(5) assms(7)
    by (cases "sqs_accessKeyId config = []") (simp_all add: CreateAwsSqsClient_def Let_def)
  then obtain client where "sqs_live_client env text = Inr client" "sc_config client = config"
    "sc_pending client = new_pending"
    using config(1) valid(2) by (simp add: sqs_live_client_def new_SqsClient_def)
  moreover have "configure env text True new_SqsServer =
      (Inr (), new_SqsServer\<lparr>sv_config := config, sv_process := True\<rparr>)"
    using config valid by (simp add: configure_def new_SqsServer_def)
  ultimately show ?thesis using that config by blast
qed

text \<open>
  The live test of the SQS plugin passes.  With queues that take every message and hand it over
  once, a parser that reads the JSON of the test as what it spells, any lawful Base64 codec, ids
  that are not empty, a region and an accepted endpoint, the server and the clients of the test are configured
  from its environment, the two calls get back exactly the bytes they sent, also none, and the
  one-way call returns nothing while the server's callback has seen its bytes.
\<close>
theorem sqs_live_round_trip:
  assumes "getenv env ''SQS_REQUEST_QUEUE_URL'' = Some requestQueue"
      "getenv env ''SQS_REPLY_QUEUE_URL'' = Some replyQueue"
    and "requestQueue \<noteq> []" "c_str replyQueue \<noteq> []"
    and "json_parse env (sqs_live_json env requestQueue replyQueue) =
        Inr (sqs_live_doc env requestQueue replyQueue False)"
      "json_parse env (one_way_json (sqs_live_json env requestQueue replyQueue)) =
        Inr (sqs_live_doc env requestQueue replyQueue True)"
    and "EnvOr env ''AWS_ACCESS_KEY_ID'' [] = [] \<longleftrightarrow> EnvOr env ''AWS_SECRET_ACCESS_KEY'' [] = []"
    and "EnvOr env ''AWS_REGION'' ''us-east-1'' \<noteq> []"
    and "ParseEndpointOverride (EnvOr env ''SQS_ENDPOINT_OVERRIDE'' []) = Inr endpoint"
    and "live_queue enc dec svc"
    and "\<And>i. ids i \<noteq> []" "\<And>i. c_str (ids i) = ids i"
  shows "SqsLive_RpcRoundTrip env enc dec svc ids dedup"
proof -
  let ?json = "sqs_live_json env requestQueue replyQueue"
  have texts: "?json \<noteq> []" "one_way_json ?json \<noteq> []"
    by (simp_all add: sqs_live_json_def one_way_json_def)
  have reply: "replyQueue \<noteq> []" using assms(4) by auto
  obtain config client where rpc:
    "configure env ?json True new_SqsServer = (Inr (), new_SqsServer\<lparr>sv_config := config, sv_process := True\<rparr>)"
    "sqs_oneWay config = False" "sqs_live_client env ?json = Inr client" "sc_config client = config"
    "sqs_replyQueueUrl config = replyQueue" "sc_pending client = new_pending"
    by (rule sqs_live_config [OF assms(5) texts(1) assms(3) reply assms(7-9)])
  obtain config' client' where oneway:
    "configure env (one_way_json ?json) True new_SqsServer =
       (Inr (), new_SqsServer\<lparr>sv_config := config', sv_process := True\<rparr>)"
    "sqs_oneWay config' = True" "sqs_live_client env (one_way_json ?json) = Inr client'"
    "sc_config client' = config'"
    by (rule sqs_live_config [OF assms(6) texts(2) assms(3) reply assms(7-9)])
  have call: "fst (sqs_live_call enc dec svc EchoCallback config dedup (ids i) d client) = Inr x"
    if "d = Buf x \<or> d = Null 0 \<and> x = []" "length x \<le> 786417" for d x i
    using live_call_answered [OF assms(10) that, where c = client and config = config and cid = "ids i"
        and process = EchoCallback and writes = "[Buf x]" and dedup = dedup] rpc assms(4,11,12) that(2)
    by (simp add: EchoCallback_def writeResponse_def split: if_splits)
  have short: "length kPayload \<le> 786417" by (simp add: kPayload_def)
  have "fst (sqs_live_call enc dec svc RecordOneWayCallback config' dedup (ids 2) (Buf kPayload) client') = Inr []"
    "sqs_requests (snd (sqs_live_call enc dec svc RecordOneWayCallback config' dedup (ids 2) (Buf kPayload) client')) =
       [kPayload]"
    using live_oneway_call [OF assms(10) _ short, of "Buf kPayload" client' config' RecordOneWayCallback dedup "ids 2"]
      oneway by auto
  with rpc oneway call [of "Buf kPayload" kPayload] call [of "Null 0" "[]"] short show ?thesis
    by (simp add: SqsLive_RpcRoundTrip_def assms(1,2) Let_def case_prod_unfold g_oneWaySeen_def
        RecordOneWayCallback_def)
qed

text \<open>An environment with two queues.\<close>

definition sqs_live_env :: cpp_env where
  "sqs_live_env = (doc_env [])\<lparr>getenv :=
     [''SQS_REQUEST_QUEUE_URL'' \<mapsto> ''https://example/q'', ''SQS_REPLY_QUEUE_URL'' \<mapsto> ''https://example/r'']\<rparr>"

definition sqs_live_documents :: "(string \<times> json) list" where
  "sqs_live_documents =
    [(sqs_live_json sqs_live_env ''https://example/q'' ''https://example/r'',
      sqs_live_doc sqs_live_env ''https://example/q'' ''https://example/r'' False),
     (one_way_json (sqs_live_json sqs_live_env ''https://example/q'' ''https://example/r''),
      sqs_live_doc sqs_live_env ''https://example/q'' ''https://example/r'' True)]"

lemma EnvOr_getenv: "getenv env = getenv env' \<Longrightarrow> EnvOr env = EnvOr env'"
  by (simp add: EnvOr_def fun_eq_iff)

lemma sqs_live_round_trip_witness:
  "SqsLive_RpcRoundTrip (sqs_live_env\<lparr>json_parse := json_parse (doc_env sqs_live_documents)\<rparr>)
     b64_encode b64_decode_total sqs_example_service (\<lambda>i. CHR ''c'' # dec_digits i) ''dedup''"
proof -
  let ?env = "sqs_live_env\<lparr>json_parse := json_parse (doc_env sqs_live_documents)\<rparr>"
  have EnvOr: "EnvOr ?env = EnvOr sqs_live_env" by (rule EnvOr_getenv) simp
  then have json: "sqs_live_json ?env = sqs_live_json sqs_live_env" "sqs_live_doc ?env = sqs_live_doc sqs_live_env"
    by (simp_all add: sqs_live_json_def sqs_live_doc_def fun_eq_iff)
  have "distinct (map fst sqs_live_documents)" by code_simp
  from reads_doc_env [OF this] have docs:
    "json_parse ?env (sqs_live_json ?env ''https://example/q'' ''https://example/r'') =
       Inr (sqs_live_doc ?env ''https://example/q'' ''https://example/r'' False)"
    "json_parse ?env (one_way_json (sqs_live_json ?env ''https://example/q'' ''https://example/r'')) =
       Inr (sqs_live_doc ?env ''https://example/q'' ''https://example/r'' True)"
    unfolding json by (simp_all add: sqs_live_documents_def)
  have url: "c_str ''https://example/r'' \<noteq> []" by (simp add: c_str_def)
  have digits: "c_str (CHR ''c'' # dec_digits i) = CHR ''c'' # dec_digits i" for i
    by (rule c_str_id) (auto dest: dec_digits_class simp: char_class_defs)
  have queues: "getenv ?env ''SQS_REQUEST_QUEUE_URL'' = Some ''https://example/q''"
    "getenv ?env ''SQS_REPLY_QUEUE_URL'' = Some ''https://example/r''"
    by (simp_all add: sqs_live_env_def)
  have "live_queue b64_encode b64_decode_total sqs_example_service"
    using pubsub_b64.base64_codec_axioms by (simp add: live_queue_def sqs_example_service_def)
  from sqs_live_round_trip [OF queues _ url docs _ _ _ this _ digits] show ?thesis
    by (simp add: EnvOr EnvOr_def sqs_live_env_def doc_env_def ParseEndpointOverride_def strip_back_def
        strip_front_def Let_def)
qed

end
