(* ===== verification/TransportTests.thy ===== *)
theory TransportTests
  imports TestSupport
begin

text \<open>
  The tests of the Service Bus and the RabbitMQ plugin that need no broker
  (\<^verbatim>\<open>ServiceBusTransportTests.cpp\<close>, \<^verbatim>\<open>RabbitMqTransportTests.cpp\<close>), run on the model.
  The Azure library is a parameter: the suites pass whatever it answers.
\<close>

section \<open>Documents\<close>

definition tabs :: "nat \<Rightarrow> string" where
  "tabs n = replicate n (CHR 0x09)"

definition kConnectionStringConfig :: string where
  \<open>kConnectionStringConfig = lines
    [''{'',
     tabs 3 @ ''"connectionString": "Endpoint=sb://example.servicebus.windows.net/;SharedAccessKeyName=root;SharedAccessKey=secret",'',
     tabs 3 @ ''"queue": "gg",'',
     tabs 3 @ ''"replyQueue": "gg.reply",'',
     tabs 3 @ ''"rpcTimeoutMs": 30000'',
     ''}'']\<close>

definition kConnectionStringConfig_doc :: json where
  "kConnectionStringConfig_doc =
     JObject [(''connectionString'',
       JString ''Endpoint=sb://example.servicebus.windows.net/;SharedAccessKeyName=root;SharedAccessKey=secret''),
     (''queue'', JString ''gg''), (''replyQueue'', JString ''gg.reply''), (''rpcTimeoutMs'', JUnsigned 30000)]"

definition kComponentsConfig :: string where
  \<open>kComponentsConfig = lines
    [''{'',
     tabs 3 @ ''"host": "example.servicebus.windows.net",'',
     tabs 3 @ ''"sharedAccessKeyName": "root",'',
     tabs 3 @ ''"sharedAccessKey": "secret",'',
     tabs 3 @ ''"queue": "gg",'',
     tabs 3 @ ''"replyQueue": "gg.reply"'',
     ''}'']\<close>

definition kComponentsConfig_doc :: json where
  "kComponentsConfig_doc =
     JObject [(''host'', JString ''example.servicebus.windows.net''), (''queue'', JString ''gg''),
     (''replyQueue'', JString ''gg.reply''), (''sharedAccessKey'', JString ''secret''),
     (''sharedAccessKeyName'', JString ''root'')]"

definition kTopicConfig :: string where
  \<open>kTopicConfig = lines
    [''{'',
     tabs 3 @ ''"connectionString": "Endpoint=sb://example.servicebus.windows.net/;SharedAccessKeyName=root;SharedAccessKey=secret",'',
     tabs 3 @ ''"topic": "gg.topic"'',
     ''}'']\<close>

definition kTopicConfig_doc :: json where
  "kTopicConfig_doc =
     JObject [(''connectionString'',
       JString ''Endpoint=sb://example.servicebus.windows.net/;SharedAccessKeyName=root;SharedAccessKey=secret''),
     (''topic'', JString ''gg.topic'')]"

definition kValidClientConfig :: string where
  \<open>kValidClientConfig = lines
    [''{'',
     tabs 3 @ ''"host": "127.0.0.1",'',
     tabs 3 @ ''"port": 5672,'',
     tabs 3 @ ''"queue": "gg",'',
     tabs 3 @ ''"user": "guest",'',
     tabs 3 @ ''"password": "guest",'',
     tabs 3 @ ''"vhost": "/",'',
     tabs 3 @ ''"rpcTimeoutMs": 30000'',
     ''}'']\<close>

definition sb_documents :: "(string \<times> json) list" where
  "sb_documents =
    [(kConnectionStringConfig, kConnectionStringConfig_doc), (kComponentsConfig, kComponentsConfig_doc),
     (kTopicConfig, kTopicConfig_doc)]"

definition kSamplePayload :: bytes where
  "kSamplePayload =
    [0x03, 0x00, 0x00, 0x7f, 0x00, 0x00, 0x01, 0x28, 0x16, 0x08, 0x06, 0x00,
     0x01, 0x00, 0x00, 0x00, 0x03, 0x00, 0x01, 0x01, 0x13, 0x00, 0x00, 0x00,
     0x54, 0x65, 0x73, 0x74, 0x43, 0x6c, 0x61, 0x73, 0x73, 0x2e, 0x54, 0x65,
     0x73, 0x74, 0x43, 0x6c, 0x61, 0x73, 0x73]"

section \<open>Service Bus\<close>

definition ServiceBusClient_AppliesConnectionStringFromConfigSource :: "cpp_env \<Rightarrow> bool" where
  "ServiceBusClient_AppliesConnectionStringFromConfigSource env =
     (let config = sb_ApplyConfigSource env kConnectionStringConfig default_sb_client in
      sb_queue config = ''gg'' \<and>
      sb_replyQueue config = ''gg.reply'' \<and>
      sb_rpcTimeoutMs config = 30000 \<and>
      sb_connectionString config \<noteq> [] \<and>
      BuildConnectionString config = sb_connectionString config)"

definition ServiceBusClient_BuildsConnectionStringFromComponents :: "cpp_env \<Rightarrow> bool" where
  "ServiceBusClient_BuildsConnectionStringFromComponents env =
     (let config = sb_ApplyConfigSource env kComponentsConfig default_sb_client;
          connectionString = BuildConnectionString config in
      contains_sub ''Endpoint=sb://example.servicebus.windows.net/'' connectionString \<and>
      contains_sub ''SharedAccessKeyName=root'' connectionString \<and>
      contains_sub ''SharedAccessKey=secret'' connectionString)"

text \<open>The configuration of the two tests that must fail before anything is sent.\<close>

definition sb_only_connection :: sb_client_config where
  "sb_only_connection = default_sb_client
    \<lparr>sb_connectionString :=
       ''Endpoint=sb://example.servicebus.windows.net/;SharedAccessKeyName=root;SharedAccessKey=secret''\<rparr>"

definition ServiceBusClient_SendRpcFailsFastWithoutEntities :: "sb_caller \<Rightarrow> string \<Rightarrow> bool" where
  "ServiceBusClient_SendRpcFailsFastWithoutEntities call session =
     (\<not> fst (sb_SendRpc_vector call sb_only_connection session kSamplePayload))"

definition ServiceBusClient_AppliesTopicFromConfigSource :: "cpp_env \<Rightarrow> bool" where
  "ServiceBusClient_AppliesTopicFromConfigSource env =
     (let config = sb_ApplyConfigSource env kTopicConfig default_sb_client in
      sb_topic config = ''gg.topic'' \<and> sb_queue config = [] \<and> sb_connectionString config \<noteq> [])"

definition ServiceBusClient_PublishOneWayFailsFastWithoutTopic :: "sb_caller \<Rightarrow> string \<Rightarrow> bool" where
  "ServiceBusClient_PublishOneWayFailsFastWithoutTopic call session =
     (\<not> PublishOneWay_vector call sb_only_connection session kSamplePayload)"

definition ServiceBusTransport_FactoryCreatesAndDestroysTransport ::
  "(nat \<Rightarrow> bool) \<Rightarrow> cpp_env \<Rightarrow> string \<Rightarrow> (sb_client \<Rightarrow> buf \<Rightarrow> bytes result \<times> sb_client) \<Rightarrow> bool" where
  "ServiceBusTransport_FactoryCreatesAndDestroysTransport malloc env session call =
     factory_test (sb_library malloc env session call) (Some '''') kConnectionStringConfig '''' []"

definition sb_suite ::
  "cpp_env \<Rightarrow> (nat \<Rightarrow> bool) \<Rightarrow> string \<Rightarrow> sb_caller \<Rightarrow>
     (sb_client \<Rightarrow> buf \<Rightarrow> bytes result \<times> sb_client) \<Rightarrow> suite" where
  "sb_suite env malloc session call transport_call =
    [(''AppliesConnectionStringFromConfigSource'',
        ServiceBusClient_AppliesConnectionStringFromConfigSource env),
     (''BuildsConnectionStringFromComponents'', ServiceBusClient_BuildsConnectionStringFromComponents env),
     (''SendRpcFailsFastWithoutEntities'', ServiceBusClient_SendRpcFailsFastWithoutEntities call session),
     (''AppliesTopicFromConfigSource'', ServiceBusClient_AppliesTopicFromConfigSource env),
     (''PublishOneWayFailsFastWithoutTopic'',
        ServiceBusClient_PublishOneWayFailsFastWithoutTopic call session),
     (''FactoryCreatesAndDestroysTransport'',
        ServiceBusTransport_FactoryCreatesAndDestroysTransport malloc env session transport_call)]"

section \<open>RabbitMQ\<close>

text \<open>The transport after the call, or nothing when the expectation fails.\<close>

definition ExpectInvalidPayload ::
  "(rabbit_client \<Rightarrow> buf \<Rightarrow> bytes result \<times> rabbit_client) \<Rightarrow> ptr \<times> 32 word \<Rightarrow>
     rabbit_client option \<Rightarrow> rabbit_client option" where
  "ExpectInvalidPayload call arguments transport =
     Option.bind transport (\<lambda>c.
       case rabbit_command call c (fst arguments) (snd arguments) of
         Some (r, c') \<Rightarrow>
           if runtime_error_text r = Some ''invalid RabbitMQ payload'' then Some c' else None
       | None \<Rightarrow> None)"

definition RabbitMqTransport_SendCommandRejectsInvalidPayloadArguments ::
  "cpp_env \<Rightarrow> (rabbit_client \<Rightarrow> buf \<Rightarrow> bytes result \<times> rabbit_client) \<Rightarrow> bool" where
  "RabbitMqTransport_SendCommandRejectsInvalidPayloadArguments env call =
     (fold (ExpectInvalidPayload call)
        [(None, -1), (None, 0), (None, 8), (Some [0x01], -5)]
        (Some (new_TransportRabbitMq env ''127.0.0.1'' 5672 kValidClientConfig)) \<noteq> None)"

section \<open>The tests pass\<close>

lemma kConnectionStringConfig_not_Nil [simp]:
  "kConnectionStringConfig \<noteq> []" "kComponentsConfig \<noteq> []" "kTopicConfig \<noteq> []"
  by (simp_all add: kConnectionStringConfig_def kComponentsConfig_def kTopicConfig_def)

lemma ParseJsonConfigSource_reads:
  "json_parse env text = Inr j \<Longrightarrow> text \<noteq> [] \<Longrightarrow> ParseJsonConfigSource env text = Some j"
  by (simp add: ParseJsonConfigSource_def)

lemma sb_source:
  assumes "reads env sb_documents"
  shows "ParseJsonConfigSource env kConnectionStringConfig = Some kConnectionStringConfig_doc"
    "ParseJsonConfigSource env kComponentsConfig = Some kComponentsConfig_doc"
    "ParseJsonConfigSource env kTopicConfig = Some kTopicConfig_doc"
  using assms by (intro ParseJsonConfigSource_reads; simp add: sb_documents_def)+

lemmas sb_reading = sb_ApplyConfigSource_def kConnectionStringConfig_doc_def kComponentsConfig_doc_def
  kTopicConfig_doc_def sb_select_def hasDedicatedSbKeys_def jcontains_def ApplyServiceBusConfig_def
  ReadString_def read_flag_def read_in_range_def default_sb_client_def BuildConnectionString_def
  endpoint_host_def sb_scheme_def starts_with_def Let_def

lemma sb_config_tests:
  assumes "reads env sb_documents"
  shows "ServiceBusClient_AppliesConnectionStringFromConfigSource env"
    "ServiceBusClient_BuildsConnectionStringFromComponents env"
    "ServiceBusClient_AppliesTopicFromConfigSource env"
  subgoal by (simp add: ServiceBusClient_AppliesConnectionStringFromConfigSource_def sb_source [OF assms] sb_reading)
  subgoal by (simp add: ServiceBusClient_BuildsConnectionStringFromComponents_def sb_source [OF assms] sb_reading)
  subgoal by (simp add: ServiceBusClient_AppliesTopicFromConfigSource_def sb_source [OF assms] sb_reading)
  done

text \<open>Without a queue no link opens, so that no call leaves the process.\<close>

lemma sb_fails_fast:
  "fst (sb_Call (sb_open_link connect openReceiver openSender) later send cid during d
     (new_ServiceBusRpcClient sb_only_connection session)) \<noteq> Inr x"
  "snd (snd (sb_Call (sb_open_link connect openReceiver openSender) later send cid during d
     (new_ServiceBusRpcClient sb_only_connection session))) = []"
  by (simp_all add: sb_Call_def sb_CurrentLink_def sb_relink_def sb_open_link_def
      new_ServiceBusRpcClient_def sb_only_connection_def default_sb_client_def BuildConnectionString_def Let_def)

lemma sb_call_tests:
  "ServiceBusClient_SendRpcFailsFastWithoutEntities
     (sb_Call (sb_open_link connect openReceiver openSender) later send cid during) session"
  "ServiceBusClient_PublishOneWayFailsFastWithoutTopic call session"
  using sb_fails_fast(1) [of connect openReceiver openSender later send cid during
      "sb_vector_buf kSamplePayload" session]
  by (auto simp: ServiceBusClient_SendRpcFailsFastWithoutEntities_def sb_SendRpc_vector_def sb_SendRpc_def
      ServiceBusClient_PublishOneWayFailsFastWithoutTopic_def PublishOneWay_vector_def PublishOneWay_def
      sb_only_connection_def default_sb_client_def split: sum.split)

lemma sb_factory_test:
  assumes "\<And>n. malloc n"
  shows "ServiceBusTransport_FactoryCreatesAndDestroysTransport malloc env session call"
proof -
  have "factory_test (sb_library malloc env session call) (Some '''') kConnectionStringConfig
      (what (RuntimeError '''')) []"
    by (rule factory_test_passes [where malloc = malloc and command = "sb_command call"])
      (auto simp: sb_library_def assms)
  then show ?thesis by (simp add: ServiceBusTransport_FactoryCreatesAndDestroysTransport_def)
qed

lemma rabbit_payload_test: "RabbitMqTransport_SendCommandRejectsInvalidPayloadArguments env call"
  by (simp add: RabbitMqTransport_SendCommandRejectsInvalidPayloadArguments_def ExpectInvalidPayload_def
      rabbit_command_def transport_command_def pointer_guard_def c_str_Cons)

section \<open>Property\<close>

text \<open>
  The model passes the tests of the Service Bus and the RabbitMQ plugin that need no broker, with
  any parser that reads the documents of the tests as what they spell and whatever the Azure library
  and the other threads do.  The two tests that must fail fast do so before any message is sent.
\<close>
theorem sb_rabbit_suites_pass:
  fixes connect openReceiver openSender later send cid during
  defines "call \<equiv> sb_Call (sb_open_link connect openReceiver openSender) later send cid during"
  assumes "reads env sb_documents" and "\<And>n. malloc n"
  shows "suite_passes (sb_suite env malloc session call transport_call) \<and>
    snd (snd (call (sb_vector_buf kSamplePayload) (new_ServiceBusRpcClient sb_only_connection session))) = [] \<and>
    RabbitMqTransport_SendCommandRejectsInvalidPayloadArguments env' rabbit_call"
  using sb_config_tests [OF assms(2)] sb_factory_test [where malloc = malloc and env = env and session = session and call = transport_call, OF assms(3)]
    sb_call_tests(1) [of connect openReceiver openSender later send cid during session]
    sb_call_tests(2) [of call session] sb_fails_fast(2) rabbit_payload_test
  by (simp only: sb_suite_def suite_passes_simps simp_thms call_def)

lemma sb_rabbit_suites_pass_witness:
  "suite_passes (sb_suite (doc_env sb_documents) (\<lambda>_. True) ''session''
     (sb_Call (sb_open_link (\<lambda>_. Inr ()) (\<lambda>_ _. Inr ()) (\<lambda>_. Inr True)) id (\<lambda>_. Inr True) ''id'' [])
     (\<lambda>c d. (Inr [], c)))"
proof -
  have "distinct (map fst sb_documents)" by code_simp
  from reads_doc_env [OF this] show ?thesis
    by (intro conjunct1 [OF sb_rabbit_suites_pass]) auto
qed

end
