(* ===== verification/ServiceBusLive.thy ===== *)
theory ServiceBusLive
  imports TransportTests ServiceBusServer
begin

text \<open>
  The two tests of the Service Bus plugin against a live namespace (\<^verbatim>\<open>ServiceBusLive\<close> in
  \<^verbatim>\<open>ServiceBusTransportTests.cpp\<close>): a call through a queue and its reply queue, and a one-way
  message through a topic.  The namespace hands over every message once; the threads of the tests
  are the order of their parts here.
\<close>

section \<open>The configurations\<close>

definition sb_live_json :: "string \<Rightarrow> string \<Rightarrow> string \<Rightarrow> string" where
  \<open>sb_live_json connectionString queue replyQueue =
     ''{"name":"live-rpc","connectionString":"'' @ EscapeJson connectionString @
     ''","queue":"'' @ EscapeJson queue @
     ''","replyQueue":"'' @ EscapeJson replyQueue @ ''"}''\<close>

definition sb_live_doc :: "string \<Rightarrow> string \<Rightarrow> string \<Rightarrow> json" where
  "sb_live_doc connectionString queue replyQueue =
     JObject [(''connectionString'', JString connectionString), (''name'', JString ''live-rpc''),
       (''queue'', JString queue), (''replyQueue'', JString replyQueue)]"

definition sb_oneway_json :: "string \<Rightarrow> string \<Rightarrow> string \<Rightarrow> string" where
  \<open>sb_oneway_json connectionString topic subscription =
     ''{"name":"live-oneway","connectionString":"'' @ EscapeJson connectionString @
     ''","topic":"'' @ EscapeJson topic @
     ''","subscription":"'' @ EscapeJson subscription @ ''"}''\<close>

definition sb_oneway_doc :: "string \<Rightarrow> string \<Rightarrow> string \<Rightarrow> json" where
  "sb_oneway_doc connectionString topic subscription =
     JObject [(''connectionString'', JString connectionString), (''name'', JString ''live-oneway''),
       (''subscription'', JString subscription), (''topic'', JString topic)]"

section \<open>A call through the namespace\<close>

text \<open>The callback of the one-way server stores the bytes and writes nothing.\<close>

definition sb_RecordOneWayCallback :: sb_process where
  "sb_RecordOneWayCallback d = Inr ([], True)"

text \<open>The server handles what was sent, one message after the other, over its cache of senders.\<close>

definition sb_served ::
  "sb_server \<Rightarrow> send_attempt \<times> send_attempt \<Rightarrow> sb_message list \<Rightarrow> sb_action list \<times> sender_cache" where
  "sb_served g as sent =
     fold (\<lambda>m (acts, cache).
        case sb_handle (fst (sb_source (sg_config g))) (sg_processMessage g) as m cache of
          (acts', _, cache') \<Rightarrow> (acts @ acts', cache')) sent ([], new_sender_cache)"

text \<open>The replies that its senders have sent, in the order in which they did.\<close>

definition sb_replies :: "sender_cache \<Rightarrow> sb_message list" where
  "sb_replies cache =
     concat (map (\<lambda>e. case e of CSend s m ok t \<Rightarrow> if ok then [m] else [] | _ \<Rightarrow> []) (rev (sn_log cache)))"

definition sb_live_sent ::
  "sb_opener \<Rightarrow> (sb_link \<Rightarrow> sb_link) \<Rightarrow> (sb_message \<Rightarrow> bool result) \<Rightarrow> string \<Rightarrow> buf \<Rightarrow> sb_client \<Rightarrow>
     sb_message list" where
  "sb_live_sent open_link later send cid d c = snd (snd (sb_Call open_link later send cid [] d c))"

text \<open>A call whose dispatcher gets the replies to what it sent.\<close>

definition sb_live_caller ::
  "sb_opener \<Rightarrow> (sb_link \<Rightarrow> sb_link) \<Rightarrow> (sb_message \<Rightarrow> bool result) \<Rightarrow> string \<Rightarrow>
     sb_server \<Rightarrow> send_attempt \<times> send_attempt \<Rightarrow> sb_caller" where
  "sb_live_caller open_link later send cid g as d c =
     (let cache = snd (sb_served g as (sb_live_sent open_link later send cid d c));
          turns = map (\<lambda>m. (False, SbIncoming None (Some m))) (sb_replies cache)
      in sb_Call open_link later send cid
           (snd (sb_DispatchReplies turns \<lparr>sl_receiver = True, sl_broken = False\<rparr>)) d c)"

section \<open>The tests\<close>

definition ServiceBusLive_RpcRoundTrip ::
  "cpp_env \<Rightarrow> sb_opener \<Rightarrow> (sb_link \<Rightarrow> sb_link) \<Rightarrow> (sb_message \<Rightarrow> bool result) \<Rightarrow>
     send_attempt \<times> send_attempt \<Rightarrow> string \<Rightarrow> string \<Rightarrow> bool" where
  "ServiceBusLive_RpcRoundTrip env open_link later send as cid session =
     (case getenv env ''SERVICEBUS_CONNECTION_STRING'' of
        None \<Rightarrow> True
      | Some connectionString \<Rightarrow>
          (let queue = EnvOr env ''SERVICEBUS_QUEUE'' ''queue-01'';
               replyQueue = EnvOr env ''SERVICEBUS_REPLY_QUEUE'' ''graftcode-rpc-reply-session'';
               serverConfig = sb_live_json connectionString queue replyQueue;
               server = sb_configure env (Some serverConfig) (Some EchoCallback) new_sb_server;
               config = default_sb_client\<lparr>sb_connectionString := connectionString, sb_queue := queue,
                          sb_replyQueue := replyQueue, sb_rpcTimeoutMs := 20000\<rparr>
           in no_throw (fst server) \<and>
              sb_SendRpc_vector (sb_live_caller open_link later send cid (snd server) as) config session
                kSamplePayload = (True, kSamplePayload)))"

definition ServiceBusLive_OneWayTopicRoundTrip ::
  "cpp_env \<Rightarrow> sb_opener \<Rightarrow> (sb_link \<Rightarrow> sb_link) \<Rightarrow> (sb_message \<Rightarrow> bool result) \<Rightarrow>
     send_attempt \<times> send_attempt \<Rightarrow> string \<Rightarrow> string \<Rightarrow> bool" where
  "ServiceBusLive_OneWayTopicRoundTrip env open_link later send as cid session =
     (case getenv env ''SERVICEBUS_CONNECTION_STRING'' of
        None \<Rightarrow> True
      | Some connectionString \<Rightarrow>
          (let topic = EnvOr env ''SERVICEBUS_TOPIC'' ''topic-01'';
               subscription = EnvOr env ''SERVICEBUS_SUBSCRIPTION'' ''graftcode-test-sub'';
               serverConfig = sb_oneway_json connectionString topic subscription;
               server = sb_configure env (Some serverConfig) (Some sb_RecordOneWayCallback) new_sb_server;
               config = default_sb_client\<lparr>sb_connectionString := connectionString, sb_topic := topic\<rparr>;
               call = sb_live_caller open_link later send cid (snd server) as;
               seen = fst (sb_served (snd server) as (sb_live_sent open_link later send cid
                 (sb_vector_buf kSamplePayload) (new_ServiceBusRpcClient config session)))
           in no_throw (fst server) \<and>
              PublishOneWay_vector call config session kSamplePayload \<and>
              filter (\<lambda>a. \<exists>d. a = SProcess d) seen = [SProcess kSamplePayload]))"

section \<open>The tests pass\<close>

text \<open>A client that opens its link with the call.\<close>

lemma sb_Call_opens:
  assumes "open_link (sk_config c) (sk_replySessionId c) = Inr l" "\<not> sl_broken l" "sk_link c = None"
  shows "sb_Call open_link later send cid during d c =
    (if buf_size d > 0 \<and> buf_is_null d
     then (Inl (InvalidArgument ''Service Bus client: null payload with non-zero length''), c, [])
     else sb_Call open_link later send cid during d (c\<lparr>sk_link := Some l\<rparr>))"
  using assms by (simp add: sb_Call_def sb_CurrentLink_def sb_relink_def)

lemma sb_live_opened:
  assumes "sb_topic config \<noteq> [] \<or> sb_queue config \<noteq> [] \<and> sb_replyQueue config \<noteq> []"
    and "sb_connectionString config \<noteq> []"
    and "\<And>s. connect s = Inr ()" "\<And>q s. openReceiver q s = Inr ()" "\<And>e. openSender e = Inr True"
  shows "sb_open_link connect openReceiver openSender config session =
    Inr \<lparr>sl_receiver = sb_topic config = [], sl_broken = False\<rparr>"
  using assms by (auto simp: sb_open_link_def BuildConnectionString_def Let_def)

lemma sb_sent_same:
  "snd (snd (sb_Call open_link later send cid during d c)) = sb_live_sent open_link later send cid d c"
  by (simp add: sb_live_sent_def sb_Call_def case_prod_unfold split: sum.split)

lemma sb_replies_published:
  assumes "at_open (fst as) = Inr True" "at_send (fst as) = Inr True"
  obtains cache where "sb_publish as entity response i session new_sender_cache = (Inr True, cache)"
    "sb_replies cache = [response_message response i session]"
  by (simp add: sb_publish_def publish_attempt_def acquire_def open_sender_def new_sender_cache_def
      assms Let_def sb_replies_def)

text \<open>A request of a client is answered to its session with what the callback wrote.\<close>

lemma sb_served_request:
  assumes "at_open (fst as) = Inr True" "at_send (fst as) = Inr True"
    and "\<not> fst (sb_source (sg_config g))" "sg_processMessage g = Some process"
    and "process d = Inr (writes, True)" "d \<noteq> []"
    and "sb_replyQueue (sk_config c) \<noteq> []" "sk_replySessionId c \<noteq> []"
  shows "sb_replies (snd (sb_served g as [request_message c cid (Buf d)])) =
    [response_message (fold sb_writeResponse writes []) (AmqpString cid) (Some (sk_replySessionId c))]"
proof -
  let ?m = "request_message c cid (Buf d)" and ?response = "fold sb_writeResponse writes []"
  have fields: "extractMessageBody ?m = d" "tryGetReplyTo ?m = Some (sb_replyQueue (sk_config c))"
    "tryGetReplySessionId ?m = Some (sk_replySessionId c)" "sm_messageId ?m = AmqpString cid"
    using assms(7,8)
    by (simp_all add: extractMessageBody_def tryGetReplyTo_def tryGetReplySessionId_def message_fields)
  then have "accepted (Some process) ?m = Some ?response"
    using assms(5,6) by (simp add: accepted_def)
  moreover obtain cache where "sb_publish as (sb_replyQueue (sk_config c)) ?response (AmqpString cid)
      (Some (sk_replySessionId c)) new_sender_cache = (Inr True, cache)"
    "sb_replies cache = [response_message ?response (AmqpString cid) (Some (sk_replySessionId c))]"
    by (rule sb_replies_published [OF assms(1,2)])
  ultimately show ?thesis
    using assms(3,4) by (simp add: sb_served_def sb_handle_accepted sb_reply_def Let_def fields)
qed

lemma sb_live_rpc:
  assumes "at_open (fst as) = Inr True" "at_send (fst as) = Inr True" "\<And>m. send m = Inr True"
    and "\<not> fst (sb_source (sg_config g))" "sg_processMessage g = Some process"
    and "process d = Inr (writes, True)" "d \<noteq> []"
    and "open_link config session = Inr l" "\<not> sl_broken l"
    and "sb_topic config = []" "sb_replyQueue config \<noteq> []" "session \<noteq> []"
  shows "fst (sb_live_caller open_link later send cid g as (Buf d) (new_ServiceBusRpcClient config session)) =
    Inr (fold sb_writeResponse writes [])"
proof -
  define c where "c = (new_ServiceBusRpcClient config session)\<lparr>sk_link := Some l\<rparr>"
  define response where "response = fold sb_writeResponse writes []"
  define reply where "reply = response_message response (AmqpString cid) (Some session)"
  let ?during = "snd (sb_DispatchReplies [(False, SbIncoming None (Some reply))] \<lparr>sl_receiver = True, sl_broken = False\<rparr>)"
  have c: "pending_wf (sk_pending c)" "\<not> closed (sk_pending c)" "map_of (slots (sk_pending c)) cid = None"
    "sk_link c = Some l" "sk_config c = config" "sk_replySessionId c = session"
    by (simp_all add: c_def new_ServiceBusRpcClient_def) (simp_all add: new_pending_def pending_wf_def)
  have opens: "sb_Call open_link later send cid during (Buf d) (new_ServiceBusRpcClient config session) =
      sb_Call open_link later send cid during (Buf d) c" for during
    using sb_Call_opens [of open_link "new_ServiceBusRpcClient config session" l later send cid during "Buf d"] assms(8,9)
    by (simp add: new_ServiceBusRpcClient_def c_def)
  have call: "\<exists>p. sb_Call open_link later send cid during (Buf d) c =
      (case first_settle cid during of
         Waiting \<Rightarrow> Inl (sb_timeout config cid)
       | Failed e \<Rightarrow> Inl (RuntimeError e)
       | Done pl \<Rightarrow> Inr pl, p, [request_message c cid (Buf d)])" if "leaves cid during" for during
    using sb_call_general [OF c(1-3) that c(4) assms(9), of "Buf d" open_link later send] assms(3,10)
    unfolding c(5) by (auto simp: sb_Send_def)
  have "sb_live_sent open_link later send cid (Buf d) (new_ServiceBusRpcClient config session) =
      [request_message c cid (Buf d)]"
    using call [of "[]"] by (auto simp: sb_live_sent_def opens)
  moreover have "sb_replies (snd (sb_served g as [request_message c cid (Buf d)])) = [reply]"
    using sb_served_request [OF assms(1,2,4-7), of c cid] assms(11,12) by (simp add: c reply_def response_def)
  moreover have "reply_events reply = [EComplete cid response]"
    by (simp add: reply_def response_message_def new_sb_message_def reply_events_def Let_def)
  ultimately show ?thesis
    using call [of ?during]
    by (auto simp: sb_live_caller_def Let_def opens response_def case_prod_unfold)
qed

text \<open>A one-way message is only processed.\<close>

lemma sb_live_oneway:
  assumes "\<And>m. send m = Inr True" "fst (sb_source (sg_config g))" "sg_processMessage g = Some process"
    and "process d = Inr (writes, True)" "d \<noteq> []"
    and "open_link config session = Inr l" "\<not> sl_broken l" "sb_topic config \<noteq> []"
  shows "fst (sb_live_caller open_link later send cid g as (Buf d) (new_ServiceBusRpcClient config session)) = Inr []"
    "fst (sb_served g as (sb_live_sent open_link later send cid (Buf d) (new_ServiceBusRpcClient config session))) =
       [SProcess d, SLog ''processed one-way message'']"
proof -
  have call: "\<exists>c'. sb_Call open_link later send cid during (Buf d) (new_ServiceBusRpcClient config session) =
      (Inr [], c', [oneway_message cid (Buf d)])" for during
    using assms(1,6-8)
    by (auto simp: sb_Call_def sb_CurrentLink_def sb_relink_def new_ServiceBusRpcClient_def sb_Send_def case_prod_unfold)
  show "fst (sb_live_caller open_link later send cid g as (Buf d) (new_ServiceBusRpcClient config session)) = Inr []"
    using call by (auto simp: sb_live_caller_def Let_def) (metis fst_conv)
  have "sb_live_sent open_link later send cid (Buf d) (new_ServiceBusRpcClient config session) =
      [oneway_message cid (Buf d)]"
    using call [of "[]"] by (auto simp: sb_live_sent_def)
  moreover have "extractMessageBody (oneway_message cid (Buf d)) = d"
    by (simp add: extractMessageBody_def message_fields)
  ultimately show "fst (sb_served g as (sb_live_sent open_link later send cid (Buf d)
      (new_ServiceBusRpcClient config session))) = [SProcess d, SLog ''processed one-way message'']"
    using assms(2-5) by (simp add: sb_served_def sb_handle_def Let_def case_prod_unfold)
qed

section \<open>Property\<close>

text \<open>The servers of the tests accept their configurations.\<close>

lemma sb_live_server:
  assumes "json_parse env (normalizeRelaxedJson (sb_live_json connectionString queue replyQueue)) =
      Inr (sb_live_doc connectionString queue replyQueue)"
    and "connectionString \<noteq> []" "queue \<noteq> []"
  shows "\<exists>config. sb_configure env (Some (sb_live_json connectionString queue replyQueue)) (Some f) new_sb_server =
      (Inr (), new_sb_server\<lparr>sg_config := config, sg_processMessage := Some f\<rparr>) \<and> \<not> fst (sb_source config)"
proof -
  have "sb_live_json connectionString queue replyQueue \<noteq> []" by (simp add: sb_live_json_def)
  then have "\<exists>config. sb_applyConfigFromJson env (sb_live_json connectionString queue replyQueue) = Inr config \<and> \<not> fst (sb_source config)"
    using assms
    by (simp add: sb_applyConfigFromJson_def sb_live_doc_def sb_server_strings_def
        getOptionalString_ReadString ReadString_def read_flag_def read_or_throw_def default_sb_server_def
        check_sb_server_def sb_buildConnectionString_def BuildConnectionString_def sb_source_def Let_def)
  then show ?thesis by (auto simp: sb_configure_def)
qed

lemma sb_oneway_server:
  assumes "json_parse env (normalizeRelaxedJson (sb_oneway_json connectionString topic subscription)) =
      Inr (sb_oneway_doc connectionString topic subscription)"
    and "connectionString \<noteq> []" "topic \<noteq> []" "subscription \<noteq> []"
  shows "\<exists>config. sb_configure env (Some (sb_oneway_json connectionString topic subscription)) (Some f) new_sb_server =
      (Inr (), new_sb_server\<lparr>sg_config := config, sg_processMessage := Some f\<rparr>) \<and> fst (sb_source config)"
proof -
  have "sb_oneway_json connectionString topic subscription \<noteq> []" by (simp add: sb_oneway_json_def)
  then have "\<exists>config. sb_applyConfigFromJson env (sb_oneway_json connectionString topic subscription) = Inr config \<and> fst (sb_source config)"
    using assms
    by (simp add: sb_applyConfigFromJson_def sb_oneway_doc_def sb_server_strings_def
        getOptionalString_ReadString ReadString_def read_flag_def read_or_throw_def default_sb_server_def
        check_sb_server_def sb_buildConnectionString_def BuildConnectionString_def sb_source_def Let_def)
  then show ?thesis by (auto simp: sb_configure_def)
qed

lemma kSamplePayload_not_Nil: "kSamplePayload \<noteq> []" "sb_vector_buf kSamplePayload = Buf kSamplePayload"
  by (simp_all add: sb_vector_buf_def kSamplePayload_def)

text \<open>
  The live tests of the Service Bus plugin pass.  With a namespace that accepts connections, links
  and messages, a parser that reads the two documents, once relaxed, as what they spell, and names
  that are not empty, both servers accept their configuration; the call returns the bytes it sent,
  which the server's reply brings back to the session of the client; and the callback of the one-way
  server gets the published bytes once and nothing else.
\<close>
theorem sb_live_round_trips:
  fixes connect openReceiver openSender
  defines "open_link \<equiv> sb_open_link connect openReceiver openSender"
  assumes "getenv env ''SERVICEBUS_CONNECTION_STRING'' = Some connectionString" "connectionString \<noteq> []"
    and "queue = EnvOr env ''SERVICEBUS_QUEUE'' ''queue-01''" "queue \<noteq> []"
    and "replyQueue = EnvOr env ''SERVICEBUS_REPLY_QUEUE'' ''graftcode-rpc-reply-session''" "replyQueue \<noteq> []"
    and "topic = EnvOr env ''SERVICEBUS_TOPIC'' ''topic-01''" "topic \<noteq> []"
    and "subscription = EnvOr env ''SERVICEBUS_SUBSCRIPTION'' ''graftcode-test-sub''" "subscription \<noteq> []"
    and "json_parse env (normalizeRelaxedJson (sb_live_json connectionString queue replyQueue)) =
        Inr (sb_live_doc connectionString queue replyQueue)"
      "json_parse env (normalizeRelaxedJson (sb_oneway_json connectionString topic subscription)) =
        Inr (sb_oneway_doc connectionString topic subscription)"
    and "\<And>s. connect s = Inr ()" "\<And>q s. openReceiver q s = Inr ()" "\<And>e. openSender e = Inr True"
    and "\<And>m. send m = Inr True" "at_open (fst as) = Inr True" "at_send (fst as) = Inr True" "session \<noteq> []"
  shows "ServiceBusLive_RpcRoundTrip env open_link later send as cid session \<and>
    ServiceBusLive_OneWayTopicRoundTrip env open_link later send as cid session"
proof
  let ?rpc = "default_sb_client\<lparr>sb_connectionString := connectionString, sb_queue := queue,
    sb_replyQueue := replyQueue, sb_rpcTimeoutMs := 20000\<rparr>"
  let ?oneway = "default_sb_client\<lparr>sb_connectionString := connectionString, sb_topic := topic\<rparr>"
  note opens = sb_live_opened [of _ connect openReceiver openSender session, OF _ _ assms(14-16), folded open_link_def]
  have rpc: "open_link ?rpc session = Inr \<lparr>sl_receiver = True, sl_broken = False\<rparr>"
    using opens [of ?rpc] assms(3,5,7) by (simp add: default_sb_client_def)
  have oneway: "open_link ?oneway session = Inr \<lparr>sl_receiver = False, sl_broken = False\<rparr>"
    using opens [of ?oneway] assms(3,9) by (simp add: default_sb_client_def)
  obtain config where server: "sb_configure env (Some (sb_live_json connectionString queue replyQueue))
      (Some EchoCallback) new_sb_server =
      (Inr (), new_sb_server\<lparr>sg_config := config, sg_processMessage := Some EchoCallback\<rparr>)"
    "\<not> fst (sb_source config)"
    using sb_live_server [OF assms(12,3,5)] by blast
  let ?g = "new_sb_server\<lparr>sg_config := config, sg_processMessage := Some EchoCallback\<rparr>"
  have "fst (sb_live_caller open_link later send cid ?g as (Buf kSamplePayload)
      (new_ServiceBusRpcClient ?rpc session)) = Inr (fold sb_writeResponse [Buf kSamplePayload] [])"
    by (rule sb_live_rpc [where process = EchoCallback and l = "\<lparr>sl_receiver = True, sl_broken = False\<rparr>"])
      (use assms(7,17-20) server(2) rpc in
        \<open>simp_all add: EchoCallback_def kSamplePayload_not_Nil default_sb_client_def\<close>)
  then show "ServiceBusLive_RpcRoundTrip env open_link later send as cid session"
    using server(1) assms(2,4,6) kSamplePayload_not_Nil
    by (simp add: ServiceBusLive_RpcRoundTrip_def Let_def sb_SendRpc_vector_def sb_SendRpc_def sb_writeResponse_def)
  obtain config' where server': "sb_configure env (Some (sb_oneway_json connectionString topic subscription))
      (Some sb_RecordOneWayCallback) new_sb_server =
      (Inr (), new_sb_server\<lparr>sg_config := config', sg_processMessage := Some sb_RecordOneWayCallback\<rparr>)"
    "fst (sb_source config')"
    using sb_oneway_server [OF assms(13,3,9,11)] by blast
  let ?g' = "new_sb_server\<lparr>sg_config := config', sg_processMessage := Some sb_RecordOneWayCallback\<rparr>"
  have "sg_processMessage ?g' = Some sb_RecordOneWayCallback" "fst (sb_source (sg_config ?g'))"
    "sb_RecordOneWayCallback kSamplePayload = Inr ([], True)"
    using server'(2) by (simp_all add: sb_RecordOneWayCallback_def)
  from sb_live_oneway [where send = send and g = ?g' and process = sb_RecordOneWayCallback and d = kSamplePayload
      and open_link = open_link and session = session, OF assms(17) this(2,1,3) kSamplePayload_not_Nil(1) oneway]
  show "ServiceBusLive_OneWayTopicRoundTrip env open_link later send as cid session"
    using server'(1) assms(2,8,10,9) kSamplePayload_not_Nil(2)
    by (simp add: ServiceBusLive_OneWayTopicRoundTrip_def Let_def PublishOneWay_vector_def PublishOneWay_def
        default_sb_client_def)
qed

definition sb_live_documents :: "(string \<times> json) list" where
  "sb_live_documents =
    [(normalizeRelaxedJson (sb_live_json ''Endpoint=sb://x/'' ''queue-01'' ''graftcode-rpc-reply-session''),
      sb_live_doc ''Endpoint=sb://x/'' ''queue-01'' ''graftcode-rpc-reply-session''),
     (normalizeRelaxedJson (sb_oneway_json ''Endpoint=sb://x/'' ''topic-01'' ''graftcode-test-sub''),
      sb_oneway_doc ''Endpoint=sb://x/'' ''topic-01'' ''graftcode-test-sub'')]"

definition sb_live_env :: cpp_env where
  "sb_live_env = (doc_env sb_live_documents)\<lparr>getenv := [''SERVICEBUS_CONNECTION_STRING'' \<mapsto> ''Endpoint=sb://x/'']\<rparr>"

lemma sb_live_round_trips_witness:
  "ServiceBusLive_RpcRoundTrip sb_live_env (sb_open_link (\<lambda>_. Inr ()) (\<lambda>_ _. Inr ()) (\<lambda>_. Inr True)) id
     (\<lambda>_. Inr True) (example_attempt 0 True, example_attempt 1 True) ''id'' ''session'' \<and>
   ServiceBusLive_OneWayTopicRoundTrip sb_live_env (sb_open_link (\<lambda>_. Inr ()) (\<lambda>_ _. Inr ()) (\<lambda>_. Inr True)) id
     (\<lambda>_. Inr True) (example_attempt 0 True, example_attempt 1 True) ''id'' ''session''"
proof -
  have "distinct (map fst sb_live_documents)" by code_simp
  from reads_doc_env [OF this] have docs:
    "json_parse sb_live_env (normalizeRelaxedJson
       (sb_live_json ''Endpoint=sb://x/'' ''queue-01'' ''graftcode-rpc-reply-session'')) =
       Inr (sb_live_doc ''Endpoint=sb://x/'' ''queue-01'' ''graftcode-rpc-reply-session'')"
    "json_parse sb_live_env (normalizeRelaxedJson
       (sb_oneway_json ''Endpoint=sb://x/'' ''topic-01'' ''graftcode-test-sub'')) =
       Inr (sb_oneway_doc ''Endpoint=sb://x/'' ''topic-01'' ''graftcode-test-sub'')"
    by (simp_all add: sb_live_env_def sb_live_documents_def)
  show ?thesis
    by (rule sb_live_round_trips [OF _ _ _ _ _ _ _ _ _ _ docs])
      (simp_all add: sb_live_env_def EnvOr_def example_attempt_def)
qed

end
