(* ===== verification/PubSubLive.thy ===== *)
theory PubSubLive
  imports PubSubTests SqsLive PluginExchange
begin

text \<open>
  The test of the Pub/Sub plugin against a live service or its emulator
  (\<^verbatim>\<open>PubSubLive.RpcRoundTrip\<close> of \<^verbatim>\<open>PubSubTransportTests.cpp\<close>): a server and
  two clients are configured from the same JSON, with topics of their own, and two calls and a
  one-way call go through a service that hands over every message once.  The threads of the test are
  the order of its parts here; that \<^verbatim>\<open>stop\<close> ends the server is a theorem of
  \<^verbatim>\<open>PubSubServer\<close>.
\<close>

section \<open>The configuration\<close>

text \<open>\<^verbatim>\<open>EnvOr\<close> of this program: an empty variable counts as none.\<close>

definition pubsub_EnvOr :: "cpp_env \<Rightarrow> string \<Rightarrow> string \<Rightarrow> string" where
  "pubsub_EnvOr env name fallback =
     (case getenv env name of
        Some value \<Rightarrow> if value \<noteq> [] then value else fallback
      | None \<Rightarrow> fallback)"

definition pubsub_live_json :: "cpp_env \<Rightarrow> string \<Rightarrow> string" where
  \<open>pubsub_live_json env suffix =
     ''{"projectId":"'' @ EscapeJson (pubsub_EnvOr env ''PUBSUB_PROJECT_ID'' ''graftcode-local'') @
     ''","emulatorHost":"'' @ EscapeJson (pubsub_EnvOr env ''PUBSUB_EMULATOR_HOST'' ''localhost:8085'') @
     ''","requestTopic":"'' @ ''graftreq'' @ suffix @
     ''","replyTopic":"'' @ ''graftrep'' @ suffix @
     ''","autoCreate":true,"verifySsl":false,"rpcTimeoutMs":20000,'' @
     ''"ackDeadlineSeconds":30}''\<close>

text \<open>What a parser makes of this text and of the one-way text made from it.\<close>

definition pubsub_live_doc :: "cpp_env \<Rightarrow> string \<Rightarrow> bool \<Rightarrow> json" where
  "pubsub_live_doc env suffix oneWay =
     JObject ([(''ackDeadlineSeconds'', JUnsigned 30), (''autoCreate'', JBool True),
       (''emulatorHost'', JString (pubsub_EnvOr env ''PUBSUB_EMULATOR_HOST'' ''localhost:8085''))] @
       (if oneWay then [(''oneWay'', JBool True)] else []) @
       [(''projectId'', JString (pubsub_EnvOr env ''PUBSUB_PROJECT_ID'' ''graftcode-local'')),
       (''replyTopic'', JString (''graftrep'' @ suffix)), (''requestTopic'', JString (''graftreq'' @ suffix)),
       (''rpcTimeoutMs'', JUnsigned 20000), (''verifySsl'', JBool False)])"

section \<open>A call through the service\<close>

text \<open>What the callback is given while the server handles the published requests.\<close>

definition pubsub_seen :: "pubsub_serving \<Rightarrow> json list \<Rightarrow> bytes list" where
  "pubsub_seen x published =
     (case x of (config, process, se, w, ackId) \<Rightarrow>
        concat (map (\<lambda>q. case pubsub_pulled ackId q of
            None \<Rightarrow> []
          | Some m \<Rightarrow> concat (map (\<lambda>a. case a of PsProcess d \<Rightarrow> [d] | _ \<Rightarrow> [])
              (fst (HandleMessage config process se (w, m))))) published))"

text \<open>
  The call publishes its request, the server handles what was published, and the dispatcher of the
  client pulls the replies while the call waits.  All requests meet the same world \<open>w\<close>, and the
  first attempt to publish is the last one before the deadline.
\<close>

definition pubsub_live_call ::
  "pubsub_serving \<Rightarrow> string \<Rightarrow> buf \<Rightarrow> pubsub_client \<Rightarrow> (bytes result \<times> pubsub_client) option \<times> bytes list"
where
  "pubsub_live_call x correlationId d client =
     (case x of (config, process, se, w, ackId) \<Rightarrow>
        (let published = pubsub_requests (pc_config client) correlationId d;
             during = concat (map (pubsub_deliver ackId) (concat (map (pubsub_replies x) published)))
         in (PubSubCall (True, True, True) w w w correlationId during [(w, False)] d client,
             pubsub_seen x published)))"

section \<open>The test\<close>

text \<open>\<^verbatim>\<open>PubSubClient(ParsePubSubConfigSource(json))\<close>\<close>

definition pubsub_live_client :: "cpp_env \<Rightarrow> string \<Rightarrow> pubsub_client result" where
  "pubsub_live_client env json = rbind (ParsePubSubConfigSource env json) (new_PubSubClient env)"

text \<open>A server that was configured, with the session of its run.\<close>

definition pubsub_live_server ::
  "cpp_env \<Rightarrow> string \<Rightarrow> ps_process \<Rightarrow> pubsub_world \<Rightarrow> string \<Rightarrow> pubsub_serving result" where
  "pubsub_live_server env json process w ackId =
     (case ps_configure env json True new_PubSubServer of
        (Inl e, s) \<Rightarrow> Inl e
      | (Inr _, s) \<Rightarrow> rbind (new_session True (pv_config s)) (\<lambda>se.
          Inr (pv_config s, process, se, w, ackId)))"

definition returns :: "(bytes result \<times> pubsub_client) option \<Rightarrow> (bytes \<Rightarrow> bool) \<Rightarrow> bool" where
  "returns call P = (case call of None \<Rightarrow> False | Some (r, _) \<Rightarrow> value_is r P)"

definition PubSubLive_RpcRoundTrip ::
  "cpp_env \<Rightarrow> pubsub_world \<Rightarrow> (nat \<Rightarrow> u64 \<times> u64) \<Rightarrow> string \<Rightarrow> bool" where
  "PubSubLive_RpcRoundTrip env w random ackId =
     (if getenv env ''PUBSUB_EMULATOR_HOST'' \<in> {None, Some []} \<and> getenv env ''PUBSUB_LIVE'' \<in> {None, Some []}
      then True
      else
        let NewCorrelationId = (\<lambda>i. pubsub_NewCorrelationId (fst (random i)) (snd (random i)));
            suffix = take 12 (NewCorrelationId 0);
            json = pubsub_live_json env suffix;
            oneWayJson = one_way_json json
        in value_is (pubsub_live_server env json EchoCallback w ackId) (\<lambda>server.
             value_is (pubsub_live_client env json) (\<lambda>client.
               returns (fst (pubsub_live_call server (NewCorrelationId 1) (Buf kPayload) client)) (\<lambda>response.
                 response = kPayload)) \<and>
             value_is (pubsub_live_client env json) (\<lambda>client.
               returns (fst (pubsub_live_call server (NewCorrelationId 2) (Null 0) client)) (\<lambda>emptyResponse.
                 emptyResponse = []))) \<and>
           value_is (pubsub_live_server env oneWayJson RecordOneWayCallback w ackId) (\<lambda>oneWayServer.
             value_is (pubsub_live_client env oneWayJson) (\<lambda>client.
               case pubsub_live_call oneWayServer (NewCorrelationId 3) (Buf kPayload) client of
                 (oneWayResult, seen) \<Rightarrow> returns oneWayResult (\<lambda>r. r = []) \<and> g_oneWaySeen seen)))"

section \<open>A service that accepts every request\<close>

definition accepting :: "pubsub_world \<Rightarrow> bool" where
  "accepting w \<longleftrightarrow> (\<forall>rq. \<exists>body. w_perform w rq = CurlOk 200 body)"

text \<open>With an emulator host no request needs a token.\<close>

lemma api_call_accepted:
  assumes "accepting w" "ps_emulatorHost (se_config se) \<noteq> []"
    and "\<And>body. finish \<lparr>hr_status = 200, hr_timedOut = False, hr_body = body, hr_error = []\<rparr> = Inr v"
  shows "api_call w method url j timeoutMs finish se = (Inr v, se)"
proof -
  let ?rq = "build_request (se_config se) method url (w_dump w j) [] timeoutMs []"
  obtain body where "w_perform w ?rq = CurlOk 200 body"
    using assms(1) unfolding accepting_def by blast
  then show ?thesis using assms(2,3) by (simp add: api_call_def Request_def perform_request_def)
qed

lemma requests_accepted:
  assumes "accepting w" "ps_emulatorHost (se_config se) \<noteq> []"
  shows "EnsureTopic w topic se = (Inr (), se)"
    "EnsureSubscription w subscription topic se = (Inr (), se)"
    "Acknowledge w subscription ackIds se = (Inr (), se)"
    "buf_size d \<le> MaxPayloadBytes \<Longrightarrow> Base64Encode d = Inr encoded \<Longrightarrow> Publish w topic d attributes se = (Inr (), se)"
  by (simp_all add: EnsureTopic_def EnsureSubscription_def Acknowledge_def Publish_def Let_def
      api_call_accepted [OF assms] already_exists_def ThrowIfHttpFailed_def)

section \<open>A call is answered\<close>

text \<open>The bytes of a message that the plugin can publish.\<close>

definition publishable :: "buf \<Rightarrow> bytes \<Rightarrow> bool" where
  "publishable d x \<longleftrightarrow> (d = Buf x \<or> d = Null 0 \<and> x = []) \<and> length x \<le> MaxPayloadBytes"

lemma publishable_encoded:
  assumes "publishable d x"
  obtains encoded where "Base64Encode d = Inr encoded" "buf_bytes d = x" "buf_size d \<le> MaxPayloadBytes"
    "\<not> (buf_size d > 0 \<and> buf_is_null d)"
  using assms by (cases "x = []") (auto simp: publishable_def Base64Encode_def)

lemma published_pulled:
  assumes "publishable d x" "distinct (map fst attributes)"
  obtains q where "pubsub_published d attributes = [q]"
    "\<And>ackId. pubsub_pulled ackId q = Some \<lparr>pm_ackId = ackId, pm_data = x, pm_attributes = map_of attributes\<rparr>"
proof -
  obtain encoded where enc: "Base64Encode d = Inr encoded" "buf_bytes d = x"
    by (rule publishable_encoded [OF assms(1)])
  then have q: "pubsub_published d attributes = [message_of (publish_body encoded attributes)]"
    by (simp add: pubsub_published_def)
  show ?thesis
    using that [OF q] pulled_published [OF _ assms(2), of _ d] q enc(2) by simp
qed

lemma call_attributes_distinct: "distinct (map fst (call_attributes config cid))"
  by (simp add: call_attributes_def CorrelationIdAttr_def ReplyToAttr_def)

text \<open>The start and the publishing of a new client go through.\<close>

lemma PubSubCall_accepted:
  assumes world: "accepting w" and d: "publishable d x"
    and host: "ps_emulatorHost (pc_config c) \<noteq> []"
    and fresh: "\<not> pc_started c" "pc_idleSessions c = []" "pc_pending c = new_pending"
    and events: "leaves cid during"
  shows "\<exists>c'. PubSubCall (True, True, True) w w w cid during [(w, False)] d c =
    Some (if ps_oneWay (pc_config c) then Inr []
          else (case first_settle cid during of
                  Waiting \<Rightarrow> Inl (pubsub_timeout (pc_config c) cid)
                | Failed e \<Rightarrow> Inl (RuntimeError e)
                | Done pl \<Rightarrow> Inr pl), c')"
proof -
  obtain encoded where enc: "Base64Encode d = Inr encoded" "buf_size d \<le> MaxPayloadBytes"
    "\<not> (buf_size d > 0 \<and> buf_is_null d)" by (rule publishable_encoded [OF d])
  define se where "se = \<lparr>se_config = pc_config c, se_cachedToken = [], se_tokenExpiryEpoch = 0\<rparr>"
  note accepted = requests_accepted [OF world, of se]
  have se: "ps_emulatorHost (se_config se) \<noteq> []" using host by (simp add: se_def)
  have created: "create_resources w w w (pc_config c) se = (Inr (), se)"
    using accepted(1,2) [OF se] by (simp add: create_resources_def)
  obtain c1 where start: "EnsureStarted True True w w w c = (Inr (), c1)" "pc_config c1 = pc_config c"
    "pc_pending c1 = new_pending" "pc_idleSessions c1 = [se]"
    using fresh created
    by (cases "ps_oneWay (pc_config c)")
      (simp_all add: EnsureStarted_def AcquireSession_def new_session_def ReleaseSession_def Let_def flip: se_def)
  have pub: "\<exists>c2. call_publish True cid [(w, False)] d c1 = Some (Inr (), c2)"
    using accepted(4) [OF se enc(2,1)] start(4) by (simp add: call_publish_def AcquireSession_def)
  have "\<exists>c'. call_started True cid during [(w, False)] d c1 =
    Some (if ps_oneWay (pc_config c) then Inr []
          else (case first_settle cid during of
                  Waiting \<Rightarrow> Inl (pubsub_timeout (pc_config c) cid)
                | Failed e \<Rightarrow> Inl (RuntimeError e)
                | Done pl \<Rightarrow> Inr pl), c')"
  proof (cases "ps_oneWay (pc_config c)")
    case True
    then show ?thesis using pub start(2) by (auto simp: call_started_def)
  next
    case False
    have table: "pending_wf new_pending" "\<not> closed new_pending" "map_of (slots new_pending) cid = None"
      by (simp_all add: new_pending_def pending_wf_def)
    obtain t p where reg: "Register cid new_pending = Inr (t, p)"
      by (rule Register_succeeds [OF table(2,3)])
    obtain c2 where c2: "call_publish True cid [(w, False)] d c1 = Some (Inr (), c2)" using pub ..
    then have "pc_config c2 = pc_config c" using call_publish_keeps [OF c2] start(2) by simp
    with False reg c2 start(2,3) wait_after_run(1) [OF table(1) reg events] show ?thesis
      by (cases "Wait t (fold pr_apply during p)")
        (auto simp: call_started_def Let_def split: outcome.split)
  qed
  then show ?thesis
    using start(1) enc(2,3) by (auto simp: PubSubCall_def)
qed
text \<open>What the server does with a request that it can answer.\<close>

lemma HandleMessage_accepted:
  assumes world: "accepting w" "ps_emulatorHost (se_config se) \<noteq> []" "ackId \<noteq> []"
    and process: "process x = Inr (writes, True)" "length (fold ps_writeResponse writes []) \<le> MaxPayloadBytes"
    and m: "pm_ackId m = ackId" "pm_data m = x"
    and rpc: "ps_oneWay config \<or> Attribute (pm_attributes m) CorrelationIdAttr \<noteq> [] \<and>
      IsValidResourceId (Attribute (pm_attributes m) ReplyToAttr)"
  shows "fst (HandleMessage config process se (w, m)) = PsProcess x #
    (if ps_oneWay config then []
     else [PsReply (Attribute (pm_attributes m) ReplyToAttr) (fold ps_writeResponse writes [])
       [(CorrelationIdAttr, Attribute (pm_attributes m) CorrelationIdAttr)]]) @
    [PsAck (ps_requestSubscription config) ackId]"
proof -
  obtain encoded where enc: "Base64Encode (Buf (fold ps_writeResponse writes [])) = Inr encoded"
    by (cases "fold ps_writeResponse writes [] = []") (auto simp: Base64Encode_def)
  have ack: "fst (ps_acknowledge w config m acts se) = acts @ [PsAck (ps_requestSubscription config) ackId]" for acts
    using assms(3) m(1) by (simp add: ps_acknowledge_def requests_accepted [OF world(1,2)])
  show ?thesis
  proof (cases "ps_oneWay config")
    case True
    then show ?thesis by (simp add: HandleMessage_def Let_def m process ack)
  next
    case False
    moreover from False rpc have "Attribute (pm_attributes m) ReplyToAttr \<noteq> []" using not_valid_Nil by metis
    moreover have "Publish w topic (Buf (fold ps_writeResponse writes [])) attributes se = (Inr (), se)"
      for topic attributes
      by (rule requests_accepted(4) [OF world(1,2) _ enc]) (simp add: process)
    ultimately show ?thesis
      using rpc by (simp add: HandleMessage_def Let_def m process ack)
  qed
qed

text \<open>The reply that the server publishes completes the call with what the callback wrote.\<close>

lemma live_rpc_answered:
  assumes world: "accepting w" "ackId \<noteq> []" "ps_emulatorHost (se_config se) \<noteq> []"
    and d: "publishable d x"
    and process: "process x = Inr (writes, True)" "length (fold ps_writeResponse writes []) \<le> MaxPayloadBytes"
    and client: "ps_emulatorHost (pc_config c) \<noteq> []" "\<not> ps_oneWay (pc_config c)"
      "IsValidResourceId (ps_replyTopic (pc_config c))"
      "\<not> pc_started c" "pc_idleSessions c = []" "pc_pending c = new_pending"
    and server: "\<not> ps_oneWay config" and cid: "cid \<noteq> []"
  shows "\<exists>c'. fst (pubsub_live_call (config, process, se, w, ackId) cid d c) =
    Some (Inr (fold ps_writeResponse writes []), c')"
proof -
  define response where "response = fold ps_writeResponse writes []"
  obtain q where q: "pubsub_requests (pc_config c) cid d = [q]"
    "\<And>ackId. pubsub_pulled ackId q = Some \<lparr>pm_ackId = ackId, pm_data = x,
      pm_attributes = map_of (call_attributes (pc_config c) cid)\<rparr>"
    unfolding pubsub_requests_def by (rule published_pulled [OF d call_attributes_distinct]) blast
  have "publishable (Buf response) response" using process(2) by (simp add: publishable_def response_def)
  then obtain r where r: "pubsub_published (Buf response) [(CorrelationIdAttr, cid)] = [r]"
    "\<And>ackId. pubsub_pulled ackId r = Some \<lparr>pm_ackId = ackId, pm_data = response,
      pm_attributes = map_of [(CorrelationIdAttr, cid)]\<rparr>"
    using published_pulled [of _ _ "[(CorrelationIdAttr, cid)]"] by auto
  have attrs: "Attribute (map_of (call_attributes (pc_config c) cid)) CorrelationIdAttr = cid"
    "Attribute (map_of (call_attributes (pc_config c) cid)) ReplyToAttr = ps_replyTopic (pc_config c)"
    using client(2) by (simp_all add: Attribute_def call_attributes_def CorrelationIdAttr_def ReplyToAttr_def)
  have "pubsub_replies (config, process, se, w, ackId) q = [r]"
    using HandleMessage_accepted [where config = config and process = process and x = x, OF world(1,3,2) process]
      client(3) cid server
    by (simp add: pubsub_replies_def q attrs r(1) flip: response_def)
  moreover have "pubsub_deliver ackId r = [EComplete cid response]"
    by (simp add: pubsub_deliver_def r(2) completions_def)
  moreover have "leaves cid [EComplete cid response]" by simp
  note PubSubCall_accepted [OF world(1) d client(1,4-6) this]
  ultimately show ?thesis
    using client(2) by (simp add: pubsub_live_call_def q(1) response_def)
qed

lemma live_oneway_seen:
  assumes world: "accepting w" "ackId \<noteq> []" "ps_emulatorHost (se_config se) \<noteq> []"
    and d: "publishable d x" and process: "process x = Inr ([], True)"
    and client: "ps_emulatorHost (pc_config c) \<noteq> []" "ps_oneWay (pc_config c)"
      "\<not> pc_started c" "pc_idleSessions c = []" "pc_pending c = new_pending"
    and server: "ps_oneWay config"
  shows "\<exists>c'. pubsub_live_call (config, process, se, w, ackId) cid d c = (Some (Inr [], c'), [x])"
proof -
  obtain q where q: "pubsub_requests (pc_config c) cid d = [q]"
    "\<And>ackId. pubsub_pulled ackId q = Some \<lparr>pm_ackId = ackId, pm_data = x,
      pm_attributes = map_of (call_attributes (pc_config c) cid)\<rparr>"
    unfolding pubsub_requests_def by (rule published_pulled [OF d call_attributes_distinct]) blast
  have acts: "fst (HandleMessage config process se (w, \<lparr>pm_ackId = ackId, pm_data = x,
      pm_attributes = map_of (call_attributes (pc_config c) cid)\<rparr>)) =
      [PsProcess x, PsAck (ps_requestSubscription config) ackId]"
    using HandleMessage_accepted [where config = config and process = process and x = x, OF world(1,3,2) process]
      server by simp
  then have "pubsub_seen (config, process, se, w, ackId) [q] = [x]"
    "pubsub_replies (config, process, se, w, ackId) q = []"
    by (simp_all add: pubsub_seen_def pubsub_replies_def q(2))
  moreover have "leaves cid []" by simp
  note PubSubCall_accepted [OF world(1) d client(1,3-5) this]
  ultimately show ?thesis
    using client(2) by (simp add: pubsub_live_call_def q(1))
qed

section \<open>Property\<close>

lemma NormalizeEmulatorHost_same:
  assumes "NormalizeEmulatorHost c = Inr c'" "ps_emulatorHost c' \<noteq> []" "ps_emulatorHost d = ps_emulatorHost c"
  shows "NormalizeEmulatorHost d =
    Inr (d\<lparr>ps_emulatorUseHttps := ps_emulatorUseHttps c', ps_emulatorHost := ps_emulatorHost c'\<rparr>)"
proof -
  have "Trim (ps_emulatorHost c) \<noteq> []"
    using assms(1,2) by (auto simp: NormalizeEmulatorHost_def Let_def)
  moreover obtain https v where "(if starts_with ''https://'' (Trim (ps_emulatorHost c))
      then (True, drop 8 (Trim (ps_emulatorHost c)))
      else if starts_with ''http://'' (Trim (ps_emulatorHost c)) then (False, drop 7 (Trim (ps_emulatorHost c)))
      else (False, Trim (ps_emulatorHost c))) = (https, v)"
    by (metis surj_pair)
  ultimately show ?thesis
    using assms(1,3)
    by (cases "strip_back is_slash_char v = [] \<or> CHR ''/'' \<in> set (strip_back is_slash_char v) \<or>
          CHR '' '' \<in> set (strip_back is_slash_char v)")
      (auto simp only: NormalizeEmulatorHost_def Let_def if_True if_False simp_thms prod.case sum.simps, simp)
qed

text \<open>The topics of the test are valid names, whatever the random words are.\<close>

lemma pubsub_NewCorrelationId_chars:
  "length (pubsub_NewCorrelationId a b) = 32" "list_all is_hex_lower (pubsub_NewCorrelationId a b)"
  using hex_setw_class unsigned_less [of a, where 'a = nat] unsigned_less [of b, where 'a = nat]
  by (simp_all add: pubsub_NewCorrelationId_def length_hex_setw)

lemma is_hex_lower_alnum: "is_hex_lower c \<Longrightarrow> is_alnum c"
  by (auto simp: is_hex_lower_def char_class_defs)

lemma live_topic_valid:
  assumes "length suffix = 12" "list_all is_hex_lower suffix" "p = ''graftreq'' \<or> p = ''graftrep''"
  shows "IsValidResourceId (p @ suffix)" "IsValidResourceId (p @ suffix @ ''-sub'')"
proof -
  have "list_all is_alnum suffix"
    using assms(2) is_hex_lower_alnum by (auto simp: list_all_iff)
  then have "list_all (\<lambda>c. is_alnum c \<or> c = CHR ''-'' \<or> c = CHR ''_'' \<or> c = CHR ''.'') suffix"
    by (auto simp: list_all_iff)
  then show "IsValidResourceId (p @ suffix)" "IsValidResourceId (p @ suffix @ ''-sub'')"
    using assms(1,3) by (auto simp: IsValidResourceId_def char_class_defs)
qed

lemma pubsub_live_config:
  assumes "json_parse env text = Inr (pubsub_live_doc env suffix oneWay)" "text \<noteq> []"
    and "IsValidProjectId (pubsub_EnvOr env ''PUBSUB_PROJECT_ID'' ''graftcode-local'')"
    and "NormalizeEmulatorHost (default_pubsub_config
        \<lparr>ps_emulatorHost := pubsub_EnvOr env ''PUBSUB_EMULATOR_HOST'' ''localhost:8085''\<rparr>) = Inr host"
      "ps_emulatorHost host \<noteq> []"
    and "length suffix = 12" "list_all is_hex_lower suffix"
  shows "\<exists>config. ParsePubSubConfigSource env text = Inr config \<and>
      pubsub_ValidateClientConfig config = Inr () \<and> pubsub_ValidateServerConfig config = Inr () \<and>
      ps_emulatorHost config = ps_emulatorHost host \<and> ps_oneWay config = oneWay \<and>
      ps_replyTopic config = ''graftrep'' @ suffix"
proof -
  note host = NormalizeEmulatorHost_same [OF assms(4,5)]
  define config where "config = default_pubsub_config\<lparr>
      ps_projectId := pubsub_EnvOr env ''PUBSUB_PROJECT_ID'' ''graftcode-local'',
      ps_requestTopic := ''graftreq'' @ suffix, ps_replyTopic := ''graftrep'' @ suffix,
      ps_emulatorHost := pubsub_EnvOr env ''PUBSUB_EMULATOR_HOST'' ''localhost:8085'',
      ps_rpcTimeoutMs := 20000, ps_ackDeadlineSeconds := 30, ps_oneWay := oneWay, ps_autoCreate := True,
      ps_autoCreateSpecified := True, ps_verifySsl := False\<rparr>"
  have read: "ParsePubSubConfigSource env text = check_pubsub_config config"
    by (cases oneWay)
      (simp_all add: ParsePubSubConfigSource_def ParseJsonSource_reads [OF assms(1,2)] pubsub_live_doc_def
        pubsub_select_def HasSpecificPubSubKeys_def jcontains_def jstring_at_def read_pubsub_config_def
        read_pubsub_strings_def Let_def ReadString_def ReadPositiveUint_def ReadBool_def ReadBoolSpecified_def
        default_pubsub_config_def config_def)
  define full where "full = config\<lparr>ps_emulatorUseHttps := ps_emulatorUseHttps host,
      ps_emulatorHost := ps_emulatorHost host, ps_requestSubscription := ''graftreq'' @ suffix @ ''-sub'',
      ps_replySubscription := ''graftrep'' @ suffix @ ''-sub''\<rparr>"
  have checked: "check_pubsub_config config = Inr full"
    using host [of config]
    by (simp add: check_pubsub_config_def config_def default_pubsub_config_def DefaultSubscription_def
        full_def Let_def)
  have common: "ValidateCommon full role = Inr ()" for role
  proof -
    have "pubsub_EnvOr env ''PUBSUB_PROJECT_ID'' ''graftcode-local'' \<noteq> []"
      using assms(3) by (auto simp: IsValidProjectId_def)
    then show ?thesis
      using assms(3,5) NormalizeEmulatorHost_Inr(1,2) [OF assms(4)]
      by (simp add: full_def config_def default_pubsub_config_def ValidateCommon_def Let_def)
  qed
  have resource: "ValidateResource (p @ suffix) role field True = Inr ()"
    "ValidateResource (p @ suffix @ ''-sub'') role field True = Inr ()"
    if "p = ''graftreq'' \<or> p = ''graftrep''" for p role field
    using live_topic_valid [OF assms(6,7) that] that by (auto simp: ValidateResource_def)
  have "pubsub_ValidateClientConfig full = Inr ()" "pubsub_ValidateServerConfig full = Inr ()"
    using resource [of "''graftreq''"] resource [of "''graftrep''"]
    by (simp_all add: pubsub_ValidateClientConfig_def pubsub_ValidateServerConfig_def common)
      (simp_all add: full_def config_def)
  then show ?thesis by (simp add: read checked) (simp add: full_def config_def)
qed

text \<open>The server and the client that the test makes.\<close>

lemma pubsub_live_objects:
  assumes "ParsePubSubConfigSource env text = Inr config"
    and "pubsub_ValidateClientConfig config = Inr ()" "pubsub_ValidateServerConfig config = Inr ()"
    and "ps_emulatorHost config \<noteq> []"
  obtains config' se client where
    "pubsub_live_server env text process w ackId = Inr (config', process, se, w, ackId)"
    "pubsub_live_client env text = Inr client"
    "ps_oneWay config' = ps_oneWay config" "ps_emulatorHost (se_config se) \<noteq> []"
    "ps_emulatorHost (pc_config client) \<noteq> []" "ps_oneWay (pc_config client) = ps_oneWay config"
    "ps_replyTopic (pc_config client) = ps_replyTopic config"
    "\<not> pc_started client" "pc_idleSessions client = []" "pc_pending client = new_pending"
proof -
  obtain token path auto where env: "ApplyRuntimeEnvironment env config = Inr (runtime_fields token path auto config)"
    using ApplyRuntimeEnvironment_fields [of config env] assms(4) by blast
  let ?config = "runtime_fields token path auto config"
  have fields: "ps_oneWay ?config = ps_oneWay config" "ps_emulatorHost ?config = ps_emulatorHost config"
    "ps_replyTopic ?config = ps_replyTopic config"
    by (simp_all add: runtime_fields_def)
  have "ps_configure env text True new_PubSubServer =
      (Inr (), new_PubSubServer\<lparr>pv_config := ?config, pv_process := True\<rparr>)"
    by (simp add: ps_configure_def env assms(1,3)) (simp add: new_PubSubServer_def)
  moreover have "\<exists>client. pubsub_live_client env text = Inr client \<and> pc_config client = ?config \<and>
      \<not> pc_started client \<and> pc_idleSessions client = [] \<and> pc_pending client = new_pending"
    by (simp add: pubsub_live_client_def new_PubSubClient_def env assms(1,2))
  ultimately show ?thesis
    using that assms(4) by (auto simp: pubsub_live_server_def new_session_def fields)
qed

text \<open>
  The live test of the Pub/Sub plugin passes.  With a service that accepts every request and hands
  over every message once, a parser that reads the JSON of the test as what it spells, a project
  with a valid name and a host that the plugin accepts, and whatever random words the ids are made
  of, the servers and the clients of the test are configured from its environment, the two calls get
  back exactly the bytes they sent, also none, and the one-way call returns nothing while the
  server's callback has seen its bytes.
\<close>
theorem pubsub_live_round_trip:
  assumes "suffix = take 12 (pubsub_NewCorrelationId (fst (random 0)) (snd (random 0)))"
    and "json_parse env (pubsub_live_json env suffix) = Inr (pubsub_live_doc env suffix False)"
      "json_parse env (one_way_json (pubsub_live_json env suffix)) = Inr (pubsub_live_doc env suffix True)"
    and "IsValidProjectId (pubsub_EnvOr env ''PUBSUB_PROJECT_ID'' ''graftcode-local'')"
    and "NormalizeEmulatorHost (default_pubsub_config
        \<lparr>ps_emulatorHost := pubsub_EnvOr env ''PUBSUB_EMULATOR_HOST'' ''localhost:8085''\<rparr>) = Inr host"
      "ps_emulatorHost host \<noteq> []"
    and "accepting w" "ackId \<noteq> []"
  shows "PubSubLive_RpcRoundTrip env w random ackId"
proof -
  let ?json = "pubsub_live_json env suffix"
  let ?id = "\<lambda>i. pubsub_NewCorrelationId (fst (random i)) (snd (random i))"
  have texts: "?json \<noteq> []" "one_way_json ?json \<noteq> []"
    by (simp_all add: pubsub_live_json_def one_way_json_def)
  have id: "?id i \<noteq> []" for i
    using pubsub_NewCorrelationId_chars(1) [of "fst (random i)" "snd (random i)"] by auto
  have suffix: "length suffix = 12" "list_all is_hex_lower suffix"
    using pubsub_NewCorrelationId_chars [of "fst (random 0)" "snd (random 0)"]
    by (auto simp: assms(1) list_all_iff dest: in_set_takeD)
  note config = pubsub_live_config [OF _ _ assms(4-6) suffix]
  obtain c where c: "ParsePubSubConfigSource env ?json = Inr c" "pubsub_ValidateClientConfig c = Inr ()"
    "pubsub_ValidateServerConfig c = Inr ()" "ps_emulatorHost c \<noteq> []" "\<not> ps_oneWay c"
    "ps_replyTopic c = ''graftrep'' @ suffix"
    using config [OF assms(2) texts(1)] assms(6) by auto
  obtain c' where c': "ParsePubSubConfigSource env (one_way_json ?json) = Inr c'"
    "pubsub_ValidateClientConfig c' = Inr ()" "pubsub_ValidateServerConfig c' = Inr ()"
    "ps_emulatorHost c' \<noteq> []" "ps_oneWay c'"
    using config [OF assms(3) texts(2)] assms(6) by auto
  have topic: "IsValidResourceId (ps_replyTopic c)"
    using live_topic_valid(1) [OF suffix, of "''graftrep''"] c(6) by simp
  have sends: "publishable (Buf kPayload) kPayload" "publishable (Null 0) []"
    by (simp_all add: publishable_def kPayload_def MaxPayloadBytes_def)
  obtain server se client where rpc:
    "pubsub_live_server env ?json EchoCallback w ackId = Inr (server, EchoCallback, se, w, ackId)"
    "pubsub_live_client env ?json = Inr client" "\<not> ps_oneWay server" "ps_emulatorHost (se_config se) \<noteq> []"
    "ps_emulatorHost (pc_config client) \<noteq> []" "\<not> ps_oneWay (pc_config client)"
    "IsValidResourceId (ps_replyTopic (pc_config client))"
    "\<not> pc_started client" "pc_idleSessions client = []" "pc_pending client = new_pending"
    using pubsub_live_objects [OF c(1-4), of EchoCallback w ackId] c(5) topic by metis
  have echo: "returns (fst (pubsub_live_call (server, EchoCallback, se, w, ackId) (?id i) d client)) (\<lambda>r. r = x)"
    if d: "publishable d x" for d x i
  proof -
    have written: "fold ps_writeResponse [Buf x] [] = x" by (simp add: ps_writeResponse_def)
    have "EchoCallback x = Inr ([Buf x], True)" "length (fold ps_writeResponse [Buf x] []) \<le> MaxPayloadBytes"
      using d unfolding written by (simp_all add: EchoCallback_def publishable_def)
    from live_rpc_answered [where process = EchoCallback and writes = "[Buf x]" and x = x, OF assms(7,8) rpc(4) d this rpc(5-10) rpc(3) id [of i]]
    show ?thesis unfolding written by (auto simp: returns_def)
  qed
  obtain server' se' client' where oneway:
    "pubsub_live_server env (one_way_json ?json) RecordOneWayCallback w ackId =
       Inr (server', RecordOneWayCallback, se', w, ackId)"
    "pubsub_live_client env (one_way_json ?json) = Inr client'" "ps_oneWay server'"
    "ps_emulatorHost (se_config se') \<noteq> []"
    "ps_emulatorHost (pc_config client') \<noteq> []" "ps_oneWay (pc_config client')"
    "\<not> pc_started client'" "pc_idleSessions client' = []" "pc_pending client' = new_pending"
    using pubsub_live_objects [OF c'(1-4), of RecordOneWayCallback w ackId] c'(5) by metis
  obtain end' where "pubsub_live_call (server', RecordOneWayCallback, se', w, ackId) (?id 3) (Buf kPayload) client' =
      (Some (Inr [], end'), [kPayload])"
    using live_oneway_seen [where process = RecordOneWayCallback and config = server',
        OF assms(7,8) oneway(4) sends(1) _ oneway(5-9) oneway(3)]
    by (auto simp: RecordOneWayCallback_def)
  then show ?thesis
    using rpc(1,2) oneway(1,2) echo [OF sends(1)] echo [OF sends(2)]
    by (simp add: PubSubLive_RpcRoundTrip_def Let_def returns_def g_oneWaySeen_def RecordOneWayCallback_def
        flip: assms(1))
qed

text \<open>An environment with an emulator, and a service that accepts everything.\<close>

definition pubsub_live_env :: cpp_env where
  "pubsub_live_env = (doc_env [])\<lparr>getenv := [''PUBSUB_EMULATOR_HOST'' \<mapsto> ''localhost:8085'']\<rparr>"

definition pubsub_live_documents :: "string \<Rightarrow> (string \<times> json) list" where
  "pubsub_live_documents suffix =
    [(pubsub_live_json pubsub_live_env suffix, pubsub_live_doc pubsub_live_env suffix False),
     (one_way_json (pubsub_live_json pubsub_live_env suffix), pubsub_live_doc pubsub_live_env suffix True)]"

lemma pubsub_live_round_trip_witness:
  "PubSubLive_RpcRoundTrip (pubsub_live_env\<lparr>json_parse := json_parse (doc_env (pubsub_live_documents ''000000000000''))\<rparr>)
     example_world (\<lambda>i. (0, word_of_nat i)) ''a''"
proof -
  let ?s = "''000000000000''"
  let ?env = "pubsub_live_env\<lparr>json_parse := json_parse (doc_env (pubsub_live_documents ?s))\<rparr>"
  have EnvOr: "pubsub_EnvOr ?env = pubsub_EnvOr pubsub_live_env" by (simp add: pubsub_EnvOr_def fun_eq_iff)
  then have json: "pubsub_live_json ?env = pubsub_live_json pubsub_live_env"
    "pubsub_live_doc ?env = pubsub_live_doc pubsub_live_env"
    by (simp_all add: pubsub_live_json_def pubsub_live_doc_def fun_eq_iff)
  have "distinct (map fst (pubsub_live_documents ?s))" by code_simp
  from reads_doc_env [OF this] have docs:
    "json_parse ?env (pubsub_live_json ?env ?s) = Inr (pubsub_live_doc ?env ?s False)"
    "json_parse ?env (one_way_json (pubsub_live_json ?env ?s)) = Inr (pubsub_live_doc ?env ?s True)"
    unfolding json by (simp_all add: pubsub_live_documents_def)
  have suffix: "?s = take 12 (pubsub_NewCorrelationId (fst (0, word_of_nat 0)) (snd (0, word_of_nat 0)))"
    by code_simp
  have project: "IsValidProjectId (pubsub_EnvOr ?env ''PUBSUB_PROJECT_ID'' ''graftcode-local'')"
    unfolding EnvOr by code_simp
  have host: "NormalizeEmulatorHost (default_pubsub_config
      \<lparr>ps_emulatorHost := pubsub_EnvOr ?env ''PUBSUB_EMULATOR_HOST'' ''localhost:8085''\<rparr>) =
      Inr (default_pubsub_config\<lparr>ps_emulatorHost := ''localhost:8085''\<rparr>)"
    unfolding EnvOr by code_simp
  have "accepting example_world" by (simp add: accepting_def example_world_def)
  then show ?thesis
    using pubsub_live_round_trip [where random = "\<lambda>i. (0, word_of_nat i)" and env = ?env and w = example_world
        and ackId = "''a''", OF suffix docs project host] by simp
qed

end
