(* ===== verification/Spec2Isabelle.thy ===== *)
theory Spec2Isabelle
  imports GatewayExchange ServerLifetime ServerSleep GlobalStop SocketIo PubSubSign KafkaDelivery LinkShutdown
    AwsSdkLifetime ClientLife ConfigTypes SmokeTests SqsLive ServiceBusLive PubSubLive
begin

text \<open>
  Verification library of the graftcode-extensions transport plugins (the C++ code under
  \<^verbatim>\<open>src/rabbitmq\<close>, \<^verbatim>\<open>src/servicebus\<close>, \<^verbatim>\<open>src/sqs\<close>, \<^verbatim>\<open>src/pubsub\<close> and
  \<^verbatim>\<open>src/kafka\<close>).

  The program.  A gateway loads a plugin as a shared library and talks to it over a C ABI.  The
  client half of a plugin (\<^verbatim>\<open>Transport*.cpp\<close>, \<^verbatim>\<open>*Client.cpp\<close>) sends a request to a
  broker, waits for the reply with the same correlation id and hands it back.  The server half
  (\<^verbatim>\<open>*Server.cpp\<close>) receives requests, runs the gateway's callback on the bytes, publishes the
  reply and acknowledges the request.  All five plugins carry the same ABI and the same table of
  pending replies; each has its own configuration, utilities, client and server.

  Shared parts.
  \<^item> \<^verbatim>\<open>Prelude\<close>: bytes, exceptions, results, buffers, text and number helpers.
  \<^item> \<^verbatim>\<open>ReplyTable\<close>, \<^verbatim>\<open>PendingReplies\<close>, \<^verbatim>\<open>Tickets\<close>: \<^verbatim>\<open>PendingReplies.h\<close>.
    \<^verbatim>\<open>ReplyTable\<close> is the abstract specification (a map of outcomes, the first settlement of an
    id is final) and the locale of its laws; \<^verbatim>\<open>PendingReplies\<close> is the code's heap of slots;
    \<^verbatim>\<open>Tickets\<close> proves the refinement, what a wait returns, the ownership of entries in every
    reachable state, and that no wake-up is lost.
  \<^item> \<^verbatim>\<open>TransportAbi\<close>: \<^verbatim>\<open>TransportPluginExports.h\<close>: status, buffer and length on every
    path, and the locale \<^verbatim>\<open>plugin_transport\<close> that each of the five transports interprets.
  \<^item> \<^verbatim>\<open>Json\<close>: JSON values, the readers of a member, the search for the plugin's node
    (locale \<^verbatim>\<open>node_search\<close>, interpreted by four plugins) and where a configuration comes
    from.  The parser and the file system are parameters.
  \<^item> \<^verbatim>\<open>AckServer\<close>: a batch of messages under a stop flag and the locale
    \<^verbatim>\<open>ack_server\<close>, whose law is that only settled messages are acknowledged; interpreted by
    SQS, Pub/Sub, Kafka and RabbitMQ.
  \<^item> \<^verbatim>\<open>Lifecycle\<close>: reachability and the locale \<^verbatim>\<open>stoppable\<close> of threads whose stop
    requests are kept and obeyed; interpreted by the SQS and Pub/Sub servers, by the links, by
    the lifetime of the AWS SDK and by the clients.  For the two servers its extension
    \<^verbatim>\<open>stoppable_among\<close> bounds the steps of the serving thread after a stop in every
    interleaving with the other threads.
  \<^item> \<^verbatim>\<open>ClientLife\<close>: the life of a client of SQS, Pub/Sub and Kafka: concurrent callers
    that start it at most once, its dispatcher thread and its destructor, as one step relation over
    the lists of actions of each plugin.
  \<^item> \<^verbatim>\<open>ConfigTypes\<close>: the type of every configuration member, and what the readers of the
    five plugins make of members that are unknown or have another type.
  \<^item> \<^verbatim>\<open>RpcLink\<close>: register, send and wait over a link, and the interleavings of calls with
    the disconnect of the link, for RabbitMQ and Service Bus.
  \<^item> \<^verbatim>\<open>LinkShutdown\<close>: the end of a link of these two plugins against its running thread.
  \<^item> \<^verbatim>\<open>AbiHeap\<close>: the same ABI over a heap of channels and buffers, its refinement of
    \<^verbatim>\<open>TransportAbi\<close>, and a gateway that creates, sends, frees and destroys.
  \<^item> \<^verbatim>\<open>PluginExports\<close>: the constructors of the transports and the exported functions of the
    five shared libraries, each a record of functions, with the locale \<^verbatim>\<open>gateway_plugin\<close>
    that all five interpret.
  \<^item> \<^verbatim>\<open>RpcExchange\<close>, \<^verbatim>\<open>PluginExchange\<close>: any number of clients and servers and a
    broker that loses, repeats, reorders and delays, as one step relation; the locale
    \<^verbatim>\<open>rpc_exchange\<close> says when replies never cross, and is interpreted by the five plugins
    on their own calls, handlers and dispatchers.
  \<^item> \<^verbatim>\<open>GatewayExchange\<close>: the exported functions on top of that system, from gateway to
    gateway.
  \<^item> \<^verbatim>\<open>GlobalStop\<close>: the stop flag that all RabbitMQ and Service Bus server objects of a
    process share.
  \<^item> \<^verbatim>\<open>ServerLifetime\<close>, \<^verbatim>\<open>ServerSleep\<close>: the destruction of an SQS or Pub/Sub server
    against the end of its run, and their interruptible sleep.

  Plugins.
  \<^item> RabbitMQ: \<^verbatim>\<open>RelaxedJson\<close> (the rewriting of relaxed JSON against a reference scanner),
    \<^verbatim>\<open>RabbitMqConfig\<close> (the silent and the strict reader, the AMQP address),
    \<^verbatim>\<open>RabbitMqLink\<close> (connecting, writing a buffer, draining received bytes into the parser),
    \<^verbatim>\<open>RabbitMqClient\<close> (callbacks, I/O thread, publish, current link, call, transport),
    \<^verbatim>\<open>RabbitMqServer\<close> (handler, callbacks, receive loop, failing a connection, reconnects,
    what a run acknowledges of the messages delivered to it, the socket that \<^verbatim>\<open>stop\<close>
    closes).
    \<^verbatim>\<open>SocketIo\<close> is how both halves wait for the socket and read from it.
  \<^item> Service Bus: \<^verbatim>\<open>ServiceBusConfig\<close>, \<^verbatim>\<open>ServiceBusClient\<close> (link, dispatcher, call in
    RPC and one-way mode), \<^verbatim>\<open>ReplySenderCache\<close> (the senders of the server),
    \<^verbatim>\<open>ServiceBusServer\<close> (handler, receive loop, reconnects, start and stop).
  \<^item> SQS: \<^verbatim>\<open>SqsConfig\<close>, \<^verbatim>\<open>SqsUtil\<close>, \<^verbatim>\<open>SqsClient\<close>, \<^verbatim>\<open>SqsServer\<close>;
    \<^verbatim>\<open>Base64\<close> is shared with Pub/Sub; \<^verbatim>\<open>AwsSdkLifetime\<close> is the thread that initialises
    the AWS SDK and shuts it down.
  \<^item> Pub/Sub: \<^verbatim>\<open>PubSubConfig\<close>, \<^verbatim>\<open>PubSubUtil\<close> (one HTTP session),
    \<^verbatim>\<open>PubSubSign\<close> (the RS256 signature and the handles of OpenSSL),
    \<^verbatim>\<open>PubSubClient\<close>, \<^verbatim>\<open>PubSubServer\<close>.
  \<^item> Kafka: \<^verbatim>\<open>KafkaUtil\<close>, \<^verbatim>\<open>KafkaClient\<close>, \<^verbatim>\<open>KafkaServer\<close>,
    \<^verbatim>\<open>KafkaDelivery\<close> (the tags of produced messages and the drain at the end).

  Tests.  A test of the repository is a bool over the model, and the theorems show that it holds:
  \<^verbatim>\<open>TestSupport\<close> (expectations, callbacks, documents), \<^verbatim>\<open>SqsTests\<close>,
  \<^verbatim>\<open>PubSubTests\<close> and \<^verbatim>\<open>TransportTests\<close> (RabbitMQ and Service Bus) for the
  suites that need no service, \<^verbatim>\<open>SmokeTests\<close> for the smoke programs, and
  \<^verbatim>\<open>SqsLive\<close>, \<^verbatim>\<open>PubSubLive\<close> and \<^verbatim>\<open>ServiceBusLive\<close> for the live
  tests, over a broker that hands over every message once.  The JSON texts of the tests are written
  out, and a hypothesis says that the parser reads each as the value it spells.

  How the code is read.  A class is a record of its members, a method a function on it; an
  exception is the left value of a sum; a machine integer is a word or an integer with its
  range.  The text of an exception that is caught is that of its \<^verbatim>\<open>what()\<close>, up to the
  first zero byte.  What other threads do while a call waits is an explicit list of events on the table of
  pending replies (\<^verbatim>\<open>during\<close>), and the theorems hold for every such list.  What a library
  answers (broker, curl, AWS, librdkafka, AMQP-CPP, Azure, sockets, clocks, random numbers) is an
  argument, one answer per call; a loop over such answers is a recursion over their list, so a
  theorem about a run holds for every prefix of every run.  Start and stop of a server are split
  into their atomic steps, and the theorems hold for all interleavings.

  What the theorems show.  Requests and replies: the table refines its specification, a call gets
  the reply of its own id or an error or a timeout and leaves no entry, and requests cross each
  plugin byte for byte (below for RabbitMQ and Service Bus together with the ABI, in the theories
  of SQS and Kafka for their plugins).  Replies never cross: whatever the broker, the other clients
  and the other threads do, a call that returns bytes returns what a callback wrote when it accepted
  exactly the bytes of this call, and the calling gateway reads just these bytes from the plugin's
  buffer.  Servers: which messages are acknowledged, committed, deleted or
  answered, per message and over whole runs.  The ABI: the plugin's live memory is what the gateway
  holds, the five libraries answer alike, and channels exist only with accepted configurations.
  Life cycles: stop requests are kept, sessions and objects exist when they are used, a client
  starts once and its destructor ends, and where start, stop and destruction race.  Data: the token of a service account, round trips of Base64 and
  payloads, accepted configurations, their types and their bounds, the agreement of the readers, the
  independence of the cuts of a stream.  Tests: the model passes the test suites of the repository.

  Bounds and termination.  No function takes fuel: every loop ends by its measure (the bytes
  left, the messages of a batch, the answers of the environment, the time to a deadline); a receive
  loop that the observed answers do not end gives no result.  After a stop the serving thread of an
  SQS or Pub/Sub server makes at most three steps of its own before the one that ends the run,
  whatever the other threads do in between and also when every request of the setup fails.  Timeouts
  of calls have no clock: a wait that no event settles ends in the timeout error.  The one loop of
  the code without a bound of its own, the drain of the Kafka producer, is a recursion over the
  answers of the library with a flag that says whether it has returned.

  Not modelled.  Log output that is not an action of a handler; the Windows branches; curl's handles;
  the polling periods of the RabbitMQ, Service Bus and Kafka loops; a \<^verbatim>\<open>Close\<close> that throws
  inside the destructor of a Service Bus link; the exception of the JSON writer for strings that are
  not UTF-8 (its result is a total parameter, see \<^verbatim>\<open>PubSubUtil\<close>); interface headers without code;
  the live test of RabbitMQ, which expects the bytes of one particular gateway; the samples, the build
  files and the observability packages in other languages.  The
  files that are copies of each other in several plugins (\<^verbatim>\<open>PendingReplies.h\<close>,
  \<^verbatim>\<open>TransportPluginExports.h\<close>, the readers of JSON) are modelled once.

  Left open.  The round trips of SQS, Pub/Sub and Kafka are stated on their clients and servers and,
  for safety, on their shared libraries (\<^verbatim>\<open>GatewayExchange\<close>); that an accepted request is
  answered is stated down to the ABI for RabbitMQ and Service Bus only.
\<close>

section \<open>The plugins behind their ABI\<close>

text \<open>
  One contract over five transports.  For a message of positive length that lies in memory,
  every plugin answers the gateway in the same way: the error status with the text of the
  exception when the call fails, the error status with the gateway's own text, up to its first zero
  byte, when the reply carries the error mark, and otherwise the success status with the reply byte for byte.
\<close>
theorem plugins_answer_the_gateway:
  assumes "t = rabbit_transport \<or> t = sb_transport \<or> t = sqs_transport \<or> t = pubsub_transport \<or>
      t = kafka_transport"
    and "0 < sint len" "nat (sint len) \<le> length region"
  shows "AbiSendCommand malloc (Some (t call)) (Some region) len True True =
    (case call (Buf (take (nat (sint len)) region)) of
       Inl e \<Rightarrow> Some (abi_failure malloc e)
     | Inr r \<Rightarrow> gateway_answer malloc r)"
  using assms(1) rabbit_plugin.answers [OF assms(2,3)] sb_plugin.answers [OF assms(2,3)]
    sqs_plugin.answers [OF assms(2,3)] pubsub_plugin.answers [OF assms(2,3)]
    kafka_plugin.answers [OF assms(2,3)]
  by auto

lemma plugins_answer_the_gateway_witness:
  "AbiSendCommand (\<lambda>_. True) (Some (kafka_transport (\<lambda>d. Inr (rev (buf_bytes d)))))
     (Some [1, 2, 3]) 2 True True = Some (TRANSPORT_PLUGIN_OK, Some (Some [2, 1, 0], 2))"
proof -
  have "0 < sint (2 :: 32 word)" "nat (sint (2 :: 32 word)) \<le> length [1, 2, 3 :: byte]" by simp_all
  from plugins_answer_the_gateway [OF _ this, of kafka_transport "\<lambda>_. True" "\<lambda>d. Inr (rev (buf_bytes d))"]
  show ?thesis by (simp add: gateway_answer_def)
qed

text \<open>
  C10. A gateway request makes the round trip through the RabbitMQ plugins.  The gateway's command
  publishes exactly one request, to the configured queue, with the bytes of the gateway's message,
  the id of the call and the reply queue of the client's link.  The server's callback gets exactly
  these bytes.  When it accepts them, the request is acknowledged and the reply goes to that reply
  queue under that id; and when the client's I/O thread receives the reply, after any callbacks that
  concern other calls, the gateway gets the bytes the callback wrote, or the error they carry.
\<close>
theorem rabbit_plugin_round_trip:
  assumes "pending_wf (rk_pending c)" "\<not> closed (rk_pending c)"
      "map_of (slots (rk_pending c)) cid = None" "rk_link c = Some l" "\<not> rl_broken l"
      "\<not> rl_broken (later l)" "rl_replyQueue (later l) \<noteq> []" "rc_queue (rk_config c) \<noteq> []"
    and "0 < sint len" "nat (sint len) \<le> length region"
    and "\<And>e. published e" "\<And>r. publish r"
    and "process (take (nat (sint len)) region) = Inr (writes, True)"
    and "\<forall>e \<in> set before. unrelated cid e"
  shows "\<exists>request reply c'.
    rabbit_Call open_link later published cid
      (snd (on_events (before @ amqp_event.Received tag' (rr_correlationId reply) (rr_body reply) # after) l'))
      (Buf (take (nat (sint len)) region)) c =
      (Inr (fold rabbit_writeResponse writes []), c', [request]) \<and>
    re_body request = take (nat (sint len)) region \<and> re_routingKey request = rl_queue (later l) \<and>
    re_replyTo request = rl_replyQueue (later l) \<and> re_correlationId request = cid \<and>
    RProcess (take (nat (sint len)) region) \<in> set (fst (rabbit_onReceived publish (Some process)
      (rabbit_delivered request tag))) \<and>
    RPublish reply \<in> set (fst (rabbit_onReceived publish (Some process)
      (rabbit_delivered request tag))) \<and>
    RAck tag \<in> set (fst (rabbit_onReceived publish (Some process)
      (rabbit_delivered request tag))) \<and>
    rr_routingKey reply = rl_replyQueue (later l) \<and> rr_correlationId reply = Some cid \<and>
    rr_body reply = fold rabbit_writeResponse writes [] \<and>
    AbiSendCommand malloc
      (Some (rabbit_transport (\<lambda>d. fst (rabbit_Call open_link later published cid
        (snd (on_events (before @ amqp_event.Received tag' (rr_correlationId reply) (rr_body reply) # after) l')) d c))))
      (Some region) len True True =
    gateway_answer malloc (fold rabbit_writeResponse writes [])"
proof -
  have "take (nat (sint len)) region \<noteq> []" using assms(9,10) by auto
  from rabbit_round_trip [where later = later and published = published and publish = publish
      and process = process and tag = tag and open_link = open_link and tag' = tag' and after = after
      and l' = l', OF assms(1-8) this assms(11-14)]
  show ?thesis
    by (elim exE conjE, intro exI conjI)
      (assumption | simp only: rabbit_plugin.answers [OF assms(9,10)] fst_conv sum.case)+
qed

lemma rabbit_plugin_round_trip_witness:
  "\<forall>open_link. \<exists>reply :: rabbit_reply. rr_routingKey reply = ''r'' \<and>
     AbiSendCommand (\<lambda>_. True)
       (Some (rabbit_transport (\<lambda>d. fst (rabbit_Call open_link (\<lambda>l. l) (\<lambda>_. True) ''id''
         (snd (on_events ([amqp_event.Received 3 (Some ''x'') [9]] @
           amqp_event.Received 4 (rr_correlationId reply) (rr_body reply) # [])
           (new_link_state default_rabbit_client))) d rabbit_example_client))))
       (Some [1, 2, 3]) 2 True True = Some (TRANSPORT_PLUGIN_OK, Some (Some [2, 1, 0], 2))"
proof
  fix open_link
  define link where "link = the (rk_link rabbit_example_client)"
  have l: "rk_link rabbit_example_client = Some link" "\<not> rl_broken link" "rl_replyQueue link = ''r''"
    by (simp_all add: link_def rabbit_example_client_def new_link_state_def)
  have fields: "pending_wf (rk_pending rabbit_example_client)" "\<not> closed (rk_pending rabbit_example_client)"
    "map_of (slots (rk_pending rabbit_example_client)) ''id'' = None"
    "rc_queue (rk_config rabbit_example_client) \<noteq> []"
    by (simp add: rabbit_example_client_def new_RabbitMqRpcClient_def)
      (simp_all add: rabbit_example_client_def new_RabbitMqRpcClient_def new_pending_def)
  have answer: "gateway_answer (\<lambda>_. True) (fold rabbit_writeResponse [Buf [2, 1]] []) =
      Some (TRANSPORT_PLUGIN_OK, Some (Some [2, 1, 0], 2))"
    by (simp add: gateway_answer_def rabbit_writeResponse_def)
  show "\<exists>reply :: rabbit_reply. rr_routingKey reply = ''r'' \<and>
     AbiSendCommand (\<lambda>_. True)
       (Some (rabbit_transport (\<lambda>d. fst (rabbit_Call open_link (\<lambda>l. l) (\<lambda>_. True) ''id''
         (snd (on_events ([amqp_event.Received 3 (Some ''x'') [9]] @
           amqp_event.Received 4 (rr_correlationId reply) (rr_body reply) # [])
           (new_link_state default_rabbit_client))) d rabbit_example_client))))
       (Some [1, 2, 3]) 2 True True = Some (TRANSPORT_PLUGIN_OK, Some (Some [2, 1, 0], 2))"
    using rabbit_plugin_round_trip [where c = rabbit_example_client and cid = "''id''" and l = link
        and later = "\<lambda>l. l" and len = 2 and region = "[1, 2, 3]" and published = "\<lambda>_. True"
        and publish = "\<lambda>_. True" and process = "\<lambda>d. Inr ([Buf (rev d)], True)"
        and writes = "[Buf [2, 1]]" and before = "[amqp_event.Received 3 (Some ''x'') [9]]" and tag = 1
        and open_link = open_link and tag' = 4 and after = "[]" and malloc = "\<lambda>_. True"
        and l' = "new_link_state default_rabbit_client", OF fields(1-3) l(1,2)] l fields(4)
    unfolding answer by simp blast
qed

text \<open>
  C11. A gateway request makes the round trip through the Service Bus plugins.  The gateway's
  command sends exactly one message, with the bytes of the gateway's message, the id of the call, the
  reply queue and the client's reply session.  The server's callback gets exactly these bytes.  When
  it accepts them and the send
  succeeds, the message sent last goes to the reply queue and to the client's own reply session;
  and when the client's dispatcher receives it, after any replies that concern other calls, the
  gateway gets the bytes the callback wrote, or the error they carry.
\<close>
theorem sb_plugin_round_trip:
  assumes "pending_wf (sk_pending c)" "\<not> closed (sk_pending c)"
      "map_of (slots (sk_pending c)) cid = None" "sk_link c = Some l" "\<not> sl_broken l"
      "sb_topic (sk_config c) = []" "sb_replyQueue (sk_config c) \<noteq> []"
      "sk_replySessionId c \<noteq> []"
    and "0 < sint len" "nat (sint len) \<le> length region"
    and "\<And>m. send m = Inr True" "at_open (fst as) = Inr True" "at_send (fst as) = Inr True"
    and "process (take (nat (sint len)) region) = Inr (writes, True)"
    and "\<forall>(stop, turn) \<in> set before. \<not> stop \<and> (turn = SbCancelled \<or>
        (\<exists>m. turn = SbIncoming None (Some m) \<and> (\<forall>x. EComplete cid x \<notin> set (reply_events m))))"
  shows "\<exists>request reply acts cache s log c'.
    sb_Call open_link later send cid
      (snd (sb_DispatchReplies (before @ (False, SbIncoming None (Some reply)) # after) l'))
      (Buf (take (nat (sint len)) region)) c = (Inr (fold sb_writeResponse writes []), c', [request]) \<and>
    extractMessageBody request = take (nat (sint len)) region \<and> sm_messageId request = AmqpString cid \<and>
    tryGetReplyTo request = Some (sb_replyQueue (sk_config c)) \<and>
    tryGetReplySessionId request = Some (sk_replySessionId c) \<and>
    sb_handle False (Some process) as request new_sender_cache = (acts, Inr (), cache) \<and>
    SProcess (take (nat (sint len)) region) \<in> set acts \<and>
    SPublish (sb_replyQueue (sk_config c)) (fold sb_writeResponse writes []) (AmqpString cid)
      (Some (sk_replySessionId c)) True \<in> set acts \<and>
    sn_log cache = CSend s reply True (at_sent (fst as)) # log \<and>
    sm_groupId reply = Some (sk_replySessionId c) \<and>
    AbiSendCommand malloc
      (Some (sb_transport (\<lambda>d. fst (sb_Call open_link later send cid
        (snd (sb_DispatchReplies (before @ (False, SbIncoming None (Some reply)) # after) l')) d c))))
      (Some region) len True True =
    gateway_answer malloc (fold sb_writeResponse writes [])"
proof -
  have "take (nat (sint len)) region \<noteq> []" using assms(9,10) by auto
  from sb_round_trip [where later = later and send = send and as = as and process = process
      and open_link = open_link and after = after and l' = l', OF assms(1-8) this assms(11-15)]
  obtain request reply acts cache s log c' where
    rt: "extractMessageBody request = take (nat (sint len)) region" "sm_messageId request = AmqpString cid"
      "tryGetReplyTo request = Some (sb_replyQueue (sk_config c))"
      "tryGetReplySessionId request = Some (sk_replySessionId c)"
      "sb_handle False (Some process) as request new_sender_cache = (acts, Inr (), cache)"
      "SProcess (take (nat (sint len)) region) \<in> set acts"
      "SPublish (sb_replyQueue (sk_config c)) (fold sb_writeResponse writes []) (AmqpString cid)
        (Some (sk_replySessionId c)) True \<in> set acts"
      "sn_log cache = CSend s reply True (at_sent (fst as)) # log"
      "sm_groupId reply = Some (sk_replySessionId c)"
      "sb_Call open_link later send cid
        (snd (sb_DispatchReplies (before @ (False, SbIncoming None (Some reply)) # after) l'))
        (Buf (take (nat (sint len)) region)) c = (Inr (fold sb_writeResponse writes []), c', [request])"
    by blast
  show ?thesis
    by (rule exI [of _ request], rule exI [of _ reply], rule exI [of _ acts], rule exI [of _ cache],
        rule exI [of _ s], rule exI [of _ log], rule exI [of _ c'])
      (simp add: rt sb_plugin.answers [OF assms(9,10)])
qed

lemma sb_plugin_round_trip_witness:
  "\<forall>open_link. \<exists>reply. sm_groupId reply = Some ''s'' \<and>
     AbiSendCommand (\<lambda>_. True)
       (Some (sb_transport (\<lambda>d. fst (sb_Call open_link (\<lambda>l. l) (\<lambda>_. Inr True) ''id''
         (snd (sb_DispatchReplies ([(False, SbCancelled)] @ (False, SbIncoming None (Some reply)) # [])
           \<lparr>sl_receiver = True, sl_broken = False\<rparr>)) d (sb_example_client [])))))
       (Some [1, 2, 3]) 2 True True = Some (TRANSPORT_PLUGIN_OK, Some (Some [2, 1, 0], 2))"
proof
  fix open_link
  have answer: "gateway_answer (\<lambda>_. True) (fold sb_writeResponse [Buf [2, 1]] []) =
      Some (TRANSPORT_PLUGIN_OK, Some (Some [2, 1, 0], 2))"
    by (simp add: gateway_answer_def sb_writeResponse_def)
  show "\<exists>reply. sm_groupId reply = Some ''s'' \<and>
     AbiSendCommand (\<lambda>_. True)
       (Some (sb_transport (\<lambda>d. fst (sb_Call open_link (\<lambda>l. l) (\<lambda>_. Inr True) ''id''
         (snd (sb_DispatchReplies ([(False, SbCancelled)] @ (False, SbIncoming None (Some reply)) # [])
           \<lparr>sl_receiver = True, sl_broken = False\<rparr>)) d (sb_example_client [])))))
       (Some [1, 2, 3]) 2 True True = Some (TRANSPORT_PLUGIN_OK, Some (Some [2, 1, 0], 2))"
    using sb_plugin_round_trip [where c = "sb_example_client []" and cid = "''id''"
        and len = 2 and region = "[1, 2, 3]" and send = "\<lambda>_. Inr True"
        and as = "(example_attempt 0 True, example_attempt 1 True)"
        and process = "\<lambda>d. Inr ([Buf (rev d)], True)" and writes = "[Buf [2, 1]]"
        and before = "[(False, SbCancelled)]" and after = "[]" and malloc = "\<lambda>_. True"
        and l' = "\<lparr>sl_receiver = True, sl_broken = False\<rparr>" and open_link = open_link and later = "\<lambda>l. l",
        OF sb_example_fields(1-4)]
    unfolding answer by (simp add: sb_example_fields) (simp add: example_attempt_def, blast)
qed

end
